(* ===== verification/Prelude.thy ===== *)
theory Prelude
  imports Main "HOL-Library.Word"
begin

text \<open>
  What the component theories share: the result type that stands for Rust's
  \<open>Result<T, E>\<close> with its sequencing operator, Rust's fixed-width integers, the byte
  strings that stand for \<open>String\<close> and \<open>&str\<close>, decimal printing, and the lemmas on
  them that carry the component proofs.

  A Rust string is its UTF-8 byte sequence, a HOL \<open>string\<close> (a HOL \<open>char\<close> is one of
  256 values); \<open>s.len()\<close> is then \<open>length s\<close>, as in the source, where every
  length limit counts bytes.
\<close>

type_synonym u8 = "8 word"
type_synonym u16 = "16 word"
type_synonym u32 = "32 word"
type_synonym i32 = "32 word"
type_synonym u64 = "64 word"
type_synonym bytes = "8 word list"

named_theorems step_simps \<open>unfolding of the operations of the step relations\<close>
named_theorems key_simps \<open>facts about storage keys\<close>

section \<open>Results\<close>

text \<open>\<open>Ok x\<close> is \<open>Inr x\<close> and \<open>Err e\<close> is \<open>Inl e\<close>; \<open>bindR m f\<close> is \<open>m?\<close> followed by \<open>f\<close>.\<close>

fun bindR :: "'e + 'a \<Rightarrow> ('a \<Rightarrow> 'e + 'b) \<Rightarrow> 'e + 'b" where
  "bindR (Inl e) f = Inl e"
| "bindR (Inr x) f = f x"

fun map_err :: "('e \<Rightarrow> 'f) \<Rightarrow> 'e + 'a \<Rightarrow> 'f + 'a" where
  "map_err g (Inl e) = Inl (g e)"
| "map_err g (Inr x) = Inr x"

fun is_ok :: "'e + 'a \<Rightarrow> bool" where
  "is_ok (Inl e) = False"
| "is_ok (Inr x) = True"

definition ok_or :: "'e \<Rightarrow> 'a option \<Rightarrow> 'e + 'a" where
  "ok_or e x = (case x of None \<Rightarrow> Inl e | Some y \<Rightarrow> Inr y)"

definition ensure :: "bool \<Rightarrow> 'e \<Rightarrow> 'e + unit" where
  "ensure b e = (if b then Inr () else Inl e)"

lemma bindR_Inr_iff: "bindR m f = Inr y \<longleftrightarrow> (\<exists>x. m = Inr x \<and> f x = Inr y)"
  by (cases m) auto

lemma bindR_Inl_iff: "bindR m f = Inl e \<longleftrightarrow> m = Inl e \<or> (\<exists>x. m = Inr x \<and> f x = Inl e)"
  by (cases m) auto

lemma map_err_Inr_iff [simp]: "map_err g m = Inr x \<longleftrightarrow> m = Inr x"
  by (cases m) auto

lemma map_err_Inl_iff: "map_err g m = Inl e \<longleftrightarrow> (\<exists>d. m = Inl d \<and> e = g d)"
  by (cases m) auto

lemma ensure_Inr_iff [simp]: "ensure b e = Inr u \<longleftrightarrow> b"
  by (simp add: ensure_def)

lemma ensure_Inl_iff [simp]: "ensure b e = Inl d \<longleftrightarrow> \<not> b \<and> d = e"
  by (auto simp: ensure_def)

lemma ok_or_Inr_iff [simp]: "ok_or e x = Inr y \<longleftrightarrow> x = Some y"
  by (simp add: ok_or_def split: option.splits)

lemma ok_or_Inl_iff [simp]: "ok_or e x = Inl d \<longleftrightarrow> x = None \<and> d = e"
  by (auto simp: ok_or_def split: option.splits)

lemma is_ok_iff: "is_ok m \<longleftrightarrow> (\<exists>x. m = Inr x)"
  by (cases m) auto

lemma same_success:
  assumes "\<And>c. m = Inr c \<longleftrightarrow> n = Inr c"
  shows "map_err (\<lambda>_. ()) m = map_err (\<lambda>_. ()) n"
proof (cases m)
  case (Inl e)
  then have "n \<noteq> Inr c" for c using assms[of c] by simp
  with Inl show ?thesis by (cases n) auto
next
  case (Inr c)
  then show ?thesis using assms[of c] by simp
qed

lemmas result_iffs = bindR_Inr_iff bindR_Inl_iff map_err_Inl_iff is_ok_iff

section \<open>Fallible operations on a state\<close>

text \<open>
  An operation on shared state takes the state and returns its result with the new state;
  on an error the state reached so far is kept, as in the source.
\<close>

type_synonym ('s, 'e, 'a) op = "'s \<Rightarrow> ('e + 'a) \<times> 's"

definition bindS :: "('s, 'e, 'a) op \<Rightarrow> ('a \<Rightarrow> ('s, 'e, 'b) op) \<Rightarrow> ('s, 'e, 'b) op" where
  "bindS m f s = (case m s of (Inl e, s') \<Rightarrow> (Inl e, s') | (Inr x, s') \<Rightarrow> f x s')"

definition pureS :: "'e + 'a \<Rightarrow> ('s, 'e, 'a) op" where
  "pureS r s = (r, s)"

definition map_errS :: "('e \<Rightarrow> 'f) \<Rightarrow> ('s, 'e, 'a) op \<Rightarrow> ('s, 'f, 'a) op" where
  "map_errS g m s = (case m s of (r, s') \<Rightarrow> (map_err g r, s'))"

text \<open>\<open>settleS f\<close> hands the result on, whatever it is: \<open>match f()\<close>, \<open>f().ok()\<close> and \<open>f().unwrap_or(..)\<close>.\<close>

definition settleS :: "('s, 'e, 'a) op \<Rightarrow> ('s, 'f, 'e + 'a) op" where
  "settleS f s = (case f s of (r, s') \<Rightarrow> (Inr r, s'))"

lemma bindS_pure [simp]: "bindS (pureS r) f s = (case r of Inl e \<Rightarrow> (Inl e, s) | Inr x \<Rightarrow> f x s)"
  by (simp add: bindS_def pureS_def split: sum.split)

lemma bindS_Inr: "m s = (Inr x, s') \<Longrightarrow> bindS m f s = f x s'"
  by (simp add: bindS_def)

lemma bindS_Inl: "m s = (Inl e, s') \<Longrightarrow> bindS m f s = (Inl e, s')"
  by (simp add: bindS_def)

lemma map_errS_Inr: "m s = (Inr x, s') \<Longrightarrow> map_errS g m s = (Inr x, s')"
  by (simp add: map_errS_def)

lemma map_errS_Inl: "m s = (Inl e, s') \<Longrightarrow> map_errS g m s = (Inl (g e), s')"
  by (simp add: map_errS_def)

lemma bindS_cases:
  assumes "bindS m f s = (r, s')"
  obtains (err) e where "m s = (Inl e, s')" "r = Inl e"
  | (ok) x t where "m s = (Inr x, t)" "f x t = (r, s')"
  using assms by (auto simp: bindS_def split: prod.splits sum.splits)

lemma map_errS_cases:
  assumes "map_errS g m s = (r, s')"
  obtains r0 where "m s = (r0, s')" "r = map_err g r0"
  using assms by (auto simp: map_errS_def split: prod.splits)

lemmas op_simps = bindS_Inr bindS_Inl map_errS_Inr map_errS_Inl

section \<open>Saturating arithmetic\<close>

text \<open>\<open>uN::saturating_add\<close> and \<open>uN::saturating_sub\<close>.\<close>

definition sat_add :: "'w::len word \<Rightarrow> 'w word \<Rightarrow> 'w word" where
  "sat_add a b = (if unat a + unat b < 2 ^ LENGTH('w) then a + b else - 1)"

definition sat_sub :: "'w::len word \<Rightarrow> 'w word \<Rightarrow> 'w word" where
  "sat_sub a b = (if b \<le> a then a - b else 0)"

lemma unat_all_ones: "unat (- 1 :: 'w::len word) = 2 ^ LENGTH('w) - 1"
  by (simp add: unsigned_minus_1_eq_mask mask_eq_exp_minus_1)

lemma unat_sat_add: "unat (sat_add a b) = min (unat a + unat b) (2 ^ LENGTH('w) - 1)"
  for a b :: "'w::len word"
proof (cases "unat a + unat b < 2 ^ LENGTH('w)")
  case True
  then have "unat (a + b) = unat a + unat b" by (simp add: unat_word_ariths)
  with True show ?thesis by (simp add: sat_add_def)
next
  case False
  then show ?thesis by (simp add: sat_add_def unat_all_ones)
qed

lemma unat_sat_sub: "unat (sat_sub a b) = unat a - unat b"
  by (simp add: sat_sub_def unat_sub word_le_nat_alt)

lemma sat_add_one_neq_0: "sat_add a 1 \<noteq> (0 :: 'w::len word)"
proof
  assume "sat_add a 1 = 0"
  then have "unat (sat_add a 1) = 0" by simp
  moreover have "(2 :: nat) ^ LENGTH('w) > 1" by (rule one_less_power) simp_all
  ultimately show False by (simp add: unat_sat_add)
qed

section \<open>Decimal printing\<close>

text \<open>\<open>format!("{}", n)\<close> of an unsigned integer.\<close>

definition show_bool :: "bool \<Rightarrow> string" where
  "show_bool b = (if b then ''true'' else ''false'')"

fun show_nat :: "nat \<Rightarrow> string" where
  "show_nat n = (if n < 10 then [char_of (48 + n)] else show_nat (n div 10) @ [char_of (48 + n mod 10)])"

definition show_int :: "int \<Rightarrow> string" where
  "show_int i = (if i < 0 then ''-'' @ show_nat (nat (- i)) else show_nat (nat i))"

declare show_nat.simps [simp del]

definition digit_val :: "char \<Rightarrow> nat" where
  "digit_val c = of_char c - 48"

definition read_nat :: "string \<Rightarrow> nat" where
  "read_nat s = foldl (\<lambda>a c. a * 10 + digit_val c) 0 s"

lemma digit_val_char_of: "n < 10 \<Longrightarrow> digit_val (char_of (48 + n)) = n"
  by (simp add: digit_val_def)

lemma read_show_nat [simp]: "read_nat (show_nat n) = n"
proof (induction n rule: show_nat.induct)
  case (1 n)
  then show ?case
    by (subst show_nat.simps) (auto simp: read_nat_def digit_val_def)
qed

lemma show_nat_inj [simp]: "show_nat m = show_nat n \<longleftrightarrow> m = n"
  by (metis read_show_nat)

lemma show_nat_digits: "c \<in> set (show_nat n) \<Longrightarrow> 48 \<le> (of_char c :: nat) \<and> (of_char c :: nat) \<le> 57"
proof (induction n rule: show_nat.induct)
  case (1 n)
  then show ?case
    by (subst (asm) (2) show_nat.simps) (auto split: if_splits)
qed

lemma show_nat_nonempty [simp]: "show_nat n \<noteq> []"
  by (subst show_nat.simps) simp

section \<open>Strings\<close>

definition to_lower :: "char \<Rightarrow> char" where
  "to_lower c = (let n = (of_char c :: nat) in if 65 \<le> n \<and> n \<le> 90 then char_of (n + 32) else c)"

text \<open>\<open>str::eq_ignore_ascii_case\<close>.\<close>

definition eq_ignore_case :: "string \<Rightarrow> string \<Rightarrow> bool" where
  "eq_ignore_case a b \<longleftrightarrow> map to_lower a = map to_lower b"

text \<open>\<open>split(c).next()\<close>: the part before the first separator.\<close>

definition first_part :: "char \<Rightarrow> string \<Rightarrow> string" where
  "first_part c s = takeWhile (\<lambda>d. d \<noteq> c) s"

definition is_digit :: "char \<Rightarrow> bool" where
  "is_digit c \<longleftrightarrow> 48 \<le> (of_char c :: nat) \<and> (of_char c :: nat) \<le> 57"

text \<open>\<open>str::parse::<u8>\<close>: an optional plus sign, at least one digit, no overflow.\<close>

definition parse_u8 :: "string \<Rightarrow> u8 option" where
  "parse_u8 s =
     (let d = (case s of c # cs \<Rightarrow> if c = CHR ''+'' then cs else s | [] \<Rightarrow> s)
      in if d \<noteq> [] \<and> list_all is_digit d \<and> read_nat d < 256 then Some (word_of_nat (read_nat d)) else None)"

text \<open>\<open>strip_prefix\<close>.\<close>

definition strip_prefix :: "string \<Rightarrow> string \<Rightarrow> string option" where
  "strip_prefix p s = (if take (length p) s = p then Some (drop (length p) s) else None)"

lemma strip_prefix_append [simp]: "strip_prefix p (p @ s) = Some s"
  by (simp add: strip_prefix_def)

lemma is_digit_show: "list_all is_digit (show_nat n)"
  using show_nat_digits by (auto simp: list_all_iff is_digit_def)

lemma parse_u8_show [simp]: "parse_u8 (show_nat (unat i)) = Some i"
proof -
  have lt: "unat i < 2 ^ LENGTH(8)" by (rule unsigned_less)
  obtain c cs where s: "show_nat (unat i) = c # cs" by (cases "show_nat (unat i)") simp_all
  with is_digit_show[of "unat i"] have "c \<noteq> CHR ''+''" by (auto simp: is_digit_def)
  with s have "(case show_nat (unat i) of [] \<Rightarrow> show_nat (unat i)
      | c # cs \<Rightarrow> if c = CHR ''+'' then cs else show_nat (unat i)) = show_nat (unat i)" by simp
  with lt is_digit_show[of "unat i"] show ?thesis by (simp add: parse_u8_def)
qed

lemma takeWhile_sep: "c \<notin> set a \<Longrightarrow> takeWhile (\<lambda>d. d \<noteq> c) (a @ c # b) = a"
  by (induction a) auto

lemma no_sep_in_number: "\<not> is_digit c \<Longrightarrow> c \<notin> set (show_nat n)"
  using is_digit_show[of n] by (auto simp: list_all_iff)

lemma first_part_number: "\<not> is_digit c \<Longrightarrow> first_part c (show_nat n @ c # b) = show_nat n"
  by (simp add: first_part_def takeWhile_sep no_sep_in_number)

definition starts_with :: "string \<Rightarrow> string \<Rightarrow> bool" where
  "starts_with p s \<longleftrightarrow> take (length p) s = p"

fun contains_str :: "string \<Rightarrow> string \<Rightarrow> bool" where
  "contains_str p [] = (p = [])"
| "contains_str p (c # s) = (starts_with p (c # s) \<or> contains_str p s)"

lemma starts_with_append [simp]: "starts_with p (p @ s)"
  by (simp add: starts_with_def)

lemma starts_with_iff: "starts_with p s \<longleftrightarrow> (\<exists>r. s = p @ r)"
  by (auto simp: starts_with_def) (metis append_take_drop_id)

lemma contains_str_iff: "contains_str p s \<longleftrightarrow> (\<exists>a b. s = a @ p @ b)"
proof (induction s)
  case (Cons c s)
  show ?case
    by (auto simp: Cons.IH starts_with_iff Cons_eq_append_conv)
qed simp

end
