(* ===== verification/State_Manager.thy ===== *)
theory State_Manager
  imports Prelude
begin

text \<open>
  The in-memory session state of the wallet (\<open>ffi/src/state.rs\<close>): the record behind
  the five mutexes of \<open>StateManager\<close>, one definition per method, the call relation with
  its reachable states, and what a whole history of calls leaves in each field. Every
  method that returns \<open>Result<()>\<close> returns \<open>Ok(())\<close> on all paths, so a definition here
  gives the new state only. An \<open>Instant\<close> is the monotonic clock in nanoseconds, and the
  methods that read the clock take its value as the argument \<open>now\<close>. The lock-level
  interleaving of the methods is in \<open>State_Concurrency\<close>.
\<close>

section \<open>State\<close>

datatype verification_status =
    NotStarted
  | ChallengeReceived
  | ProofGenerated
  | Submitting
  | Verified
  | Failed (fail_reason: string)

record biometric_state =
  bio_is_available :: bool
  bio_is_enrolled :: bool
  bio_last_auth_time :: "nat option"
  bio_max_auth_age_seconds :: u64

definition biometric_default :: biometric_state where
  "biometric_default =
     \<lparr>bio_is_available = False, bio_is_enrolled = False, bio_last_auth_time = None,
      bio_max_auth_age_seconds = 5\<rparr>"

text \<open>\<open>Instant::elapsed\<close> saturates at zero and \<open>Duration::as_secs\<close> drops the fraction.\<close>

definition elapsed_secs :: "nat \<Rightarrow> nat \<Rightarrow> nat" where
  "elapsed_secs now t = (now - t) div 1000000000"

definition is_recently_authenticated :: "nat \<Rightarrow> biometric_state \<Rightarrow> bool" where
  "is_recently_authenticated now b =
     (case bio_last_auth_time b of
        Some t \<Rightarrow> elapsed_secs now t < unat (bio_max_auth_age_seconds b)
      | None \<Rightarrow> False)"

definition record_authentication :: "nat \<Rightarrow> biometric_state \<Rightarrow> biometric_state" where
  "record_authentication now b = b\<lparr>bio_last_auth_time := Some now\<rparr>"

record state_manager =
  sm_verification_status :: verification_status
  sm_active_verifications :: "string list"
  sm_failed_attempts :: u32
  sm_last_error :: "string option"
  sm_biometric_state :: biometric_state

definition state_manager_new :: state_manager where
  "state_manager_new =
     \<lparr>sm_verification_status = NotStarted, sm_active_verifications = [],
      sm_failed_attempts = 0, sm_last_error = None,
      sm_biometric_state = biometric_default\<rparr>"

section \<open>Operations\<close>

definition remove_verification :: "string \<Rightarrow> state_manager \<Rightarrow> state_manager" where
  "remove_verification challenge_id s =
     s\<lparr>sm_active_verifications := filter (\<lambda>i. i \<noteq> challenge_id) (sm_active_verifications s)\<rparr>"

definition push_verification :: "string \<Rightarrow> state_manager \<Rightarrow> state_manager" where
  "push_verification challenge_id s =
     (if challenge_id \<in> set (sm_active_verifications s) then s
      else s\<lparr>sm_active_verifications := sm_active_verifications s @ [challenge_id]\<rparr>)"

definition start_verification :: "string \<Rightarrow> state_manager \<Rightarrow> state_manager" where
  "start_verification challenge_id s =
     (let s1 = s\<lparr>sm_verification_status := ChallengeReceived\<rparr>;
          s2 = push_verification challenge_id s1;
          s3 = s2\<lparr>sm_failed_attempts := 0\<rparr>
      in s3\<lparr>sm_last_error := None\<rparr>)"

definition update_verification_status ::
    "string \<Rightarrow> verification_status \<Rightarrow> state_manager \<Rightarrow> state_manager" where
  "update_verification_status challenge_id status s =
     (let s1 = (case status of
                  Failed reason \<Rightarrow>
                    s\<lparr>sm_failed_attempts := sat_add (sm_failed_attempts s) 1,
                      sm_last_error := Some reason\<rparr>
                | _ \<Rightarrow> s)
      in s1\<lparr>sm_verification_status := status\<rparr>)"

definition failure_reason :: "u32 \<Rightarrow> string" where
  "failure_reason attempts =
     ''Verification failed after '' @ show_nat (unat (sat_add attempts 1)) @ '' attempts''"

definition complete_verification :: "string \<Rightarrow> bool \<Rightarrow> state_manager \<Rightarrow> state_manager" where
  "complete_verification challenge_id success s =
     (let status = (if success then Verified else Failed (failure_reason (sm_failed_attempts s)));
          s1 = s\<lparr>sm_verification_status := status\<rparr>;
          s2 = remove_verification challenge_id s1
      in if success then s2\<lparr>sm_failed_attempts := 0, sm_last_error := None\<rparr> else s2)"

definition cancel_verification :: "string \<Rightarrow> state_manager \<Rightarrow> state_manager" where
  "cancel_verification challenge_id s =
     (remove_verification challenge_id s)\<lparr>sm_verification_status := NotStarted\<rparr>"

definition is_verification_active :: "state_manager \<Rightarrow> bool" where
  "is_verification_active s \<longleftrightarrow> sm_active_verifications s \<noteq> []"

definition update_biometric_capabilities :: "bool \<Rightarrow> bool \<Rightarrow> state_manager \<Rightarrow> state_manager" where
  "update_biometric_capabilities available enrolled s =
     s\<lparr>sm_biometric_state := (sm_biometric_state s)
         \<lparr>bio_is_available := available, bio_is_enrolled := enrolled\<rparr>\<rparr>"

definition record_biometric_auth :: "nat \<Rightarrow> state_manager \<Rightarrow> state_manager" where
  "record_biometric_auth now s =
     s\<lparr>sm_biometric_state := record_authentication now (sm_biometric_state s)\<rparr>"

definition is_biometric_recently_authenticated :: "nat \<Rightarrow> state_manager \<Rightarrow> bool" where
  "is_biometric_recently_authenticated now s = is_recently_authenticated now (sm_biometric_state s)"

definition state_reset :: "state_manager \<Rightarrow> state_manager" where
  "state_reset s =
     s\<lparr>sm_verification_status := NotStarted, sm_active_verifications := [],
       sm_failed_attempts := 0, sm_last_error := None,
       sm_biometric_state := (sm_biometric_state s)\<lparr>bio_last_auth_time := None\<rparr>\<rparr>"

lemmas sm_op_defs [step_simps] =
  push_verification_def remove_verification_def start_verification_def
  update_verification_status_def complete_verification_def cancel_verification_def
  update_biometric_capabilities_def record_biometric_auth_def record_authentication_def
  state_reset_def

section \<open>Histories of calls\<close>

datatype sm_call =
    CStart string
  | CUpdate string verification_status
  | CComplete string bool
  | CCancel string
  | CCapabilities bool bool
  | CRecordAuth nat
  | CReset

fun sm_apply :: "sm_call \<Rightarrow> state_manager \<Rightarrow> state_manager" where
  "sm_apply (CStart i) s = start_verification i s"
| "sm_apply (CUpdate i st) s = update_verification_status i st s"
| "sm_apply (CComplete i ok) s = complete_verification i ok s"
| "sm_apply (CCancel i) s = cancel_verification i s"
| "sm_apply (CCapabilities a e) s = update_biometric_capabilities a e s"
| "sm_apply (CRecordAuth t) s = record_biometric_auth t s"
| "sm_apply CReset s = state_reset s"

definition sm_run :: "sm_call list \<Rightarrow> state_manager" where
  "sm_run calls = fold sm_apply calls state_manager_new"

inductive sm_step :: "state_manager \<Rightarrow> state_manager \<Rightarrow> bool" where
  call: "sm_step s (sm_apply c s)"

inductive sm_reach :: "state_manager \<Rightarrow> bool" where
  init: "sm_reach state_manager_new"
| step: "sm_reach s \<Longrightarrow> sm_step s s' \<Longrightarrow> sm_reach s'"

inductive_cases sm_stepE: "sm_step s s'"

text \<open>What the session state maintains between calls.\<close>

definition sm_wf :: "state_manager \<Rightarrow> bool" where
  "sm_wf s \<longleftrightarrow>
     distinct (sm_active_verifications s)
   \<and> (sm_failed_attempts s = 0 \<longleftrightarrow> sm_last_error s = None)
   \<and> bio_max_auth_age_seconds (sm_biometric_state s) = 5"

lemma sm_wf_new: "sm_wf state_manager_new"
  by (simp add: sm_wf_def state_manager_new_def biometric_default_def)

lemma sm_wf_apply: "sm_wf s \<Longrightarrow> sm_wf (sm_apply c s)"
  by (cases c) (auto simp: sm_wf_def sm_op_defs Let_def sat_add_one_neq_0
      split: verification_status.splits)

lemma sm_run_snoc: "sm_run (cs @ [c]) = sm_apply c (sm_run cs)"
  by (simp add: sm_run_def)

lemma sm_run_Nil [simp]: "sm_run [] = state_manager_new"
  by (simp add: sm_run_def)

lemma sm_reach_run: "sm_reach s \<longleftrightarrow> (\<exists>cs. s = sm_run cs)"
proof
  show "sm_reach s \<Longrightarrow> \<exists>cs. s = sm_run cs"
    by (induction rule: sm_reach.induct) (auto elim!: sm_stepE intro: sm_run_snoc[symmetric] sm_run_Nil[symmetric])
next
  have "sm_reach (sm_run cs)" for cs
    by (induction cs rule: rev_induct) (auto simp: sm_run_snoc intro: sm_reach.intros sm_step.intros)
  then show "\<exists>cs. s = sm_run cs \<Longrightarrow> sm_reach s" by auto
qed

lemma sm_reach_sm_run [simp]: "sm_reach (sm_run cs)"
  by (auto simp: sm_reach_run)

lemma sm_wf_run: "sm_wf (sm_run cs)"
  by (induction cs rule: rev_induct) (auto simp: sm_run_snoc intro: sm_wf_new sm_wf_apply)

subsection \<open>What a history determines\<close>

text \<open>
  The failures reported since the last call that clears the counter, newest first: a new
  verification, a successful completion or a reset clears it; a failed completion and a
  cancellation do not.
\<close>

fun clears_failures :: "sm_call \<Rightarrow> bool" where
  "clears_failures (CStart i) = True"
| "clears_failures (CComplete i ok) = ok"
| "clears_failures CReset = True"
| "clears_failures _ = False"

fun recent_failures :: "sm_call list \<Rightarrow> string list" where
  "recent_failures [] = []"
| "recent_failures (CUpdate i (Failed r) # cs) = r # recent_failures cs"
| "recent_failures (c # cs) = (if clears_failures c then [] else recent_failures cs)"

text \<open>The identifiers opened and not closed since, over a history newest first.\<close>

fun open_ids :: "sm_call list \<Rightarrow> string set" where
  "open_ids [] = {}"
| "open_ids (CStart i # cs) = insert i (open_ids cs)"
| "open_ids (CComplete i ok # cs) = open_ids cs - {i}"
| "open_ids (CCancel i # cs) = open_ids cs - {i}"
| "open_ids (CReset # cs) = {}"
| "open_ids (_ # cs) = open_ids cs"

lemma recent_failures_run:
  "unat (sm_failed_attempts (sm_run cs)) = min (length (recent_failures (rev cs))) (2 ^ 32 - 1)
   \<and> sm_last_error (sm_run cs)
     = (case recent_failures (rev cs) of [] \<Rightarrow> None | r # _ \<Rightarrow> Some r)"
proof (induction cs rule: rev_induct)
  case Nil
  then show ?case by (simp add: state_manager_new_def)
next
  case (snoc c cs)
  show ?case
  proof (cases c)
    case (CUpdate i st)
    then show ?thesis using snoc
      by (cases st) (auto simp: sm_run_snoc sm_op_defs Let_def unat_sat_add)
  qed (use snoc in \<open>auto simp: sm_run_snoc sm_op_defs Let_def\<close>)
qed

lemma open_ids_run: "set (sm_active_verifications (sm_run cs)) = open_ids (rev cs)"
proof (induction cs rule: rev_induct)
  case Nil
  then show ?case by (simp add: state_manager_new_def)
next
  case (snoc c cs)
  then show ?case
    by (cases c) (auto simp: sm_run_snoc sm_op_defs Let_def split: verification_status.splits)
qed

section \<open>Properties\<close>

text \<open>In every state the methods can reach from a new manager, the set of in-flight
  challenges has no duplicates, the failure counter is zero exactly when no last error is
  recorded, and the biometric window is the default of 5 seconds.\<close>

theorem session_invariant:
  assumes "sm_reach s"
  shows "distinct (sm_active_verifications s)
    \<and> (sm_failed_attempts s = 0 \<longleftrightarrow> sm_last_error s = None)
    \<and> bio_max_auth_age_seconds (sm_biometric_state s) = 5"
proof -
  from assms obtain cs where "s = sm_run cs" by (auto simp: sm_reach_run)
  then have "sm_wf s" by (simp add: sm_wf_run)
  then show ?thesis by (simp add: sm_wf_def)
qed

lemma session_invariant_witness:
  "sm_failed_attempts (sm_run [CStart ''c'', CUpdate ''c'' (Failed ''e'')]) = 0
   \<longleftrightarrow> sm_last_error (sm_run [CStart ''c'', CUpdate ''c'' (Failed ''e'')]) = None"
  using session_invariant[OF sm_reach_sm_run, of "[CStart ''c'', CUpdate ''c'' (Failed ''e'')]"] by blast


text \<open>In every reachable state a biometric authentication counts as recent exactly when one
  was recorded and strictly less than 5 seconds of the monotonic clock have passed since.\<close>

theorem biometric_window:
  assumes "sm_reach s"
  shows "is_biometric_recently_authenticated now s
    \<longleftrightarrow> (\<exists>t. bio_last_auth_time (sm_biometric_state s) = Some t \<and> now < t + 5 * 1000000000)"
proof -
  from assms have "sm_wf s" by (auto simp: sm_reach_run sm_wf_run)
  then have "unat (bio_max_auth_age_seconds (sm_biometric_state s)) = 5" by (simp add: sm_wf_def)
  then show ?thesis
    by (auto simp: is_biometric_recently_authenticated_def is_recently_authenticated_def
        elapsed_secs_def div_less_iff_less_mult less_diff_conv2 split: option.splits)
qed

lemma biometric_window_witness:
  "is_biometric_recently_authenticated 5999999999 (sm_run [CRecordAuth 1000000000])
   \<and> \<not> is_biometric_recently_authenticated 6000000000 (sm_run [CRecordAuth 1000000000])"
proof -
  have t: "bio_last_auth_time (sm_biometric_state (sm_run [CRecordAuth 1000000000])) = Some 1000000000"
    by (simp add: sm_run_def sm_op_defs)
  show ?thesis
    unfolding biometric_window[OF sm_reach_sm_run] t by simp
qed

end
