(* ===== verification/State_Concurrency.thy ===== *)
theory State_Concurrency
  imports State_Manager
begin

text \<open>
  The methods of \<open>StateManager\<close> (\<open>ffi/src/state.rs\<close>) at the granularity of their mutexes.
  Each method is the sequence of lock acquisitions, accesses and guard drops of its body:
  a guard bound by \<open>let mut\<close> is dropped at the end of its block, a temporary guard at the
  end of its statement. Any number of threads, each making any sequence of calls, run
  interleaved by \<open>cstep\<close>. The lemmas show the locking discipline of the methods, that
  the discipline excludes deadlock and data races, that a call that runs alone is the
  definition of \<open>State_Manager\<close>, and that calls which overlap can leave a state no
  sequence of calls leaves.
\<close>

section \<open>Threads, locks and accesses\<close>

datatype lock = LStatus | LActive | LFailed | LError | LBio

datatype access =
    WriteStatus verification_status
  | WriteFailStatus
  | PushActive string
  | RemoveActive string
  | ClearActive
  | ZeroFailed
  | BumpFailed
  | ReadFailed
  | WriteError "string option"
  | WriteCaps bool bool
  | WriteAuth "nat option"

datatype instr = Acquire lock | Release lock | Access access

text \<open>The mutex that guards the field an access touches.\<close>

fun guard_of :: "access \<Rightarrow> lock" where
  "guard_of (WriteStatus st) = LStatus"
| "guard_of WriteFailStatus = LStatus"
| "guard_of (PushActive i) = LActive"
| "guard_of (RemoveActive i) = LActive"
| "guard_of ClearActive = LActive"
| "guard_of ZeroFailed = LFailed"
| "guard_of BumpFailed = LFailed"
| "guard_of ReadFailed = LFailed"
| "guard_of (WriteError r) = LError"
| "guard_of (WriteCaps a e) = LBio"
| "guard_of (WriteAuth t) = LBio"

text \<open>An access over the thread's local \<open>attempts\<close> and the shared state.\<close>

fun access_run :: "access \<Rightarrow> u32 \<times> state_manager \<Rightarrow> u32 \<times> state_manager" where
  "access_run (WriteStatus st) (a, s) = (a, s\<lparr>sm_verification_status := st\<rparr>)"
| "access_run WriteFailStatus (a, s) = (a, s\<lparr>sm_verification_status := Failed (failure_reason a)\<rparr>)"
| "access_run (PushActive i) (a, s) = (a, push_verification i s)"
| "access_run (RemoveActive i) (a, s) = (a, remove_verification i s)"
| "access_run ClearActive (a, s) = (a, s\<lparr>sm_active_verifications := []\<rparr>)"
| "access_run ZeroFailed (a, s) = (a, s\<lparr>sm_failed_attempts := 0\<rparr>)"
| "access_run BumpFailed (a, s) = (a, s\<lparr>sm_failed_attempts := sat_add (sm_failed_attempts s) 1\<rparr>)"
| "access_run ReadFailed (a, s) = (sm_failed_attempts s, s)"
| "access_run (WriteError r) (a, s) = (a, s\<lparr>sm_last_error := r\<rparr>)"
| "access_run (WriteCaps av en) (a, s) = (a, update_biometric_capabilities av en s)"
| "access_run (WriteAuth t) (a, s) =
     (a, s\<lparr>sm_biometric_state := (sm_biometric_state s)\<lparr>bio_last_auth_time := t\<rparr>\<rparr>)"

definition locked :: "lock \<Rightarrow> access \<Rightarrow> instr list" where
  "locked l e = [Acquire l, Access e, Release l]"

fun call_prog :: "sm_call \<Rightarrow> instr list" where
  "call_prog (CStart i) =
     locked LStatus (WriteStatus ChallengeReceived) @
     [Acquire LActive, Access (PushActive i)] @
     locked LFailed ZeroFailed @ locked LError (WriteError None) @ [Release LActive]"
| "call_prog (CUpdate i st) =
     (case st of
        Failed r \<Rightarrow> [Acquire LFailed, Access BumpFailed] @
                    locked LError (WriteError (Some r)) @ [Release LFailed]
      | _ \<Rightarrow> []) @
     locked LStatus (WriteStatus st)"
| "call_prog (CComplete i ok) =
     (if ok then
        locked LStatus (WriteStatus Verified) @ locked LActive (RemoveActive i) @
        locked LFailed ZeroFailed @ locked LError (WriteError None)
      else
        locked LFailed ReadFailed @ locked LStatus WriteFailStatus @
        locked LActive (RemoveActive i))"
| "call_prog (CCancel i) =
     locked LActive (RemoveActive i) @ locked LStatus (WriteStatus NotStarted)"
| "call_prog (CCapabilities a e) = locked LBio (WriteCaps a e)"
| "call_prog (CRecordAuth t) = locked LBio (WriteAuth (Some t))"
| "call_prog CReset =
     locked LStatus (WriteStatus NotStarted) @ locked LActive ClearActive @
     locked LFailed ZeroFailed @ locked LError (WriteError None) @ locked LBio (WriteAuth None)"

type_synonym thread = "instr list \<times> u32"

record config =
  cf_state :: state_manager
  cf_owner :: "lock \<Rightarrow> nat option"
  cf_threads :: "thread list"

inductive cstep :: "config \<Rightarrow> config \<Rightarrow> bool" where
  acquire: "i < length (cf_threads c) \<Longrightarrow> cf_threads c ! i = (Acquire l # p, a) \<Longrightarrow>
    cf_owner c l = None \<Longrightarrow>
    cstep c (c\<lparr>cf_owner := (cf_owner c)(l := Some i), cf_threads := (cf_threads c)[i := (p, a)]\<rparr>)"
| release: "i < length (cf_threads c) \<Longrightarrow> cf_threads c ! i = (Release l # p, a) \<Longrightarrow>
    cf_owner c l = Some i \<Longrightarrow>
    cstep c (c\<lparr>cf_owner := (cf_owner c)(l := None), cf_threads := (cf_threads c)[i := (p, a)]\<rparr>)"
| access: "i < length (cf_threads c) \<Longrightarrow> cf_threads c ! i = (Access e # p, a) \<Longrightarrow>
    access_run e (a, cf_state c) = (a', s') \<Longrightarrow>
    cstep c (c\<lparr>cf_state := s', cf_threads := (cf_threads c)[i := (p, a')]\<rparr>)"

text \<open>Every thread starts with the calls it will make and no lock is held.\<close>

definition thread_prog :: "sm_call list \<Rightarrow> instr list" where
  "thread_prog calls = concat (map call_prog calls)"

definition start_config :: "state_manager \<Rightarrow> sm_call list list \<Rightarrow> config" where
  "start_config s css =
     \<lparr>cf_state = s, cf_owner = (\<lambda>_. None), cf_threads = map (\<lambda>cs. (thread_prog cs, 0)) css\<rparr>"

inductive creach :: "sm_call list list \<Rightarrow> config \<Rightarrow> bool" for css where
  init: "creach css (start_config state_manager_new css)"
| step: "creach css c \<Longrightarrow> cstep c c' \<Longrightarrow> creach css c'"

section \<open>The locking discipline\<close>

text \<open>
  The order in which the bodies nest their mutexes, and the discipline of a program run
  with the locks \<open>H\<close> held: it takes only locks above all it holds, touches a field only
  under its mutex, and ends with none held.
\<close>

fun rank :: "lock \<Rightarrow> nat" where
  "rank LStatus = 0"
| "rank LActive = 1"
| "rank LFailed = 2"
| "rank LError = 3"
| "rank LBio = 4"

fun disciplined :: "lock set \<Rightarrow> instr list \<Rightarrow> bool" where
  "disciplined H [] = (H = {})"
| "disciplined H (Acquire l # p) = ((\<forall>h\<in>H. rank h < rank l) \<and> disciplined (insert l H) p)"
| "disciplined H (Release l # p) = (l \<in> H \<and> disciplined (H - {l}) p)"
| "disciplined H (Access e # p) = (guard_of e \<in> H \<and> disciplined H p)"

lemma disciplined_append: "disciplined H p \<Longrightarrow> disciplined {} q \<Longrightarrow> disciplined H (p @ q)"
  by (induction H p rule: disciplined.induct) auto

lemma disciplined_call: "disciplined {} (call_prog c)"
  by (cases c) (auto simp: locked_def split: verification_status.split)

lemma disciplined_thread: "disciplined {} (thread_prog cs)"
  unfolding thread_prog_def by (induction cs) (auto intro: disciplined_append disciplined_call)

definition owned :: "config \<Rightarrow> nat \<Rightarrow> lock set" where
  "owned c i = {l. cf_owner c l = Some i}"

definition conc_inv :: "config \<Rightarrow> bool" where
  "conc_inv c \<longleftrightarrow>
     (\<forall>i < length (cf_threads c). disciplined (owned c i) (fst (cf_threads c ! i)))
   \<and> (\<forall>l i. cf_owner c l = Some i \<longrightarrow> i < length (cf_threads c))"

lemma conc_inv_start: "conc_inv (start_config s css)"
  by (simp add: conc_inv_def start_config_def owned_def disciplined_thread)

lemma owned_acquire:
  "cf_owner c l = None \<Longrightarrow>
   owned (c\<lparr>cf_owner := (cf_owner c)(l := Some i), cf_threads := ts\<rparr>) j
   = (if j = i then insert l (owned c i) else owned c j)"
  by (auto simp: owned_def)

lemma owned_release:
  "cf_owner c l = Some i \<Longrightarrow>
   owned (c\<lparr>cf_owner := (cf_owner c)(l := None), cf_threads := ts\<rparr>) j
   = (if j = i then owned c i - {l} else owned c j)"
  by (auto simp: owned_def)

lemma owned_access: "owned (c\<lparr>cf_state := s, cf_threads := ts\<rparr>) j = owned c j"
  by (simp add: owned_def)

lemma conc_invD:
  assumes "conc_inv c" "i < length (cf_threads c)" "cf_threads c ! i = (p, a)"
  shows "disciplined (owned c i) p"
  using assms by (auto simp: conc_inv_def)

lemma conc_inv_step: "cstep c c' \<Longrightarrow> conc_inv c \<Longrightarrow> conc_inv c'"
proof (induction rule: cstep.induct)
  case (acquire i c l p a)
  with conc_invD[OF acquire(4) acquire(1,2)] show ?case
    by (auto simp: conc_inv_def owned_acquire nth_list_update)
next
  case (release i c l p a)
  with conc_invD[OF release(4) release(1,2)] show ?case
    by (auto simp: conc_inv_def owned_release nth_list_update)
next
  case (access i c e p a a' s')
  with conc_invD[OF access(4) access(1,2)] show ?case
    by (auto simp: conc_inv_def owned_access nth_list_update)
qed

lemma conc_inv_reach: "creach css c \<Longrightarrow> conc_inv c"
  by (induction rule: creach.induct) (auto intro: conc_inv_start conc_inv_step)

section \<open>Progress\<close>

text \<open>A thread that cannot move waits for a lock another thread holds.\<close>

lemma blocked_thread:
  assumes "conc_inv c" "i < length (cf_threads c)" "cf_threads c ! i = (q # p, a)"
    and stuck: "\<nexists>c'. cstep c c'"
  shows "\<exists>l j. q = Acquire l \<and> cf_owner c l = Some j"
proof (cases q)
  case (Acquire l)
  with assms cstep.acquire[of i c l p a] show ?thesis by (cases "cf_owner c l") auto
next
  case (Release l)
  with conc_invD[OF assms(1-3)] have "cf_owner c l = Some i" by (simp add: owned_def)
  with Release assms cstep.release[of i c l p a] show ?thesis by blast
next
  case (Access e)
  obtain a' s' where "access_run e (a, cf_state c) = (a', s')" by fastforce
  with Access assms cstep.access[of i c e p a a' s'] show ?thesis by blast
qed

lemma rank_bound: "rank l < 5"
  by (cases l) auto

lemma no_deadlock:
  assumes inv: "conc_inv c" and i: "i < length (cf_threads c)" "fst (cf_threads c ! i) \<noteq> []"
  shows "\<exists>c'. cstep c c'"
proof (rule ccontr)
  assume stuck: "\<nexists>c'. cstep c c'"
  define waits where
    "waits l \<longleftrightarrow> (\<exists>k<length (cf_threads c). \<exists>p a. cf_threads c ! k = (Acquire l # p, a))" for l
  obtain q p a where "cf_threads c ! i = (q # p, a)"
    using i(2) by (cases "cf_threads c ! i") (auto simp: neq_Nil_conv)
  then obtain l0 where "waits l0"
    using blocked_thread[OF inv i(1) _ stuck] i(1) by (fastforce simp: waits_def)
  then obtain l where l: "waits l" and top: "\<And>k. waits k \<Longrightarrow> rank k \<le> rank l"
    using ex_has_greatest_nat[of waits l0 rank 5] rank_bound by (metis less_imp_le)
  from l obtain k r b where k: "k < length (cf_threads c)" "cf_threads c ! k = (Acquire l # r, b)"
    by (auto simp: waits_def)
  with blocked_thread[OF inv k stuck] obtain j where j: "cf_owner c l = Some j" by auto
  with inv have jl: "j < length (cf_threads c)" by (auto simp: conc_inv_def)
  obtain pj aj where pj: "cf_threads c ! j = (pj, aj)" by fastforce
  have dj: "disciplined (owned c j) pj" by (rule conc_invD[OF inv jl pj])
  have lj: "l \<in> owned c j" using j by (simp add: owned_def)
  with dj obtain q' p' where "pj = q' # p'" by (cases pj) auto
  with blocked_thread[OF inv jl _ stuck] pj obtain l' where l': "pj = Acquire l' # p'" by auto
  then have "waits l'" using jl pj by (auto simp: waits_def)
  moreover have "rank l < rank l'" using dj l' lj by auto
  ultimately show False using top by fastforce
qed

section \<open>A call that runs alone\<close>

fun effects :: "instr list \<Rightarrow> u32 \<times> state_manager \<Rightarrow> u32 \<times> state_manager" where
  "effects [] x = x"
| "effects (Access e # p) x = effects p (access_run e x)"
| "effects (_ # p) x = effects p x"

lemma effects_append: "effects (p @ q) x = effects q (effects p x)"
  by (induction p x rule: effects.induct) auto

lemma effects_call: "snd (effects (call_prog c) (a, s)) = sm_apply c s"
  by (cases c) (auto simp: locked_def sm_op_defs Let_def split: verification_status.split)

lemma effects_thread: "snd (effects (thread_prog cs) (a, s)) = fold sm_apply cs s"
proof (induction cs arbitrary: a s)
  case (Cons c cs)
  obtain a' s' where r: "effects (call_prog c) (a, s) = (a', s')" by fastforce
  with effects_call[of c a s] have "s' = sm_apply c s" by simp
  with r Cons.IH[of a' s'] show ?case by (simp add: thread_prog_def effects_append)
qed (simp add: thread_prog_def)

definition solo :: "lock set \<Rightarrow> state_manager \<Rightarrow> thread \<Rightarrow> config" where
  "solo H s t = \<lparr>cf_state = s, cf_owner = (\<lambda>l. if l \<in> H then Some 0 else None), cf_threads = [t]\<rparr>"

lemma solo_acquire:
  assumes "l \<notin> H"
  shows "cstep (solo H s (Acquire l # p, a)) (solo (insert l H) s (p, a))"
proof -
  let ?c = "solo H s (Acquire l # p, a)"
  have "solo (insert l H) s (p, a) =
      ?c\<lparr>cf_owner := (cf_owner ?c)(l := Some 0), cf_threads := (cf_threads ?c)[0 := (p, a)]\<rparr>"
    by (simp add: solo_def fun_eq_iff)
  with assms show ?thesis
    using cstep.acquire[of 0 ?c l p a] by (simp add: solo_def)
qed

lemma solo_release:
  assumes "l \<in> H"
  shows "cstep (solo H s (Release l # p, a)) (solo (H - {l}) s (p, a))"
proof -
  let ?c = "solo H s (Release l # p, a)"
  have "solo (H - {l}) s (p, a) =
      ?c\<lparr>cf_owner := (cf_owner ?c)(l := None), cf_threads := (cf_threads ?c)[0 := (p, a)]\<rparr>"
    by (simp add: solo_def fun_eq_iff)
  with assms show ?thesis
    using cstep.release[of 0 ?c l p a] by (simp add: solo_def)
qed

lemma solo_run:
  "disciplined H p \<Longrightarrow>
   cstep\<^sup>*\<^sup>* (solo H s (p, a)) (solo {} (snd (effects p (a, s))) ([], fst (effects p (a, s))))"
proof (induction p arbitrary: H s a)
  case Nil
  then show ?case by simp
next
  case (Cons q p)
  show ?case
  proof (cases q)
    case (Acquire l)
    with Cons.prems have "l \<notin> H" by auto
    then have "cstep (solo H s (Acquire l # p, a)) (solo (insert l H) s (p, a))"
      by (rule solo_acquire)
    also have "cstep\<^sup>*\<^sup>* \<dots> (solo {} (snd (effects p (a, s))) ([], fst (effects p (a, s))))"
      using Cons.IH Cons.prems Acquire by auto
    finally show ?thesis using Acquire by simp
  next
    case (Release l)
    with Cons.prems have "l \<in> H" by simp
    then have "cstep (solo H s (Release l # p, a)) (solo (H - {l}) s (p, a))"
      by (rule solo_release)
    also have "cstep\<^sup>*\<^sup>* \<dots> (solo {} (snd (effects p (a, s))) ([], fst (effects p (a, s))))"
      using Cons.IH Cons.prems Release by auto
    finally show ?thesis using Release by simp
  next
    case (Access e)
    obtain a' s' where r: "access_run e (a, s) = (a', s')" by fastforce
    with Access have "cstep (solo H s (q # p, a)) (solo H s' (p, a'))"
      using cstep.access[of 0 "solo H s (q # p, a)" e p a a' s'] by (simp add: solo_def)
    also have "cstep\<^sup>*\<^sup>* \<dots> (solo {} (snd (effects p (a', s'))) ([], fst (effects p (a', s'))))"
      using Cons.IH Cons.prems Access by auto
    finally show ?thesis using Access r by simp
  qed
qed

section \<open>Schedules\<close>

text \<open>An executable scheduler: the next instruction of a thread, when it can move.\<close>

definition move :: "nat \<Rightarrow> config \<Rightarrow> config option" where
  "move i c =
     (if i < length (cf_threads c) then
        case cf_threads c ! i of
          ([], a) \<Rightarrow> None
        | (Acquire l # p, a) \<Rightarrow>
            (if cf_owner c l = None
             then Some (c\<lparr>cf_owner := (cf_owner c)(l := Some i), cf_threads := (cf_threads c)[i := (p, a)]\<rparr>)
             else None)
        | (Release l # p, a) \<Rightarrow>
            (if cf_owner c l = Some i
             then Some (c\<lparr>cf_owner := (cf_owner c)(l := None), cf_threads := (cf_threads c)[i := (p, a)]\<rparr>)
             else None)
        | (Access e # p, a) \<Rightarrow>
            (let (a', s') = access_run e (a, cf_state c)
             in Some (c\<lparr>cf_state := s', cf_threads := (cf_threads c)[i := (p, a')]\<rparr>))
      else None)"

fun run_schedule :: "nat list \<Rightarrow> config \<Rightarrow> config option" where
  "run_schedule [] c = Some c"
| "run_schedule (i # is) c = (case move i c of None \<Rightarrow> None | Some c' \<Rightarrow> run_schedule is c')"

lemma move_cstep: "move i c = Some c' \<Longrightarrow> cstep c c'"
  by (auto simp: move_def Let_def split: if_splits list.splits instr.splits prod.splits intro: cstep.intros)

lemma run_schedule_creach: "creach css c \<Longrightarrow> run_schedule is c = Some c' \<Longrightarrow> creach css c'"
proof (induction "is" arbitrary: c)
  case (Cons i "is")
  then obtain d where "move i c = Some d" "run_schedule is d = Some c'"
    by (auto split: option.splits)
  with Cons show ?case by (blast intro: creach.step move_cstep)
qed simp

section \<open>Properties\<close>

text \<open>C23: No set of threads that call the session state's methods can deadlock: whatever calls
  the threads make and however they interleave, while some thread has not finished the
  system can move.\<close>

theorem session_no_deadlock:
  assumes "creach css c" "i < length (cf_threads c)" "fst (cf_threads c ! i) \<noteq> []"
  shows "\<exists>c'. cstep c c'"
  using no_deadlock[OF conc_inv_reach[OF assms(1)] assms(2,3)] .

lemma session_no_deadlock_witness:
  "\<exists>c'. cstep (start_config state_manager_new [[CStart ''a''], [CReset]]) c'"
  by (rule session_no_deadlock[OF creach.init, of 1]) (simp_all add: start_config_def thread_prog_def locked_def)

text \<open>The methods are free of data races: at no moment of any interleaving are two threads
  both about to access fields behind the same mutex.\<close>

theorem session_race_free:
  assumes "creach css c" "i < length (cf_threads c)" "j < length (cf_threads c)" "i \<noteq> j"
    "cf_threads c ! i = (Access e # p, a)" "cf_threads c ! j = (Access e' # p', a')"
  shows "guard_of e \<noteq> guard_of e'"
proof -
  have inv: "conc_inv c" by (rule conc_inv_reach[OF assms(1)])
  have "guard_of e \<in> owned c i" "guard_of e' \<in> owned c j"
    using conc_invD[OF inv assms(2,5)] conc_invD[OF inv assms(3,6)] by simp_all
  with assms(4) show ?thesis by (auto simp: owned_def)
qed

lemma session_race_free_witness:
  "guard_of (WriteStatus ChallengeReceived) \<noteq> guard_of (WriteCaps True True)"
proof -
  let ?css = "[[CStart ''a''], [CCapabilities True True]]"
  let ?c = "the (run_schedule [0, 1] (start_config state_manager_new ?css))"
  have r: "creach ?css ?c"
    by (rule run_schedule_creach[OF creach.init, of "[0, 1]"])
       (simp add: move_def start_config_def thread_prog_def locked_def)
  show ?thesis
    by (rule session_race_free[OF r, of 0 1])
       (simp_all add: move_def start_config_def thread_prog_def locked_def)
qed

text \<open>A thread that makes a sequence of calls with no other thread running reaches, lock
  by lock, exactly the state of the sequential methods, with every lock free again.\<close>

theorem session_alone_sequential:
  "\<exists>a. cstep\<^sup>*\<^sup>* (start_config s [cs])
     \<lparr>cf_state = fold sm_apply cs s, cf_owner = (\<lambda>_. None), cf_threads = [([], a)]\<rparr>"
  using solo_run[OF disciplined_thread[of cs], of s 0]
  by (auto simp: solo_def start_config_def effects_thread)

text \<open>Calls that overlap can leave a state that no sequence of calls leaves: a new
  verification that overlaps a reported failure can finish with one failed attempt and
  no last error, because the counter and the error are cleared under separate locks.\<close>

theorem session_overlap_not_serializable:
  "\<exists>c. creach [[CStart ''a''], [CUpdate ''b'' (Failed ''x'')]] c
     \<and> cf_threads c = [([], 0), ([], 0)]
     \<and> sm_failed_attempts (cf_state c) = 1 \<and> sm_last_error (cf_state c) = None
     \<and> \<not> sm_reach (cf_state c)"
proof -
  let ?css = "[[CStart ''a''], [CUpdate ''b'' (Failed ''x'')]]"
  let ?order = "[0, 0, 0, 0, 0, 0, 0, 0, 1, 1, 1, 1, 1, 1, 1, 1, 1, 0, 0, 0, 0]"
  obtain c where c: "run_schedule ?order (start_config state_manager_new ?css) = Some c"
    and fin: "cf_threads c = [([], 0), ([], 0)]"
    and fields: "sm_failed_attempts (cf_state c) = 1" "sm_last_error (cf_state c) = None"
    by (simp add: move_def start_config_def thread_prog_def locked_def Let_def push_verification_def
        state_manager_new_def sat_add_def)
  from fields have "\<not> sm_wf (cf_state c)" by (simp add: sm_wf_def)
  then have "\<not> sm_reach (cf_state c)" by (auto simp: sm_reach_run sm_wf_run)
  with run_schedule_creach[OF creach.init c] fin fields show ?thesis by blast
qed

end
