(* ===== verification/Core_Types.thy ===== *)
theory Core_Types
  imports Prelude
begin

text \<open>
  The data model of the core crate: the error enum (\<open>core/src/error.rs\<close>), the credential,
  header, trust anchor and protocol types with their validators (\<open>core/src/types.rs\<close>), and
  the third-party functions the core calls, collected as one record of parameters.
  A fixed-size array \<open>[u8; n]\<close> is a byte list; \<open>array_of\<close> is the length check of the
  conversions that build one.
\<close>

section \<open>Errors\<close>

datatype wallet_error =
    CredentialError string
  | CredentialNotFound
  | CredentialExpired
  | InvalidCredentialFormat
  | ProverErr string
  | ProverNotInitialized
  | ProofGenerationFailed string
  | StorageErr string
  | StorageFull
  | NetworkError string
  | RequestTimeout
  | InvalidInput string
  | ValidationFailed string
  | UnderAge
  | SerializationError string
  | Base64Error string
  | SecurityError string
  | InvalidSignature
  | OperationFailed string
  | Unknown string

fun show_wallet_error :: "wallet_error \<Rightarrow> string" where
  "show_wallet_error (CredentialError m) = ''credential error: '' @ m"
| "show_wallet_error CredentialNotFound = ''credential not found''"
| "show_wallet_error CredentialExpired = ''credential expired''"
| "show_wallet_error InvalidCredentialFormat = ''invalid credential format''"
| "show_wallet_error (ProverErr m) = ''prover error: '' @ m"
| "show_wallet_error ProverNotInitialized = ''prover not initialised''"
| "show_wallet_error (ProofGenerationFailed m) = ''proof generation failed: '' @ m"
| "show_wallet_error (StorageErr m) = ''storage error: '' @ m"
| "show_wallet_error StorageFull = ''storage full''"
| "show_wallet_error (NetworkError m) = ''network error: '' @ m"
| "show_wallet_error RequestTimeout = ''request timeout''"
| "show_wallet_error (InvalidInput m) = ''invalid input: '' @ m"
| "show_wallet_error (ValidationFailed m) = ''validation failed: '' @ m"
| "show_wallet_error UnderAge = ''age requirement not met''"
| "show_wallet_error (SerializationError m) = ''serialisation error: '' @ m"
| "show_wallet_error (Base64Error m) = ''base64 decode error: '' @ m"
| "show_wallet_error (SecurityError m) = ''security error: '' @ m"
| "show_wallet_error InvalidSignature = ''invalid signature''"
| "show_wallet_error (OperationFailed m) = ''operation failed: '' @ m"
| "show_wallet_error (Unknown m) = ''unknown error: '' @ m"

text \<open>\<open>ErrorContext::context\<close>; the error has already been converted into \<open>WalletError\<close>.\<close>

definition error_context :: "string \<Rightarrow> wallet_error + 'a \<Rightarrow> wallet_error + 'a" where
  "error_context c r = map_err (\<lambda>e. OperationFailed (c @ '': '' @ show_wallet_error e)) r"

section \<open>Credentials\<close>

record credential =
  cred_v :: u8
  cred_kid :: string
  cred_issuer_vk :: bytes
  cred_sig_rj :: bytes
  cred_c_bytes :: bytes
  cred_iat :: u64
  cred_exp :: u64
  cred_schema :: string
  cred_dob_days :: "i32 option"
  cred_r_bits :: "bool list option"

record header =
  hdr_v :: u8
  hdr_kid :: string
  hdr_issuer_vk :: bytes
  hdr_sig_rj :: bytes
  hdr_c_bytes :: bytes
  hdr_iat :: u64
  hdr_exp :: u64
  hdr_schema :: string

record cred_metadata =
  cm_id :: string
  cm_label :: "string option"
  cm_imported_at :: u64
  cm_issuer_name :: "string option"

record cred_msg =
  msg_v :: u8
  msg_kid :: string
  msg_c :: bytes
  msg_iat :: u64
  msg_exp :: u64
  msg_schema :: string

section \<open>Third-party code\<close>

text \<open>A JSON value as \<open>serde_json::Value\<close> presents it; an object lists its members.\<close>

datatype json =
    JNull
  | JBool bool
  | JNumber int
  | JString string
  | JArray "json list"
  | JObject "(string \<times> json) list"

fun json_get :: "string \<Rightarrow> json \<Rightarrow> json option" where
  "json_get k (JObject m) = map_of m k"
| "json_get k _ = None"

fun json_str :: "json \<Rightarrow> string option" where
  "json_str (JString s) = Some s"
| "json_str _ = None"

fun json_array :: "json \<Rightarrow> json list option" where
  "json_array (JArray xs) = Some xs"
| "json_array _ = None"

text \<open>
  The functions of other crates the core relies on; an error is its display text. The
  crates are \<open>base64\<close> (the \<open>URL_SAFE_NO_PAD\<close> engine), \<open>serde_json\<close>, \<open>blake3\<close>, \<open>sha2\<close>,
  \<open>provii_crypto_commit\<close> and \<open>provii_crypto_sig_redjubjub\<close>.
\<close>

record externals =
  x_b64_encode :: "bytes \<Rightarrow> string"
  x_b64_decode :: "string \<Rightarrow> string + bytes"
  x_json :: "string \<Rightarrow> string + json"
  x_blake3 :: "bytes \<Rightarrow> bytes"
  x_sha256 :: "bytes \<Rightarrow> bytes"
  x_pedersen :: "i32 \<Rightarrow> bool list \<Rightarrow> string + bytes"
  x_verify_cred :: "cred_msg \<Rightarrow> bytes \<Rightarrow> bytes \<Rightarrow> string + unit"

text \<open>What the documentation of the \<open>base64\<close> engine promises.\<close>

definition b64_roundtrip :: "externals \<Rightarrow> bool" where
  "b64_roundtrip X \<longleftrightarrow> (\<forall>b. x_b64_decode X (x_b64_encode X b) = Inr b)"

lemma b64_roundtripD: "b64_roundtrip X \<Longrightarrow> x_b64_decode X (x_b64_encode X b) = Inr b"
  by (simp add: b64_roundtrip_def)

definition bytes_of_string :: "string \<Rightarrow> bytes" where
  "bytes_of_string s = map (\<lambda>c. word_of_nat (of_char c)) s"

definition string_of_bytes :: "bytes \<Rightarrow> string" where
  "string_of_bytes b = map (\<lambda>w. char_of (unat w)) b"

lemma bytes_of_string_inverse [simp]: "string_of_bytes (bytes_of_string s) = s"
  by (simp add: string_of_bytes_def bytes_of_string_def unat_of_nat o_def)

lemma string_of_bytes_inverse [simp]: "bytes_of_string (string_of_bytes b) = b"
proof -
  have "(word_of_nat (of_char (char_of (unat w) :: char)) :: 8 word) = w" for w :: "8 word"
  proof -
    have "unat w < 2 ^ LENGTH(8)" by (rule unsigned_less)
    then show ?thesis by simp
  qed
  then show ?thesis by (simp add: string_of_bytes_def bytes_of_string_def o_def map_idI)
qed

lemma length_bytes_of_string [simp]: "length (bytes_of_string s) = length s"
  by (simp add: bytes_of_string_def)

lemma length_string_of_bytes [simp]: "length (string_of_bytes s) = length s"
  by (simp add: string_of_bytes_def)

section \<open>Fixed-size arrays on the wire\<close>

text \<open>
  \<open>array_of n\<close> is the length check of the \<open>deserialize\<close> functions; \<open>b64_ser\<close> and
  \<open>b64_array\<close> are the pair of \<open>base64_bytes\<close> (\<open>n = 32\<close>) and \<open>base64_bytes_64\<close> (\<open>n = 64\<close>),
  \<open>array_of 64\<close> that of \<open>sig_bytes\<close>.
\<close>

definition array_of :: "nat \<Rightarrow> bytes \<Rightarrow> string + bytes" where
  "array_of n b =
     (if length b \<noteq> n
      then Inl (''expected '' @ show_nat n @ '' bytes, got '' @ show_nat (length b))
      else Inr b)"

definition b64_ser :: "externals \<Rightarrow> bytes \<Rightarrow> string" where
  "b64_ser X b = x_b64_encode X b"

definition b64_array :: "externals \<Rightarrow> nat \<Rightarrow> string \<Rightarrow> string + bytes" where
  "b64_array X n s = bindR (x_b64_decode X s) (array_of n)"

lemma array_of_Inr_iff [simp]: "array_of n b = Inr c \<longleftrightarrow> length b = n \<and> c = b"
  by (auto simp: array_of_def)

lemma b64_array_ser:
  "b64_roundtrip X \<Longrightarrow> length b = n \<Longrightarrow> b64_array X n (b64_ser X b) = Inr b"
  by (simp add: b64_array_def b64_ser_def b64_roundtripD)

lemma b64_array_length: "b64_array X n s = Inr b \<Longrightarrow> length b = n"
  by (auto simp: b64_array_def bindR_Inr_iff)

end
