(* ===== verification/Platform_Storage.thy ===== *)
theory Platform_Storage
  imports Core_Types "HOL-Library.AList"
begin

text \<open>
  The secure storage interface (\<open>platform-storage/src/lib.rs\<close>): the trait
  \<open>PlatformSecureStorage\<close> as a record of operations on the state of a backend, its key
  rule, the convenience wrapper \<open>SecureStore\<close>, and the contract the trait documents as
  the locale \<open>storage_backend\<close>, with \<open>reliable_backend\<close> for a backend that never fails.
  The in-memory backend of \<open>ffi/src/lib.rs\<close> provides both.
\<close>

section \<open>Types\<close>

record biometric_config =
  bc_reason :: string
  bc_timeout_seconds :: u32

datatype biometric_requirement = BioNone | BioRequired biometric_config

definition biometric_config_default :: biometric_config where
  "biometric_config_default = \<lparr>bc_reason = ''Access your credentials'', bc_timeout_seconds = 30\<rparr>"

definition for_credential_secrets :: biometric_requirement where
  "for_credential_secrets =
     BioRequired (biometric_config_default\<lparr>bc_reason := ''Authenticate to access credential secrets''\<rparr>)"

definition for_export :: biometric_requirement where
  "for_export = BioRequired (biometric_config_default\<lparr>bc_reason := ''Authenticate to export credential''\<rparr>)"

definition for_delete :: biometric_requirement where
  "for_delete = BioRequired (biometric_config_default\<lparr>bc_reason := ''Authenticate to delete credential''\<rparr>)"

datatype platform_error =
    PStorage string
  | PNotFound
  | PAlreadyExists
  | PNotSupported
  | PBiometricRequired
  | PBiometricFailed string

fun show_platform_error :: "platform_error \<Rightarrow> string" where
  "show_platform_error (PStorage m) = ''Storage error: '' @ m"
| "show_platform_error PNotFound = ''Not found''"
| "show_platform_error PAlreadyExists = ''Already exists''"
| "show_platform_error PNotSupported = ''Operation not supported''"
| "show_platform_error PBiometricRequired = ''Biometric authentication required''"
| "show_platform_error (PBiometricFailed m) = ''Biometric authentication failed: '' @ m"

section \<open>The storage trait\<close>

record 's backend =
  be_store :: "string \<Rightarrow> bytes \<Rightarrow> biometric_requirement \<Rightarrow> ('s, platform_error, unit) op"
  be_retrieve :: "string \<Rightarrow> biometric_requirement \<Rightarrow> ('s, platform_error, bytes) op"
  be_delete :: "string \<Rightarrow> ('s, platform_error, unit) op"
  be_exists :: "string \<Rightarrow> ('s, platform_error, bool) op"
  be_list_keys :: "('s, platform_error, string list) op"

definition key_char :: "char \<Rightarrow> bool" where
  "key_char c \<longleftrightarrow>
     (let n = (of_char c :: nat)
      in (48 \<le> n \<and> n \<le> 57) \<or> (65 \<le> n \<and> n \<le> 90) \<or> (97 \<le> n \<and> n \<le> 122)
       \<or> c = CHR ''_'' \<or> c = CHR ''.'' \<or> c = CHR ''-'')"

definition validate_key :: "string \<Rightarrow> platform_error + unit" where
  "validate_key key =
     (if key = [] then Inl (PStorage ''Key cannot be empty'')
      else if length key > 255 then Inl (PStorage ''Key too long (max 255 bytes)'')
      else if \<not> list_all key_char key
      then Inl (PStorage (''Key contains invalid characters (allowed: ASCII alphanumeric, '' @
             [CHR 0x27] @ ''_'' @ [CHR 0x27] @ '', '' @ [CHR 0x27] @ ''.'' @ [CHR 0x27] @ '', '' @
             [CHR 0x27] @ ''-'' @ [CHR 0x27] @ '')''))
      else Inr ())"

section \<open>The convenience wrapper\<close>

definition store_string :: "'s backend \<Rightarrow> string \<Rightarrow> string \<Rightarrow> ('s, platform_error, unit) op" where
  "store_string B key v = be_store B key (bytes_of_string v) BioNone"

text \<open>\<open>std::str::from_utf8\<close>: the well-formed byte sequences of the Unicode standard.\<close>

definition in_range :: "nat \<Rightarrow> nat \<Rightarrow> nat \<Rightarrow> bool" where
  "in_range lo hi n \<longleftrightarrow> lo \<le> n \<and> n \<le> hi"

fun utf8_ok :: "nat list \<Rightarrow> bool" where
  "utf8_ok [] = True"
| "utf8_ok (a # xs) =
     (if a < 128 then utf8_ok xs
      else case xs of
        b # ys \<Rightarrow>
          (if in_range 194 223 a then in_range 128 191 b \<and> utf8_ok ys
           else case ys of
             c # zs \<Rightarrow>
               (if in_range 224 239 a
                then in_range (if a = 224 then 160 else 128) (if a = 237 then 159 else 191) b
                   \<and> in_range 128 191 c \<and> utf8_ok zs
                else case zs of
                  d # ws \<Rightarrow> in_range 240 244 a
                    \<and> in_range (if a = 240 then 144 else 128) (if a = 244 then 143 else 191) b
                    \<and> in_range 128 191 c \<and> in_range 128 191 d \<and> utf8_ok ws
                | [] \<Rightarrow> False)
           | [] \<Rightarrow> False)
      | [] \<Rightarrow> False)"

text \<open>\<open>utf8_msg\<close> is the display text of the \<open>Utf8Error\<close>.\<close>

definition retrieve_string ::
    "'s backend \<Rightarrow> (bytes \<Rightarrow> string) \<Rightarrow> string \<Rightarrow> ('s, platform_error, string) op" where
  "retrieve_string B utf8_msg key =
     bindS (be_retrieve B key BioNone) (\<lambda>b.
       pureS (if utf8_ok (map unat b) then Inr (string_of_bytes b)
              else Inl (PStorage (''Invalid UTF-8: '' @ utf8_msg b))))"

text \<open>The JSON and postcard variants, over the encoder and decoder of the value's type.\<close>

definition store_json :: "'s backend \<Rightarrow> ('v \<Rightarrow> string + bytes) \<Rightarrow> string \<Rightarrow> 'v \<Rightarrow> ('s, platform_error, unit) op" where
  "store_json B enc key v =
     bindS (pureS (map_err (\<lambda>e. PStorage (''JSON serialisation failed: '' @ e)) (enc v)))
       (\<lambda>b. be_store B key b BioNone)"

definition retrieve_json :: "'s backend \<Rightarrow> (bytes \<Rightarrow> string + 'v) \<Rightarrow> string \<Rightarrow> ('s, platform_error, 'v) op" where
  "retrieve_json B dec key =
     bindS (be_retrieve B key BioNone) (\<lambda>b.
       pureS (map_err (\<lambda>e. PStorage (''JSON deserialisation failed: '' @ e)) (dec b)))"

definition store_postcard :: "'s backend \<Rightarrow> ('v \<Rightarrow> string + bytes) \<Rightarrow> string \<Rightarrow> 'v \<Rightarrow> ('s, platform_error, unit) op" where
  "store_postcard B enc key v =
     bindS (pureS (map_err (\<lambda>e. PStorage (''Postcard serialisation failed: '' @ e)) (enc v)))
       (\<lambda>b. be_store B key b BioNone)"

definition retrieve_postcard :: "'s backend \<Rightarrow> (bytes \<Rightarrow> string + 'v) \<Rightarrow> string \<Rightarrow> ('s, platform_error, 'v) op" where
  "retrieve_postcard B dec key =
     bindS (be_retrieve B key BioNone) (\<lambda>b.
       pureS (map_err (\<lambda>e. PStorage (''Postcard deserialisation failed: '' @ e)) (dec b)))"

definition store_with_bio ::
    "'s backend \<Rightarrow> string \<Rightarrow> bytes \<Rightarrow> biometric_requirement \<Rightarrow> ('s, platform_error, unit) op" where
  "store_with_bio B key data bio = be_store B key data bio"

definition retrieve_with_bio ::
    "'s backend \<Rightarrow> string \<Rightarrow> biometric_requirement \<Rightarrow> ('s, platform_error, bytes) op" where
  "retrieve_with_bio B key bio = be_retrieve B key bio"

definition list_keys_with_prefix :: "'s backend \<Rightarrow> string \<Rightarrow> ('s, platform_error, string list) op" where
  "list_keys_with_prefix B prefix =
     bindS (be_list_keys B) (\<lambda>ks. pureS (Inr (filter (starts_with prefix) ks)))"

fun delete_loop ::
    "'s backend \<Rightarrow> string list \<Rightarrow> platform_error option \<Rightarrow> 's \<Rightarrow> platform_error option \<times> 's" where
  "delete_loop B [] first_error s = (first_error, s)"
| "delete_loop B (k # ks) first_error s =
     (case be_delete B k s of
        (Inr _, s') \<Rightarrow> delete_loop B ks first_error s'
      | (Inl e, s') \<Rightarrow> delete_loop B ks (if first_error = None then Some e else first_error) s')"

definition delete_prefix :: "'s backend \<Rightarrow> string \<Rightarrow> ('s, platform_error, nat) op" where
  "delete_prefix B prefix =
     bindS (list_keys_with_prefix B prefix) (\<lambda>ks s.
       case delete_loop B ks None s of
         (Some e, s') \<Rightarrow> (Inl e, s')
       | (None, s') \<Rightarrow> (Inr (length ks), s'))"

section \<open>The in-memory backend\<close>

text \<open>
  \<open>MemoryStorage\<close> keeps a hash map, here an association list; the order of \<open>keys()\<close> is not
  specified by Rust and nothing below depends on it. Its mutex is never poisoned, because
  no code that holds it panics.
\<close>

type_synonym memory = "(string \<times> bytes) list"

definition memory_backend :: "memory backend" where
  "memory_backend =
     \<lparr>be_store = (\<lambda>key v _ m. (Inr (), AList.update key v m)),
      be_retrieve = (\<lambda>key _ m.
        (case map_of m key of
           Some v \<Rightarrow> (Inr v, m)
         | None \<Rightarrow> (Inl (PStorage ''NotFound''), m))),
      be_delete = (\<lambda>key m. (Inr (), AList.delete key m)),
      be_exists = (\<lambda>key m. (Inr (map_of m key \<noteq> None), m)),
      be_list_keys = (\<lambda>m. (Inr (map fst m), m))\<rparr>"

section \<open>The contract\<close>

text \<open>
  \<open>view\<close> is the key-value map a backend's state stands for. An operation either does what
  the trait documents or fails without an effect; a missing key is reported as the storage
  error \<open>NotFound\<close>, the form the callers test for.
\<close>

locale storage_backend =
  fixes B :: "'s backend"
    and view :: "'s \<Rightarrow> string \<Rightarrow> bytes option"
    and inv :: "'s \<Rightarrow> bool"
  assumes store_law: "inv s \<Longrightarrow> be_store B k d bio s = (r, s') \<Longrightarrow>
      inv s' \<and> (case r of Inr _ \<Rightarrow> view s' = (view s)(k \<mapsto> d) | Inl _ \<Rightarrow> view s' = view s)"
    and retrieve_law: "inv s \<Longrightarrow> be_retrieve B k bio s = (rb, s') \<Longrightarrow>
      inv s' \<and> view s' = view s \<and> (\<forall>d. rb = Inr d \<longrightarrow> view s k = Some d)"
    and delete_law: "inv s \<Longrightarrow> be_delete B k s = (r, s') \<Longrightarrow>
      inv s' \<and> (case r of Inr _ \<Rightarrow> view s' = (view s)(k := None) | Inl _ \<Rightarrow> view s' = view s)"
    and exists_law: "inv s \<Longrightarrow> be_exists B k s = (rx, s') \<Longrightarrow>
      inv s' \<and> view s' = view s \<and> (\<forall>b. rx = Inr b \<longrightarrow> b = (view s k \<noteq> None))"
    and list_law: "inv s \<Longrightarrow> be_list_keys B s = (rl, s') \<Longrightarrow>
      inv s' \<and> view s' = view s \<and> (\<forall>ks. rl = Inr ks \<longrightarrow> distinct ks \<and> set ks = dom (view s))"
begin

lemma delete_loop_frame:
  assumes "inv s" "delete_loop B ks e s = (r, s')"
  shows "inv s' \<and> (\<forall>k. k \<notin> set ks \<longrightarrow> view s' k = view s k)
    \<and> (\<forall>k. view s' k = view s k \<or> view s' k = None)
    \<and> (r = None \<longrightarrow> e = None \<and> (\<forall>k \<in> set ks. view s' k = None))"
  using assms
proof (induction ks arbitrary: s e)
  case (Cons k ks)
  obtain d s1 where d: "be_delete B k s = (d, s1)" by fastforce
  from delete_law[OF Cons.prems(1) d] have inv1: "inv s1" by simp
  define e1 where "e1 = (case d of Inr _ \<Rightarrow> e | Inl x \<Rightarrow> if e = None then Some x else e)"
  have "delete_loop B ks e1 s1 = (r, s')"
    using Cons.prems(2) d by (auto simp: e1_def split: sum.splits)
  from Cons.IH[OF inv1 this] show ?case
    using delete_law[OF Cons.prems(1) d] by (auto simp: e1_def split: sum.splits if_splits)
       (metis option.simps(3))+
qed auto

end

locale reliable_backend = storage_backend +
  assumes store_ok: "inv s \<Longrightarrow> \<exists>s'. be_store B k d bio s = (Inr (), s')"
    and retrieve_some: "inv s \<Longrightarrow> view s k = Some d \<Longrightarrow> \<exists>s'. be_retrieve B k bio s = (Inr d, s')"
    and retrieve_none: "inv s \<Longrightarrow> view s k = None \<Longrightarrow>
      \<exists>s'. be_retrieve B k bio s = (Inl (PStorage ''NotFound''), s')"
    and delete_ok: "inv s \<Longrightarrow> \<exists>s'. be_delete B k s = (Inr (), s')"
    and exists_ok: "inv s \<Longrightarrow> \<exists>s'. be_exists B k s = (Inr (view s k \<noteq> None), s')"
    and list_ok: "inv s \<Longrightarrow> \<exists>ks s'. be_list_keys B s = (Inr ks, s')"

definition memory_inv :: "memory \<Rightarrow> bool" where
  "memory_inv m \<longleftrightarrow> distinct (map fst m)"

interpretation mem: reliable_backend memory_backend map_of memory_inv
proof (standard, goal_cases)
  case (1 s k d bio r s')
  then show ?case by (auto simp: memory_backend_def memory_inv_def update_conv' distinct_update)
next
  case (2 s k bio r s')
  then show ?case by (auto simp: memory_backend_def split: option.splits)
next
  case (3 s k r s')
  then show ?case by (auto simp: memory_backend_def memory_inv_def delete_conv' distinct_delete)
next
  case (5 s r s')
  then show ?case by (auto simp: memory_backend_def memory_inv_def dom_map_of_conv_image_fst) force
qed (auto simp: memory_backend_def)

end
