(* ===== verification/Storage_Keys.thy ===== *)
theory Storage_Keys
  imports Prelude
begin

text \<open>
  The key scheme of the credential storage (\<open>ffi/src/storage.rs\<close>): namespaces, slots, the
  prefixes of public and secret records, and the parsing of a key back into its namespace
  and slot. The lemmas show that the prefixes of different namespaces, slots and record
  kinds never overlap, which the isolation properties of the operations rest on.
\<close>

section \<open>Namespaces, slots and prefixes\<close>

datatype credential_slot = SlotPrimary | SlotManaged u8

datatype credential_namespace = NsPrimary | NsSandbox | NsUnknown

definition MAX_MANAGED_SLOTS :: nat where
  "MAX_MANAGED_SLOTS = 15"

definition PRIMARY_CRED_PRIMARY_PREFIX :: string where
  "PRIMARY_CRED_PRIMARY_PREFIX = ''provii.cred.primary.''"
definition PRIMARY_CREDSEC_PRIMARY_PREFIX :: string where
  "PRIMARY_CREDSEC_PRIMARY_PREFIX = ''provii.credsec.primary.''"
definition SANDBOX_CRED_PRIMARY_PREFIX :: string where
  "SANDBOX_CRED_PRIMARY_PREFIX = ''provii.sandbox.cred.primary.''"
definition SANDBOX_CREDSEC_PRIMARY_PREFIX :: string where
  "SANDBOX_CREDSEC_PRIMARY_PREFIX = ''provii.sandbox.credsec.primary.''"
definition PRIMARY_CRED_MANAGED_PREFIX :: string where
  "PRIMARY_CRED_MANAGED_PREFIX = ''provii.cred.managed.''"
definition PRIMARY_CREDSEC_MANAGED_PREFIX :: string where
  "PRIMARY_CREDSEC_MANAGED_PREFIX = ''provii.credsec.managed.''"
definition SANDBOX_CRED_MANAGED_PREFIX :: string where
  "SANDBOX_CRED_MANAGED_PREFIX = ''provii.sandbox.cred.managed.''"
definition SANDBOX_CREDSEC_MANAGED_PREFIX :: string where
  "SANDBOX_CREDSEC_MANAGED_PREFIX = ''provii.sandbox.credsec.managed.''"

lemmas prefix_defs [key_simps] =
  PRIMARY_CRED_PRIMARY_PREFIX_def PRIMARY_CREDSEC_PRIMARY_PREFIX_def
  SANDBOX_CRED_PRIMARY_PREFIX_def SANDBOX_CREDSEC_PRIMARY_PREFIX_def
  PRIMARY_CRED_MANAGED_PREFIX_def PRIMARY_CREDSEC_MANAGED_PREFIX_def
  SANDBOX_CRED_MANAGED_PREFIX_def SANDBOX_CREDSEC_MANAGED_PREFIX_def

definition ALL_CRED_PREFIXES :: "string list" where
  "ALL_CRED_PREFIXES =
     [PRIMARY_CRED_PRIMARY_PREFIX, PRIMARY_CRED_MANAGED_PREFIX,
      SANDBOX_CRED_PRIMARY_PREFIX, SANDBOX_CRED_MANAGED_PREFIX]"

definition ALL_CREDSEC_PREFIXES :: "string list" where
  "ALL_CREDSEC_PREFIXES =
     [PRIMARY_CREDSEC_PRIMARY_PREFIX, PRIMARY_CREDSEC_MANAGED_PREFIX,
      SANDBOX_CREDSEC_PRIMARY_PREFIX, SANDBOX_CREDSEC_MANAGED_PREFIX]"

definition storage_key_suffix :: "credential_slot \<Rightarrow> string" where
  "storage_key_suffix slot =
     (case slot of SlotPrimary \<Rightarrow> ''primary'' | SlotManaged i \<Rightarrow> ''managed.'' @ show_nat (unat i))"

fun prefixes_for_slot :: "credential_namespace \<Rightarrow> credential_slot \<Rightarrow> string \<times> string" where
  "prefixes_for_slot NsPrimary SlotPrimary =
     (PRIMARY_CRED_PRIMARY_PREFIX, PRIMARY_CREDSEC_PRIMARY_PREFIX)"
| "prefixes_for_slot NsPrimary (SlotManaged i) =
     (PRIMARY_CRED_MANAGED_PREFIX @ show_nat (unat i) @ ''.'',
      PRIMARY_CREDSEC_MANAGED_PREFIX @ show_nat (unat i) @ ''.'')"
| "prefixes_for_slot NsSandbox SlotPrimary =
     (SANDBOX_CRED_PRIMARY_PREFIX, SANDBOX_CREDSEC_PRIMARY_PREFIX)"
| "prefixes_for_slot NsSandbox (SlotManaged i) =
     (SANDBOX_CRED_MANAGED_PREFIX @ show_nat (unat i) @ ''.'',
      SANDBOX_CREDSEC_MANAGED_PREFIX @ show_nat (unat i) @ ''.'')"
| "prefixes_for_slot NsUnknown SlotPrimary =
     (PRIMARY_CRED_PRIMARY_PREFIX, PRIMARY_CREDSEC_PRIMARY_PREFIX)"
| "prefixes_for_slot NsUnknown (SlotManaged i) =
     (PRIMARY_CRED_MANAGED_PREFIX @ show_nat (unat i) @ ''.'',
      PRIMARY_CREDSEC_MANAGED_PREFIX @ show_nat (unat i) @ ''.'')"

definition from_label :: "string option \<Rightarrow> credential_namespace" where
  "from_label label =
     (case label of
        Some l \<Rightarrow> (if eq_ignore_case l ''sandbox'' then NsSandbox else NsPrimary)
      | None \<Rightarrow> NsPrimary)"

definition parse_managed_index_from_key :: "string \<Rightarrow> bool \<Rightarrow> u8" where
  "parse_managed_index_from_key key sandbox =
     (let prefix = (if sandbox
                    then (if starts_with SANDBOX_CRED_MANAGED_PREFIX key
                          then SANDBOX_CRED_MANAGED_PREFIX else SANDBOX_CREDSEC_MANAGED_PREFIX)
                    else if starts_with PRIMARY_CRED_MANAGED_PREFIX key
                    then PRIMARY_CRED_MANAGED_PREFIX else PRIMARY_CREDSEC_MANAGED_PREFIX);
          remainder = (case strip_prefix prefix key of Some r \<Rightarrow> r | None \<Rightarrow> ''0'')
      in case parse_u8 (first_part (CHR ''.'') remainder) of Some i \<Rightarrow> i | None \<Rightarrow> 0)"

definition from_credential_id :: "string \<Rightarrow> credential_namespace \<times> credential_slot" where
  "from_credential_id key =
     (if starts_with SANDBOX_CRED_MANAGED_PREFIX key \<or> starts_with SANDBOX_CREDSEC_MANAGED_PREFIX key
      then (NsSandbox, SlotManaged (parse_managed_index_from_key key True))
      else if starts_with SANDBOX_CRED_PRIMARY_PREFIX key \<or> starts_with SANDBOX_CREDSEC_PRIMARY_PREFIX key
      then (NsSandbox, SlotPrimary)
      else if starts_with PRIMARY_CRED_MANAGED_PREFIX key \<or> starts_with PRIMARY_CREDSEC_MANAGED_PREFIX key
      then (NsPrimary, SlotManaged (parse_managed_index_from_key key False))
      else if starts_with PRIMARY_CRED_PRIMARY_PREFIX key \<or> starts_with PRIMARY_CREDSEC_PRIMARY_PREFIX key
      then (NsPrimary, SlotPrimary)
      else (NsUnknown, SlotPrimary))"

definition is_credential_key :: "string \<Rightarrow> bool" where
  "is_credential_key key \<longleftrightarrow>
     (\<exists>p \<in> set ALL_CRED_PREFIXES. starts_with p key)
   \<and> \<not> (\<exists>p \<in> set ALL_CREDSEC_PREFIXES. starts_with p key)"

text \<open>
  \<open>key.strip_prefix(&cred_prefix).unwrap_or(key)\<close> behind the slot's secrets prefix: the
  key of the secrets record that belongs to a public record.
\<close>

definition secrets_key :: "string \<Rightarrow> string" where
  "secrets_key cred_id =
     (let (ns, slot) = from_credential_id cred_id;
          (cred_prefix, credsec_prefix) = prefixes_for_slot ns slot;
          base_id = (case strip_prefix cred_prefix cred_id of Some b \<Rightarrow> b | None \<Rightarrow> cred_id)
      in credsec_prefix @ base_id)"

section \<open>The prefixes do not overlap\<close>

abbreviation cred_prefix :: "credential_namespace \<Rightarrow> credential_slot \<Rightarrow> string" where
  "cred_prefix ns slot \<equiv> fst (prefixes_for_slot ns slot)"

abbreviation sec_prefix :: "credential_namespace \<Rightarrow> credential_slot \<Rightarrow> string" where
  "sec_prefix ns slot \<equiv> snd (prefixes_for_slot ns slot)"

text \<open>The namespace whose prefixes are used: an unrecognised one counts as production.\<close>

fun effective :: "credential_namespace \<Rightarrow> credential_namespace" where
  "effective NsUnknown = NsPrimary"
| "effective ns = ns"

lemma prefixes_effective [simp]: "prefixes_for_slot (effective ns) slot = prefixes_for_slot ns slot"
  by (cases ns; cases slot) auto

lemma effective_from_label [simp]: "effective (from_label l) = from_label l"
  by (simp add: from_label_def split: option.split)

lemma not_digit_dot: "\<not> is_digit (CHR ''.'')"
  by (simp add: is_digit_def)

lemma parse_index_part:
  "(case parse_u8 (first_part (CHR ''.'') (show_nat (unat i) @ CHR ''.'' # b)) of Some j \<Rightarrow> j | None \<Rightarrow> 0) = i"
  by (simp add: first_part_number not_digit_dot)

lemma parse_index_of_prefix:
  "parse_managed_index_from_key (cred_prefix ns (SlotManaged i) @ b) (effective ns = NsSandbox) = i"
  "parse_managed_index_from_key (sec_prefix ns (SlotManaged i) @ b) (effective ns = NsSandbox) = i"
proof -
  have *: "strip_prefix p (p @ r) = Some r" for p r :: string by simp
  show "parse_managed_index_from_key (cred_prefix ns (SlotManaged i) @ b) (effective ns = NsSandbox) = i"
    by (cases ns) (simp_all add: parse_managed_index_from_key_def parse_index_part)
  have "\<not> starts_with PRIMARY_CRED_MANAGED_PREFIX (PRIMARY_CREDSEC_MANAGED_PREFIX @ r)"
    "\<not> starts_with SANDBOX_CRED_MANAGED_PREFIX (SANDBOX_CREDSEC_MANAGED_PREFIX @ r)" for r
    by (simp_all add: starts_with_def key_simps)
  then show "parse_managed_index_from_key (sec_prefix ns (SlotManaged i) @ b) (effective ns = NsSandbox) = i"
    by (cases ns) (simp_all add: parse_managed_index_from_key_def parse_index_part)
qed

lemma from_credential_id_prefix:
  "from_credential_id (cred_prefix ns slot @ b) = (effective ns, slot)"
  "from_credential_id (sec_prefix ns slot @ b) = (effective ns, slot)"
proof -
  show "from_credential_id (cred_prefix ns slot @ b) = (effective ns, slot)"
    using parse_index_of_prefix(1)[of ns _ b]
    by (cases ns; cases slot) (simp_all add: from_credential_id_def starts_with_def key_simps)
  show "from_credential_id (sec_prefix ns slot @ b) = (effective ns, slot)"
    using parse_index_of_prefix(2)[of ns _ b]
    by (cases ns; cases slot) (simp_all add: from_credential_id_def starts_with_def key_simps)
qed

lemma secrets_key_prefix [simp]: "secrets_key (cred_prefix ns slot @ b) = sec_prefix ns slot @ b"
  by (simp add: secrets_key_def from_credential_id_prefix Let_def split: prod.split)

lemma cred_not_sec_prefix:
  "starts_with (cred_prefix ns slot) k \<Longrightarrow> starts_with (sec_prefix ns' slot') k \<Longrightarrow> False"
  by (cases ns; cases slot; cases ns'; cases slot') (auto simp: starts_with_iff key_simps)

text \<open>The keys of a slot: its public records and its secrets.\<close>

definition slot_keys :: "credential_namespace \<Rightarrow> credential_slot \<Rightarrow> string set" where
  "slot_keys ns slot = {k. starts_with (cred_prefix ns slot) k \<or> starts_with (sec_prefix ns slot) k}"

lemma slot_keys_iff: "k \<in> slot_keys ns slot \<longleftrightarrow>
    (\<exists>b. k = cred_prefix ns slot @ b) \<or> (\<exists>b. k = sec_prefix ns slot @ b)"
  by (auto simp: slot_keys_def starts_with_iff)

lemma slot_keys_class: "k \<in> slot_keys ns slot \<Longrightarrow> from_credential_id k = (effective ns, slot)"
  by (auto simp: slot_keys_iff from_credential_id_prefix)

lemma slot_keys_disjoint:
  "(effective ns, slot) \<noteq> (effective ns', slot') \<Longrightarrow> slot_keys ns slot \<inter> slot_keys ns' slot' = {}"
  by (auto dest!: slot_keys_class)

lemma is_credential_key_simp:
  "is_credential_key key \<longleftrightarrow> (\<exists>p \<in> set ALL_CRED_PREFIXES. starts_with p key)"
  by (auto simp: is_credential_key_def ALL_CRED_PREFIXES_def ALL_CREDSEC_PREFIXES_def
      starts_with_iff key_simps)

lemma is_credential_key_cred [simp]: "is_credential_key (cred_prefix ns slot @ b)"
  by (cases ns; cases slot) (simp_all add: is_credential_key_simp ALL_CRED_PREFIXES_def)

lemma not_credential_key_sec [simp]: "\<not> is_credential_key (sec_prefix ns slot @ b)"
  by (cases ns; cases slot) (auto simp: is_credential_key_simp ALL_CRED_PREFIXES_def starts_with_iff key_simps)

end
