(* ===== verification/Credential.thy ===== *)
theory Credential
  imports Core_Types
begin

text \<open>
  Credential lifecycle (\<open>core/src/credential.rs\<close>): parsing with the secret fields stripped,
  temporal validity, the readiness check for proving, storage keys, fingerprints and the
  query helpers over a credential store (\<open>core/src/storage.rs\<close>).
\<close>

section \<open>Errors\<close>

datatype credential_error =
    InvalidJson string
  | MissingPrivateFields
  | InvalidFormat
  | Expired
  | NotYetValid
  | InvalidTimestampOrder u64 u64
  | UnsupportedVersion u8

section \<open>Operations\<close>

definition R_BITS_LEN :: nat where
  "R_BITS_LEN = 128"

definition redacted :: "credential \<Rightarrow> credential" where
  "redacted c = c\<lparr>cred_dob_days := None, cred_r_bits := None\<rparr>"

definition validate_timestamp_order :: "credential \<Rightarrow> credential_error + unit" where
  "validate_timestamp_order c =
     (if cred_iat c > cred_exp c then Inl (InvalidTimestampOrder (cred_iat c) (cred_exp c))
      else Inr ())"

text \<open>\<open>parse\<close> is \<open>serde_json::from_str\<close> at the derived schema of the credential.\<close>

definition from_json :: "(string \<Rightarrow> string + credential) \<Rightarrow> string \<Rightarrow> credential_error + credential" where
  "from_json parse s =
     bindR (map_err InvalidJson (parse s)) (\<lambda>c.
       if cred_v c \<noteq> 2 then Inl (UnsupportedVersion (cred_v c))
       else if length (cred_kid c) > 256 then Inl InvalidFormat
       else if length (cred_schema c) > 256 then Inl InvalidFormat
       else let c' = c\<lparr>cred_dob_days := None, cred_r_bits := None\<rparr>
            in bindR (validate_timestamp_order c') (\<lambda>_. Inr c'))"

text \<open>\<open>print\<close> is \<open>serde_json::to_string\<close> or \<open>to_string_pretty\<close>.\<close>

definition to_json :: "(credential \<Rightarrow> string + string) \<Rightarrow> credential \<Rightarrow> string + string" where
  "to_json print c = print (redacted c)"

definition has_private_fields :: "credential \<Rightarrow> bool" where
  "has_private_fields c \<longleftrightarrow>
     cred_dob_days c \<noteq> None \<and> (case cred_r_bits c of None \<Rightarrow> False | Some r \<Rightarrow> r \<noteq> [])"

definition validate_for_proving :: "credential \<Rightarrow> credential_error + unit" where
  "validate_for_proving c =
     (if cred_dob_days c = None then Inl MissingPrivateFields
      else case cred_r_bits c of
             Some r \<Rightarrow> (if length r = R_BITS_LEN then Inr () else Inl MissingPrivateFields)
           | None \<Rightarrow> Inl MissingPrivateFields)"

definition cred_is_expired :: "credential \<Rightarrow> u64 \<Rightarrow> bool" where
  "cred_is_expired c now \<longleftrightarrow> cred_exp c < now"

definition is_valid_at :: "credential \<Rightarrow> u64 \<Rightarrow> credential_error + unit" where
  "is_valid_at c t =
     (if t < cred_iat c then Inl NotYetValid
      else if t > cred_exp c then Inl Expired
      else Inr ())"

definition hex_digit :: "nat \<Rightarrow> char" where
  "hex_digit n = (if n < 10 then char_of (48 + n) else char_of (87 + n))"

definition hex_encode :: "bytes \<Rightarrow> string" where
  "hex_encode b = concat (map (\<lambda>w. [hex_digit (unat w div 16), hex_digit (unat w mod 16)]) b)"

definition storage_key :: "externals \<Rightarrow> credential \<Rightarrow> string" where
  "storage_key X c = ''provii.cred.'' @ hex_encode (x_blake3 X (cred_c_bytes c))"

definition credential_id :: "externals \<Rightarrow> credential \<Rightarrow> string" where
  "credential_id X c = hex_encode (x_blake3 X (cred_c_bytes c))"

definition to_metadata :: "externals \<Rightarrow> u64 \<Rightarrow> credential \<Rightarrow> string option \<Rightarrow> cred_metadata" where
  "to_metadata X now c label =
     \<lparr>cm_id = credential_id X c, cm_label = label, cm_imported_at = now,
      cm_issuer_name = Some (cred_kid c)\<rparr>"

definition fingerprint :: "externals \<Rightarrow> credential \<Rightarrow> bytes" where
  "fingerprint X c =
     x_sha256 X (cred_issuer_vk c @ cred_sig_rj c @ cred_c_bytes c @ bytes_of_string (cred_schema c))"

definition validate_credentials :: "credential list \<Rightarrow> u64 \<Rightarrow> (credential_error + unit) list" where
  "validate_credentials cs now =
     map (\<lambda>c. bindR (validate_for_proving c) (\<lambda>_. bindR (is_valid_at c now) (\<lambda>_. Inr ()))) cs"

text \<open>\<open>utils.rs\<close>: the comparison of signed day numbers.\<close>

definition validate_age :: "i32 \<Rightarrow> i32 \<Rightarrow> bool \<Rightarrow> bool" where
  "validate_age dob_days cutoff_days is_under_age =
     (if is_under_age then cutoff_days \<le>s dob_days else dob_days \<le>s cutoff_days)"

section \<open>Queries over a store\<close>

datatype storage_error =
    StoreOperationFailed string
  | StoreNotFound
  | StoreAlreadyExists
  | StoreFull
  | StoreSerialization string

text \<open>
  The three methods of the \<open>SecureStore\<close> trait the helpers call. An operation takes the
  state of the backend and returns the new one.
\<close>

record 's cred_store =
  cs_list :: "'s \<Rightarrow> (storage_error + cred_metadata list) \<times> 's"
  cs_get :: "string \<Rightarrow> 's \<Rightarrow> (storage_error + credential option) \<times> 's"
  cs_delete :: "string \<Rightarrow> 's \<Rightarrow> (storage_error + bool) \<times> 's"

fun find_best_loop ::
    "'s cred_store \<Rightarrow> i32 \<Rightarrow> bool \<Rightarrow> cred_metadata list \<Rightarrow> 's \<Rightarrow> (storage_error + credential option) \<times> 's" where
  "find_best_loop S cutoff young [] s = (Inr None, s)"
| "find_best_loop S cutoff young (m # ms) s =
     (case cs_get S (cm_id m) s of
        (Inl e, s') \<Rightarrow> (Inl e, s')
      | (Inr None, s') \<Rightarrow> find_best_loop S cutoff young ms s'
      | (Inr (Some c), s') \<Rightarrow>
          (case cred_dob_days c of
             Some d \<Rightarrow> (if validate_age d cutoff young then (Inr (Some c), s')
                        else find_best_loop S cutoff young ms s')
           | None \<Rightarrow> find_best_loop S cutoff young ms s'))"

definition find_best_credential ::
    "'s cred_store \<Rightarrow> i32 \<Rightarrow> bool \<Rightarrow> 's \<Rightarrow> (storage_error + credential option) \<times> 's" where
  "find_best_credential S cutoff young s =
     (case cs_list S s of
        (Inl e, s') \<Rightarrow> (Inl e, s')
      | (Inr ms, s') \<Rightarrow> find_best_loop S cutoff young ms s')"

definition count_credentials :: "'s cred_store \<Rightarrow> 's \<Rightarrow> (storage_error + nat) \<times> 's" where
  "count_credentials S s =
     (case cs_list S s of (Inl e, s') \<Rightarrow> (Inl e, s') | (Inr ms, s') \<Rightarrow> (Inr (length ms), s'))"

fun cleanup_loop ::
    "'s cred_store \<Rightarrow> u64 \<Rightarrow> cred_metadata list \<Rightarrow> nat \<Rightarrow> 's \<Rightarrow> (storage_error + nat) \<times> 's" where
  "cleanup_loop S now [] removed s = (Inr removed, s)"
| "cleanup_loop S now (m # ms) removed s =
     (case cs_get S (cm_id m) s of
        (Inl e, s') \<Rightarrow> (Inl e, s')
      | (Inr None, s') \<Rightarrow> cleanup_loop S now ms removed s'
      | (Inr (Some c), s') \<Rightarrow>
          (if cred_exp c < now
           then (case cs_delete S (cm_id m) s' of
                   (Inl e, s'') \<Rightarrow> (Inl e, s'')
                 | (Inr _, s'') \<Rightarrow> cleanup_loop S now ms (removed + 1) s'')
           else cleanup_loop S now ms removed s'))"

definition cleanup_expired :: "'s cred_store \<Rightarrow> u64 \<Rightarrow> 's \<Rightarrow> (storage_error + nat) \<times> 's" where
  "cleanup_expired S now s =
     (case cs_list S s of
        (Inl e, s') \<Rightarrow> (Inl e, s')
      | (Inr ms, s') \<Rightarrow> cleanup_loop S now ms 0 s')"

section \<open>Lemmas\<close>

lemma hex_digit_of: "n < 16 \<Longrightarrow> (of_char (hex_digit n) :: nat) = (if n < 10 then 48 + n else 87 + n)"
  by (simp add: hex_digit_def)

lemma hex_digit_inj: "m < 16 \<Longrightarrow> n < 16 \<Longrightarrow> hex_digit m = hex_digit n \<longleftrightarrow> m = n"
proof
  assume le: "m < 16" "n < 16" and "hex_digit m = hex_digit n"
  then have "(of_char (hex_digit m) :: nat) = of_char (hex_digit n)" by simp
  with le show "m = n" by (simp add: hex_digit_of split: if_splits)
qed simp

lemma hex_encode_Nil [simp]: "hex_encode [] = []"
  by (simp add: hex_encode_def)

lemma hex_encode_Cons:
  "hex_encode (w # b) = hex_digit (unat w div 16) # hex_digit (unat w mod 16) # hex_encode b"
  by (simp add: hex_encode_def)

lemma length_hex_encode [simp]: "length (hex_encode b) = 2 * length b"
  by (induction b) (simp_all add: hex_encode_Cons)

lemma byte_nibbles: "unat v div 16 = unat w div 16 \<Longrightarrow> unat v mod 16 = unat w mod 16 \<Longrightarrow> v = w" for v w :: u8
  by (metis div_mult_mod_eq word_unat_eq_iff)

lemma byte_div16: "unat (w :: u8) div 16 < 16"
proof -
  have "unat w < 2 ^ LENGTH(8)" by (rule unsigned_less)
  then show ?thesis by simp
qed

lemma hex_encode_inj: "hex_encode a = hex_encode b \<longleftrightarrow> a = b"
proof
  show "hex_encode a = hex_encode b \<Longrightarrow> a = b"
  proof (induction a arbitrary: b)
    case Nil
    then show ?case by (cases b) (simp_all add: hex_encode_Cons)
  next
    case (Cons w a)
    then obtain v b' where "b = v # b'" by (cases b) (simp_all add: hex_encode_Cons)
    with Cons show ?case
      by (auto simp: hex_encode_Cons hex_digit_inj byte_div16 intro: byte_nibbles)
  qed
qed simp

lemma validate_for_proving_ok:
  "validate_for_proving c = Inr u \<longleftrightarrow>
     (\<exists>d r. cred_dob_days c = Some d \<and> cred_r_bits c = Some r \<and> length r = 128)"
  by (auto simp: validate_for_proving_def R_BITS_LEN_def split: option.splits)

lemma is_valid_at_ok: "is_valid_at c t = Inr u \<longleftrightarrow> cred_iat c \<le> t \<and> t \<le> cred_exp c"
  by (auto simp: is_valid_at_def not_less)

text \<open>What a well-behaved store does: reads leave it alone, a deletion removes one credential.\<close>

definition store_laws ::
    "'s cred_store \<Rightarrow> ('s \<Rightarrow> cred_metadata list) \<Rightarrow> ('s \<Rightarrow> string \<Rightarrow> credential option) \<Rightarrow> bool" where
  "store_laws S metas look \<longleftrightarrow>
     (\<forall>s. cs_list S s = (Inr (metas s), s)
        \<and> (\<forall>i. cs_get S i s = (Inr (look s i), s))
        \<and> (\<forall>i. fst (cs_delete S i s) = Inr (look s i \<noteq> None)
             \<and> look (snd (cs_delete S i s)) = (look s)(i := None)))"

lemma store_lawsD:
  assumes "store_laws S metas look"
  shows "cs_list S s = (Inr (metas s), s)" "cs_get S i s = (Inr (look s i), s)"
    "fst (cs_delete S i s) = Inr (look s i \<noteq> None)"
    "look (snd (cs_delete S i s)) = (look s)(i := None)"
  using assms by (auto simp: store_laws_def)

definition expired_in :: "u64 \<Rightarrow> credential option \<Rightarrow> bool" where
  "expired_in now x \<longleftrightarrow> (case x of None \<Rightarrow> False | Some c \<Rightarrow> cred_exp c < now)"

lemma expired_in_simps [simp]:
  "\<not> expired_in now None" "expired_in now (Some c) \<longleftrightarrow> cred_exp c < now"
  by (simp_all add: expired_in_def)

definition satisfies :: "i32 \<Rightarrow> bool \<Rightarrow> credential \<Rightarrow> bool" where
  "satisfies cutoff young c \<longleftrightarrow> (\<exists>d. cred_dob_days c = Some d \<and> validate_age d cutoff young)"

lemma find_best_loop_laws:
  assumes "store_laws S metas look"
  shows "find_best_loop S cutoff young ms s
    = (Inr (find (satisfies cutoff young) (List.map_filter (\<lambda>m. look s (cm_id m)) ms)), s)"
  by (induction ms)
     (auto simp: store_lawsD[OF assms] satisfies_def List.map_filter_def split: option.splits)

lemma cleanup_loop_laws:
  assumes laws: "store_laws S metas look" and "distinct (map cm_id ms)"
  shows "\<exists>s'. cleanup_loop S now ms n s
      = (Inr (n + length (filter (\<lambda>m. expired_in now (look s (cm_id m))) ms)), s')
    \<and> look s' = (\<lambda>i. if i \<in> cm_id ` set ms \<and> expired_in now (look s i) then None else look s i)"
  using assms(2)
proof (induction ms arbitrary: n s)
  case Nil
  then show ?case by simp
next
  case (Cons m ms)
  let ?d = "cs_delete S (cm_id m) s"
  show ?case
  proof (cases "expired_in now (look s (cm_id m))")
    case True
    then obtain c where c: "look s (cm_id m) = Some c" "cred_exp c < now"
      by (auto simp: expired_in_def split: option.splits)
    obtain s1 where d: "?d = (Inr True, s1)"
      using store_lawsD(3)[OF laws, of "cm_id m" s] c by (cases ?d) auto
    have look1: "look s1 = (look s)(cm_id m := None)"
      using store_lawsD(4)[OF laws, of "cm_id m" s] d by simp
    have same: "filter (\<lambda>x. expired_in now (look s1 (cm_id x))) ms
        = filter (\<lambda>x. expired_in now (look s (cm_id x))) ms"
    proof (rule filter_cong[OF refl])
      fix x assume "x \<in> set ms"
      with Cons.prems have "cm_id x \<noteq> cm_id m" by (auto simp: image_iff)
      then show "expired_in now (look s1 (cm_id x)) = expired_in now (look s (cm_id x))"
        by (simp add: look1)
    qed
    obtain s' where "cleanup_loop S now ms (n + 1) s1
        = (Inr (n + 1 + length (filter (\<lambda>x. expired_in now (look s1 (cm_id x))) ms)), s')"
      and "look s' = (\<lambda>i. if i \<in> cm_id ` set ms \<and> expired_in now (look s1 i) then None else look s1 i)"
      using Cons.IH[of "n + 1" s1] Cons.prems by auto
    with c d True same look1 show ?thesis
      by (auto simp: store_lawsD(2)[OF laws] fun_eq_iff)
  next
    case False
    then have "cleanup_loop S now (m # ms) n s = cleanup_loop S now ms n s"
      by (auto simp: store_lawsD(2)[OF laws] split: option.splits)
    moreover obtain s' where "cleanup_loop S now ms n s
        = (Inr (n + length (filter (\<lambda>x. expired_in now (look s (cm_id x))) ms)), s')"
      and "look s' = (\<lambda>i. if i \<in> cm_id ` set ms \<and> expired_in now (look s i) then None else look s i)"
      using Cons.IH[of n s] Cons.prems by auto
    ultimately show ?thesis using False by (auto simp: fun_eq_iff)
  qed
qed

lemma storage_key_by_digest:
  "(storage_key X c = storage_key X d \<longleftrightarrow> x_blake3 X (cred_c_bytes c) = x_blake3 X (cred_c_bytes d))
   \<and> starts_with ''provii.cred.'' (storage_key X c)
   \<and> length (storage_key X c) = 12 + 2 * length (x_blake3 X (cred_c_bytes c))"
  by (simp add: storage_key_def hex_encode_inj starts_with_def)

section \<open>Properties\<close>

text \<open>A credential parsed from JSON never carries the secret witness: parsing succeeds exactly
  when the document deserialises to a version 2 credential whose key identifier and schema
  have at most 256 bytes and whose issue time does not exceed its expiry, and the result is
  the deserialised credential with both secret fields cleared.\<close>

theorem credential_parse_exact:
  "from_json parse s = Inr c \<longleftrightarrow>
     (\<exists>p. parse s = Inr p \<and> cred_v p = 2 \<and> length (cred_kid p) \<le> 256
        \<and> length (cred_schema p) \<le> 256 \<and> cred_iat p \<le> cred_exp p
        \<and> c = p\<lparr>cred_dob_days := None, cred_r_bits := None\<rparr>)"
  by (cases "parse s")
     (auto simp: from_json_def bindR_Inr_iff validate_timestamp_order_def Let_def not_less split: if_splits)

text \<open>Batch validation returns one result per credential in order, and accepts exactly the
  credentials that hold a date of birth and 128 blinding bits and whose validity interval
  contains the given time, both ends included.\<close>

theorem batch_validation_exact:
  "map is_ok (validate_credentials cs now)
   = map (\<lambda>c. (\<exists>d r. cred_dob_days c = Some d \<and> cred_r_bits c = Some r \<and> length r = 128)
              \<and> cred_iat c \<le> now \<and> now \<le> cred_exp c) cs"
  by (auto simp: validate_credentials_def is_ok_iff bindR_Inr_iff validate_for_proving_ok is_valid_at_ok)

text \<open>On a well-behaved store with distinct identifiers, the expiry cleanup removes exactly the
  listed credentials whose expiry lies strictly before the given time, leaves every other
  one as it was, and returns how many it removed.\<close>

theorem cleanup_expired_exact:
  assumes "store_laws S metas look" "distinct (map cm_id (metas s))"
  shows "\<exists>s'. cleanup_expired S now s
      = (Inr (length (filter (\<lambda>m. expired_in now (look s (cm_id m))) (metas s))), s')
    \<and> look s' = (\<lambda>i. if i \<in> cm_id ` set (metas s) \<and> expired_in now (look s i) then None else look s i)"
  using cleanup_loop_laws[OF assms(1), of "metas s" now 0 s] assms(2)
  by (simp add: cleanup_expired_def store_lawsD(1)[OF assms(1)])

definition sample_credential :: "u64 \<Rightarrow> i32 \<Rightarrow> credential" where
  "sample_credential e d =
     \<lparr>cred_v = 2, cred_kid = ''k'', cred_issuer_vk = [], cred_sig_rj = [], cred_c_bytes = [],
      cred_iat = 1, cred_exp = e, cred_schema = ''s'', cred_dob_days = Some d, cred_r_bits = None\<rparr>"

definition sample_store :: "(string \<rightharpoonup> credential) cred_store" where
  "sample_store =
     \<lparr>cs_list = (\<lambda>s. (Inr (map (\<lambda>i. \<lparr>cm_id = i, cm_label = None, cm_imported_at = 0, cm_issuer_name = None\<rparr>)
                         [''a'', ''b'']), s)),
      cs_get = (\<lambda>i s. (Inr (s i), s)),
      cs_delete = (\<lambda>i s. (Inr (s i \<noteq> None), s(i := None)))\<rparr>"

lemma cleanup_expired_exact_witness:
  "\<exists>s'. cleanup_expired sample_store 50 [''a'' \<mapsto> sample_credential 40 1, ''b'' \<mapsto> sample_credential 60 2]
     = (Inr 1, s') \<and> s' ''a'' = None \<and> s' ''b'' = Some (sample_credential 60 2)"
proof -
  let ?m = "\<lambda>i. \<lparr>cm_id = i, cm_label = None, cm_imported_at = 0, cm_issuer_name = None\<rparr>"
  let ?s = "[''a'' \<mapsto> sample_credential 40 1, ''b'' \<mapsto> sample_credential 60 2]"
  have laws: "store_laws sample_store (\<lambda>s. [?m ''a'', ?m ''b'']) (\<lambda>s. s)"
    by (auto simp: store_laws_def sample_store_def)
  have "distinct (map cm_id [?m ''a'', ?m ''b''])" by simp
  from cleanup_expired_exact[OF laws, where now = 50 and s = ?s, OF this] show ?thesis
    by (auto simp: sample_credential_def)
qed

text \<open>On a well-behaved store the best-match query returns the first listed credential whose
  date of birth satisfies the cutoff in the asked direction, and nothing when none does.\<close>

theorem find_best_is_first_match:
  assumes "store_laws S metas look"
  shows "find_best_credential S cutoff young s
    = (Inr (find (satisfies cutoff young) (List.map_filter (\<lambda>m. look s (cm_id m)) (metas s))), s)"
  by (simp add: find_best_credential_def store_lawsD(1)[OF assms] find_best_loop_laws[OF assms])

lemma find_best_is_first_match_witness:
  "fst (find_best_credential sample_store 5 False
      [''a'' \<mapsto> sample_credential 40 9, ''b'' \<mapsto> sample_credential 60 2])
   = Inr (Some (sample_credential 60 2))"
proof -
  let ?m = "\<lambda>i. \<lparr>cm_id = i, cm_label = None, cm_imported_at = 0, cm_issuer_name = None\<rparr>"
  have laws: "store_laws sample_store (\<lambda>s. [?m ''a'', ?m ''b'']) (\<lambda>s. s)"
    by (auto simp: store_laws_def sample_store_def)
  show ?thesis
    unfolding find_best_is_first_match[OF laws]
    by (simp add: List.map_filter_def satisfies_def sample_credential_def validate_age_def word_sle_eq)
qed

end
