(* ===== verification/Protocol_Types.thy ===== *)
theory Protocol_Types
  imports Core_Types
begin

text \<open>
  The protocol messages of \<open>core/src/types.rs\<close> with their validators, and the issuer trust
  anchor with its union merge, whose specification is the update of a map from key
  identifiers to verification keys.
\<close>

section \<open>Trust anchor\<close>

record trusted_key =
  tk_kid :: string
  tk_vk :: bytes

record trust_anchor =
  ta_keys :: "trusted_key list"
  ta_fetched_at :: u64

text \<open>\<open>iter_mut().find(..)\<close> and the update or append of one incoming key.\<close>

fun merge_key :: "trusted_key \<Rightarrow> trusted_key list \<Rightarrow> trusted_key list" where
  "merge_key n [] = [n]"
| "merge_key n (k # ks) =
     (if tk_kid k = tk_kid n
      then (if tk_vk k \<noteq> tk_vk n then k\<lparr>tk_vk := tk_vk n\<rparr> # ks else k # ks)
      else k # merge_key n ks)"

definition union_merge :: "trusted_key list \<Rightarrow> trust_anchor \<Rightarrow> trust_anchor" where
  "union_merge new_keys a = a\<lparr>ta_keys := fold merge_key new_keys (ta_keys a)\<rparr>"

text \<open>The map a list of keys stands for: the first entry of an identifier counts.\<close>

definition key_view :: "trusted_key list \<Rightarrow> string \<Rightarrow> bytes option" where
  "key_view ks = map_of (map (\<lambda>k. (tk_kid k, tk_vk k)) ks)"

lemma key_view_Nil [simp]: "key_view [] = Map.empty"
  by (simp add: key_view_def)

lemma key_view_Cons [simp]: "key_view (k # ks) = (key_view ks)(tk_kid k \<mapsto> tk_vk k)"
  by (simp add: key_view_def)

lemma key_view_merge: "key_view (merge_key n ks) = (key_view ks)(tk_kid n \<mapsto> tk_vk n)"
  by (induction ks) (auto simp: fun_eq_iff)

lemma kids_merge:
  "map tk_kid (merge_key n ks)
   = (if tk_kid n \<in> tk_kid ` set ks then map tk_kid ks else map tk_kid ks @ [tk_kid n])"
  by (induction ks) auto

lemma distinct_kids_merge:
  "distinct (map tk_kid ks) \<Longrightarrow> distinct (map tk_kid (merge_key n ks))"
  by (simp add: kids_merge)

lemma merge_all:
  "key_view (fold merge_key ns ks) = fold (\<lambda>n m. m(tk_kid n \<mapsto> tk_vk n)) ns (key_view ks)"
  "\<exists>more. map tk_kid (fold merge_key ns ks) = map tk_kid ks @ more"
  "distinct (map tk_kid ks) \<Longrightarrow> distinct (map tk_kid (fold merge_key ns ks))"
proof (induction ns arbitrary: ks)
  case (Cons n ns)
  { case 1 show ?case by (simp add: Cons key_view_merge) }
  { case 2
    obtain more where "map tk_kid (fold merge_key ns (merge_key n ks)) = map tk_kid (merge_key n ks) @ more"
      using Cons.IH(2) by blast
    then show ?case by (auto simp: kids_merge) }
  { case 3 then show ?case by (simp add: Cons.IH(3) distinct_kids_merge) }
qed auto

section \<open>Validators\<close>

definition MAX_PROTOCOL_FIELD_LEN :: nat where
  "MAX_PROTOCOL_FIELD_LEN = 512"

definition is_hex_digit :: "char \<Rightarrow> bool" where
  "is_hex_digit c \<longleftrightarrow>
     (let n = (of_char c :: nat)
      in (48 \<le> n \<and> n \<le> 57) \<or> (65 \<le> n \<and> n \<le> 70) \<or> (97 \<le> n \<and> n \<le> 102))"

record authorizer =
  au_format :: string
  au_key_id :: string
  au_challenge_id :: "string option"
  au_timestamp :: u64
  au_hmac :: string
  au_nonce :: string

definition authorizer_validate :: "authorizer \<Rightarrow> string + unit" where
  "authorizer_validate a =
     (if au_format a \<noteq> ''yubikey'' \<and> au_format a \<noteq> ''client''
      then Inl (''invalid authorizer format '' @ [CHR 0x27] @ au_format a @ [CHR 0x27] @
                '', expected '' @ [CHR 0x27] @ ''yubikey'' @ [CHR 0x27] @ '' or '' @
                [CHR 0x27] @ ''client'' @ [CHR 0x27])
      else if length (au_nonce a) \<noteq> 64
      then Inl (''nonce must be exactly 64 hex characters, got '' @ show_nat (length (au_nonce a)))
      else if \<not> list_all is_hex_digit (au_nonce a)
      then Inl ''nonce must contain only hex characters''
      else if au_key_id a = [] \<or> length (au_key_id a) > MAX_PROTOCOL_FIELD_LEN
      then Inl (''key_id must be 1-'' @ show_nat MAX_PROTOCOL_FIELD_LEN @ '' characters'')
      else if au_hmac a = [] \<or> length (au_hmac a) > 128
      then Inl ''hmac must be 1-128 characters''
      else Inr ())"

record qr_payload =
  qr_challenge_id :: string
  qr_rp_challenge :: string
  qr_cutoff_days :: i32
  qr_verifying_key_id :: u32
  qr_submit_secret :: string
  qr_expires_at :: u64
  qr_verify_url :: string
  qr_code_verifier :: "string option"
  qr_proof_direction :: "string option"

definition field_range :: "string \<Rightarrow> string \<Rightarrow> string + unit" where
  "field_range name s =
     ensure (s \<noteq> [] \<and> length s \<le> MAX_PROTOCOL_FIELD_LEN)
       (name @ '' must be 1-'' @ show_nat MAX_PROTOCOL_FIELD_LEN @ '' characters'')"

text \<open>\<open>url_scheme\<close> stands for \<open>url::Url::parse\<close> followed by \<open>scheme()\<close>.\<close>

definition validate_verify_url :: "(string \<Rightarrow> string + string) \<Rightarrow> string \<Rightarrow> string + unit" where
  "validate_verify_url url_scheme u =
     (case url_scheme u of
        Inr scheme \<Rightarrow>
          (if scheme \<noteq> ''https''
           then Inl (''verify_url must use HTTPS scheme, got '' @ [CHR 0x27] @ scheme @ [CHR 0x27])
           else Inr ())
      | Inl e \<Rightarrow> Inl (''verify_url is not a valid URL: '' @ e))"

definition validate_code_verifier :: "string option \<Rightarrow> string + unit" where
  "validate_code_verifier v =
     (case v of
        Some cv \<Rightarrow> ensure (length cv \<le> MAX_PROTOCOL_FIELD_LEN)
          (''code_verifier must be at most '' @ show_nat MAX_PROTOCOL_FIELD_LEN @ '' characters'')
      | None \<Rightarrow> Inr ())"

definition validate_direction :: "string option \<Rightarrow> string + unit" where
  "validate_direction d =
     (case d of
        Some dir \<Rightarrow>
          (if dir = ''over_age'' \<or> dir = ''under_age'' then Inr ()
           else Inl (''invalid proof_direction '' @ [CHR 0x27] @ dir @ [CHR 0x27] @
                     '', expected '' @ [CHR 0x27] @ ''over_age'' @ [CHR 0x27] @ '' or '' @
                     [CHR 0x27] @ ''under_age'' @ [CHR 0x27]))
      | None \<Rightarrow> Inr ())"

definition validate_field_lengths :: "(string \<Rightarrow> string + string) \<Rightarrow> qr_payload \<Rightarrow> string + unit" where
  "validate_field_lengths url_scheme q =
     bindR (field_range ''challenge_id'' (qr_challenge_id q)) (\<lambda>_.
     bindR (field_range ''rp_challenge'' (qr_rp_challenge q)) (\<lambda>_.
     bindR (field_range ''submit_secret'' (qr_submit_secret q)) (\<lambda>_.
     bindR (field_range ''verify_url'' (qr_verify_url q)) (\<lambda>_.
     bindR (validate_verify_url url_scheme (qr_verify_url q)) (\<lambda>_.
     bindR (validate_code_verifier (qr_code_verifier q)) (\<lambda>_.
     validate_direction (qr_proof_direction q)))))))"

definition good_field :: "string \<Rightarrow> bool" where
  "good_field s \<longleftrightarrow> 1 \<le> length s \<and> length s \<le> 512"

lemma field_range_ok: "field_range name s = Inr u \<longleftrightarrow> good_field s"
  by (auto simp: field_range_def good_field_def MAX_PROTOCOL_FIELD_LEN_def Suc_le_eq)

lemma validate_verify_url_ok: "validate_verify_url us u = Inr r \<longleftrightarrow> us u = Inr ''https''"
  by (auto simp: validate_verify_url_def split: sum.splits)

section \<open>Proof submission messages\<close>

record age_public_json =
  ap_cutoff_days :: i32
  ap_rp_challenge :: string
  ap_issuer_value :: string
  ap_cred_nullifier :: string

record age_proof_json =
  apj_verifying_key_id :: u32
  apj_public :: age_public_json
  apj_proof :: string

record submit_proof_request =
  spr_challenge_id :: string
  spr_submit_secret :: string
  spr_code_verifier :: "string option"
  spr_proof :: age_proof_json

record verify_response =
  vr_result :: string
  vr_state :: string

section \<open>Properties\<close>

text \<open>Merging freshly fetched issuer keys into the trust anchor is the update of the map from
  key identifiers to verification keys, in order, with the last key of an identifier
  winning: no identifier is ever dropped, the old ones keep their positions, no
  identifier is duplicated, and the fetch time is not touched.\<close>

theorem union_merge_refines_map_update:
  assumes "distinct (map tk_kid (ta_keys a))"
  shows "key_view (ta_keys (union_merge ks a))
      = fold (\<lambda>k m. m(tk_kid k \<mapsto> tk_vk k)) ks (key_view (ta_keys a))
    \<and> (\<exists>more. map tk_kid (ta_keys (union_merge ks a)) = map tk_kid (ta_keys a) @ more)
    \<and> distinct (map tk_kid (ta_keys (union_merge ks a)))
    \<and> ta_fetched_at (union_merge ks a) = ta_fetched_at a"
  using merge_all(1,2)[of ks "ta_keys a"] merge_all(3)[of "ta_keys a" ks] assms by (simp add: union_merge_def)

lemma union_merge_refines_map_update_witness:
  "key_view (ta_keys (union_merge [\<lparr>tk_kid = ''k'', tk_vk = [2]\<rparr>, \<lparr>tk_kid = ''n'', tk_vk = [3]\<rparr>]
      \<lparr>ta_keys = [\<lparr>tk_kid = ''k'', tk_vk = [1]\<rparr>], ta_fetched_at = 7\<rparr>)) ''k'' = Some [2]"
proof -
  let ?a = "\<lparr>ta_keys = [\<lparr>tk_kid = ''k'', tk_vk = [1]\<rparr>], ta_fetched_at = 7\<rparr>"
  have "distinct (map tk_kid (ta_keys ?a))" by simp
  from union_merge_refines_map_update[OF this, of "[\<lparr>tk_kid = ''k'', tk_vk = [2]\<rparr>, \<lparr>tk_kid = ''n'', tk_vk = [3]\<rparr>]"]
  show ?thesis by simp
qed

text \<open>A scanned challenge payload passes the field validation exactly when its four required
  strings have 1 to 512 bytes, its submission URL parses with the scheme https, its code
  verifier, if any, has at most 512 bytes, and its direction, if any, is over_age or
  under_age.\<close>

theorem payload_validation_exact:
  "validate_field_lengths us q = Inr () \<longleftrightarrow>
     good_field (qr_challenge_id q) \<and> good_field (qr_rp_challenge q)
   \<and> good_field (qr_submit_secret q) \<and> good_field (qr_verify_url q)
   \<and> us (qr_verify_url q) = Inr ''https''
   \<and> length (case qr_code_verifier q of None \<Rightarrow> [] | Some v \<Rightarrow> v) \<le> 512
   \<and> qr_proof_direction q \<in> {None, Some ''over_age'', Some ''under_age''}"
  by (auto simp: validate_field_lengths_def bindR_Inr_iff field_range_ok validate_verify_url_ok
      validate_code_verifier_def validate_direction_def MAX_PROTOCOL_FIELD_LEN_def split: option.splits)

end
