(* ===== verification/Issuance.thy ===== *)
theory Issuance
  imports Credential Protocol_Types
begin

text \<open>
  Credential issuance (\<open>core/src/issuance.rs\<close> and \<open>core/src/blind_issuance.rs\<close>): commitment
  computation, the packing of blinding bits, finalisation of a signed header with the
  secret fields, the blind flow, the parsing of the issuer's key set and the check of a
  header against the trust anchor. The randomness source is the argument \<open>rng\<close>: the
  blinding bits \<open>generate_commitment_randomness\<close> returns for a length.
\<close>

section \<open>Packing of blinding bits\<close>

text \<open>\<open>slice::chunks(8)\<close>.\<close>

function chunks8 :: "'a list \<Rightarrow> 'a list list" where
  "chunks8 [] = []"
| "chunks8 (x # xs) = take 8 (x # xs) # chunks8 (drop 8 (x # xs))"
  by pat_completeness auto
termination by (relation "measure length") auto

definition pack_byte :: "bool list \<Rightarrow> u8" where
  "pack_byte chunk =
     fold (\<lambda>(i, b) byte. if b then or byte (push_bit (7 - i) 1) else byte) (enumerate 0 chunk) 0"

definition pack_bits :: "bool list \<Rightarrow> bytes" where
  "pack_bits bs = map pack_byte (chunks8 bs)"

text \<open>
  The inner loop of \<open>unpack_bits\<close> over the eight bits of one byte: once \<open>bits\<close> has
  \<open>bit_count\<close> elements its \<open>break\<close> leaves the remaining iterations out, which is the
  same as each of them doing nothing.
\<close>

definition unpack_byte :: "nat \<Rightarrow> u8 \<Rightarrow> bool list \<Rightarrow> bool list" where
  "unpack_byte bit_count byte bits =
     fold (\<lambda>i bits. if bit_count \<le> length bits then bits
                    else bits @ [and byte (push_bit (7 - i) 1) \<noteq> 0]) [0..<8] bits"

definition unpack_bits :: "bytes \<Rightarrow> nat \<Rightarrow> bool list" where
  "unpack_bits bs bit_count = take bit_count (fold (unpack_byte bit_count) bs [])"

lemma chunks8_concat [simp]: "concat (chunks8 xs) = xs"
  by (induction xs rule: chunks8.induct) auto

lemma length_chunks8: "length (chunks8 xs) = (length xs + 7) div 8"
proof (induction xs rule: chunks8.induct)
  case (2 x xs)
  show ?case
  proof (cases "length xs < 8")
    case True
    then have "(length (x # xs) + 7) div 8 = 1" by simp
    with True show ?thesis by simp
  next
    case False
    then have "length (drop 8 (x # xs)) + 7 = length xs" by simp
    with 2 show ?thesis by simp
  qed
qed simp

lemma pack_fold_bit:
  "k + length c \<le> 8 \<Longrightarrow> j < 8 \<Longrightarrow>
   bit (fold (\<lambda>(i, b) byte. if b then or byte (push_bit (7 - i) 1) else byte) (enumerate k c) (w :: u8)) (7 - j)
   \<longleftrightarrow> bit w (7 - j) \<or> (k \<le> j \<and> j < k + length c \<and> c ! (j - k))"
proof (induction c arbitrary: k w)
  case (Cons b c)
  let ?w = "if b then or w (push_bit (7 - k) 1) else w"
  have w: "bit ?w (7 - j) \<longleftrightarrow> bit w (7 - j) \<or> (b \<and> j = k)"
    using Cons.prems by (auto simp: bit_simps)
  have "bit (fold (\<lambda>(i, b) byte. if b then or byte (push_bit (7 - i) 1) else byte) (enumerate k (b # c)) w) (7 - j)
      \<longleftrightarrow> bit ?w (7 - j) \<or> (Suc k \<le> j \<and> j < Suc k + length c \<and> c ! (j - Suc k))"
    using Cons.IH[of "Suc k" ?w] Cons.prems by simp
  then show ?case unfolding w by (cases "j = k") (auto simp: nth_Cons' Suc_le_eq diff_Suc)
qed auto

lemma bit_pack_byte:
  "length c \<le> 8 \<Longrightarrow> j < 8 \<Longrightarrow> bit (pack_byte c) (7 - j) \<longleftrightarrow> j < length c \<and> c ! j"
  using pack_fold_bit[of 0 c j 0] by (simp add: pack_byte_def)

definition byte_bits :: "u8 \<Rightarrow> bool list" where
  "byte_bits w = map (\<lambda>i. bit w (7 - i)) [0..<8]"

lemma and_bit_test: "i < 8 \<Longrightarrow> and w (2 ^ i) \<noteq> 0 \<longleftrightarrow> bit (w :: u8) i"
proof -
  assume i: "i < 8"
  have "bit (and w (2 ^ i)) n \<longleftrightarrow> n = i \<and> bit w i" for n
    using i by (auto simp: bit_simps)
  then show ?thesis by (metis bit_eqI bit_0_eq bot_apply bot_bool_def)
qed

lemma unpack_loop:
  "set is \<subseteq> {..<8} \<Longrightarrow> length bits \<le> n \<Longrightarrow>
   fold (\<lambda>i bits. if n \<le> length bits then bits
                  else bits @ [and (w :: u8) (push_bit (7 - i) 1) \<noteq> 0]) is bits
   = take n (bits @ map (\<lambda>i. bit w (7 - i)) is)"
proof (induction "is" arbitrary: bits)
  case (Cons i "is")
  then show ?case
    by (cases "length bits = n") (auto simp: and_bit_test take_Cons')
qed simp

lemma unpack_byte_take:
  "length bits \<le> n \<Longrightarrow> unpack_byte n w bits = take n (bits @ byte_bits w)"
  unfolding unpack_byte_def byte_bits_def by (rule unpack_loop) auto

lemma unpack_fold:
  "length bits \<le> n \<Longrightarrow> fold (unpack_byte n) bs bits = take n (bits @ concat (map byte_bits bs))"
proof (induction bs arbitrary: bits)
  case (Cons w bs)
  have "fold (unpack_byte n) (w # bs) bits = fold (unpack_byte n) bs (take n (bits @ byte_bits w))"
    using Cons.prems by (simp add: unpack_byte_take)
  also have "\<dots> = take n (take n (bits @ byte_bits w) @ concat (map byte_bits bs))"
    by (rule Cons.IH) simp
  also have "\<dots> = take n (bits @ concat (map byte_bits (w # bs)))"
    using Cons.prems by (cases "length (bits @ byte_bits w) \<le> n") simp_all
  finally show ?case .
qed simp

lemma unpack_bits_concat: "unpack_bits bs n = take n (concat (map byte_bits bs))"
  by (simp add: unpack_bits_def unpack_fold)

lemma byte_bits_pack: "length c \<le> 8 \<Longrightarrow> byte_bits (pack_byte c) = c @ replicate (8 - length c) False"
  by (rule nth_equalityI) (auto simp: byte_bits_def bit_pack_byte nth_append)

lemma concat_bits_pack:
  "\<exists>pad. concat (map byte_bits (pack_bits bs)) = bs @ pad"
  unfolding pack_bits_def
proof (induction bs rule: chunks8.induct)
  case (2 x xs)
  then obtain pad where pad: "concat (map byte_bits (map pack_byte (chunks8 (drop 8 (x # xs)))))
      = drop 8 (x # xs) @ pad" by blast
  show ?case
  proof (cases "length (x # xs) \<le> 8")
    case True
    then show ?thesis by (simp add: byte_bits_pack)
  next
    case False
    then have "byte_bits (pack_byte (take 8 (x # xs))) = take 8 (x # xs)"
      by (simp add: byte_bits_pack)
    with pad have "concat (map byte_bits (map pack_byte (chunks8 (x # xs))))
        = take 8 (x # xs) @ drop 8 (x # xs) @ pad" by simp
    then show ?thesis by (metis append_assoc append_take_drop_id)
  qed
qed simp

lemma byte_bits_inj: "byte_bits v = byte_bits w \<Longrightarrow> v = w"
proof (rule bit_eqI)
  fix n assume eq: "byte_bits v = byte_bits w" and n: "possible_bit TYPE(8 word) n"
  then have "byte_bits v ! (7 - n) = byte_bits w ! (7 - n)" "n < 8" by (simp_all add: possible_bit_def)
  moreover have "[0..<8] ! (7 - n) = 7 - n" by (subst nth_upt) auto
  ultimately show "bit v n = bit w n" by (simp add: byte_bits_def)
qed

lemma length_byte_bits [simp]: "length (byte_bits w) = 8"
  by (simp add: byte_bits_def)

lemma pack_byte_bits: "pack_byte (byte_bits w) = w"
  by (rule byte_bits_inj) (simp add: byte_bits_pack)

lemma pack_concat_bits: "pack_bits (concat (map byte_bits bs)) = bs"
proof (induction bs)
  case (Cons w bs)
  obtain x xs where "concat (map byte_bits (w # bs)) = x # xs"
    by (cases "byte_bits w") (auto dest: arg_cong[of _ _ length])
  moreover from this have "take 8 (x # xs) = byte_bits w" "drop 8 (x # xs) = concat (map byte_bits bs)"
    by (metis append_eq_conv_conj concat.simps(2) length_byte_bits list.simps(9))+
  ultimately show ?case using Cons by (simp add: pack_bits_def pack_byte_bits)
qed (simp add: pack_bits_def)

lemma length_concat_bits: "length (concat (map byte_bits bs)) = 8 * length bs"
  by (induction bs) auto

lemma length_pack_bits: "length (pack_bits bs) = (length bs + 7) div 8"
  by (simp add: pack_bits_def length_chunks8)

section \<open>Commitments and finalisation\<close>

record commitment_parts =
  cp_dob_days :: i32
  cp_r_bits :: "bool list"
  cp_c_bytes :: bytes

definition compute_commitment ::
    "externals \<Rightarrow> (nat \<Rightarrow> bool list) \<Rightarrow> i32 \<Rightarrow> wallet_error + commitment_parts" where
  "compute_commitment X rng dob_days =
     (let r_bits = rng R_BITS_LEN
      in bindR (map_err (\<lambda>e. ValidationFailed (''Commitment generation failed: '' @ e))
                 (x_pedersen X dob_days r_bits))
           (\<lambda>c. Inr \<lparr>cp_dob_days = dob_days, cp_r_bits = r_bits, cp_c_bytes = c\<rparr>))"

definition header_msg :: "header \<Rightarrow> cred_msg" where
  "header_msg h =
     \<lparr>msg_v = hdr_v h, msg_kid = hdr_kid h, msg_c = hdr_c_bytes h, msg_iat = hdr_iat h,
      msg_exp = hdr_exp h, msg_schema = hdr_schema h\<rparr>"

definition attach_secrets :: "header \<Rightarrow> i32 \<Rightarrow> bool list \<Rightarrow> credential" where
  "attach_secrets h dob_days r_bits =
     \<lparr>cred_v = hdr_v h, cred_kid = hdr_kid h, cred_issuer_vk = hdr_issuer_vk h,
      cred_sig_rj = hdr_sig_rj h, cred_c_bytes = hdr_c_bytes h, cred_iat = hdr_iat h,
      cred_exp = hdr_exp h, cred_schema = hdr_schema h,
      cred_dob_days = Some dob_days, cred_r_bits = Some r_bits\<rparr>"

text \<open>The checks on version and timestamps that open both finalisations.\<close>

definition check_header :: "header \<Rightarrow> wallet_error + unit" where
  "check_header h =
     (if hdr_v h \<noteq> 2
      then Inl (ValidationFailed (''unsupported credential version: expected 2, got '' @ show_nat (unat (hdr_v h))))
      else if hdr_iat h = 0 \<or> hdr_exp h = 0
      then Inl (ValidationFailed ''credential timestamps must not be zero'')
      else if hdr_iat h > hdr_exp h
      then Inl (ValidationFailed (''credential iat ('' @ show_nat (unat (hdr_iat h)) @ '') exceeds exp ('' @
                                  show_nat (unat (hdr_exp h)) @ '')''))
      else Inr ())"

definition finalize_credential ::
    "externals \<Rightarrow> header \<Rightarrow> i32 \<Rightarrow> bool list \<Rightarrow> wallet_error + credential" where
  "finalize_credential X h dob_days r_bits =
     bindR (check_header h) (\<lambda>_.
     if length r_bits \<noteq> R_BITS_LEN
     then Inl (InvalidInput (''r_bits must be '' @ show_nat R_BITS_LEN @ '' bits, got '' @ show_nat (length r_bits)))
     else
     bindR (map_err (\<lambda>e. ValidationFailed (''Commitment validation failed: '' @ e))
              (x_pedersen X dob_days r_bits)) (\<lambda>expected_c.
     if expected_c \<noteq> hdr_c_bytes h
     then Inl (ValidationFailed (''Commitment mismatch - private fields don'' @ [CHR 0x27] @
                                 ''t match signed commitment''))
     else
     bindR (map_err (\<lambda>e. ValidationFailed (''RedJubjub signature verification failed: '' @ e))
              (x_verify_cred X (header_msg h) (hdr_sig_rj h) (hdr_issuer_vk h))) (\<lambda>_.
     Inr (attach_secrets h dob_days r_bits))))"

definition assemble_credential ::
    "externals \<Rightarrow> header \<Rightarrow> i32 \<Rightarrow> bool list \<Rightarrow> wallet_error + credential" where
  "assemble_credential X h dob_days r_bits = finalize_credential X h dob_days r_bits"

section \<open>Blind issuance\<close>

text \<open>
  The fields of the third-party \<open>DobAttestation\<close> the wallet reads; \<open>att_rest\<close> stands for
  the others, which it only carries. \<open>att_print\<close> and \<open>att_parse\<close> are \<open>serde_json::to_vec\<close>
  and \<open>from_slice\<close> at that type.
\<close>

record attestation =
  att_issuer_id :: string
  att_timestamp :: u64
  att_dob_days :: i32
  att_rest :: bytes

record blind_flow =
  bf_attestation :: attestation
  bf_r_bits :: "bool list"
  bf_dob_days :: i32

record blind_request =
  br_attestation :: string
  br_r_bits :: string

definition from_attestation ::
    "externals \<Rightarrow> (bytes \<Rightarrow> string + attestation) \<Rightarrow> (nat \<Rightarrow> bool list) \<Rightarrow> string \<Rightarrow> wallet_error + blind_flow" where
  "from_attestation X att_parse rng attestation_b64 =
     bindR (map_err (\<lambda>e. InvalidInput (''Invalid base64: '' @ e)) (x_b64_decode X attestation_b64)) (\<lambda>b.
     bindR (map_err (\<lambda>e. InvalidInput (''Invalid attestation JSON: '' @ e)) (att_parse b)) (\<lambda>a.
     Inr \<lparr>bf_attestation = a, bf_r_bits = rng R_BITS_LEN, bf_dob_days = att_dob_days a\<rparr>))"

definition prepare_request ::
    "externals \<Rightarrow> (attestation \<Rightarrow> string + bytes) \<Rightarrow> blind_flow \<Rightarrow> wallet_error + blind_request" where
  "prepare_request X att_print f =
     bindR (map_err (\<lambda>e. SerializationError (''Failed to serialize attestation: '' @ e))
              (att_print (bf_attestation f))) (\<lambda>j.
     Inr \<lparr>br_attestation = x_b64_encode X j, br_r_bits = x_b64_encode X (pack_bits (bf_r_bits f))\<rparr>)"

definition blind_finalize :: "externals \<Rightarrow> blind_flow \<Rightarrow> header \<Rightarrow> wallet_error + credential" where
  "blind_finalize X f h =
     bindR (check_header h) (\<lambda>_.
     bindR (map_err (\<lambda>e. ValidationFailed (''Commitment validation failed: '' @ e))
              (x_pedersen X (bf_dob_days f) (bf_r_bits f))) (\<lambda>expected_c.
     if expected_c \<noteq> hdr_c_bytes h
     then Inl (ValidationFailed ''Commitment mismatch - server computed different commitment than expected'')
     else
     bindR (map_err (\<lambda>e. ValidationFailed (''RedJubjub signature verification failed: '' @ e))
              (x_verify_cred X (header_msg h) (hdr_sig_rj h) (hdr_issuer_vk h))) (\<lambda>_.
     Inr (attach_secrets h (bf_dob_days f) (bf_r_bits f)))))"

section \<open>Issuer keys\<close>

text \<open>One entry of the key set; \<open>None\<close> is the \<open>continue\<close> of the loop.\<close>

definition jwk_key :: "externals \<Rightarrow> json \<Rightarrow> trusted_key option" where
  "jwk_key X entry =
     (let str = (\<lambda>k. Option.bind (json_get k entry) json_str);
          kty = (case str ''kty'' of Some s \<Rightarrow> s | None \<Rightarrow> []);
          crv = (case str ''crv'' of Some s \<Rightarrow> s | None \<Rightarrow> [])
      in if kty \<noteq> ''OKP'' \<or> crv \<noteq> ''JUBJUB'' then None
         else case str ''kid'' of
           None \<Rightarrow> None
         | Some kid \<Rightarrow>
             (case str ''x'' of
                None \<Rightarrow> None
              | Some x_b64 \<Rightarrow>
                  (case x_b64_decode X x_b64 of
                     Inl _ \<Rightarrow> None
                   | Inr x_bytes \<Rightarrow>
                       (if length x_bytes \<noteq> 32 then None
                        else Some \<lparr>tk_kid = kid, tk_vk = x_bytes\<rparr>))))"

definition parse_jwks_into_keys :: "externals \<Rightarrow> string \<Rightarrow> wallet_error + trusted_key list" where
  "parse_jwks_into_keys X jwks_json =
     bindR (map_err (\<lambda>e. SerializationError (''invalid JWKS JSON: '' @ e)) (x_json X jwks_json)) (\<lambda>jwks.
     case Option.bind (json_get ''keys'' jwks) json_array of
       None \<Rightarrow> Inl (SerializationError (''JWKS missing '' @ [CHR 0x27] @ ''keys'' @ [CHR 0x27] @ '' array''))
     | Some entries \<Rightarrow> Inr (List.map_filter (jwk_key X) entries))"

definition validate_issuer_vk :: "header \<Rightarrow> trust_anchor \<Rightarrow> wallet_error + unit" where
  "validate_issuer_vk h a =
     (if ta_keys a = [] then Inl (SecurityError ''issuer trust anchor contains no keys'')
      else if list_ex (\<lambda>k. hdr_issuer_vk h = tk_vk k) (ta_keys a) then Inr ()
      else Inl (SecurityError ''issuer verification key not in trust anchor''))"

section \<open>Lemmas\<close>

lemma check_header_ok:
  "check_header h = Inr u \<longleftrightarrow> hdr_v h = 2 \<and> hdr_iat h \<noteq> 0 \<and> hdr_iat h \<le> hdr_exp h"
  by (auto simp: check_header_def not_less word_gt_0_no)

lemma finalize_ok:
  "finalize_credential X h d r = Inr c \<longleftrightarrow>
     hdr_v h = 2 \<and> hdr_iat h \<noteq> 0 \<and> hdr_iat h \<le> hdr_exp h \<and> length r = 128
   \<and> x_pedersen X d r = Inr (hdr_c_bytes h)
   \<and> x_verify_cred X (header_msg h) (hdr_sig_rj h) (hdr_issuer_vk h) = Inr ()
   \<and> c = attach_secrets h d r"
  by (auto simp: finalize_credential_def bindR_Inr_iff check_header_ok R_BITS_LEN_def)

lemma blind_finalize_ok:
  "blind_finalize X f h = Inr c \<longleftrightarrow>
     hdr_v h = 2 \<and> hdr_iat h \<noteq> 0 \<and> hdr_iat h \<le> hdr_exp h
   \<and> x_pedersen X (bf_dob_days f) (bf_r_bits f) = Inr (hdr_c_bytes h)
   \<and> x_verify_cred X (header_msg h) (hdr_sig_rj h) (hdr_issuer_vk h) = Inr ()
   \<and> c = attach_secrets h (bf_dob_days f) (bf_r_bits f)"
  by (auto simp: blind_finalize_def bindR_Inr_iff check_header_ok)

lemma jwk_key_length: "jwk_key X e = Some k \<Longrightarrow> length (tk_vk k) = 32"
  by (auto simp: jwk_key_def Let_def split: if_splits option.splits sum.splits)

lemma validate_issuer_vk_view:
  assumes "distinct (map tk_kid (ta_keys a))"
  shows "validate_issuer_vk h a = Inr u \<longleftrightarrow> hdr_issuer_vk h \<in> ran (key_view (ta_keys a))"
proof -
  have "ran (key_view (ta_keys a)) = tk_vk ` set (ta_keys a)"
    using assms by (simp add: key_view_def ran_distinct o_def image_image)
  then show ?thesis by (auto simp: validate_issuer_vk_def list_ex_iff)
qed

section \<open>Properties\<close>

text \<open>C38: Packing blinding bits and unpacking them with their count gives them back, unpacking whole
  bytes and packing again gives the bytes back, and the lengths are the number of bits
  rounded up to whole bytes and the requested count capped by the bits there are.\<close>

theorem bits_roundtrip:
  "unpack_bits (pack_bits bs) (length bs) = bs
   \<and> pack_bits (unpack_bits ws (8 * length ws)) = ws
   \<and> length (pack_bits bs) = (length bs + 7) div 8
   \<and> length (unpack_bits ws n) = min n (8 * length ws)"
proof -
  obtain pad where "concat (map byte_bits (pack_bits bs)) = bs @ pad" using concat_bits_pack by blast
  then show ?thesis
    by (simp add: unpack_bits_concat pack_concat_bits length_concat_bits length_pack_bits min.commute)
qed

text \<open>C24: Finalising a credential succeeds exactly when the header has version 2, a non-zero issue
  time not after its expiry, the blinding factor has 128 bits, the recomputed commitment
  to the date of birth is the signed one and the issuer's signature verifies; the result is
  then the header with the two secrets attached.\<close>

theorem finalize_exact:
  "finalize_credential X h d r = Inr c \<longleftrightarrow>
     hdr_v h = 2 \<and> hdr_iat h \<noteq> 0 \<and> hdr_iat h \<le> hdr_exp h \<and> length r = 128
   \<and> x_pedersen X d r = Inr (hdr_c_bytes h)
   \<and> x_verify_cred X (header_msg h) (hdr_sig_rj h) (hdr_issuer_vk h) = Inr ()
   \<and> c = attach_secrets h d r"
  by (rule finalize_ok)

definition toy_externals :: externals where
  "toy_externals =
     \<lparr>x_b64_encode = string_of_bytes, x_b64_decode = (\<lambda>s. Inr (bytes_of_string s)),
      x_json = (\<lambda>s. Inr JNull), x_blake3 = (\<lambda>b. b), x_sha256 = (\<lambda>b. b),
      x_pedersen = (\<lambda>d r. Inr [ucast d, word_of_nat (length (filter (\<lambda>b. b) r))]),
      x_verify_cred = (\<lambda>m sig vk. if sig = vk then Inr () else Inl ''bad'')\<rparr>"

definition toy_header :: "bytes \<Rightarrow> header" where
  "toy_header c =
     \<lparr>hdr_v = 2, hdr_kid = ''k'', hdr_issuer_vk = [9], hdr_sig_rj = [9], hdr_c_bytes = c,
      hdr_iat = 10, hdr_exp = 20, hdr_schema = ''age''\<rparr>"

text \<open>The issuance protocol completes: when the wallet computed a commitment with a generator
  that returns the asked number of bits, and the issuer returns a version 2 header over
  exactly that commitment with a proper validity interval and a verifying signature, then
  finalisation succeeds, and the stored credential passes the readiness check for proving
  and is valid from its issue time to its expiry.\<close>

theorem issuance_completes:
  assumes "compute_commitment X rng d = Inr p" "length (rng 128) = 128"
    "hdr_c_bytes h = cp_c_bytes p" "hdr_v h = 2" "hdr_iat h \<noteq> 0" "hdr_iat h \<le> hdr_exp h"
    "x_verify_cred X (header_msg h) (hdr_sig_rj h) (hdr_issuer_vk h) = Inr ()"
  shows "\<exists>c. finalize_credential X h (cp_dob_days p) (cp_r_bits p) = Inr c
     \<and> cred_dob_days c = Some d \<and> validate_for_proving c = Inr ()
     \<and> is_valid_at c (hdr_iat h) = Inr () \<and> is_valid_at c (hdr_exp h) = Inr ()"
  using assms
  by (auto simp: compute_commitment_def Let_def bindR_Inr_iff finalize_ok attach_secrets_def
      validate_for_proving_ok is_valid_at_ok R_BITS_LEN_def)

lemma issuance_completes_witness:
  "\<exists>c. finalize_credential toy_externals (toy_header [7, 128]) 7 (replicate 128 True) = Inr c
     \<and> cred_dob_days c = Some 7 \<and> validate_for_proving c = Inr ()"
proof -
  let ?rng = "\<lambda>n. replicate n True"
  let ?p = "\<lparr>cp_dob_days = 7, cp_r_bits = ?rng 128, cp_c_bytes = [7, 128]\<rparr>"
  let ?h = "toy_header [7, 128]"
  have "compute_commitment toy_externals ?rng 7 = Inr ?p"
    by (simp add: compute_commitment_def toy_externals_def R_BITS_LEN_def)
  moreover have "length (?rng 128) = 128" by simp
  moreover have "hdr_c_bytes ?h = cp_c_bytes ?p" "hdr_v ?h = 2" "hdr_iat ?h \<noteq> 0" "hdr_iat ?h \<le> hdr_exp ?h"
    by (simp_all add: toy_header_def)
  moreover have "x_verify_cred toy_externals (header_msg ?h) (hdr_sig_rj ?h) (hdr_issuer_vk ?h) = Inr ()"
    by (simp add: toy_header_def toy_externals_def)
  ultimately have "\<exists>c. finalize_credential toy_externals ?h (cp_dob_days ?p) (cp_r_bits ?p) = Inr c
     \<and> cred_dob_days c = Some 7 \<and> validate_for_proving c = Inr ()
     \<and> is_valid_at c (hdr_iat ?h) = Inr () \<and> is_valid_at c (hdr_exp ?h) = Inr ()"
    by (rule issuance_completes)
  then show ?thesis unfolding commitment_parts.select_convs by blast
qed

text \<open>C39: The blind flow accepts exactly the headers the direct finalisation accepts, with the
  same credential, once its blinding factor has the length the flow's constructor gives it.\<close>

theorem blind_finalize_equiv:
  assumes "from_attestation X att_parse rng s = Inr f" "length (rng 128) = 128"
  shows "map_err (\<lambda>_. ()) (blind_finalize X f h)
       = map_err (\<lambda>_. ()) (finalize_credential X h (bf_dob_days f) (bf_r_bits f))"
proof -
  have len: "length (bf_r_bits f) = 128"
    using assms by (auto simp: from_attestation_def bindR_Inr_iff R_BITS_LEN_def)
  have "blind_finalize X f h = Inr c \<longleftrightarrow> finalize_credential X h (bf_dob_days f) (bf_r_bits f) = Inr c" for c
    by (simp add: finalize_ok blind_finalize_ok len)
  then show ?thesis by (rule same_success)
qed

definition toy_att_parse :: "bytes \<Rightarrow> string + attestation" where
  "toy_att_parse b =
     Inr \<lparr>att_issuer_id = string_of_bytes b, att_timestamp = 1, att_dob_days = 7, att_rest = []\<rparr>"

lemma blind_finalize_equiv_witness:
  "\<exists>f. from_attestation toy_externals toy_att_parse (\<lambda>n. replicate n True) ''gov'' = Inr f
     \<and> is_ok (blind_finalize toy_externals f (toy_header [7, 128]))"
proof -
  let ?rng = "\<lambda>n. replicate n True"
  obtain f where f: "from_attestation toy_externals toy_att_parse ?rng ''gov'' = Inr f"
      "bf_dob_days f = 7" "bf_r_bits f = replicate 128 True"
    by (simp add: from_attestation_def toy_externals_def toy_att_parse_def R_BITS_LEN_def)
  have "finalize_credential toy_externals (toy_header [7, 128]) 7 (replicate 128 True)
      = Inr (attach_secrets (toy_header [7, 128]) 7 (replicate 128 True))"
    by (simp add: finalize_ok toy_header_def toy_externals_def)
  with blind_finalize_equiv[OF f(1), of "toy_header [7, 128]"] f
  have "is_ok (blind_finalize toy_externals f (toy_header [7, 128]))"
    by (cases "blind_finalize toy_externals f (toy_header [7, 128])") auto
  with f(1) show ?thesis by blast
qed

text \<open>The request of the blind flow carries the attestation and the blinding factor: the issuer
  that decodes its two fields recovers the printed attestation and, for a factor of 128
  bits, every blinding bit.\<close>

theorem blind_request_roundtrip:
  assumes "b64_roundtrip X" "prepare_request X att_print f = Inr q" "length (bf_r_bits f) = 128"
  shows "map_err (\<lambda>e. ()) (x_b64_decode X (br_attestation q)) = map_err (\<lambda>e. ()) (att_print (bf_attestation f))
    \<and> (\<exists>b. x_b64_decode X (br_r_bits q) = Inr b \<and> length b = 16 \<and> unpack_bits b 128 = bf_r_bits f)"
proof -
  obtain pad where "concat (map byte_bits (pack_bits (bf_r_bits f))) = bf_r_bits f @ pad"
    using concat_bits_pack by blast
  then have "unpack_bits (pack_bits (bf_r_bits f)) 128 = bf_r_bits f"
    using assms(3) by (simp add: unpack_bits_concat)
  moreover have "length (pack_bits (bf_r_bits f)) = 16"
    using assms(3) by (simp add: length_pack_bits)
  ultimately show ?thesis
    using assms(1,2) by (auto simp: prepare_request_def bindR_Inr_iff b64_roundtripD)
qed

lemma blind_request_roundtrip_witness:
  "\<exists>q. prepare_request toy_externals (\<lambda>a. Inr (att_rest a))
       \<lparr>bf_attestation = \<lparr>att_issuer_id = ''i'', att_timestamp = 1, att_dob_days = 7, att_rest = [5]\<rparr>,
        bf_r_bits = replicate 128 True, bf_dob_days = 7\<rparr> = Inr q
     \<and> (\<exists>b. x_b64_decode toy_externals (br_r_bits q) = Inr b \<and> unpack_bits b 128 = replicate 128 True)"
proof -
  let ?f = "\<lparr>bf_attestation = \<lparr>att_issuer_id = ''i'', att_timestamp = 1, att_dob_days = 7, att_rest = [5]\<rparr>,
        bf_r_bits = replicate 128 True, bf_dob_days = 7\<rparr>"
  obtain q where q: "prepare_request toy_externals (\<lambda>a. Inr (att_rest a)) ?f = Inr q"
    by (simp add: prepare_request_def)
  have "b64_roundtrip toy_externals" by (simp add: b64_roundtrip_def toy_externals_def)
  from blind_request_roundtrip[OF this q] q show ?thesis by auto
qed


definition toy_jwks :: externals where
  "toy_jwks = toy_externals\<lparr>
     x_json := (\<lambda>s. Inr (JObject [(''keys'', JArray [JObject
        [(''kty'', JString ''OKP''), (''crv'', JString ''JUBJUB''), (''kid'', JString ''k''),
         (''x'', JString (replicate 32 (CHR ''a'')))]])])),
     x_b64_decode := (\<lambda>s. Inr (replicate (length s) 3))\<rparr>"


end
