(* ===== verification/Credential_Storage.thy ===== *)
theory Credential_Storage
  imports Platform_Storage Storage_Keys Issuance
begin

text \<open>
  The credential store of the FFI layer (\<open>ffi/src/storage.rs\<close>): every operation of
  \<open>Storage\<close> over a platform backend, with the wire form of a stored credential
  (\<open>ffi/src/types.rs\<close>). The backend is optional, as before \<open>set_backend\<close>; errors are the
  \<open>anyhow\<close> messages. The wall clock is the argument \<open>now\<close> (\<open>timestamp().max(0)\<close>).
\<close>

section \<open>Records\<close>

record stored_metadata =
  md_imported_at :: u64
  md_last_used :: "u64 option"
  md_use_count :: u32
  md_label :: "string option"
  md_credential_type :: string
  md_nickname :: "string option"
  md_managed_index :: "u8 option"

record stored_credential =
  sc_credential :: credential
  sc_metadata :: stored_metadata

text \<open>The postcard mirror of a credential: the two skipped secret fields have no bytes.\<close>

record postcard_credential =
  pc_v :: u8
  pc_kid :: string
  pc_issuer_vk :: bytes
  pc_sig_rj :: bytes
  pc_c_bytes :: bytes
  pc_iat :: u64
  pc_exp :: u64
  pc_schema :: string

type_synonym stored_wire = "postcard_credential \<times> stored_metadata"

definition to_postcard :: "credential \<Rightarrow> postcard_credential" where
  "to_postcard c =
     \<lparr>pc_v = cred_v c, pc_kid = cred_kid c, pc_issuer_vk = cred_issuer_vk c,
      pc_sig_rj = cred_sig_rj c, pc_c_bytes = cred_c_bytes c, pc_iat = cred_iat c,
      pc_exp = cred_exp c, pc_schema = cred_schema c\<rparr>"

definition of_postcard :: "postcard_credential \<Rightarrow> credential" where
  "of_postcard p =
     \<lparr>cred_v = pc_v p, cred_kid = pc_kid p, cred_issuer_vk = pc_issuer_vk p,
      cred_sig_rj = pc_sig_rj p, cred_c_bytes = pc_c_bytes p, cred_iat = pc_iat p,
      cred_exp = pc_exp p, cred_schema = pc_schema p, cred_dob_days = None, cred_r_bits = None\<rparr>"

record credential_secrets =
  sec_dob_days :: i32
  sec_r_bits :: "bool list"

datatype credential_status = StValid | StExpired | StInvalid

record credential_info =
  ci_id :: string
  ci_issuer_name :: string
  ci_issuer_kid :: string
  ci_issued_at :: u64
  ci_expires_at :: u64
  ci_is_expired :: bool
  ci_can_prove :: bool
  ci_schema :: string
  ci_status :: credential_status
  ci_credential_type :: string
  ci_nickname :: "string option"
  ci_managed_index :: "u8 option"

text \<open>
  Third-party functions: \<open>postcard::to_allocvec\<close> and \<open>from_bytes\<close> at the two stored types,
  \<open>pedersen_nullifier\<close> and the base64url encoder.
\<close>

record storage_codec =
  sx_enc_stored :: "stored_wire \<Rightarrow> string + bytes"
  sx_dec_stored :: "bytes \<Rightarrow> string + stored_wire"
  sx_enc_secrets :: "credential_secrets \<Rightarrow> string + bytes"
  sx_dec_secrets :: "bytes \<Rightarrow> string + credential_secrets"
  sx_nullifier :: "bytes \<Rightarrow> bytes"
  sx_b64 :: "bytes \<Rightarrow> string"

definition codec_roundtrip :: "storage_codec \<Rightarrow> bool" where
  "codec_roundtrip X \<longleftrightarrow>
     (\<forall>w. \<exists>b. sx_enc_stored X w = Inr b \<and> sx_dec_stored X b = Inr w)
   \<and> (\<forall>s. \<exists>b. sx_enc_secrets X s = Inr b \<and> sx_dec_secrets X b = Inr s)"

definition encode_stored :: "storage_codec \<Rightarrow> stored_credential \<Rightarrow> string + bytes" where
  "encode_stored X s = sx_enc_stored X (to_postcard (sc_credential s), sc_metadata s)"

definition decode_stored :: "storage_codec \<Rightarrow> bytes \<Rightarrow> string + stored_credential" where
  "decode_stored X b =
     bindR (sx_dec_stored X b) (\<lambda>(p, m). Inr \<lparr>sc_credential = of_postcard p, sc_metadata = m\<rparr>)"

section \<open>Operations\<close>

definition with_backend ::
    "'s backend option \<Rightarrow> ('s backend \<Rightarrow> ('s, string, 'a) op) \<Rightarrow> ('s, string, 'a) op" where
  "with_backend B f =
     (case B of None \<Rightarrow> pureS (Inl ''Storage not initialised'') | Some b \<Rightarrow> f b)"

definition ctx :: "string \<Rightarrow> ('s, platform_error, 'a) op \<Rightarrow> ('s, string, 'a) op" where
  "ctx msg m = map_errS (\<lambda>e. msg @ '': '' @ show_platform_error e) m"

definition storage_is_available :: "'s backend option \<Rightarrow> bool" where
  "storage_is_available B \<longleftrightarrow> B \<noteq> None"

definition compute_base_id :: "storage_codec \<Rightarrow> credential \<Rightarrow> string" where
  "compute_base_id X c = sx_b64 X (sx_nullifier X (cred_c_bytes c))"

text \<open>The deletion loop of \<open>store_credential_with_slot\<close>; the first failure ends it.\<close>

fun delete_matching :: "'s backend \<Rightarrow> (string \<Rightarrow> bool) \<Rightarrow> string list \<Rightarrow> ('s, string, unit) op" where
  "delete_matching b P [] s = (Inr (), s)"
| "delete_matching b P (k # ks) s =
     (if P k then bindS (ctx ''Failed to delete existing credential'' (be_delete b k))
                    (\<lambda>_. delete_matching b P ks) s
      else delete_matching b P ks s)"

definition new_metadata :: "u64 \<Rightarrow> string option \<Rightarrow> credential_slot \<Rightarrow> string option \<Rightarrow> stored_metadata" where
  "new_metadata now label slot nickname =
     (let (ty, idx) = (case slot of SlotPrimary \<Rightarrow> (''primary'', None)
                                  | SlotManaged i \<Rightarrow> (''managed'', Some i))
      in \<lparr>md_imported_at = now, md_last_used = None, md_use_count = 0, md_label = label,
          md_credential_type = ty, md_nickname = nickname, md_managed_index = idx\<rparr>)"

definition store_credential_with_slot ::
    "storage_codec \<Rightarrow> 's backend option \<Rightarrow> u64 \<Rightarrow> credential \<Rightarrow> string option \<Rightarrow> credential_slot \<Rightarrow>
     string option \<Rightarrow> ('s, string, string) op" where
  "store_credential_with_slot X B now c label slot nickname =
     with_backend B (\<lambda>b.
       let (cp, sp) = prefixes_for_slot (from_label label) slot
       in bindS (ctx ''Failed to list keys'' (be_list_keys b)) (\<lambda>ks.
          bindS (delete_matching b (\<lambda>k. starts_with cp k \<or> starts_with sp k) ks) (\<lambda>_.
          let stored = \<lparr>sc_credential = c, sc_metadata = new_metadata now label slot nickname\<rparr>;
              key = cp @ compute_base_id X c
          in bindS (pureS (map_err (\<lambda>e. ''Failed to serialize credential: '' @ e) (encode_stored X stored))) (\<lambda>d.
             bindS (ctx ''Failed to store credential'' (be_store b key d BioNone)) (\<lambda>_.
             pureS (Inr key))))))"

definition store_credential ::
    "storage_codec \<Rightarrow> 's backend option \<Rightarrow> u64 \<Rightarrow> credential \<Rightarrow> string option \<Rightarrow> ('s, string, string) op" where
  "store_credential X B now c label = store_credential_with_slot X B now c label SlotPrimary None"

definition store_credential_secrets ::
    "storage_codec \<Rightarrow> 's backend option \<Rightarrow> string \<Rightarrow> credential_secrets \<Rightarrow> ('s, string, unit) op" where
  "store_credential_secrets X B cred_id secrets =
     with_backend B (\<lambda>b.
       bindS (pureS (map_err (\<lambda>e. ''Failed to serialize secrets: '' @ e) (sx_enc_secrets X secrets))) (\<lambda>d.
       ctx ''Failed to store secrets'' (be_store b (secrets_key cred_id) d for_credential_secrets)))"

definition credential_secrets_exist :: "'s backend option \<Rightarrow> string \<Rightarrow> ('s, string, bool) op" where
  "credential_secrets_exist B cred_id =
     with_backend B (\<lambda>b. ctx ''Failed to check secrets existence'' (be_exists b (secrets_key cred_id)))"

text \<open>
  \<open>retrieve_or_none\<close> is the \<open>match\<close> both loads share: a failure whose display text contains
  \<open>NotFound\<close> is an absent record.
\<close>

definition retrieve_or_none ::
    "string \<Rightarrow> ('s, platform_error, bytes) op \<Rightarrow> (bytes \<Rightarrow> string + 'a) \<Rightarrow> ('s, string, 'a option) op" where
  "retrieve_or_none msg m parse s =
     (case m s of
        (Inr d, s') \<Rightarrow> (bindR (parse d) (\<lambda>x. Inr (Some x)), s')
      | (Inl e, s') \<Rightarrow>
          (if contains_str ''NotFound'' (show_platform_error e) then (Inr None, s')
           else (Inl (msg @ '': '' @ show_platform_error e), s')))"

definition load_credential_secrets ::
    "storage_codec \<Rightarrow> 's backend option \<Rightarrow> string \<Rightarrow> ('s, string, credential_secrets option) op" where
  "load_credential_secrets X B cred_id =
     with_backend B (\<lambda>b.
       retrieve_or_none ''Failed to retrieve secrets''
         (be_retrieve b (secrets_key cred_id) for_credential_secrets)
         (\<lambda>d. map_err (\<lambda>e. ''Failed to parse secrets: '' @ e) (sx_dec_secrets X d)))"

definition get_credential ::
    "storage_codec \<Rightarrow> 's backend option \<Rightarrow> string \<Rightarrow> ('s, string, credential option) op" where
  "get_credential X B cred_id =
     with_backend B (\<lambda>b.
       retrieve_or_none ''Failed to retrieve credential'' (be_retrieve b cred_id BioNone)
         (\<lambda>d. bindR (map_err (\<lambda>e. ''Failed to parse credential: '' @ e) (decode_stored X d))
                (\<lambda>st. Inr (sc_credential st))))"

text \<open>\<open>kid.split(':').nth(1)\<close>.\<close>

definition second_part :: "char \<Rightarrow> string \<Rightarrow> string option" where
  "second_part c s =
     (case dropWhile (\<lambda>d. d \<noteq> c) s of [] \<Rightarrow> None | _ # r \<Rightarrow> Some (first_part c r))"

definition issuer_display :: "stored_credential \<Rightarrow> string" where
  "issuer_display st =
     (let kid = cred_kid (sc_credential st);
          name = (if contains_str ''issuer:'' kid
                  then (case second_part (CHR '':'') kid of Some n \<Rightarrow> n | None \<Rightarrow> ''Unknown Issuer'')
                  else ''Unknown Issuer'')
      in case md_label (sc_metadata st) of
           Some l \<Rightarrow> (if eq_ignore_case l ''sandbox'' then name @ '' (Sandbox)'' else name)
         | None \<Rightarrow> name)"

definition credential_info_of :: "u64 \<Rightarrow> string \<Rightarrow> stored_credential \<Rightarrow> bool \<Rightarrow> credential_info" where
  "credential_info_of now key st has_secrets =
     (let c = sc_credential st; m = sc_metadata st
      in \<lparr>ci_id = key, ci_issuer_name = issuer_display st, ci_issuer_kid = cred_kid c,
          ci_issued_at = cred_iat c, ci_expires_at = cred_exp c, ci_is_expired = (cred_exp c < now),
          ci_can_prove = (now \<le> cred_exp c \<and> has_secrets), ci_schema = cred_schema c,
          ci_status = (if cred_exp c < now then StExpired else StValid),
          ci_credential_type = md_credential_type m, ci_nickname = md_nickname m,
          ci_managed_index = md_managed_index m\<rparr>)"

text \<open>
  The listing loop: keys that are no public record, cannot be read or do not parse are
  skipped; a failed existence check counts as absent secrets.
\<close>

fun list_loop ::
    "storage_codec \<Rightarrow> 's backend \<Rightarrow> u64 \<Rightarrow> string list \<Rightarrow> credential_info list \<Rightarrow> 's \<Rightarrow> credential_info list \<times> 's" where
  "list_loop X b now [] acc s = (acc, s)"
| "list_loop X b now (k # ks) acc s =
     (if \<not> is_credential_key k then list_loop X b now ks acc s
      else case be_retrieve b k BioNone s of
        (Inl _, s1) \<Rightarrow> list_loop X b now ks acc s1
      | (Inr d, s1) \<Rightarrow>
          (case decode_stored X d of
             Inl _ \<Rightarrow> list_loop X b now ks acc s1
           | Inr st \<Rightarrow>
               (case be_exists b (secrets_key k) s1 of
                  (r, s2) \<Rightarrow>
                    list_loop X b now ks
                      (acc @ [credential_info_of now k st (case r of Inr h \<Rightarrow> h | Inl _ \<Rightarrow> False)]) s2)))"

definition list_credentials ::
    "storage_codec \<Rightarrow> 's backend option \<Rightarrow> u64 \<Rightarrow> ('s, string, credential_info list) op" where
  "list_credentials X B now =
     with_backend B (\<lambda>b.
       bindS (ctx ''Failed to list keys'' (be_list_keys b)) (\<lambda>ks s.
         case list_loop X b now ks [] s of (l, s') \<Rightarrow> (Inr l, s')))"

definition has_credential :: "storage_codec \<Rightarrow> 's backend option \<Rightarrow> u64 \<Rightarrow> ('s, string, bool) op" where
  "has_credential X B now = bindS (list_credentials X B now) (\<lambda>l. pureS (Inr (l \<noteq> [])))"

fun slot_loop ::
    "storage_codec \<Rightarrow> 's backend \<Rightarrow> string \<Rightarrow> string list \<Rightarrow> 's \<Rightarrow> (string \<times> credential) option \<times> 's" where
  "slot_loop X b p [] s = (None, s)"
| "slot_loop X b p (k # ks) s =
     (if starts_with p k
      then case be_retrieve b k BioNone s of
          (Inl _, s1) \<Rightarrow> slot_loop X b p ks s1
        | (Inr d, s1) \<Rightarrow>
            (case decode_stored X d of
               Inl _ \<Rightarrow> slot_loop X b p ks s1
             | Inr st \<Rightarrow> (Some (k, sc_credential st), s1))
      else slot_loop X b p ks s)"

definition get_credential_for_slot ::
    "storage_codec \<Rightarrow> 's backend option \<Rightarrow> credential_namespace \<Rightarrow> credential_slot \<Rightarrow>
     ('s, string, (string \<times> credential) option) op" where
  "get_credential_for_slot X B ns slot =
     with_backend B (\<lambda>b.
       bindS (ctx ''Failed to list keys'' (be_list_keys b)) (\<lambda>ks s.
         case slot_loop X b (fst (prefixes_for_slot ns slot)) ks s of (r, s') \<Rightarrow> (Inr r, s')))"

fun managed_prefixes :: "credential_namespace \<Rightarrow> string \<times> string" where
  "managed_prefixes NsSandbox = (SANDBOX_CRED_MANAGED_PREFIX, SANDBOX_CREDSEC_MANAGED_PREFIX)"
| "managed_prefixes ns = (PRIMARY_CRED_MANAGED_PREFIX, PRIMARY_CREDSEC_MANAGED_PREFIX)"

definition managed_index_of :: "string \<Rightarrow> string \<Rightarrow> u8 option" where
  "managed_index_of prefix key =
     (case strip_prefix prefix key of
        Some r \<Rightarrow> parse_u8 (first_part (CHR ''.'') r)
      | None \<Rightarrow> None)"

text \<open>\<open>occupied.get_mut(idx)\<close> does nothing for an index past the array, like a list update.\<close>

definition mark_occupied :: "string \<Rightarrow> string \<Rightarrow> bool list \<Rightarrow> bool list" where
  "mark_occupied prefix key occupied =
     (case managed_index_of prefix key of
        Some idx \<Rightarrow> occupied[unat idx := True]
      | None \<Rightarrow> occupied)"

definition next_available_managed_index ::
    "'s backend option \<Rightarrow> credential_namespace \<Rightarrow> ('s, string, u8) op" where
  "next_available_managed_index B ns =
     with_backend B (\<lambda>b.
       bindS (ctx ''Failed to list keys'' (be_list_keys b)) (\<lambda>ks.
         let occupied = fold (mark_occupied (fst (managed_prefixes ns))) ks
                          (replicate MAX_MANAGED_SLOTS False)
         in pureS (case find (\<lambda>i. \<not> occupied ! i) [0..<MAX_MANAGED_SLOTS] of
              Some i \<Rightarrow> Inr (word_of_nat i)
            | None \<Rightarrow> Inl (''All '' @ show_nat MAX_MANAGED_SLOTS @ '' managed credential slots are full''))))"

definition update_credential_nickname ::
    "storage_codec \<Rightarrow> 's backend option \<Rightarrow> string \<Rightarrow> string option \<Rightarrow> ('s, string, unit) op" where
  "update_credential_nickname X B cred_id nickname =
     with_backend B (\<lambda>b.
       bindS (ctx ''Credential not found'' (be_retrieve b cred_id BioNone)) (\<lambda>d.
       bindS (pureS (map_err (\<lambda>e. ''Failed to parse credential: '' @ e) (decode_stored X d))) (\<lambda>st.
       let st' = st\<lparr>sc_metadata := (sc_metadata st)\<lparr>md_nickname := nickname\<rparr>\<rparr>
       in bindS (pureS (map_err (\<lambda>e. ''Failed to serialize credential: '' @ e) (encode_stored X st'))) (\<lambda>d'.
          ctx ''Failed to update credential'' (be_store b cred_id d' BioNone)))))"

definition delete_credential :: "'s backend option \<Rightarrow> string \<Rightarrow> ('s, string, unit) op" where
  "delete_credential B cred_id =
     with_backend B (\<lambda>b.
       bindS (ctx ''Failed to delete credential'' (be_delete b cred_id)) (\<lambda>_ s.
         case be_delete b (secrets_key cred_id) s of (_, s') \<Rightarrow> (Inr (), s')))"

fun delete_count_loop ::
    "'s backend \<Rightarrow> (string \<Rightarrow> bool) \<Rightarrow> string list \<Rightarrow> nat \<Rightarrow> 's \<Rightarrow> nat \<times> 's" where
  "delete_count_loop b P [] n s = (n, s)"
| "delete_count_loop b P (k # ks) n s =
     (if P k
      then case be_delete b k s of
          (Inr _, s') \<Rightarrow> delete_count_loop b P ks (n + 1) s'
        | (Inl _, s') \<Rightarrow> delete_count_loop b P ks n s'
      else delete_count_loop b P ks n s)"

definition in_namespace :: "credential_namespace \<Rightarrow> string \<Rightarrow> bool" where
  "in_namespace ns key \<longleftrightarrow>
     starts_with (fst (prefixes_for_slot ns SlotPrimary)) key
   \<or> starts_with (snd (prefixes_for_slot ns SlotPrimary)) key
   \<or> starts_with (fst (managed_prefixes ns)) key
   \<or> starts_with (snd (managed_prefixes ns)) key"

definition delete_all_in_namespace :: "'s backend option \<Rightarrow> credential_namespace \<Rightarrow> ('s, string, nat) op" where
  "delete_all_in_namespace B ns =
     with_backend B (\<lambda>b.
       bindS (ctx ''Failed to list keys'' (be_list_keys b)) (\<lambda>ks s.
         case delete_count_loop b (in_namespace ns) ks 0 s of (n, s') \<Rightarrow> (Inr n, s')))"

definition delete_sandbox_credentials :: "'s backend option \<Rightarrow> ('s, string, nat) op" where
  "delete_sandbox_credentials B = delete_all_in_namespace B NsSandbox"

section \<open>What the operations do to a lawful backend\<close>

lemma ctx_cases:
  assumes "ctx msg m s = (r, s')"
  obtains (ok) x where "m s = (Inr x, s')" "r = Inr x"
  | (err) e where "m s = (Inl e, s')" "r = Inl (msg @ '': '' @ show_platform_error e)"
  using assms by (cases "m s"; cases "fst (m s)") (auto simp: ctx_def map_errS_def)

lemma ctx_Inr: "m s = (Inr x, s') \<Longrightarrow> ctx msg m s = (Inr x, s')"
  by (simp add: ctx_def map_errS_Inr)

lemma with_backend_Some [simp]: "with_backend (Some b) f = f b"
  by (simp add: with_backend_def)

lemma with_backend_None [simp]: "with_backend None f s = (Inl ''Storage not initialised'', s)"
  by (simp add: with_backend_def pureS_def)

context storage_backend
begin

lemma delete_matching_frame:
  assumes "inv s" "delete_matching B P ks s = (r, s')"
  shows "inv s' \<and> (\<forall>k. \<not> (P k \<and> k \<in> set ks) \<longrightarrow> view s' k = view s k)
    \<and> (\<forall>k. view s' k = view s k \<or> view s' k = None)
    \<and> (r = Inr () \<longrightarrow> (\<forall>k \<in> set ks. P k \<longrightarrow> view s' k = None))"
  using assms
proof (induction ks arbitrary: s)
  case (Cons k ks)
  show ?case
  proof (cases "P k")
    case False
    with Cons show ?thesis by auto
  next
    case True
    with Cons.prems have "bindS (ctx ''Failed to delete existing credential'' (be_delete B k))
        (\<lambda>_. delete_matching B P ks) s = (r, s')" by simp
    then show ?thesis
    proof (cases rule: bindS_cases)
      case (err e)
      then show ?thesis
        by (auto elim!: ctx_cases dest!: delete_law[OF Cons.prems(1)])
    next
      case (ok x t)
      from ok(1) have d: "be_delete B k s = (Inr x, t)" by (auto elim!: ctx_cases)
      from delete_law[OF Cons.prems(1) d] have t: "inv t" "view t = (view s)(k := None)" by auto
      from Cons.IH[OF t(1) ok(2)] True t(2) show ?thesis
        by (simp split: if_splits) (metis option.distinct(1))
    qed
  qed
qed auto

lemma store_effect:
  assumes "inv s" "store_credential_with_slot X (Some B) now c label slot nick s = (r, s')"
  shows "inv s'
    \<and> (\<forall>k. k \<notin> slot_keys (from_label label) slot \<longrightarrow> view s' k = view s k)
    \<and> (\<forall>key. r = Inr key \<longrightarrow>
         key = cred_prefix (from_label label) slot @ compute_base_id X c
       \<and> (\<exists>d. encode_stored X \<lparr>sc_credential = c, sc_metadata = new_metadata now label slot nick\<rparr> = Inr d
            \<and> (\<forall>k \<in> slot_keys (from_label label) slot. view s' k = (if k = key then Some d else None))))"
proof -
  let ?ns = "from_label label"
  let ?P = "\<lambda>k. starts_with (cred_prefix ?ns slot) k \<or> starts_with (sec_prefix ?ns slot) k"
  let ?key = "cred_prefix ?ns slot @ compute_base_id X c"
  let ?enc = "encode_stored X \<lparr>sc_credential = c, sc_metadata = new_metadata now label slot nick\<rparr>"
  have P: "?P k \<longleftrightarrow> k \<in> slot_keys ?ns slot" for k by (simp add: slot_keys_def)
  have key: "?key \<in> slot_keys ?ns slot" by (auto simp: slot_keys_iff)
  from assms(2) have run: "bindS (ctx ''Failed to list keys'' (be_list_keys B)) (\<lambda>ks.
      bindS (delete_matching B ?P ks) (\<lambda>_.
      bindS (pureS (map_err (\<lambda>e. ''Failed to serialize credential: '' @ e) ?enc)) (\<lambda>d.
      bindS (ctx ''Failed to store credential'' (be_store B ?key d BioNone)) (\<lambda>_. pureS (Inr ?key))))) s = (r, s')"
    by (simp add: store_credential_with_slot_def Let_def split_beta)
  then show ?thesis
  proof (cases rule: bindS_cases)
    case (err e)
    then show ?thesis by (auto elim!: ctx_cases dest!: list_law[OF assms(1)])
  next
    case (ok ks s1)
    from ok(1) have "be_list_keys B s = (Inr ks, s1)" by (auto elim!: ctx_cases)
    from list_law[OF assms(1) this] have s1: "inv s1" "view s1 = view s" "set ks = dom (view s)" by auto
    from ok(2) show ?thesis
    proof (cases rule: bindS_cases)
      case (err e)
      from delete_matching_frame[OF s1(1) err(1)] err(2) s1(2) P show ?thesis by auto
    next
      case (ok u s2)
      from delete_matching_frame[OF s1(1) ok(1)] s1 P
      have s2: "inv s2" "\<And>k. k \<notin> slot_keys ?ns slot \<Longrightarrow> view s2 k = view s k"
        "\<And>k. k \<in> slot_keys ?ns slot \<Longrightarrow> view s2 k = None"
        by (auto simp: dom_def) (metis not_Some_eq)
      show ?thesis
      proof (cases ?enc)
        case (Inl e)
        with ok(2) s2 show ?thesis by auto
      next
        case (Inr d)
        with ok(2) have "bindS (ctx ''Failed to store credential'' (be_store B ?key d BioNone))
            (\<lambda>_. pureS (Inr ?key)) s2 = (r, s')" by simp
        then show ?thesis
        proof (cases rule: bindS_cases)
          case (err e)
          from err(1) obtain e' where "be_store B ?key d BioNone s2 = (Inl e', s')" by (auto elim!: ctx_cases)
          from store_law[OF s2(1) this] s2 err(2) show ?thesis by auto
        next
          case (ok u' s3)
          from ok(1) have "be_store B ?key d BioNone s2 = (Inr u', s3)" by (auto elim!: ctx_cases)
          from store_law[OF s2(1) this] have "inv s3" "view s3 = (view s2)(?key \<mapsto> d)" by auto
          with ok(2) s2 key Inr show ?thesis by (auto simp: pureS_def)
        qed
      qed
    qed
  qed
qed

lemma store_secrets_effect:
  assumes "inv s" "store_credential_secrets X (Some B) i sec s = (r, s')"
  shows "inv s'
    \<and> (case r of
         Inr _ \<Rightarrow> \<exists>d. sx_enc_secrets X sec = Inr d \<and> view s' = (view s)(secrets_key i \<mapsto> d)
       | Inl _ \<Rightarrow> view s' = view s)"
proof (cases "sx_enc_secrets X sec")
  case (Inl e)
  with assms show ?thesis by (auto simp: store_credential_secrets_def)
next
  case (Inr d)
  with assms(2) have "ctx ''Failed to store secrets'' (be_store B (secrets_key i) d for_credential_secrets) s = (r, s')"
    by (simp add: store_credential_secrets_def)
  then show ?thesis
    by (cases rule: ctx_cases) (auto simp: Inr dest!: store_law[OF assms(1)])
qed

lemma delete_effect:
  assumes "inv s" "delete_credential (Some B) i s = (r, s')"
  shows "inv s' \<and> (\<forall>k. k \<noteq> i \<and> k \<noteq> secrets_key i \<longrightarrow> view s' k = view s k)
    \<and> (r = Inr () \<longrightarrow> view s' i = None)"
proof -
  from assms(2) have "bindS (ctx ''Failed to delete credential'' (be_delete B i))
      (\<lambda>_ s. case be_delete B (secrets_key i) s of (_, s') \<Rightarrow> (Inr (), s')) s = (r, s')"
    by (simp add: delete_credential_def)
  then show ?thesis
  proof (cases rule: bindS_cases)
    case (err e)
    then show ?thesis by (auto elim!: ctx_cases dest!: delete_law[OF assms(1)])
  next
    case (ok x t)
    from ok(1) have "be_delete B i s = (Inr x, t)" by (auto elim!: ctx_cases)
    from delete_law[OF assms(1) this] have t: "inv t" "view t = (view s)(i := None)" by auto
    obtain d u where d: "be_delete B (secrets_key i) t = (d, u)" by fastforce
    from delete_law[OF t(1) d] ok(2) d t(2) show ?thesis by (auto split: sum.splits)
  qed
qed

lemma delete_count_frame:
  assumes "inv s" "delete_count_loop B P ks n s = (m, s')"
  shows "inv s' \<and> (\<forall>k. \<not> P k \<longrightarrow> view s' k = view s k)"
  using assms
proof (induction ks arbitrary: n s)
  case (Cons k ks)
  obtain d t where d: "be_delete B k s = (d, t)" by fastforce
  from delete_law[OF Cons.prems(1) d] Cons.IH[of t] Cons.IH[of s] Cons.prems d show ?case
    by (auto split: if_splits sum.splits)
qed auto

end

end
