(* ===== verification/Sample_Codec.thy ===== *)
theory Sample_Codec
  imports Credential_Storage
begin

text \<open>
  A concrete serialisation of the two stored types. The code leaves the byte format to the
  \<open>postcard\<close> crate, which is a parameter of the model; this codec is an instance of that
  parameter on which the round-trip hypothesis is proved, for the examples that evaluate
  the storage operations. A format is an encoder with a decoder of a prefix.
\<close>

section \<open>Formats\<close>

type_synonym 'a format = "('a \<Rightarrow> bytes) \<times> (bytes \<Rightarrow> ('a \<times> bytes) option)"

definition lawful_format :: "'a format \<Rightarrow> bool" where
  "lawful_format f \<longleftrightarrow> (\<forall>x r. snd f (fst f x @ r) = Some (x, r))"

lemma lawful_formatD: "lawful_format f \<Longrightarrow> snd f (fst f x @ r) = Some (x, r)"
  by (simp add: lawful_format_def)

definition fmt_pair :: "'a format \<Rightarrow> 'b format \<Rightarrow> ('a \<times> 'b) format" where
  "fmt_pair f g =
     ((\<lambda>(a, b). fst f a @ fst g b),
      (\<lambda>r. case snd f r of None \<Rightarrow> None
           | Some (a, r1) \<Rightarrow> (case snd g r1 of None \<Rightarrow> None | Some (b, r2) \<Rightarrow> Some ((a, b), r2))))"

definition fmt_iso :: "('b \<Rightarrow> 'a) \<Rightarrow> ('a \<Rightarrow> 'b) \<Rightarrow> 'a format \<Rightarrow> 'b format" where
  "fmt_iso to from f = ((\<lambda>b. fst f (to b)), (\<lambda>r. map_option (apfst from) (snd f r)))"

definition fmt_option :: "'a format \<Rightarrow> 'a option format" where
  "fmt_option f =
     ((\<lambda>x. case x of None \<Rightarrow> [0] | Some a \<Rightarrow> 1 # fst f a),
      (\<lambda>r. case r of [] \<Rightarrow> None
           | t # r1 \<Rightarrow> (if t = 0 then Some (None, r1) else map_option (apfst Some) (snd f r1))))"

fun un_bytes :: "bytes \<Rightarrow> (bytes \<times> bytes) option" where
  "un_bytes (t # r) =
     (if t = 0 then Some ([], r)
      else case r of [] \<Rightarrow> None | x # r1 \<Rightarrow> map_option (apfst ((#) x)) (un_bytes r1))"
| "un_bytes [] = None"

definition fmt_bytes :: "bytes format" where
  "fmt_bytes = ((\<lambda>b. concat (map (\<lambda>x. [1, x]) b) @ [0]), un_bytes)"

definition fmt_string :: "string format" where
  "fmt_string = fmt_iso bytes_of_string string_of_bytes fmt_bytes"

definition fmt_word :: "'w::len word format" where
  "fmt_word = fmt_iso (\<lambda>w. show_nat (unat w)) (\<lambda>s. word_of_nat (read_nat s)) fmt_string"

definition fmt_bools :: "bool list format" where
  "fmt_bools = fmt_iso (map (\<lambda>b. if b then 1 else 0)) (map (\<lambda>w. w \<noteq> 0)) fmt_bytes"

lemma lawful_pair: "lawful_format f \<Longrightarrow> lawful_format g \<Longrightarrow> lawful_format (fmt_pair f g)"
  by (simp add: lawful_format_def fmt_pair_def)

lemma lawful_iso: "lawful_format f \<Longrightarrow> (\<And>b. from (to b) = b) \<Longrightarrow> lawful_format (fmt_iso to from f)"
  by (simp add: lawful_format_def fmt_iso_def)

lemma lawful_option: "lawful_format f \<Longrightarrow> lawful_format (fmt_option f)"
  by (simp add: lawful_format_def fmt_option_def split: option.split)

lemma lawful_bytes: "lawful_format fmt_bytes"
proof -
  have "un_bytes (concat (map (\<lambda>x. [1, x]) b) @ 0 # r) = Some (b, r)" for b r
    by (induction b) auto
  then show ?thesis by (simp add: lawful_format_def fmt_bytes_def)
qed

lemma lawful_string: "lawful_format fmt_string"
  unfolding fmt_string_def by (rule lawful_iso[OF lawful_bytes]) simp

lemma lawful_word: "lawful_format fmt_word"
  unfolding fmt_word_def by (rule lawful_iso[OF lawful_string]) simp

lemma lawful_bools: "lawful_format fmt_bools"
  unfolding fmt_bools_def by (rule lawful_iso[OF lawful_bytes]) (simp add: o_def map_idI)

lemmas lawful_formats =
  lawful_pair lawful_option lawful_bytes lawful_string lawful_word lawful_bools

section \<open>The stored types\<close>

definition fmt_credential :: "postcard_credential format" where
  "fmt_credential =
     fmt_iso
       (\<lambda>p. (pc_v p, pc_kid p, pc_issuer_vk p, pc_sig_rj p, pc_c_bytes p, pc_iat p, pc_exp p, pc_schema p))
       (\<lambda>(v, kid, vk, sig, c, iat, e, sch).
          \<lparr>pc_v = v, pc_kid = kid, pc_issuer_vk = vk, pc_sig_rj = sig, pc_c_bytes = c, pc_iat = iat,
           pc_exp = e, pc_schema = sch\<rparr>)
       (fmt_pair fmt_word (fmt_pair fmt_string (fmt_pair fmt_bytes (fmt_pair fmt_bytes
         (fmt_pair fmt_bytes (fmt_pair fmt_word (fmt_pair fmt_word fmt_string)))))))"

definition fmt_metadata :: "stored_metadata format" where
  "fmt_metadata =
     fmt_iso
       (\<lambda>m. (md_imported_at m, md_last_used m, md_use_count m, md_label m, md_credential_type m,
             md_nickname m, md_managed_index m))
       (\<lambda>(i, l, u, la, t, n, x).
          \<lparr>md_imported_at = i, md_last_used = l, md_use_count = u, md_label = la,
           md_credential_type = t, md_nickname = n, md_managed_index = x\<rparr>)
       (fmt_pair fmt_word (fmt_pair (fmt_option fmt_word) (fmt_pair fmt_word
         (fmt_pair (fmt_option fmt_string) (fmt_pair fmt_string
           (fmt_pair (fmt_option fmt_string) (fmt_option fmt_word)))))))"

definition fmt_stored :: "stored_wire format" where
  "fmt_stored = fmt_pair fmt_credential fmt_metadata"

definition fmt_secrets :: "credential_secrets format" where
  "fmt_secrets =
     fmt_iso (\<lambda>s. (sec_dob_days s, sec_r_bits s)) (\<lambda>(d, r). \<lparr>sec_dob_days = d, sec_r_bits = r\<rparr>)
       (fmt_pair fmt_word fmt_bools)"

lemma lawful_stored: "lawful_format fmt_stored"
  unfolding fmt_stored_def fmt_credential_def fmt_metadata_def
  by (intro lawful_pair lawful_iso lawful_formats) simp_all

lemma lawful_secrets: "lawful_format fmt_secrets"
  unfolding fmt_secrets_def by (intro lawful_iso lawful_formats) simp

definition decode_all :: "'a format \<Rightarrow> bytes \<Rightarrow> string + 'a" where
  "decode_all f b = (case snd f b of Some (x, []) \<Rightarrow> Inr x | _ \<Rightarrow> Inl ''malformed'')"

lemma decode_all_encode: "lawful_format f \<Longrightarrow> decode_all f (fst f x) = Inr x"
  using lawful_formatD[of f x "[]"] by (simp add: decode_all_def)

definition sample_codec :: storage_codec where
  "sample_codec =
     \<lparr>sx_enc_stored = (\<lambda>w. Inr (fst fmt_stored w)), sx_dec_stored = decode_all fmt_stored,
      sx_enc_secrets = (\<lambda>s. Inr (fst fmt_secrets s)), sx_dec_secrets = decode_all fmt_secrets,
      sx_nullifier = take 32, sx_b64 = (\<lambda>b. concat (map (\<lambda>w. show_nat (unat w)) b))\<rparr>"

lemma sample_codec_roundtrip: "codec_roundtrip sample_codec"
  by (simp add: codec_roundtrip_def sample_codec_def decode_all_encode lawful_stored lawful_secrets)

end
