(* ===== verification/Storage_Contract.thy ===== *)
theory Storage_Contract
  imports Sample_Codec
begin

text \<open>
  What the credential store promises: the effect of each operation of
  \<open>Credential_Storage\<close> on the key-value map of any backend that obeys the documented
  contract, and the properties that follow for the operations used together. A property
  with the hypothesis \<open>storage_backend\<close> holds whatever operations of the backend fail; one
  with \<open>reliable_backend\<close> says what happens when none does.
\<close>

section \<open>Decoding what was stored\<close>

lemma of_to_postcard [simp]: "of_postcard (to_postcard c) = redacted c"
  by (simp add: of_postcard_def to_postcard_def redacted_def)

lemma codec_stored:
  assumes "codec_roundtrip X"
  shows "\<exists>d. encode_stored X st = Inr d \<and>
    decode_stored X d = Inr (st\<lparr>sc_credential := redacted (sc_credential st)\<rparr>)"
proof -
  let ?w = "(to_postcard (sc_credential st), sc_metadata st)"
  obtain d where "sx_enc_stored X ?w = Inr d" "sx_dec_stored X d = Inr ?w"
    using assms unfolding codec_roundtrip_def by blast
  then show ?thesis by (cases st) (simp add: encode_stored_def decode_stored_def)
qed

lemma codec_storedD:
  assumes "codec_roundtrip X" "encode_stored X st = Inr d"
  shows "decode_stored X d = Inr (st\<lparr>sc_credential := redacted (sc_credential st)\<rparr>)"
  using codec_stored[OF assms(1), of st] assms(2) by auto

lemma codec_secrets:
  assumes "codec_roundtrip X"
  shows "\<exists>d. sx_enc_secrets X sec = Inr d \<and> sx_dec_secrets X d = Inr sec"
  using assms by (simp add: codec_roundtrip_def)

lemma contains_NotFound: "contains_str ''NotFound'' (show_platform_error (PStorage ''NotFound''))"
  by (simp add: starts_with_def)

section \<open>Reliable backends\<close>

lemma bindS_ctx: "m s = (Inr x, s') \<Longrightarrow> bindS (ctx msg m) f s = f x s'"
  by (rule bindS_Inr[OF ctx_Inr])

lemma find_append: "find P (xs @ ys) = (case find P xs of None \<Rightarrow> find P ys | Some x \<Rightarrow> Some x)"
  by (induction xs) auto

lemma find_upt: "find P [0..<n] = Some i \<Longrightarrow> i < n \<and> P i \<and> (\<forall>j<i. \<not> P j)"
proof (induction n)
  case (Suc n)
  show ?case
  proof (cases "find P [0..<n]")
    case None
    with Suc.prems have "i = n" "P n" by (auto simp: find_append split: if_splits)
    with None show ?thesis by (auto simp: find_None_iff)
  next
    case (Some j)
    with Suc show ?thesis by (simp add: find_append)
  qed
qed simp

context reliable_backend
begin

lemma get_some:
  assumes "inv s" "view s k = Some d" "decode_stored X d = Inr st"
  shows "fst (get_credential X (Some B) k s) = Inr (Some (sc_credential st))"
  using retrieve_some[OF assms(1,2), of BioNone] assms(3)
  by (auto simp: get_credential_def retrieve_or_none_def)

lemma get_none:
  assumes "inv s" "view s k = None"
  shows "fst (get_credential X (Some B) k s) = Inr None"
  using retrieve_none[OF assms, of BioNone] contains_NotFound
  by (auto simp: get_credential_def retrieve_or_none_def)

lemma load_some:
  assumes "inv s" "view s (secrets_key i) = Some d" "sx_dec_secrets X d = Inr sec"
  shows "fst (load_credential_secrets X (Some B) i s) = Inr (Some sec)"
  using retrieve_some[OF assms(1,2), of for_credential_secrets] assms(3)
  by (auto simp: load_credential_secrets_def retrieve_or_none_def)

lemma load_none:
  assumes "inv s" "view s (secrets_key i) = None"
  shows "fst (load_credential_secrets X (Some B) i s) = Inr None"
  using retrieve_none[OF assms, of for_credential_secrets] contains_NotFound
  by (auto simp: load_credential_secrets_def retrieve_or_none_def)

lemma secrets_exist:
  assumes "inv s"
  shows "fst (credential_secrets_exist (Some B) i s) = Inr (view s (secrets_key i) \<noteq> None)"
  using exists_ok[OF assms, of "secrets_key i"]
  by (auto simp: credential_secrets_exist_def ctx_Inr)

lemma delete_matching_ok: "inv s \<Longrightarrow> \<exists>s'. delete_matching B P ks s = (Inr (), s')"
proof (induction ks arbitrary: s)
  case (Cons k ks)
  show ?case
  proof (cases "P k")
    case True
    obtain t where d: "be_delete B k s = (Inr (), t)" using delete_ok[OF Cons.prems] by blast
    with delete_law[OF Cons.prems d] Cons.IH[of t] True show ?thesis
      by (auto simp: bindS_ctx)
  qed (use Cons in simp)
qed simp

lemma store_succeeds:
  assumes "inv s" "codec_roundtrip X"
  shows "\<exists>key s'. store_credential_with_slot X (Some B) now c label slot nick s = (Inr key, s')"
proof -
  let ?ns = "from_label label"
  let ?P = "\<lambda>k. starts_with (cred_prefix ?ns slot) k \<or> starts_with (sec_prefix ?ns slot) k"
  obtain ks s1 where l: "be_list_keys B s = (Inr ks, s1)" using list_ok[OF assms(1)] by blast
  then have "inv s1" using list_law[OF assms(1)] by blast
  then obtain s2 where d: "delete_matching B ?P ks s1 = (Inr (), s2)" using delete_matching_ok by blast
  then have "inv s2" using delete_matching_frame \<open>inv s1\<close> by blast
  obtain b where b: "encode_stored X \<lparr>sc_credential = c, sc_metadata = new_metadata now label slot nick\<rparr> = Inr b"
    using codec_stored[OF assms(2)] by blast
  obtain s3 where "be_store B (cred_prefix ?ns slot @ compute_base_id X c) b BioNone s2 = (Inr (), s3)"
    using store_ok[OF \<open>inv s2\<close>] by blast
  with l d b show ?thesis
    by (simp add: store_credential_with_slot_def Let_def split_beta bindS_ctx bindS_Inr pureS_def)
qed

lemma store_secrets_succeeds:
  assumes "inv s" "codec_roundtrip X"
  shows "\<exists>s'. store_credential_secrets X (Some B) i sec s = (Inr (), s')"
  using codec_secrets[OF assms(2), of sec] store_ok[OF assms(1), of "secrets_key i" _ for_credential_secrets]
  by (auto simp: store_credential_secrets_def) (metis ctx_Inr)

lemma delete_succeeds:
  assumes "inv s"
  shows "\<exists>s'. delete_credential (Some B) i s = (Inr (), s') \<and> inv s'
    \<and> view s' = (view s)(i := None, secrets_key i := None)"
proof -
  obtain t where d: "be_delete B i s = (Inr (), t)" using delete_ok[OF assms] by blast
  then have t: "inv t" "view t = (view s)(i := None)" using delete_law[OF assms d] by auto
  obtain u where e: "be_delete B (secrets_key i) t = (Inr (), u)" using delete_ok[OF t(1)] by blast
  with d t delete_law[OF t(1) e] show ?thesis
    by (auto simp: delete_credential_def bindS_ctx)
qed

end

section \<open>Slot occupation\<close>

definition occupied_by :: "credential_namespace \<Rightarrow> nat \<Rightarrow> string \<Rightarrow> bool" where
  "occupied_by ns i key \<longleftrightarrow> (\<exists>j. managed_index_of (fst (managed_prefixes ns)) key = Some j \<and> unat j = i)"

lemma mark_fold:
  "length (fold (mark_occupied p) ks occ) = length occ
   \<and> (i < length occ \<longrightarrow> (fold (mark_occupied p) ks occ ! i \<longleftrightarrow>
        occ ! i \<or> (\<exists>k \<in> set ks. \<exists>j. managed_index_of p k = Some j \<and> unat j = i)))"
proof (induction ks arbitrary: occ)
  case (Cons k ks)
  have "length (mark_occupied p k occ) = length occ"
    by (simp add: mark_occupied_def split: option.split)
  moreover have "i < length occ \<Longrightarrow> mark_occupied p k occ ! i \<longleftrightarrow>
      occ ! i \<or> (\<exists>j. managed_index_of p k = Some j \<and> unat j = i)"
    by (cases "managed_index_of p k") (auto simp: mark_occupied_def, (metis nth_list_update_eq nth_list_update_neq)+)
  ultimately show ?case using Cons[of "mark_occupied p k occ"] by auto
qed simp

lemma managed_index_of_prefix:
  "managed_index_of (fst (managed_prefixes ns)) (cred_prefix ns (SlotManaged i) @ b) = Some i"
  by (cases ns) (simp_all add: managed_index_of_def first_part_number not_digit_dot)

context reliable_backend
begin

lemma next_index:
  assumes "inv s"
  shows "\<exists>s'. next_available_managed_index (Some B) ns s =
    (case find (\<lambda>i. \<nexists>k. view s k \<noteq> None \<and> occupied_by ns i k) [0..<15] of
       Some i \<Rightarrow> Inr (word_of_nat i)
     | None \<Rightarrow> Inl (''All 15 managed credential slots are full''), s')"
proof -
  obtain ks t where l: "be_list_keys B s = (Inr ks, t)" using list_ok[OF assms] by blast
  with list_law[OF assms l] have ks: "set ks = dom (view s)" by auto
  let ?p = "fst (managed_prefixes ns)"
  let ?occ = "fold (mark_occupied ?p) ks (replicate MAX_MANAGED_SLOTS False)"
  have "\<not> ?occ ! i \<longleftrightarrow> (\<nexists>k. view s k \<noteq> None \<and> occupied_by ns i k)" if "i < 15" for i
    using that mark_fold[of ?p ks "replicate MAX_MANAGED_SLOTS False" i] ks
    by (auto simp: MAX_MANAGED_SLOTS_def occupied_by_def dom_def)
  then have "find (\<lambda>i. \<not> ?occ ! i) [0..<15] = find (\<lambda>i. \<nexists>k. view s k \<noteq> None \<and> occupied_by ns i k) [0..<15]"
    by (intro find_cong refl) simp
  moreover have "show_nat MAX_MANAGED_SLOTS = ''15''" by code_simp
  moreover have "[0..<MAX_MANAGED_SLOTS] = [0..<15]" by (simp add: MAX_MANAGED_SLOTS_def)
  ultimately show ?thesis using l
    by (auto simp: next_available_managed_index_def bindS_ctx Let_def pureS_def split: option.split)
qed

end

section \<open>Listing\<close>

text \<open>The entry a key contributes to the listing of a map.\<close>

definition listed :: "storage_codec \<Rightarrow> u64 \<Rightarrow> (string \<Rightarrow> bytes option) \<Rightarrow> string \<Rightarrow> credential_info option" where
  "listed X now v k =
     (if is_credential_key k
      then case v k of
          Some d \<Rightarrow> (case decode_stored X d of
              Inr st \<Rightarrow> Some (credential_info_of now k st (v (secrets_key k) \<noteq> None))
            | Inl _ \<Rightarrow> None)
        | None \<Rightarrow> None
      else None)"

lemma listed_id: "listed X now v k = Some ci \<Longrightarrow> ci_id ci = k"
  by (auto simp: listed_def credential_info_of_def Let_def split: if_splits option.splits sum.splits)

lemma listed_Some_iff:
  "listed X now v k \<noteq> None \<longleftrightarrow> is_credential_key k \<and> (\<exists>d st. v k = Some d \<and> decode_stored X d = Inr st)"
proof (cases "v k")
  case (Some d)
  then show ?thesis by (cases "decode_stored X d") (auto simp: listed_def)
qed (auto simp: listed_def)

context reliable_backend
begin

lemma list_loop_listed:
  assumes "inv s" "set ks \<subseteq> dom (view s)"
  shows "\<exists>s'. list_loop X B now ks acc s = (acc @ List.map_filter (listed X now (view s)) ks, s')"
  using assms
proof (induction ks arbitrary: acc s)
  case (Cons k ks)
  show ?case
  proof (cases "is_credential_key k")
    case False
    with Cons show ?thesis by (simp add: listed_def List.map_filter_simps)
  next
    case True
    from Cons.prems obtain d where d: "view s k = Some d" by auto
    obtain s1 where r: "be_retrieve B k BioNone s = (Inr d, s1)"
      using retrieve_some[OF Cons.prems(1) d] by blast
    from retrieve_law[OF Cons.prems(1) r] have s1: "inv s1" "view s1 = view s" by auto
    show ?thesis
    proof (cases "decode_stored X d")
      case (Inl e)
      with True r d s1 Cons.IH[OF s1(1)] Cons.prems show ?thesis
        by (simp add: listed_def List.map_filter_simps)
    next
      case (Inr st)
      obtain s2 where x: "be_exists B (secrets_key k) s1 = (Inr (view s1 (secrets_key k) \<noteq> None), s2)"
        using exists_ok[OF s1(1)] by blast
      from exists_law[OF s1(1) x] s1 have s2: "inv s2" "view s2 = view s" by auto
      have "listed X now (view s) k = Some (credential_info_of now k st (view s (secrets_key k) \<noteq> None))"
        using True d Inr by (simp add: listed_def)
      moreover obtain s' where "list_loop X B now ks
          (acc @ [credential_info_of now k st (view s (secrets_key k) \<noteq> None)]) s2
          = (acc @ [credential_info_of now k st (view s (secrets_key k) \<noteq> None)]
               @ List.map_filter (listed X now (view s)) ks, s')"
        using Cons.IH[OF s2(1), of "acc @ [credential_info_of now k st (view s (secrets_key k) \<noteq> None)]"]
          s2 Cons.prems by auto
      ultimately show ?thesis using True r d Inr x s1
        by (simp add: List.map_filter_simps)
    qed
  qed
qed (simp add: List.map_filter_simps)

lemma list_credentials_listed:
  assumes "inv s"
  shows "\<exists>ks s'. list_credentials X (Some B) now s
      = (Inr (List.map_filter (listed X now (view s)) ks), s')
    \<and> distinct ks \<and> set ks = dom (view s)"
proof -
  obtain ks t where l: "be_list_keys B s = (Inr ks, t)" using list_ok[OF assms] by blast
  from list_law[OF assms l] have t: "inv t" "view t = view s" "distinct ks" "set ks = dom (view s)" by auto
  obtain s' where "list_loop X B now ks [] t = (List.map_filter (listed X now (view s)) ks, s')"
    using list_loop_listed[OF t(1), of ks X now "[]"] t by auto
  with l t show ?thesis by (auto simp: list_credentials_def bindS_ctx)
qed

lemma nickname_effect:
  assumes "inv s" "codec_roundtrip X" "view s k = Some d" "decode_stored X d = Inr st"
  shows "\<exists>s' d'. update_credential_nickname X (Some B) k nick s = (Inr (), s') \<and> inv s'
    \<and> view s' = (view s)(k \<mapsto> d')
    \<and> decode_stored X d' = Inr \<lparr>sc_credential = redacted (sc_credential st),
                               sc_metadata = (sc_metadata st)\<lparr>md_nickname := nick\<rparr>\<rparr>"
proof -
  obtain t where r: "be_retrieve B k BioNone s = (Inr d, t)"
    using retrieve_some[OF assms(1,3)] by blast
  from retrieve_law[OF assms(1) r] have t: "inv t" "view t = view s" by auto
  let ?st = "st\<lparr>sc_metadata := (sc_metadata st)\<lparr>md_nickname := nick\<rparr>\<rparr>"
  obtain d' where d': "encode_stored X ?st = Inr d'"
      "decode_stored X d' = Inr (?st\<lparr>sc_credential := redacted (sc_credential ?st)\<rparr>)"
    using codec_stored[OF assms(2), of ?st] by blast
  obtain u where w: "be_store B k d' BioNone t = (Inr (), u)" using store_ok[OF t(1)] by blast
  have "update_credential_nickname X (Some B) k nick s = (Inr (), u)"
    using r assms(4) d'(1) w by (simp add: update_credential_nickname_def bindS_ctx Let_def ctx_Inr)
  with store_law[OF t(1) w] t d'(2) show ?thesis by auto
qed

lemma purge_count:
  "inv s \<Longrightarrow> \<exists>s'. delete_count_loop B P ks n s = (n + length (filter P ks), s')
     \<and> (\<forall>k. view s' k = (if P k \<and> k \<in> set ks then None else view s k))"
proof (induction ks arbitrary: n s)
  case (Cons k ks)
  obtain t where d: "be_delete B k s = (Inr (), t)" using delete_ok[OF Cons.prems] by blast
  from delete_law[OF Cons.prems d] have t: "inv t" "view t = (view s)(k := None)" by auto
  show ?case
    using Cons.IH[OF t(1), of "n + 1"] Cons.IH[OF Cons.prems, of n] d t(2) by (cases "P k") auto
qed simp

end

lemma in_sandbox_iff:
  "in_namespace NsSandbox k \<longleftrightarrow>
     (\<exists>p \<in> {''provii.sandbox.cred.primary.'', ''provii.sandbox.credsec.primary.'',
            ''provii.sandbox.cred.managed.'', ''provii.sandbox.credsec.managed.''}. starts_with p k)"
  by (auto simp: in_namespace_def key_simps)

lemma slot_in_sandbox: "k \<in> slot_keys NsSandbox slot \<Longrightarrow> in_namespace NsSandbox k"
  by (cases slot) (auto simp: slot_keys_iff in_namespace_def)

lemma production_not_sandbox: "k \<in> slot_keys NsPrimary slot \<Longrightarrow> \<not> in_namespace NsSandbox k"
  by (cases slot) (auto simp: slot_keys_iff in_sandbox_iff starts_with_def key_simps)

section \<open>Properties\<close>



text \<open>On a backend that does not fail, a stored credential is read back under the returned key
  with its secret fields cleared, whatever was in the slot before, and no secrets record of
  an earlier credential survives in the slot.\<close>

theorem store_then_get:
  assumes "reliable_backend B view I" "I s" "codec_roundtrip X"
  shows "\<exists>key s'. store_credential_with_slot X (Some B) now c label slot nick s = (Inr key, s')
    \<and> I s' \<and> fst (get_credential X (Some B) key s') = Inr (Some (redacted c))
    \<and> fst (credential_secrets_exist (Some B) key s') = Inr False
    \<and> fst (load_credential_secrets X (Some B) key s') = Inr None"
proof -
  note base = reliable_backend.axioms(1)[OF assms(1)]
  obtain key s' where st: "store_credential_with_slot X (Some B) now c label slot nick s = (Inr key, s')"
    using reliable_backend.store_succeeds[OF assms] by blast
  from storage_backend.store_effect[OF base assms(2) st] obtain d where
    e: "I s'" "key = cred_prefix (from_label label) slot @ compute_base_id X c"
      "encode_stored X \<lparr>sc_credential = c, sc_metadata = new_metadata now label slot nick\<rparr> = Inr d"
    and v: "\<And>k. k \<in> slot_keys (from_label label) slot \<Longrightarrow> view s' k = (if k = key then Some d else None)"
    by blast
  have "view s' key = Some d" using v[of key] e(2) by (auto simp: slot_keys_iff)
  from reliable_backend.get_some[OF assms(1) e(1) this codec_storedD[OF assms(3) e(3)]]
  have "fst (get_credential X (Some B) key s') = Inr (Some (redacted c))" by simp
  moreover have "secrets_key key \<in> slot_keys (from_label label) slot" "secrets_key key \<noteq> key"
    using cred_not_sec_prefix e(2) by (auto simp: slot_keys_iff) (metis starts_with_append)
  then have "view s' (secrets_key key) = None" using v by simp
  ultimately show ?thesis
    using st e(1) reliable_backend.secrets_exist[OF assms(1) e(1), of key]
      reliable_backend.load_none[OF assms(1) e(1), of key X] by auto
qed


lemma store_then_get_witness:
  "\<exists>key s'. store_credential_with_slot sample_codec (Some memory_backend) 0 (sample_credential 5 7) None
       SlotPrimary None [] = (Inr key, s')
   \<and> fst (get_credential sample_codec (Some memory_backend) key s') = Inr (Some (redacted (sample_credential 5 7)))"
  using store_then_get[OF mem.reliable_backend_axioms, OF _ sample_codec_roundtrip, of "[]" 0 "sample_credential 5 7"
      None SlotPrimary None]
  by (auto simp: memory_inv_def)

lemma sec_key_neq: "sec_prefix ns slot @ b \<noteq> cred_prefix ns' slot' @ b'"
  using cred_not_sec_prefix by (metis starts_with_append)







text \<open>Purging the sandbox removes every sandbox key, reports how many there were, and leaves
  every production record as it was.\<close>

theorem sandbox_purge_exact:
  assumes "reliable_backend B view I" "I s"
  shows "\<exists>s'. delete_sandbox_credentials (Some B) s = (Inr (card {k. view s k \<noteq> None \<and> in_namespace NsSandbox k}), s')
    \<and> (\<forall>slot. \<forall>k \<in> slot_keys NsSandbox slot. view s' k = None)
    \<and> (\<forall>slot. \<forall>k \<in> slot_keys NsPrimary slot. view s' k = view s k)"
proof -
  note base = reliable_backend.axioms(1)[OF assms(1)]
  obtain ks t where l: "be_list_keys B s = (Inr ks, t)" using reliable_backend.list_ok[OF assms] by blast
  from storage_backend.list_law[OF base assms(2) l]
  have t: "I t" "view t = view s" "distinct ks" "set ks = dom (view s)" by auto
  obtain s' where s': "delete_count_loop B (in_namespace NsSandbox) ks 0 t
      = (length (filter (in_namespace NsSandbox) ks), s')"
    and v: "\<And>k. view s' k = (if in_namespace NsSandbox k \<and> k \<in> set ks then None else view t k)"
    using reliable_backend.purge_count[OF assms(1) t(1), of "in_namespace NsSandbox" ks 0] by auto
  have "length (filter (in_namespace NsSandbox) ks) = card (set (filter (in_namespace NsSandbox) ks))"
    using t(3) by (simp add: distinct_card del: set_filter)
  also have "set (filter (in_namespace NsSandbox) ks) = {k. view s k \<noteq> None \<and> in_namespace NsSandbox k}"
    using t(4) by auto
  finally have "delete_sandbox_credentials (Some B) s
      = (Inr (card {k. view s k \<noteq> None \<and> in_namespace NsSandbox k}), s')"
    using l s' by (simp add: delete_sandbox_credentials_def delete_all_in_namespace_def bindS_ctx)
  moreover have "\<forall>slot. \<forall>k \<in> slot_keys NsSandbox slot. view s' k = None"
    using v t slot_in_sandbox by (metis domIff)
  moreover have "\<forall>slot. \<forall>k \<in> slot_keys NsPrimary slot. view s' k = view s k"
    using v t(2) production_not_sandbox by metis
  ultimately show ?thesis by blast
qed

lemma sandbox_purge_exact_witness:
  "\<exists>s'. delete_sandbox_credentials (Some memory_backend) [(''provii.cred.primary.x'', [1])] = (Inr 0, s')
     \<and> map_of s' ''provii.cred.primary.x'' = Some [1]"
proof -
  let ?m = "[(''provii.cred.primary.x'', [1])] :: memory"
  have I: "memory_inv ?m" by (simp add: memory_inv_def)
  have mem: "''provii.cred.primary.x'' \<in> slot_keys NsPrimary SlotPrimary"
    by (simp add: slot_keys_def starts_with_def key_simps)
  have "{k. map_of ?m k \<noteq> None \<and> in_namespace NsSandbox k} = {}"
    using production_not_sandbox[OF mem] by auto
  with sandbox_purge_exact[OF mem.reliable_backend_axioms, OF I] mem show ?thesis by fastforce
qed

text \<open>The listing of a backend that does not fail has one entry for each public record that
  decodes, of any namespace and slot, and none for a secrets record; an entry says the
  credential can prove exactly when it has not expired and its secrets record exists.\<close>

theorem listing_exact:
  assumes "reliable_backend B view I" "I s"
  shows "\<exists>l s'. list_credentials X (Some B) now s = (Inr l, s')
    \<and> distinct (map ci_id l)
    \<and> ci_id ` set l = {k. is_credential_key k \<and> (\<exists>d st. view s k = Some d \<and> decode_stored X d = Inr st)}
    \<and> (\<forall>ci \<in> set l. \<forall>d st. view s (ci_id ci) = Some d \<and> decode_stored X d = Inr st \<longrightarrow>
         ci_expires_at ci = cred_exp (sc_credential st)
       \<and> (ci_can_prove ci \<longleftrightarrow> now \<le> cred_exp (sc_credential st) \<and> view s (secrets_key (ci_id ci)) \<noteq> None))"
proof -
  obtain ks s' where l: "list_credentials X (Some B) now s
      = (Inr (List.map_filter (listed X now (view s)) ks), s')" and ks: "distinct ks" "set ks = dom (view s)"
    using reliable_backend.list_credentials_listed[OF assms] by blast
  let ?l = "List.map_filter (listed X now (view s)) ks"
  have "distinct (map ci_id ?l) \<and> set (map ci_id ?l) \<subseteq> set ks" using ks(1)
    by (induction ks) (auto simp: List.map_filter_simps dest!: listed_id split: option.splits)
  moreover have "ci_id ` set ?l = {k. is_credential_key k \<and> (\<exists>d st. view s k = Some d \<and> decode_stored X d = Inr st)}"
  proof -
    have "ci_id ` set ?l = {k \<in> set ks. listed X now (view s) k \<noteq> None}"
      by (auto simp: List.map_filter_def image_iff dest: listed_id) (metis listed_id option.sel)+
    also have "\<dots> = {k. is_credential_key k \<and> (\<exists>d st. view s k = Some d \<and> decode_stored X d = Inr st)}"
      unfolding listed_Some_iff using ks(2) by auto
    finally show ?thesis .
  qed
  moreover have "ci_expires_at ci = cred_exp (sc_credential st)
       \<and> (ci_can_prove ci \<longleftrightarrow> now \<le> cred_exp (sc_credential st) \<and> view s (secrets_key (ci_id ci)) \<noteq> None)"
    if "ci \<in> set ?l" "view s (ci_id ci) = Some d" "decode_stored X d = Inr st" for ci d st
    using that by (auto simp: List.map_filter_def listed_def credential_info_of_def Let_def
        split: if_splits option.splits sum.splits)
  ultimately show ?thesis using l by blast
qed

lemma listing_exact_witness:
  "\<exists>l s'. list_credentials sample_codec (Some memory_backend) 3 [(''provii.credsec.primary.x'', [1])] = (Inr l, s')
     \<and> l = []"
proof -
  let ?m = "[(''provii.credsec.primary.x'', [1])] :: memory"
  have I: "memory_inv ?m" by (simp add: memory_inv_def)
  have "\<not> is_credential_key ''provii.credsec.primary.x''" by code_simp
  then have none: "{k. is_credential_key k \<and> (\<exists>d st. map_of ?m k = Some d \<and> decode_stored sample_codec d = Inr st)} = {}"
    by (auto split: if_splits)
  from listing_exact[OF mem.reliable_backend_axioms, OF I, of sample_codec 3]
  show ?thesis unfolding none by blast
qed

text \<open>Changing the nickname of a stored credential rewrites its public record with only the
  nickname changed, and no other key, so the secrets of the credential stay in place.\<close>

theorem nickname_update_exact:
  assumes "reliable_backend B view I" "I s" "codec_roundtrip X" "view s k = Some d"
    "decode_stored X d = Inr st"
  shows "\<exists>s' d'. update_credential_nickname X (Some B) k nick s = (Inr (), s')
    \<and> view s' = (view s)(k \<mapsto> d')
    \<and> decode_stored X d' = Inr \<lparr>sc_credential = redacted (sc_credential st),
                               sc_metadata = (sc_metadata st)\<lparr>md_nickname := nick\<rparr>\<rparr>"
  using reliable_backend.nickname_effect[OF assms] by blast

lemma nickname_update_exact_witness:
  "\<exists>d s' d'. update_credential_nickname sample_codec (Some memory_backend) ''k'' (Some ''kid'') [(''k'', d)] = (Inr (), s')
     \<and> map_of s' ''k'' = Some d'
     \<and> map_err (\<lambda>_. ()) (bindR (decode_stored sample_codec d') (\<lambda>st. Inr (md_nickname (sc_metadata st)))) = Inr (Some ''kid'')"
proof -
  let ?st = "\<lparr>sc_credential = sample_credential 5 7, sc_metadata = new_metadata 1 None SlotPrimary None\<rparr>"
  obtain d where d: "decode_stored sample_codec d = Inr (?st\<lparr>sc_credential := redacted (sc_credential ?st)\<rparr>)"
    using codec_stored[OF sample_codec_roundtrip, of ?st] by blast
  let ?m = "[(''k'', d)] :: memory"
  have I: "memory_inv ?m" by (simp add: memory_inv_def)
  have "map_of ?m ''k'' = Some d" by simp
  from nickname_update_exact[OF mem.reliable_backend_axioms, OF I sample_codec_roundtrip this d, of "Some ''kid''"]
  show ?thesis by (auto simp: exI[of _ d])
qed

text \<open>Whether a missing record is an absence or a failure is decided by the display text of the
  backend's error: the storage error with the text NotFound is an absence, while the
  error variant the interface has for a missing key is reported as a failure, because its
  display text is "Not found".\<close>

theorem absence_decided_by_text:
  "fst (retrieve_or_none msg (\<lambda>s. (Inl (PStorage ''NotFound''), s)) parse s) = Inr None
   \<and> fst (retrieve_or_none msg (\<lambda>s. (Inl PNotFound, s)) parse s) = Inl (msg @ '': Not found'')"
  by (simp add: retrieve_or_none_def starts_with_def)

end
