(* ===== verification/Prover.thy ===== *)
theory Prover
  imports Issuance
begin

text \<open>
  Proof generation (\<open>core/src/prover.rs\<close>): the process-global prover state and its
  initialisation, the preflight report, the shape check of the witness, the guarded call
  of the SNARK prover with its retry, and the assembly of the submission. The Groth16
  library, the hash functions and the public input assembly are parameters; a panic of
  the prover is an outcome of its call, and \<open>now\<close> is the wall clock in seconds.
\<close>

section \<open>Errors and parameters\<close>

datatype prover_error =
    NotInitialized
  | AlreadyInitialized
  | InvalidProvingKey
  | InvalidBase64 string
  | ProverInvalidInput string
  | ProverGenerationFailed string
  | ProverMissingFields
  | VkIdMismatch u32 u32
  | AgeRequirementNotMet
  | ProverCredentialExpired
  | ChallengeExpired

datatype age_direction = DirUnder | DirOver

record age_witness =
  aw_dob_days :: i32
  aw_r_bits :: "bool list"
  aw_issuer_vk_bytes :: bytes
  aw_sig_rj_bytes :: bytes
  aw_v :: u8
  aw_kid :: bytes
  aw_c_bytes :: bytes
  aw_iat :: u64
  aw_exp :: u64
  aw_schema :: bytes

text \<open>The fields of the third-party proof result the wallet reads.\<close>

record snark_proof =
  sp_cutoff :: i32
  sp_issuer_vk_bytes :: bytes
  sp_cred_nullifier :: bytes
  sp_proof :: bytes

datatype prove_outcome = Proved snark_proof | ProveError string | Panicked string

text \<open>
  \<open>px_prove\<close> takes the number of the attempt as its last argument, because two calls with
  the same inputs may have different outcomes; \<open>px_debug\<close> turns the display text of an
  error into its debug text.
\<close>

record 'p prover_ext =
  px_load :: "bytes \<Rightarrow> string + 'p"
  px_vk_bytes :: "'p \<Rightarrow> bytes"
  px_blake2s :: "bytes \<Rightarrow> bytes"
  px_nullifier :: "bytes \<Rightarrow> bytes"
  px_publics :: "bool \<Rightarrow> i32 \<Rightarrow> bytes \<Rightarrow> bytes \<Rightarrow> bytes \<Rightarrow> string + bytes list"
  px_prove :: "'p \<Rightarrow> i32 \<Rightarrow> bytes \<Rightarrow> age_witness \<Rightarrow> u32 \<Rightarrow> age_direction \<Rightarrow> nat \<Rightarrow> prove_outcome"
  px_debug :: "string \<Rightarrow> string"

section \<open>The global prover state\<close>

text \<open>The three \<open>OnceCell\<close> statics; setting a cell that is set fails.\<close>

record 'p prover_globals =
  pg_params :: "'p option"
  pg_fingerprint :: "string option"
  pg_vk_id :: "u32 option"

definition prover_globals_new :: "'p prover_globals" where
  "prover_globals_new = \<lparr>pg_params = None, pg_fingerprint = None, pg_vk_id = None\<rparr>"

definition VK_ID_DST :: bytes where
  "VK_ID_DST = bytes_of_string ''provii.vk.id.v0''"

definition le32 :: "bytes \<Rightarrow> u32" where
  "le32 d = word_of_nat (unat (d ! 0) + 256 * unat (d ! 1) + 65536 * unat (d ! 2) + 16777216 * unat (d ! 3))"

definition vk_id_from_vk_bytes :: "'p prover_ext \<Rightarrow> bytes \<Rightarrow> u32" where
  "vk_id_from_vk_bytes Q vk = le32 (px_blake2s Q (VK_ID_DST @ vk))"

definition compute_vk_id :: "'p prover_ext \<Rightarrow> 'p \<Rightarrow> u32" where
  "compute_vk_id Q params = vk_id_from_vk_bytes Q (px_vk_bytes Q params)"

definition init_prover_with_pk_bytes ::
    "externals \<Rightarrow> 'p prover_ext \<Rightarrow> bytes \<Rightarrow> ('p prover_globals, prover_error, unit) op" where
  "init_prover_with_pk_bytes X Q pk g =
     (if pg_params g \<noteq> None then (Inr (), g)
      else case px_load Q pk of
        Inl e \<Rightarrow> (Inl InvalidProvingKey, g)
      | Inr params \<Rightarrow>
          (let fp = x_b64_encode X (take 16 (x_blake3 X pk));
               vk_id = compute_vk_id Q params;
               g1 = g\<lparr>pg_params := Some params\<rparr>
           in if pg_fingerprint g1 \<noteq> None then (Inl AlreadyInitialized, g1)
              else let g2 = g1\<lparr>pg_fingerprint := Some fp\<rparr>
                   in if pg_vk_id g2 \<noteq> None then (Inl AlreadyInitialized, g2)
                      else (Inr (), g2\<lparr>pg_vk_id := Some vk_id\<rparr>)))"

definition is_prover_initialized :: "'p prover_globals \<Rightarrow> bool" where
  "is_prover_initialized g \<longleftrightarrow> pg_params g \<noteq> None"

text \<open>\<open>open_map\<close> stands for opening and memory-mapping the file.\<close>

definition init_prover_with_pk_mmap ::
    "externals \<Rightarrow> 'p prover_ext \<Rightarrow> (string \<Rightarrow> bytes option) \<Rightarrow> string \<Rightarrow> ('p prover_globals, prover_error, unit) op" where
  "init_prover_with_pk_mmap X Q open_map path g =
     (case open_map path of
        None \<Rightarrow> (Inl InvalidProvingKey, g)
      | Some pk \<Rightarrow> init_prover_with_pk_bytes X Q pk g)"

section \<open>Preflight\<close>

record preflight =
  pf_dob_days_present :: bool
  pf_r_bits_len :: nat
  pf_cutoff_days :: i32
  pf_c_bytes_hex :: string
  pf_recomputed_c_hex :: string
  pf_commitment_matches :: bool
  pf_age_ok :: bool
  pf_issuer_hash_b64 :: string
  pf_cred_nullifier_b64 :: string
  pf_proving_key_fp :: "string option"
  pf_verifying_key_id :: u32
  pf_loaded_vk_id :: "u32 option"
  pf_vk_id_matches :: bool
  pf_public_inputs_hex :: "string list"

definition decode_b64_32 :: "externals \<Rightarrow> string \<Rightarrow> prover_error + bytes" where
  "decode_b64_32 X s =
     bindR (map_err InvalidBase64 (x_b64_decode X s)) (\<lambda>raw.
       if length raw \<noteq> 32
       then Inl (InvalidBase64 (''expected 32 bytes, got '' @ show_nat (length raw)))
       else Inr raw)"

definition cred_to_msg :: "credential \<Rightarrow> cred_msg" where
  "cred_to_msg c =
     \<lparr>msg_v = cred_v c, msg_kid = cred_kid c, msg_c = cred_c_bytes c, msg_iat = cred_iat c,
      msg_exp = cred_exp c, msg_schema = cred_schema c\<rparr>"

definition wants_under_age :: "qr_payload \<Rightarrow> bool" where
  "wants_under_age q \<longleftrightarrow> qr_proof_direction q = Some ''under_age''"

definition r_bits_length_error :: "nat \<Rightarrow> prover_error" where
  "r_bits_length_error n =
     ProverInvalidInput (''Invalid r_bits length: expected '' @ show_nat R_BITS_LEN @ '', got '' @ show_nat n)"

definition preflight_report ::
    "externals \<Rightarrow> 'p prover_ext \<Rightarrow> 'p prover_globals \<Rightarrow> credential \<Rightarrow> qr_payload \<Rightarrow> prover_error + preflight" where
  "preflight_report X Q g c q =
     bindR (ok_or ProverMissingFields (cred_dob_days c)) (\<lambda>dob.
     bindR (ok_or ProverMissingFields (cred_r_bits c)) (\<lambda>r.
     if length r \<noteq> R_BITS_LEN then Inl (r_bits_length_error (length r))
     else
     bindR (decode_b64_32 X (qr_rp_challenge q)) (\<lambda>rp.
     bindR (map_err (\<lambda>e. ProverInvalidInput (''RedJubjub signature verification failed: '' @ px_debug Q e))
              (x_verify_cred X (cred_to_msg c) (cred_sig_rj c) (cred_issuer_vk c))) (\<lambda>_.
     let (recomputed, matches) =
           (case x_pedersen X dob r of
              Inr c' \<Rightarrow> (c', c' = cred_c_bytes c)
            | Inl _ \<Rightarrow> (replicate 32 0, False));
         nullifier = px_nullifier Q (cred_c_bytes c)
     in
     bindR (map_err (\<lambda>e. ProverInvalidInput (''public input assembly failed: '' @ e))
              (px_publics Q (\<not> wants_under_age q) (qr_cutoff_days q) (px_blake2s Q rp)
                 (cred_issuer_vk c) nullifier)) (\<lambda>publics.
     Inr \<lparr>pf_dob_days_present = True, pf_r_bits_len = length r, pf_cutoff_days = qr_cutoff_days q,
          pf_c_bytes_hex = hex_encode (cred_c_bytes c), pf_recomputed_c_hex = hex_encode recomputed,
          pf_commitment_matches = matches,
          pf_age_ok = validate_age dob (qr_cutoff_days q) (wants_under_age q),
          pf_issuer_hash_b64 = x_b64_encode X (cred_issuer_vk c),
          pf_cred_nullifier_b64 = x_b64_encode X nullifier,
          pf_proving_key_fp = pg_fingerprint g, pf_verifying_key_id = qr_verifying_key_id q,
          pf_loaded_vk_id = pg_vk_id g,
          pf_vk_id_matches = (pg_vk_id g = Some (qr_verifying_key_id q)),
          pf_public_inputs_hex = map hex_encode publics\<rparr>)))))"

section \<open>Proof generation\<close>

definition verify_circuit_shape :: "age_witness \<Rightarrow> prover_error + unit" where
  "verify_circuit_shape w =
     (if length (aw_kid w) \<noteq> 14
      then Inl (ProverInvalidInput (''kid length mismatch: expected 14, got '' @ show_nat (length (aw_kid w))))
      else if length (aw_schema w) \<noteq> 12
      then Inl (ProverInvalidInput (''schema length mismatch: expected 12, got '' @ show_nat (length (aw_schema w))))
      else if length (aw_r_bits w) \<noteq> 128
      then Inl (ProverInvalidInput (''r_bits length mismatch: expected 128, got '' @ show_nat (length (aw_r_bits w))))
      else if length (aw_sig_rj_bytes w) \<noteq> 64
      then Inl (ProverInvalidInput (''sig_rj_bytes length mismatch: expected 64, got '' @
             show_nat (length (aw_sig_rj_bytes w))))
      else Inr ())"

text \<open>The second attempt after a panic; \<open>px_prove\<close> takes the number of the attempt.\<close>

definition retry_proof ::
    "'p prover_ext \<Rightarrow> 'p \<Rightarrow> i32 \<Rightarrow> bytes \<Rightarrow> age_witness \<Rightarrow> u32 \<Rightarrow> age_direction \<Rightarrow> prover_error + snark_proof" where
  [simp]: "retry_proof Q params cutoff rp w vk_id dir =
     (case px_prove Q params cutoff rp w vk_id dir 1 of
        Proved p \<Rightarrow> Inr p
      | ProveError e \<Rightarrow> Inl (ProverGenerationFailed e)
      | Panicked _ \<Rightarrow> Inl (ProverGenerationFailed ''Proof generation failed after retry''))"

definition generate_proof_safe ::
    "'p prover_ext \<Rightarrow> bool \<Rightarrow> 'p \<Rightarrow> i32 \<Rightarrow> bytes \<Rightarrow> age_witness \<Rightarrow> u32 \<Rightarrow> age_direction \<Rightarrow> prover_error + snark_proof" where
  "generate_proof_safe Q in_rayon params cutoff rp w vk_id dir =
     (if in_rayon
      then Inl (ProverGenerationFailed ''Cannot generate proof from within Rayon worker thread'')
      else case px_prove Q params cutoff rp w vk_id dir 0 of
        Proved p \<Rightarrow> Inr p
      | ProveError e \<Rightarrow> Inl (ProverGenerationFailed e)
      | Panicked _ \<Rightarrow> retry_proof Q params cutoff rp w vk_id dir)"

definition make_witness :: "credential \<Rightarrow> i32 \<Rightarrow> bool list \<Rightarrow> age_witness" where
  "make_witness c dob r =
     \<lparr>aw_dob_days = dob, aw_r_bits = r, aw_issuer_vk_bytes = cred_issuer_vk c,
      aw_sig_rj_bytes = cred_sig_rj c, aw_v = cred_v c, aw_kid = bytes_of_string (cred_kid c),
      aw_c_bytes = cred_c_bytes c, aw_iat = cred_iat c, aw_exp = cred_exp c,
      aw_schema = bytes_of_string (cred_schema c)\<rparr>"

definition make_request :: "externals \<Rightarrow> qr_payload \<Rightarrow> snark_proof \<Rightarrow> submit_proof_request" where
  "make_request X q p =
     \<lparr>spr_challenge_id = qr_challenge_id q, spr_submit_secret = qr_submit_secret q,
      spr_code_verifier = qr_code_verifier q,
      spr_proof =
        \<lparr>apj_verifying_key_id = qr_verifying_key_id q,
         apj_public =
           \<lparr>ap_cutoff_days = qr_cutoff_days q, ap_rp_challenge = qr_rp_challenge q,
            ap_issuer_value = x_b64_encode X (sp_issuer_vk_bytes p),
            ap_cred_nullifier = x_b64_encode X (sp_cred_nullifier p)\<rparr>,
         apj_proof = x_b64_encode X (sp_proof p)\<rparr>\<rparr>"

text \<open>\<open>{}\<close> of an \<open>i32\<close>.\<close>

definition show_i32 :: "i32 \<Rightarrow> string" where
  "show_i32 w = show_int (sint w)"

text \<open>From the witness to the request: the proof, the check of its cutoff, the assembly.\<close>

definition prove_and_assemble ::
    "externals \<Rightarrow> 'p prover_ext \<Rightarrow> bool \<Rightarrow> 'p \<Rightarrow> qr_payload \<Rightarrow> bytes \<Rightarrow> age_witness \<Rightarrow>
     prover_error + submit_proof_request" where
  [simp]: "prove_and_assemble X Q in_rayon params q rp w =
     bindR (generate_proof_safe Q in_rayon params (qr_cutoff_days q) rp w (qr_verifying_key_id q)
              (if wants_under_age q then DirUnder else DirOver)) (\<lambda>p.
     if sp_cutoff p \<noteq> qr_cutoff_days q
     then Inl (ProverGenerationFailed (''Proof cutoff_days mismatch: '' @ show_i32 (sp_cutoff p) @
                 '' != '' @ show_i32 (qr_cutoff_days q)))
     else Inr (make_request X q p))"

definition get_proving_params :: "'p prover_globals \<Rightarrow> prover_error + 'p" where
  [simp]: "get_proving_params g = ok_or NotInitialized (pg_params g)"

definition get_loaded_vk_id :: "'p prover_globals \<Rightarrow> u32 option" where
  [simp]: "get_loaded_vk_id g = pg_vk_id g"

definition get_proving_key_fingerprint :: "'p prover_globals \<Rightarrow> string option" where
  [simp]: "get_proving_key_fingerprint g = pg_fingerprint g"

definition build_verify_request_internal ::
    "externals \<Rightarrow> 'p prover_ext \<Rightarrow> bool \<Rightarrow> 'p prover_globals \<Rightarrow> u64 \<Rightarrow> credential \<Rightarrow> qr_payload \<Rightarrow>
     prover_error + submit_proof_request" where
  "build_verify_request_internal X Q in_rayon g now c q =
     bindR (get_proving_params g) (\<lambda>params.
     bindR (ok_or NotInitialized (get_loaded_vk_id g)) (\<lambda>loaded.
     if loaded \<noteq> qr_verifying_key_id q then Inl (VkIdMismatch loaded (qr_verifying_key_id q))
     else if cred_exp c < now then Inl ProverCredentialExpired
     else if qr_expires_at q \<le> now then Inl ChallengeExpired
     else
     bindR (preflight_report X Q g c q) (\<lambda>report.
     if \<not> pf_commitment_matches report
     then Inl (ProverInvalidInput (''Commitment mismatch: stored='' @ pf_c_bytes_hex report @
                 '', recomputed='' @ pf_recomputed_c_hex report))
     else if \<not> pf_age_ok report then Inl AgeRequirementNotMet
     else
     bindR (ok_or ProverMissingFields (cred_dob_days c)) (\<lambda>dob.
     bindR (ok_or ProverMissingFields (cred_r_bits c)) (\<lambda>r.
     if length r \<noteq> R_BITS_LEN then Inl (r_bits_length_error (length r))
     else
     bindR (decode_b64_32 X (qr_rp_challenge q)) (\<lambda>rp.
     let w = make_witness c dob r in
     bindR (verify_circuit_shape w) (\<lambda>_.
     prove_and_assemble X Q in_rayon params q rp w)))))))"

text \<open>
  The bounce off a Rayon worker: \<open>spawn\<close> is the outcome of creating the thread, and
  \<open>thread_panics\<close> says whether the spawned call panicked.
\<close>

definition build_verify_request ::
    "externals \<Rightarrow> 'p prover_ext \<Rightarrow> bool \<Rightarrow> string + unit \<Rightarrow> bool \<Rightarrow> 'p prover_globals \<Rightarrow> u64 \<Rightarrow>
     credential \<Rightarrow> qr_payload \<Rightarrow> prover_error + submit_proof_request" where
  "build_verify_request X Q in_rayon spawn thread_panics g now c q =
     (if in_rayon
      then bindR (map_err (\<lambda>e. ProverGenerationFailed (''Failed to spawn proof generation thread: '' @ e)) spawn) (\<lambda>_.
           if thread_panics then Inl (ProverGenerationFailed ''Proof generation thread panicked'')
           else build_verify_request_internal X Q False g now c q)
      else build_verify_request_internal X Q False g now c q)"

definition can_satisfy_age_requirement :: "credential \<Rightarrow> i32 \<Rightarrow> bool \<Rightarrow> bool" where
  "can_satisfy_age_requirement c cutoff young =
     (case cred_dob_days c of Some dob \<Rightarrow> validate_age dob cutoff young | None \<Rightarrow> False)"

section \<open>Lemmas\<close>

lemma decode_b64_32_ok: "decode_b64_32 X s = Inr b \<longleftrightarrow> x_b64_decode X s = Inr b \<and> length b = 32"
  by (auto simp: decode_b64_32_def bindR_Inr_iff)

lemma verify_circuit_shape_ok:
  "verify_circuit_shape w = Inr u \<longleftrightarrow>
     length (aw_kid w) = 14 \<and> length (aw_schema w) = 12 \<and> length (aw_r_bits w) = 128
   \<and> length (aw_sig_rj_bytes w) = 64"
  by (auto simp: verify_circuit_shape_def)

text \<open>What the preflight must have found for the proof to be attempted.\<close>

definition preflight_passes ::
    "externals \<Rightarrow> 'p prover_ext \<Rightarrow> credential \<Rightarrow> qr_payload \<Rightarrow> i32 \<Rightarrow> bool list \<Rightarrow> bytes \<Rightarrow> bool" where
  "preflight_passes X Q c q dob r rp \<longleftrightarrow>
     cred_dob_days c = Some dob \<and> cred_r_bits c = Some r \<and> length r = 128
   \<and> x_b64_decode X (qr_rp_challenge q) = Inr rp \<and> length rp = 32
   \<and> x_verify_cred X (cred_to_msg c) (cred_sig_rj c) (cred_issuer_vk c) = Inr ()
   \<and> x_pedersen X dob r = Inr (cred_c_bytes c)
   \<and> validate_age dob (qr_cutoff_days q) (wants_under_age q)
   \<and> is_ok (px_publics Q (\<not> wants_under_age q) (qr_cutoff_days q) (px_blake2s Q rp)
              (cred_issuer_vk c) (px_nullifier Q (cred_c_bytes c)))"

lemma preflight_ok:
  "(\<exists>rep. preflight_report X Q g c q = Inr rep \<and> pf_commitment_matches rep \<and> pf_age_ok rep)
   \<longleftrightarrow> (\<exists>dob r rp. preflight_passes X Q c q dob r rp)"
proof -
  have *: "(\<exists>rep. preflight_report X Q g c q = Inr rep \<and> pf_commitment_matches rep \<and> pf_age_ok rep)
      \<longleftrightarrow> (\<exists>rp. preflight_passes X Q c q dob r rp)"
    if "cred_dob_days c = Some dob" "cred_r_bits c = Some r" for dob r
  proof (cases "x_pedersen X dob r")
    case (Inl e)
    with that show ?thesis
      by (auto simp: preflight_report_def preflight_passes_def bindR_Inr_iff Let_def)
  next
    case (Inr c')
    with that show ?thesis
      by (auto simp: preflight_report_def preflight_passes_def bindR_Inr_iff Let_def R_BITS_LEN_def
          decode_b64_32_ok is_ok_iff)
  qed
  show ?thesis
  proof (cases "cred_dob_days c"; cases "cred_r_bits c")
    fix dob r assume "cred_dob_days c = Some dob" "cred_r_bits c = Some r"
    with *[OF this] show ?thesis by (auto simp: preflight_passes_def)
  qed (auto simp: preflight_report_def preflight_passes_def bindR_Inr_iff)
qed

lemma generate_ok:
  "generate_proof_safe Q False params cutoff rp w vk dir = Inr p \<longleftrightarrow>
     px_prove Q params cutoff rp w vk dir 0 = Proved p
   \<or> ((\<exists>m. px_prove Q params cutoff rp w vk dir 0 = Panicked m)
      \<and> px_prove Q params cutoff rp w vk dir 1 = Proved p)"
  by (auto simp: generate_proof_safe_def split: prove_outcome.splits)

lemma build_ok:
  "build_verify_request_internal X Q False g now c q = Inr req \<longleftrightarrow>
     (\<exists>params dob r rp p.
        pg_params g = Some params \<and> pg_vk_id g = Some (qr_verifying_key_id q)
      \<and> now \<le> cred_exp c \<and> now < qr_expires_at q
      \<and> preflight_passes X Q c q dob r rp
      \<and> length (cred_kid c) = 14 \<and> length (cred_schema c) = 12 \<and> length (cred_sig_rj c) = 64
      \<and> generate_proof_safe Q False params (qr_cutoff_days q) rp (make_witness c dob r)
          (qr_verifying_key_id q) (if wants_under_age q then DirUnder else DirOver) = Inr p
      \<and> sp_cutoff p = qr_cutoff_days q \<and> req = make_request X q p)"
    (is "?L \<longleftrightarrow> ?R")
proof
  assume ?L
  then obtain params rep dob r rp p where
    e: "pg_params g = Some params" "pg_vk_id g = Some (qr_verifying_key_id q)"
      "now \<le> cred_exp c" "now < qr_expires_at q"
    and rep: "preflight_report X Q g c q = Inr rep" "pf_commitment_matches rep" "pf_age_ok rep"
    and f: "cred_dob_days c = Some dob" "cred_r_bits c = Some r"
      "x_b64_decode X (qr_rp_challenge q) = Inr rp"
      "verify_circuit_shape (make_witness c dob r) = Inr ()"
      "generate_proof_safe Q False params (qr_cutoff_days q) rp (make_witness c dob r)
          (qr_verifying_key_id q) (if wants_under_age q then DirUnder else DirOver) = Inr p"
      "sp_cutoff p = qr_cutoff_days q" "req = make_request X q p"
    by (auto simp: build_verify_request_internal_def bindR_Inr_iff Let_def decode_b64_32_ok
        not_less not_le split: if_splits)
  from rep preflight_ok[of X Q g c q] obtain dob' r' rp' where "preflight_passes X Q c q dob' r' rp'" by blast
  moreover from this f have "dob' = dob" "r' = r" "rp' = rp" by (auto simp: preflight_passes_def)
  ultimately show ?R using e f
    by (intro exI[of _ params] exI[of _ dob] exI[of _ r] exI[of _ rp] exI[of _ p])
       (auto simp: verify_circuit_shape_ok make_witness_def)
next
  assume ?R
  then obtain params dob r rp p where
    e: "pg_params g = Some params" "pg_vk_id g = Some (qr_verifying_key_id q)"
      "now \<le> cred_exp c" "now < qr_expires_at q" "preflight_passes X Q c q dob r rp"
      "length (cred_kid c) = 14" "length (cred_schema c) = 12" "length (cred_sig_rj c) = 64"
      "generate_proof_safe Q False params (qr_cutoff_days q) rp (make_witness c dob r)
          (qr_verifying_key_id q) (if wants_under_age q then DirUnder else DirOver) = Inr p"
      "sp_cutoff p = qr_cutoff_days q" "req = make_request X q p"
    by blast
  from e(5) preflight_ok[of X Q g c q] obtain rep where
    rep: "preflight_report X Q g c q = Inr rep" "pf_commitment_matches rep" "pf_age_ok rep" by blast
  have f: "cred_dob_days c = Some dob" "cred_r_bits c = Some r" "length r = R_BITS_LEN"
      "decode_b64_32 X (qr_rp_challenge q) = Inr rp"
    using e(5) by (auto simp: preflight_passes_def decode_b64_32_ok R_BITS_LEN_def)
  have "verify_circuit_shape (make_witness c dob r) = Inr ()"
    using e(6-8) f(3) by (simp add: verify_circuit_shape_ok make_witness_def R_BITS_LEN_def)
  with e rep f show ?L
    by (simp add: build_verify_request_internal_def ok_or_def Let_def not_less not_le)
qed

lemma init_set: "pg_params g \<noteq> None \<Longrightarrow> init_prover_with_pk_bytes X Q pk g = (Inr (), g)"
  by (simp add: init_prover_with_pk_bytes_def)

definition loaded_globals :: "externals \<Rightarrow> 'p prover_ext \<Rightarrow> bytes \<Rightarrow> 'p \<Rightarrow> 'p prover_globals" where
  "loaded_globals X Q pk p =
     \<lparr>pg_params = Some p, pg_fingerprint = Some (x_b64_encode X (take 16 (x_blake3 X pk))),
      pg_vk_id = Some (compute_vk_id Q p)\<rparr>"

definition run_inits :: "externals \<Rightarrow> 'p prover_ext \<Rightarrow> bytes list \<Rightarrow> 'p prover_globals" where
  "run_inits X Q pks = fold (\<lambda>pk g. snd (init_prover_with_pk_bytes X Q pk g)) pks prover_globals_new"

lemma fold_inits_set:
  "pg_params g \<noteq> None \<Longrightarrow> fold (\<lambda>pk g. snd (init_prover_with_pk_bytes X Q pk g)) pks g = g"
  by (induction pks) (simp_all add: init_set)

lemma init_new:
  "init_prover_with_pk_bytes X Q pk prover_globals_new =
     (case px_load Q pk of
        Inl e \<Rightarrow> (Inl InvalidProvingKey, prover_globals_new)
      | Inr p \<Rightarrow> (Inr (), loaded_globals X Q pk p))"
  by (simp add: init_prover_with_pk_bytes_def prover_globals_new_def loaded_globals_def Let_def
      split: sum.split)

lemma run_inits_find:
  "run_inits X Q pks =
     (case find (\<lambda>pk. is_ok (px_load Q pk)) pks of
        None \<Rightarrow> prover_globals_new
      | Some pk \<Rightarrow> (case px_load Q pk of Inr p \<Rightarrow> loaded_globals X Q pk p | Inl _ \<Rightarrow> prover_globals_new))"
proof (induction pks)
  case (Cons pk pks)
  show ?case
  proof (cases "px_load Q pk")
    case (Inl e)
    with Cons show ?thesis by (simp add: run_inits_def init_new)
  next
    case (Inr p)
    then show ?thesis
      by (simp add: run_inits_def init_new fold_inits_set loaded_globals_def)
  qed
qed (simp add: run_inits_def)

section \<open>Properties\<close>


text \<open>Over any sequence of initialisations the first key that loads wins: parameters,
  fingerprint and verifying key identifier are all unset until then and all taken from that
  key ever after, and every later call, with whatever key, returns success and changes
  nothing, never the error for a second initialisation.\<close>

theorem init_first_key_wins:
  "case find (\<lambda>pk. is_ok (px_load Q pk)) pks of
     None \<Rightarrow> run_inits X Q pks = prover_globals_new
   | Some pk \<Rightarrow> (\<exists>p. px_load Q pk = Inr p \<and> run_inits X Q pks = loaded_globals X Q pk p
       \<and> init_prover_with_pk_bytes X Q pk' (run_inits X Q pks) = (Inr (), run_inits X Q pks))"
proof (cases "find (\<lambda>pk. is_ok (px_load Q pk)) pks")
  case None
  then show ?thesis by (simp add: run_inits_find)
next
  case (Some pk)
  then have "is_ok (px_load Q pk)" by (auto simp: find_Some_iff)
  then obtain p where "px_load Q pk = Inr p" by (auto simp: is_ok_iff)
  with Some show ?thesis by (simp add: run_inits_find init_set loaded_globals_def)
qed

end
