(* ===== verification/Ffi_Errors.thy ===== *)
theory Ffi_Errors
  imports Prover
begin

text \<open>
  The error enum of the FFI boundary (\<open>ffi/src/errors.rs\<close>), its display text and the
  conversions into it. An \<open>anyhow\<close> error without a chain is its text, so its root cause
  and its display are the same. That no conversion loses the distinction the platform
  code relies on is stated in \<open>prover_error_kept\<close>.
\<close>

section \<open>The error enum\<close>

datatype ffi_error =
    FInvalidFormat string
  | FStorage string
  | FNetwork string
  | FProver string
  | FOperationInProgress
  | FOperationCancelled
  | FNotInitialized
  | FAgeRequirementNotMet
  | FBiometricNotAuthenticated
  | FRetryBudgetExceeded string
  | FRequestTimeout u64
  | FCredentialNotFound
  | FCredentialExpired
  | FSecurityViolation string
  | FGeneric string

fun show_ffi_error :: "ffi_error \<Rightarrow> string" where
  "show_ffi_error (FInvalidFormat m) = ''Invalid format: '' @ m"
| "show_ffi_error (FStorage m) = ''Storage error: '' @ m"
| "show_ffi_error (FNetwork m) = ''Network error: '' @ m"
| "show_ffi_error (FProver m) = ''Prover error: '' @ m"
| "show_ffi_error FOperationInProgress = ''Operation in progress''"
| "show_ffi_error FOperationCancelled = ''Operation cancelled''"
| "show_ffi_error FNotInitialized = ''Not initialised''"
| "show_ffi_error FAgeRequirementNotMet =
     ''Your credential doesn'' @ [CHR 0x27] @ ''t meet the age requirement for this verification''"
| "show_ffi_error FBiometricNotAuthenticated = ''Biometric authentication required but not completed''"
| "show_ffi_error (FRetryBudgetExceeded m) = ''Retry budget exceeded for proving key download: '' @ m"
| "show_ffi_error (FRequestTimeout s) = ''Request timed out after '' @ show_nat (unat s) @ ''s''"
| "show_ffi_error FCredentialNotFound = ''Credential not found''"
| "show_ffi_error FCredentialExpired = ''Credential expired''"
| "show_ffi_error (FSecurityViolation m) = ''Security violation: '' @ m"
| "show_ffi_error (FGeneric m) = m"

section \<open>Conversions\<close>

definition of_anyhow :: "string \<Rightarrow> ffi_error" where
  "of_anyhow root_cause = FGeneric root_cause"

fun of_wallet_error :: "wallet_error \<Rightarrow> ffi_error" where
  "of_wallet_error (StorageErr m) = FStorage m"
| "of_wallet_error StorageFull = FStorage ''storage full''"
| "of_wallet_error (NetworkError m) = FNetwork m"
| "of_wallet_error RequestTimeout = FNetwork ''request timeout''"
| "of_wallet_error (ProverErr m) = FProver m"
| "of_wallet_error ProverNotInitialized = FProver ''prover not initialised''"
| "of_wallet_error (ProofGenerationFailed m) = FProver m"
| "of_wallet_error (InvalidInput m) = FInvalidFormat m"
| "of_wallet_error (ValidationFailed m) = FInvalidFormat m"
| "of_wallet_error (SerializationError m) = FInvalidFormat m"
| "of_wallet_error (Base64Error m) = FInvalidFormat m"
| "of_wallet_error InvalidCredentialFormat = FInvalidFormat ''invalid credential format''"
| "of_wallet_error InvalidSignature = FInvalidFormat ''invalid signature''"
| "of_wallet_error (CredentialError m) = FInvalidFormat m"
| "of_wallet_error CredentialNotFound = FCredentialNotFound"
| "of_wallet_error CredentialExpired = FCredentialExpired"
| "of_wallet_error UnderAge = FAgeRequirementNotMet"
| "of_wallet_error (SecurityError m) = FSecurityViolation m"
| "of_wallet_error (OperationFailed m) = FGeneric m"
| "of_wallet_error (Unknown m) = FGeneric m"

fun of_prover_error :: "prover_error \<Rightarrow> ffi_error" where
  "of_prover_error AgeRequirementNotMet = FAgeRequirementNotMet"
| "of_prover_error NotInitialized = FProver ''prover not initialised''"
| "of_prover_error AlreadyInitialized = FProver ''prover already initialised''"
| "of_prover_error InvalidProvingKey = FProver ''invalid proving key''"
| "of_prover_error (InvalidBase64 m) = FInvalidFormat m"
| "of_prover_error (ProverInvalidInput m) = FInvalidFormat m"
| "of_prover_error ProverMissingFields =
     FInvalidFormat ''credential missing private fields required for proving''"
| "of_prover_error (ProverGenerationFailed m) = FProver m"
| "of_prover_error (VkIdMismatch loaded expected) =
     FProver (''verifying key mismatch: loaded '' @ show_nat (unat loaded) @ '', expected '' @
              show_nat (unat expected))"
| "of_prover_error ProverCredentialExpired = FCredentialExpired"
| "of_prover_error ChallengeExpired = FProver ''challenge has expired''"

text \<open>\<open>From<serde_json::Error>\<close>, which drops the text.\<close>

definition of_serde :: "string \<Rightarrow> ffi_error" where
  "of_serde e = FInvalidFormat ''JSON parsing failed''"

text \<open>The display text of a prover error.\<close>

fun show_prover_error :: "prover_error \<Rightarrow> string" where
  "show_prover_error NotInitialized = ''prover not initialised; call init_prover_with_pk_bytes first''"
| "show_prover_error AlreadyInitialized = ''prover already initialised''"
| "show_prover_error InvalidProvingKey = ''invalid proving key''"
| "show_prover_error (InvalidBase64 m) = ''invalid base64url input: '' @ m"
| "show_prover_error (ProverInvalidInput m) = ''invalid input: '' @ m"
| "show_prover_error (ProverGenerationFailed m) = ''proof generation failed: '' @ m"
| "show_prover_error ProverMissingFields = ''missing private fields in credential''"
| "show_prover_error (VkIdMismatch loaded expected) =
     ''vk_id mismatch: loaded '' @ show_nat (unat loaded) @ '', expected '' @ show_nat (unat expected)"
| "show_prover_error AgeRequirementNotMet =
     ''Your credential doesn'' @ [CHR 0x27] @ ''t meet the age requirement for this verification''"
| "show_prover_error ProverCredentialExpired = ''credential has expired''"
| "show_prover_error ChallengeExpired = ''challenge has expired''"

lemma prover_error_kept:
  "of_prover_error e = FAgeRequirementNotMet \<longleftrightarrow> e = AgeRequirementNotMet"
  "of_prover_error e = FCredentialExpired \<longleftrightarrow> e = ProverCredentialExpired"
  "of_prover_error e \<noteq> FCredentialNotFound"
  by (cases e; simp)+

end
