(* ===== verification/Qr_Parsing.thy ===== *)
theory Qr_Parsing
  imports Ffi_Errors Platform_Storage
begin

text \<open>
  What arrives by camera, link or keyboard: the QR decoder (\<open>ffi/src/qr.rs\<close>), the deep link
  parser (\<open>ffi/src/deeplink.rs\<close>), the short code rule (\<open>ffi/src/wallet/mod.rs\<close>) and the
  identifier check (\<open>core/src/utils.rs\<close>). Deserialisation, base64 and URL parsing are
  parameters; the challenge payload of this crate has the fields of the core one and
  shares its record.
\<close>

section \<open>Characters\<close>

text \<open>
  The characters of a UTF-8 string: a leading byte with the continuation bytes after it.
  Rust's \<open>char::is_whitespace\<close> is the Unicode property \<open>White_Space\<close>, whose members are
  listed in their encoding.
\<close>

definition is_cont :: "char \<Rightarrow> bool" where
  "is_cont c \<longleftrightarrow> 128 \<le> (of_char c :: nat) \<and> (of_char c :: nat) \<le> 191"

function chars :: "string \<Rightarrow> string list" where
  "chars [] = []"
| "chars (c # s) = (c # takeWhile is_cont s) # chars (dropWhile is_cont s)"
  by pat_completeness auto
termination
  by (relation "measure length") (auto simp: less_Suc_eq_le intro: length_dropWhile_le)

definition is_whitespace :: "string \<Rightarrow> bool" where
  "is_whitespace ch \<longleftrightarrow>
     (let b = map (\<lambda>c. of_char c :: nat) ch
      in b \<in> {[9], [10], [11], [12], [13], [32]}
       \<or> b \<in> {[0xC2, 0x85], [0xC2, 0xA0], [0xE1, 0x9A, 0x80], [0xE2, 0x80, 0xA8], [0xE2, 0x80, 0xA9],
               [0xE2, 0x80, 0xAF], [0xE2, 0x81, 0x9F], [0xE3, 0x80, 0x80]}
       \<or> (\<exists>n \<in> {0x80..0x8A}. b = [0xE2, 0x80, n]))"

definition strip_whitespace :: "string \<Rightarrow> string" where
  "strip_whitespace s = concat (filter (\<lambda>ch. \<not> is_whitespace ch) (chars s))"

definition trim :: "string \<Rightarrow> string" where
  "trim s = concat (rev (dropWhile is_whitespace (rev (dropWhile is_whitespace (chars s)))))"

definition is_short_code :: "string \<Rightarrow> bool" where
  "is_short_code input \<longleftrightarrow>
     (let n = strip_whitespace input in length n = 12 \<and> list_all is_digit n)"

text \<open>\<open>utils::validate_uuid_format\<close>: the loop stops at the first bad byte.\<close>

fun uuid_loop :: "nat \<Rightarrow> string \<Rightarrow> wallet_error + unit" where
  "uuid_loop i [] = Inr ()"
| "uuid_loop i (b # bs) =
     (if i \<in> {8, 13, 18, 23}
      then (if b \<noteq> CHR ''-'' then Inl (InvalidInput ''challenge_id has invalid format: expected hyphen'')
            else uuid_loop (i + 1) bs)
      else if \<not> is_hex_digit b then Inl (InvalidInput ''challenge_id has invalid format: non-hex character'')
      else uuid_loop (i + 1) bs)"

definition validate_uuid_format :: "string \<Rightarrow> wallet_error + unit" where
  "validate_uuid_format s =
     (if length s \<noteq> 36 then Inl (InvalidInput ''challenge_id must be exactly 36 characters'')
      else uuid_loop 0 s)"

definition validate_challenge_id_format :: "string \<Rightarrow> ffi_error + unit" where
  "validate_challenge_id_format s =
     map_err (\<lambda>e. FInvalidFormat (show_wallet_error e)) (validate_uuid_format s)"

section \<open>QR payloads\<close>

datatype qr_envelope = QrVerification qr_payload | QrAttestation string

text \<open>
  \<open>qx_parse\<close> and \<open>qx_print\<close> are serde at the challenge payload, \<open>qx_parse_id\<close> at the struct
  with only the identifier, \<open>qx_parse_envelope\<close> at the tagged enum; \<open>qx_attestation_json\<close>
  prints the attestation object and \<open>qx_url_scheme\<close> is \<open>Url::parse\<close> with \<open>scheme()\<close>.
\<close>

record qr_ext =
  qx_b64_decode :: "string \<Rightarrow> string + bytes"
  qx_utf8_msg :: "bytes \<Rightarrow> string"
  qx_parse :: "string \<Rightarrow> string + qr_payload"
  qx_print :: "qr_payload \<Rightarrow> string + string"
  qx_parse_id :: "string \<Rightarrow> string + string"
  qx_parse_envelope :: "string \<Rightarrow> string + qr_envelope"
  qx_attestation_json :: "string \<Rightarrow> string"
  qx_url_scheme :: "string \<Rightarrow> string + string"

definition MAX_QR_PAYLOAD_SIZE :: nat where
  "MAX_QR_PAYLOAD_SIZE = 500"
definition CUSTOM_SCHEME_VERIFY_PREFIX :: string where
  "CUSTOM_SCHEME_VERIFY_PREFIX = ''provii://verify?d=''"
definition HTTPS_VERIFY_PREFIX :: string where
  "HTTPS_VERIFY_PREFIX = ''https://provii.app/verify?d=''"

text \<open>The second copy of the field validation, with this crate's error type.\<close>

definition ffi_field_range :: "string \<Rightarrow> string \<Rightarrow> ffi_error + unit" where
  "ffi_field_range name s =
     (if s = [] \<or> length s > MAX_PROTOCOL_FIELD_LEN
      then Inl (FInvalidFormat (name @ '' must be 1-'' @ show_nat MAX_PROTOCOL_FIELD_LEN @ '' characters''))
      else Inr ())"

definition ffi_validate_field_lengths :: "(string \<Rightarrow> string + string) \<Rightarrow> qr_payload \<Rightarrow> ffi_error + unit" where
  "ffi_validate_field_lengths url_scheme q =
     bindR (ffi_field_range ''challenge_id'' (qr_challenge_id q)) (\<lambda>_.
     bindR (ffi_field_range ''rp_challenge'' (qr_rp_challenge q)) (\<lambda>_.
     bindR (ffi_field_range ''submit_secret'' (qr_submit_secret q)) (\<lambda>_.
     bindR (ffi_field_range ''verify_url'' (qr_verify_url q)) (\<lambda>_.
     bindR (case url_scheme (qr_verify_url q) of
              Inr scheme \<Rightarrow>
                (if scheme \<noteq> ''https''
                 then Inl (FInvalidFormat (''verify_url must use HTTPS scheme, got '' @ [CHR 0x27] @ scheme @ [CHR 0x27]))
                 else Inr ())
            | Inl e \<Rightarrow> Inl (FInvalidFormat (''verify_url is not a valid URL: '' @ e))) (\<lambda>_.
     bindR (case qr_code_verifier q of
              Some cv \<Rightarrow>
                (if length cv > MAX_PROTOCOL_FIELD_LEN
                 then Inl (FInvalidFormat (''code_verifier must be at most '' @ show_nat MAX_PROTOCOL_FIELD_LEN @
                             '' characters''))
                 else Inr ())
            | None \<Rightarrow> Inr ()) (\<lambda>_.
     case qr_proof_direction q of
       Some dir \<Rightarrow>
         (if dir = ''over_age'' then Inr ()
          else if dir = ''under_age'' then Inr ()
          else Inl (FInvalidFormat (''invalid proof_direction '' @ [CHR 0x27] @ dir @ [CHR 0x27] @
                 '', expected '' @ [CHR 0x27] @ ''over_age'' @ [CHR 0x27] @ '' or '' @
                 [CHR 0x27] @ ''under_age'' @ [CHR 0x27])))
     | None \<Rightarrow> Inr ()))))))"

definition deep_link_encoded :: "string \<Rightarrow> string option" where
  "deep_link_encoded s =
     (if starts_with CUSTOM_SCHEME_VERIFY_PREFIX s then strip_prefix CUSTOM_SCHEME_VERIFY_PREFIX s
      else if starts_with HTTPS_VERIFY_PREFIX s then strip_prefix HTTPS_VERIFY_PREFIX s
      else None)"

definition quoted :: "string \<Rightarrow> string" where
  "quoted s = [CHR 0x22] @ s @ [CHR 0x22]"

definition is_minimal :: "string \<Rightarrow> bool" where
  "is_minimal json \<longleftrightarrow>
     \<not> contains_str (quoted ''rp_challenge'') json
   \<and> \<not> contains_str (quoted ''submit_secret'') json
   \<and> \<not> contains_str (quoted ''cutoff_days'') json"

text \<open>The tail both challenge branches share; \<open>what\<close> is the prefix of the parse error.\<close>

definition parse_full :: "qr_ext \<Rightarrow> string \<Rightarrow> string \<Rightarrow> ffi_error + qr_envelope" where
  "parse_full Z what json =
     (if is_minimal json then Inl (FInvalidFormat ''MINIMAL_CHALLENGE'')
      else bindR (map_err (\<lambda>e. FInvalidFormat (what @ e)) (qx_parse Z json)) (\<lambda>q.
           bindR (ffi_validate_field_lengths (qx_url_scheme Z) q) (\<lambda>_. Inr (QrVerification q))))"

definition too_large :: "string \<Rightarrow> ffi_error" where
  "too_large s =
     FInvalidFormat (''QR payload too large ('' @ show_nat (length s) @ '' bytes, max '' @
       show_nat MAX_QR_PAYLOAD_SIZE @ '')'')"

definition decode_payload :: "qr_ext \<Rightarrow> string \<Rightarrow> ffi_error + qr_envelope" where
  "decode_payload Z s =
     (if length s > MAX_QR_PAYLOAD_SIZE then Inl (too_large s)
      else case deep_link_encoded s of
        Some encoded \<Rightarrow>
          (if encoded = [] then Inl (FInvalidFormat ''Invalid deep link URL format'')
           else bindR (map_err (\<lambda>e. FInvalidFormat (''Failed to decode base64url: '' @ e)) (qx_b64_decode Z encoded)) (\<lambda>b.
                if \<not> utf8_ok (map unat b) then Inl (FInvalidFormat (''Invalid UTF-8: '' @ qx_utf8_msg Z b))
                else parse_full Z ''Failed to parse challenge: '' (string_of_bytes b)))
      | None \<Rightarrow>
          (if starts_with ''{'' (trim s) \<and> contains_str ''challenge_id'' s
           then parse_full Z ''Failed to parse challenge JSON: '' s
           else bindR (map_err FInvalidFormat (qx_parse_envelope Z s)) (\<lambda>p.
                case p of
                  QrVerification q \<Rightarrow>
                    bindR (ffi_validate_field_lengths (qx_url_scheme Z) q) (\<lambda>_. Inr p)
                | QrAttestation d \<Rightarrow> Inr p)))"

definition parse_qr_code :: "qr_ext \<Rightarrow> string \<Rightarrow> ffi_error + string" where
  "parse_qr_code Z s =
     (case decode_payload Z s of
        Inr (QrVerification q) \<Rightarrow> map_err FGeneric (qx_print Z q)
      | Inr (QrAttestation d) \<Rightarrow> Inr (qx_attestation_json Z d)
      | Inl e \<Rightarrow> Inl e)"

definition extract_challenge_id_from_qr :: "qr_ext \<Rightarrow> string \<Rightarrow> ffi_error + string" where
  "extract_challenge_id_from_qr Z s =
     (if length s > MAX_QR_PAYLOAD_SIZE then Inl (too_large s)
      else bindR (case deep_link_encoded s of
                    Some encoded \<Rightarrow>
                      (if encoded = [] then Inl (FInvalidFormat ''Invalid URL'')
                       else bindR (map_err FInvalidFormat (qx_b64_decode Z encoded)) (\<lambda>b.
                            if \<not> utf8_ok (map unat b) then Inl (FInvalidFormat (qx_utf8_msg Z b))
                            else Inr (string_of_bytes b)))
                  | None \<Rightarrow> Inr s) (\<lambda>json.
           map_err FInvalidFormat (qx_parse_id Z json)))"

section \<open>Deep links\<close>

datatype deeplink_action = ScanChallenge string | Attest string

record verify_payload =
  vp_challenge_id :: string
  vp_rp_challenge :: string
  vp_cutoff_days :: i32
  vp_verifying_key_id :: u32
  vp_submit_secret :: string
  vp_code_verifier :: "string option"
  vp_expires_at :: "u64 option"
  vp_verify_url :: "string option"
  vp_proof_direction :: "string option"

text \<open>
  A parsed URL as the \<open>url\<close> crate presents it; \<open>pu_query\<close> lists the decoded query pairs in
  order, the last of a name being the one a collected hash map keeps.
\<close>

record parsed_url =
  pu_scheme :: string
  pu_host :: "string option"
  pu_path :: string
  pu_query :: "(string \<times> string) list"

text \<open>\<open>dx_lower\<close> is \<open>str::to_lowercase\<close>, \<open>dx_parse_verify\<close> serde at the strict payload.\<close>

record link_ext =
  dx_url :: "string \<Rightarrow> string + parsed_url"
  dx_b64_decode :: "string \<Rightarrow> string + bytes"
  dx_utf8_msg :: "bytes \<Rightarrow> string"
  dx_parse_verify :: "string \<Rightarrow> string + verify_payload"
  dx_lower :: "string \<Rightarrow> string"

definition UNIVERSAL_LINK_HOST :: string where
  "UNIVERSAL_LINK_HOST = ''proviiwallet.app''"
definition MAX_DEEPLINK_SIZE :: nat where
  "MAX_DEEPLINK_SIZE = 4096"
definition MAX_FIELD_LEN :: nat where
  "MAX_FIELD_LEN = 512"

definition too_long :: "string \<Rightarrow> string \<Rightarrow> string + unit" where
  "too_long name s =
     ensure (length s \<le> MAX_FIELD_LEN) (name @ '' too long (max '' @ show_nat MAX_FIELD_LEN @ '' bytes)'')"

definition too_long_opt :: "string \<Rightarrow> string option \<Rightarrow> string + unit" where
  "too_long_opt name v = (case v of Some s \<Rightarrow> too_long name s | None \<Rightarrow> Inr ())"

definition validate_verify_field_lengths :: "link_ext \<Rightarrow> verify_payload \<Rightarrow> string + unit" where
  "validate_verify_field_lengths D p =
     bindR (too_long ''challenge_id'' (vp_challenge_id p)) (\<lambda>_.
     bindR (too_long ''rp_challenge'' (vp_rp_challenge p)) (\<lambda>_.
     bindR (too_long ''submit_secret'' (vp_submit_secret p)) (\<lambda>_.
     bindR (too_long_opt ''code_verifier'' (vp_code_verifier p)) (\<lambda>_.
     bindR (case vp_verify_url p of
              Some u \<Rightarrow>
                bindR (too_long ''verify_url'' u) (\<lambda>_.
                case dx_url D u of
                  Inr pu \<Rightarrow>
                    (if pu_scheme pu \<noteq> ''https''
                     then Inl (''verify_url must use HTTPS scheme, got '' @ [CHR 0x27] @ pu_scheme pu @ [CHR 0x27])
                     else Inr ())
                | Inl e \<Rightarrow> Inl (''verify_url is not a valid URL: '' @ e))
            | None \<Rightarrow> Inr ()) (\<lambda>_.
     too_long_opt ''proof_direction'' (vp_proof_direction p))))))"

definition link_action :: "link_ext \<Rightarrow> parsed_url \<Rightarrow> string + string" where
  "link_action D u =
     (let host = (case pu_host u of Some h \<Rightarrow> h | None \<Rightarrow> [])
      in if pu_scheme u = ''proviiwallet'' then Inr (dx_lower D host)
         else if pu_scheme u = ''https''
         then (if host \<noteq> UNIVERSAL_LINK_HOST
               then Inl (''invalid host for HTTPS deep link - expected '' @ UNIVERSAL_LINK_HOST)
               else Inr (dx_lower D (first_part (CHR ''/'') (dropWhile (\<lambda>c. c = CHR ''/'') (pu_path u)))))
         else Inl (''invalid scheme '' @ [CHR 0x27] @ pu_scheme u @ [CHR 0x27] @
                   '' - expected proviiwallet:// or https://''))"

definition base64url_char :: "char \<Rightarrow> bool" where
  "base64url_char c \<longleftrightarrow>
     (let n = (of_char c :: nat)
      in (48 \<le> n \<and> n \<le> 57) \<or> (65 \<le> n \<and> n \<le> 90) \<or> (97 \<le> n \<and> n \<le> 122) \<or> c = CHR ''-'' \<or> c = CHR ''_'')"

definition parse_deeplink :: "link_ext \<Rightarrow> string \<Rightarrow> string + deeplink_action" where
  "parse_deeplink D url =
     (if length url > MAX_DEEPLINK_SIZE
      then Inl (''deeplink too large (max '' @ show_nat MAX_DEEPLINK_SIZE @ '' bytes)'')
      else
      bindR (map_err (\<lambda>e. ''bad url: '' @ e) (dx_url D url)) (\<lambda>u.
      bindR (link_action D u) (\<lambda>action.
      let query = map_of (rev (pu_query u))
      in if action = ''verify''
         then bindR (ok_or ''missing d parameter'' (query ''d'')) (\<lambda>d.
              bindR (map_err (\<lambda>e. ''bad b64url encoding: '' @ e) (dx_b64_decode D d)) (\<lambda>raw.
              if \<not> utf8_ok (map unat raw) then Inl (''invalid UTF-8 in payload: '' @ dx_utf8_msg D raw)
              else let payload_json = string_of_bytes raw
                   in if trim payload_json = [] then Inl ''empty payload''
                      else bindR (map_err (\<lambda>e. ''invalid verify payload: '' @ e) (dx_parse_verify D payload_json)) (\<lambda>p.
                           bindR (validate_verify_field_lengths D p) (\<lambda>_.
                           Inr (ScanChallenge payload_json)))))
         else if action = ''attest''
         then bindR (ok_or ''missing d parameter'' (query ''d'')) (\<lambda>d.
              if d = [] then Inl ''attestation data cannot be empty''
              else if \<not> list_all base64url_char d
              then Inl ''invalid attestation data format (must be base64url)''
              else Inr (Attest d))
         else Inl (''unsupported deeplink action: '' @ action))))"

end
