(* ===== verification/Wallet.thy ===== *)
theory Wallet
  imports Qr_Parsing Credential_Storage State_Manager
begin

text \<open>
  The wallet object of the FFI layer (\<open>ffi/src/wallet/\<close>): its configuration, the storage
  behind a late-bound backend, the session state, the cache of scanned challenges and the
  issuer trust anchor, with one operation per exported method. Every method takes the
  locks it needs for its whole effect on a field, and is here one state transformer;
  interleavings of the session state's own locks are the subject of \<open>State_Concurrency\<close>.
  A mutex is recovered when poisoned, and zeroing of dropped secrets changes no value a
  caller can read.
\<close>

section \<open>State\<close>

record wallet_config =
  wc_auto_select :: bool
  wc_network_timeout :: u64
  wc_cache_proving_keys :: bool
  wc_issuer_api_url :: string
  wc_verifier_api_url :: string
  wc_verifier_api_key :: "string option"
  wc_verifier_origin :: "string option"
  wc_environment :: string
  wc_enable_parallel_prover :: bool
  wc_max_prover_threads :: u8

definition wallet_config_default :: wallet_config where
  "wallet_config_default =
     \<lparr>wc_auto_select = True, wc_network_timeout = 30, wc_cache_proving_keys = True,
      wc_issuer_api_url = ''https://api.issuer.example'',
      wc_verifier_api_url = ''https://verify.proviiwallet.app'',
      wc_verifier_api_key = None, wc_verifier_origin = None, wc_environment = ''production'',
      wc_enable_parallel_prover = True, wc_max_prover_threads = 0\<rparr>"

definition zeroize_secrets :: "wallet_config \<Rightarrow> wallet_config" where
  "zeroize_secrets c = c\<lparr>wc_verifier_api_key := None\<rparr>"

definition validate_https_url :: "string \<Rightarrow> string \<Rightarrow> string + unit" where
  "validate_https_url url field_name =
     (if trim url = [] then Inl (field_name @ '' must not be empty'')
      else if \<not> starts_with ''https://'' url then Inl (field_name @ '' must use https:// scheme'')
      else Inr ())"

definition config_validate :: "wallet_config \<Rightarrow> string + unit" where
  "config_validate c =
     bindR (validate_https_url (wc_issuer_api_url c) ''issuer_api_url'') (\<lambda>_.
     bindR (validate_https_url (wc_verifier_api_url c) ''verifier_api_url'') (\<lambda>_.
     if trim (wc_environment c) = [] then Inl ''environment must not be empty'' else Inr ()))"

text \<open>A \<open>SystemTime\<close> is its nanoseconds since the epoch.\<close>

record cached_challenge =
  cc_payload :: qr_payload
  cc_received_at :: nat
  cc_expires_at :: nat

record 's wallet =
  w_config :: wallet_config
  w_backend :: "'s backend option"
  w_storage :: 's
  w_state :: state_manager
  w_challenges :: "(string \<times> cached_challenge) list"
  w_anchor :: "trust_anchor option"

definition wallet_new :: "'s \<Rightarrow> 's wallet" where
  "wallet_new s =
     \<lparr>w_config = wallet_config_default, w_backend = None, w_storage = s,
      w_state = state_manager_new, w_challenges = [], w_anchor = None\<rparr>"

text \<open>A failed validation is logged only.\<close>

definition wallet_with_config :: "'s \<Rightarrow> wallet_config \<Rightarrow> 's wallet" where
  "wallet_with_config s config = (wallet_new s)\<lparr>w_config := config\<rparr>"

section \<open>Parameters\<close>

record credential_suitability =
  su_id :: string
  su_nickname :: "string option"
  su_credential_type :: string
  su_can_satisfy :: bool
  su_failure_reason :: "string option"

text \<open>
  serde at the types the wallet reads and writes as JSON, beside the parameters of the
  layers below. \<open>we_debug_prover\<close> is the derived debug text of a prover error and
  \<open>we_print_choices\<close> the object of \<open>create_age_proof_auto\<close> that asks for a selection.
\<close>

record wallet_env =
  we_x :: externals
  we_codec :: storage_codec
  we_qr :: qr_ext
  we_parse_header :: "string \<Rightarrow> string + header"
  we_parse_credential :: "string \<Rightarrow> string + credential"
  we_print_credential :: "credential \<Rightarrow> string + string"
  we_parse_anchor :: "bytes \<Rightarrow> string + trust_anchor"
  we_print_anchor :: "trust_anchor \<Rightarrow> string + string"
  we_print_request :: "submit_proof_request \<Rightarrow> string + string"
  we_parse_request :: "string \<Rightarrow> string + submit_proof_request"
  we_parse_response :: "string \<Rightarrow> string + verify_response"
  we_print_preflight :: "preflight \<Rightarrow> string + string"
  we_print_choices :: "credential_suitability list \<Rightarrow> string"
  we_debug_prover :: "prover_error \<Rightarrow> string"

text \<open>A storage operation inside the wallet; \<open>conv\<close> converts its error.\<close>

definition on_storage ::
    "(string \<Rightarrow> ffi_error) \<Rightarrow> ('s backend option \<Rightarrow> ('s, string, 'a) op) \<Rightarrow> ('s wallet, ffi_error, 'a) op" where
  "on_storage conv f w =
     (case f (w_backend w) (w_storage w) of
        (r, s') \<Rightarrow> (map_err conv r, w\<lparr>w_storage := s'\<rparr>))"

definition is_sandbox :: "'s wallet \<Rightarrow> bool" where
  "is_sandbox w \<longleftrightarrow> eq_ignore_case (wc_environment (w_config w)) ''sandbox''"

section \<open>Credentials\<close>

definition resolve_slot :: "string \<Rightarrow> string option \<Rightarrow> ('s wallet, ffi_error, credential_slot) op" where
  "resolve_slot credential_type label =
     (if credential_type = ''managed''
      then bindS (on_storage FGeneric (\<lambda>B. next_available_managed_index B (from_label label))) (\<lambda>index.
           pureS (if index \<ge> word_of_nat MAX_MANAGED_SLOTS
                  then Inl (FInvalidFormat (''managed slot index '' @ show_nat (unat index) @
                         '' exceeds maximum ('' @ show_nat (MAX_MANAGED_SLOTS - 1) @ '')''))
                  else Inr (SlotManaged index)))
      else if credential_type = ''primary'' then pureS (Inr SlotPrimary)
      else pureS (Inl (FInvalidFormat (''unrecognised credential type: '' @ credential_type))))"

definition check_anchor :: "header \<Rightarrow> 's wallet \<Rightarrow> ffi_error + unit" where
  "check_anchor h w =
     (case w_anchor w of
        Some a \<Rightarrow> map_err (\<lambda>e. FInvalidFormat (show_wallet_error e)) (validate_issuer_vk h a)
      | None \<Rightarrow> Inr ())"

text \<open>The public record first, then the secrets; the caller's slot and nickname.\<close>

definition finalize_and_store_credential ::
    "wallet_env \<Rightarrow> u64 \<Rightarrow> string \<Rightarrow> i32 \<Rightarrow> string \<Rightarrow> string option \<Rightarrow> string \<Rightarrow> string option \<Rightarrow>
     ('s wallet, ffi_error, string) op" where
  "finalize_and_store_credential W now header_json dob_days r_bits_b64 label credential_type nickname =
     bindS (resolve_slot credential_type label) (\<lambda>slot.
     bindS (pureS (map_err FInvalidFormat (we_parse_header W header_json))) (\<lambda>h.
     bindS (\<lambda>w. (check_anchor h w, w)) (\<lambda>_.
     bindS (pureS (map_err FInvalidFormat (x_b64_decode (we_x W) r_bits_b64))) (\<lambda>r_bytes.
     let r_bits = unpack_bits r_bytes R_BITS_LEN in
     bindS (pureS (map_err (\<lambda>e. FGeneric (show_wallet_error e))
             (finalize_credential (we_x W) h dob_days r_bits))) (\<lambda>c.
     let secrets = \<lparr>sec_dob_days = dob_days, sec_r_bits = r_bits\<rparr>;
         c' = c\<lparr>cred_dob_days := None, cred_r_bits := None\<rparr>
     in
     bindS (on_storage FStorage (\<lambda>B. store_credential_with_slot (we_codec W) B now c' label slot nickname)) (\<lambda>cred_id.
     bindS (on_storage FStorage (\<lambda>B. store_credential_secrets (we_codec W) B cred_id secrets)) (\<lambda>_.
     pureS (Inr cred_id))))))))"

definition import_credential_internal ::
    "wallet_env \<Rightarrow> u64 \<Rightarrow> string \<Rightarrow> string option \<Rightarrow> credential_slot \<Rightarrow> string option \<Rightarrow>
     ('s wallet, ffi_error, string) op" where
  "import_credential_internal W now credential_json label slot nickname =
     bindS (pureS (map_err FInvalidFormat (we_parse_credential W credential_json))) (\<lambda>c.
     let secrets = (case (cred_dob_days c, cred_r_bits c) of
                      (Some d, Some r) \<Rightarrow> Some \<lparr>sec_dob_days = d, sec_r_bits = r\<rparr>
                    | _ \<Rightarrow> None);
         c' = c\<lparr>cred_dob_days := None, cred_r_bits := None\<rparr>
     in
     bindS (on_storage FStorage (\<lambda>B. store_credential_with_slot (we_codec W) B now c' label slot nickname)) (\<lambda>cred_id.
     case secrets of
       Some s \<Rightarrow> bindS (on_storage FStorage (\<lambda>B. store_credential_secrets (we_codec W) B cred_id s))
                   (\<lambda>_. pureS (Inr cred_id))
     | None \<Rightarrow> pureS (Inr cred_id)))"

definition import_credential :: "wallet_env \<Rightarrow> u64 \<Rightarrow> string \<Rightarrow> ('s wallet, ffi_error, string) op" where
  "import_credential W now credential_json =
     import_credential_internal W now credential_json None SlotPrimary None"

definition import_credential_with_type ::
    "wallet_env \<Rightarrow> u64 \<Rightarrow> string \<Rightarrow> string \<Rightarrow> string option \<Rightarrow> ('s wallet, ffi_error, string) op" where
  "import_credential_with_type W now credential_json credential_type nickname =
     bindS (resolve_slot credential_type None) (\<lambda>slot.
     import_credential_internal W now credential_json None slot nickname)"

definition store_credential_with_label ::
    "wallet_env \<Rightarrow> u64 \<Rightarrow> string \<Rightarrow> string option \<Rightarrow> string \<Rightarrow> string option \<Rightarrow> ('s wallet, ffi_error, string) op" where
  "store_credential_with_label W now credential_json label credential_type nickname =
     bindS (resolve_slot credential_type label) (\<lambda>slot.
     import_credential_internal W now credential_json label slot nickname)"

definition wallet_get_credential :: "wallet_env \<Rightarrow> string \<Rightarrow> ('s wallet, ffi_error, string option) op" where
  "wallet_get_credential W cred_id =
     bindS (on_storage of_anyhow (\<lambda>B. get_credential (we_codec W) B cred_id)) (\<lambda>oc.
     pureS (case oc of
              Some c \<Rightarrow> bindR (map_err FGeneric (we_print_credential W c)) (\<lambda>j. Inr (Some j))
            | None \<Rightarrow> Inr None))"

definition wallet_list_credentials :: "wallet_env \<Rightarrow> u64 \<Rightarrow> ('s wallet, ffi_error, credential_info list) op" where
  "wallet_list_credentials W now = on_storage of_anyhow (\<lambda>B. list_credentials (we_codec W) B now)"

definition wallet_delete_credential :: "string \<Rightarrow> ('s wallet, ffi_error, unit) op" where
  "wallet_delete_credential cred_id = on_storage of_anyhow (\<lambda>B. delete_credential B cred_id)"

definition wallet_delete_sandbox_credentials :: "('s wallet, ffi_error, unit) op" where
  "wallet_delete_sandbox_credentials =
     bindS (on_storage FStorage delete_sandbox_credentials) (\<lambda>_. pureS (Inr ()))"

definition wallet_update_nickname :: "wallet_env \<Rightarrow> string \<Rightarrow> string option \<Rightarrow> ('s wallet, ffi_error, unit) op" where
  "wallet_update_nickname W cred_id nickname =
     on_storage FStorage (\<lambda>B. update_credential_nickname (we_codec W) B cred_id nickname)"

definition has_credential_secrets :: "string \<Rightarrow> ('s wallet, ffi_error, bool) op" where
  "has_credential_secrets cred_id = on_storage of_anyhow (\<lambda>B. credential_secrets_exist B cred_id)"

definition has_valid_credential :: "wallet_env \<Rightarrow> u64 \<Rightarrow> 's wallet \<Rightarrow> bool \<times> 's wallet" where
  "has_valid_credential W now w =
     (case on_storage of_anyhow (\<lambda>B. list_credentials (we_codec W) B now) w of
        (Inr l, w') \<Rightarrow> (list_ex (\<lambda>ci. \<not> ci_is_expired ci) l, w')
      | (Inl _, w') \<Rightarrow> (False, w'))"

text \<open>Credentials of the namespace the environment selects.\<close>

definition in_environment :: "'s wallet \<Rightarrow> credential_info \<Rightarrow> bool" where
  "in_environment w ci =
     (if is_sandbox w then contains_str ''.sandbox.'' (ci_id ci) else \<not> contains_str ''.sandbox.'' (ci_id ci))"

text \<open>The conversion of the count saturates at 255, as does the sum of the two parts.\<close>

definition get_available_slot_count :: "wallet_env \<Rightarrow> u64 \<Rightarrow> ('s wallet, ffi_error, u8) op" where
  "get_available_slot_count W now =
     bindS (on_storage FStorage (\<lambda>B. list_credentials (we_codec W) B now)) (\<lambda>l w.
     let l' = filter (in_environment w) l;
         has_primary = list_ex (\<lambda>ci. ci_credential_type ci = ''primary'') l';
         count = length (filter (\<lambda>ci. ci_credential_type ci = ''managed'') l');
         managed_count = (if count < 256 then word_of_nat count else (-1 :: u8));
         available_primary = (if has_primary then 0 else 1 :: u8);
         available_managed = sat_sub 5 managed_count
     in (Inr (sat_add available_primary available_managed), w))"

section \<open>Suitability for a challenge\<close>

text \<open>The verdict on one credential; a failed load counts as unavailable secrets.\<close>

definition suitability :: "wallet_env \<Rightarrow> i32 \<Rightarrow> bool \<Rightarrow> credential_info \<Rightarrow> 's wallet \<Rightarrow> credential_suitability \<times> 's wallet" where
  "suitability W cutoff young ci w =
     (let verdict = (\<lambda>ok reason. \<lparr>su_id = ci_id ci, su_nickname = ci_nickname ci,
            su_credential_type = ci_credential_type ci, su_can_satisfy = ok, su_failure_reason = reason\<rparr>)
      in if ci_is_expired ci then (verdict False (Some ''Credential expired''), w)
         else case on_storage of_anyhow (\<lambda>B. load_credential_secrets (we_codec W) B (ci_id ci)) w of
           (Inr (Some s), w') \<Rightarrow>
             (if validate_age (sec_dob_days s) cutoff young then (verdict True None, w')
              else (verdict False (Some ''Does not meet age threshold''), w'))
         | (_, w') \<Rightarrow> (verdict False (Some ''Credential secrets unavailable''), w'))"

fun suitability_loop ::
    "wallet_env \<Rightarrow> i32 \<Rightarrow> bool \<Rightarrow> credential_info list \<Rightarrow> credential_suitability list \<Rightarrow> 's wallet \<Rightarrow>
     credential_suitability list \<times> 's wallet" where
  "suitability_loop W cutoff young [] acc w = (acc, w)"
| "suitability_loop W cutoff young (ci # cis) acc w =
     (case suitability W cutoff young ci w of
        (v, w') \<Rightarrow> suitability_loop W cutoff young cis (acc @ [v]) w')"

definition provable_in_namespace :: "'s wallet \<Rightarrow> credential_info list \<Rightarrow> credential_info list" where
  "provable_in_namespace w l = filter ci_can_prove (filter (in_environment w) l)"

definition get_provable_credentials_for_challenge ::
    "wallet_env \<Rightarrow> u64 \<Rightarrow> string \<Rightarrow> ('s wallet, ffi_error, credential_suitability list) op" where
  "get_provable_credentials_for_challenge W now challenge_id w =
     (case map_of (w_challenges w) challenge_id of
        None \<Rightarrow> (Inl (FInvalidFormat (''Challenge not found: '' @ challenge_id)), w)
      | Some ch \<Rightarrow>
          bindS (on_storage FStorage (\<lambda>B. list_credentials (we_codec W) B now)) (\<lambda>l w1.
          case suitability_loop W (qr_cutoff_days (cc_payload ch)) (wants_under_age (cc_payload ch))
                 (provable_in_namespace w1 l) [] w1 of
            (vs, w2) \<Rightarrow> (Inr vs, w2)) w)"

section \<open>Trust anchor\<close>

definition TRUST_ANCHOR_STORAGE_KEY :: string where
  "TRUST_ANCHOR_STORAGE_KEY = ''provii.issuer.trust_anchor''"

definition persist_anchor_to_storage :: "wallet_env \<Rightarrow> trust_anchor \<Rightarrow> ('s wallet, ffi_error, unit) op" where
  "persist_anchor_to_storage W a =
     bindS (pureS (map_err FInvalidFormat (we_print_anchor W a))) (\<lambda>j w.
     case w_backend w of
       None \<Rightarrow> (Inl (FStorage ''storage not initialised''), w)
     | Some b \<Rightarrow>
         (case be_store b TRUST_ANCHOR_STORAGE_KEY (bytes_of_string j) BioNone (w_storage w) of
            (r, s') \<Rightarrow> (map_err (\<lambda>e. FStorage (show_platform_error e)) r, w\<lparr>w_storage := s'\<rparr>)))"

definition load_anchor_from_storage :: "wallet_env \<Rightarrow> ('s wallet, ffi_error, trust_anchor option) op" where
  "load_anchor_from_storage W w =
     (case w_backend w of
        None \<Rightarrow> (Inr None, w)
      | Some b \<Rightarrow>
          (case be_retrieve b TRUST_ANCHOR_STORAGE_KEY BioNone (w_storage w) of
             (Inr d, s') \<Rightarrow>
               (bindR (map_err (\<lambda>e. FInvalidFormat (''failed to parse persisted trust anchor: '' @ e))
                        (we_parse_anchor W d)) (\<lambda>a. Inr (Some a)), w\<lparr>w_storage := s'\<rparr>)
           | (Inl e, s') \<Rightarrow>
               (if contains_str ''NotFound'' (show_platform_error e) then (Inr None, w\<lparr>w_storage := s'\<rparr>)
                else (Inl (FStorage (show_platform_error e)), w\<lparr>w_storage := s'\<rparr>))))"

definition refresh_issuer_keys :: "wallet_env \<Rightarrow> u64 \<Rightarrow> string \<Rightarrow> ('s wallet, ffi_error, unit) op" where
  "refresh_issuer_keys W fetched_at jwks_json =
     bindS (pureS (map_err (\<lambda>e. FInvalidFormat (show_wallet_error e))
             (parse_jwks_into_keys (we_x W) jwks_json))) (\<lambda>new_keys w.
     if new_keys = [] then (Inr (), w)
     else let a = (case w_anchor w of
                     Some existing \<Rightarrow> (union_merge new_keys existing)\<lparr>ta_fetched_at := fetched_at\<rparr>
                   | None \<Rightarrow> \<lparr>ta_keys = new_keys, ta_fetched_at = fetched_at\<rparr>)
          in case persist_anchor_to_storage W a (w\<lparr>w_anchor := Some a\<rparr>) of
               (_, w') \<Rightarrow> (Inr (), w'))"

section \<open>Lifecycle\<close>

fun cleanup_loop_infos :: "credential_info list \<Rightarrow> u32 \<Rightarrow> 's wallet \<Rightarrow> u32 \<times> 's wallet" where
  "cleanup_loop_infos [] removed w = (removed, w)"
| "cleanup_loop_infos (ci # cis) removed w =
     (if ci_is_expired ci
      then case on_storage of_anyhow (\<lambda>B. delete_credential B (ci_id ci)) w of
          (Inr _, w') \<Rightarrow> cleanup_loop_infos cis (sat_add removed 1) w'
        | (Inl _, w') \<Rightarrow> cleanup_loop_infos cis removed w'
      else cleanup_loop_infos cis removed w)"

definition cleanup_expired_credentials :: "wallet_env \<Rightarrow> u64 \<Rightarrow> 's wallet \<Rightarrow> u32 \<times> 's wallet" where
  "cleanup_expired_credentials W now w =
     (case on_storage of_anyhow (\<lambda>B. list_credentials (we_codec W) B now) w of
        (Inr l, w') \<Rightarrow> cleanup_loop_infos l 0 w'
      | (Inl _, w') \<Rightarrow> (0, w'))"

text \<open>Nothing of a failed restoration but a log line.\<close>

definition set_storage_handle :: "wallet_env \<Rightarrow> u64 \<Rightarrow> 's backend \<Rightarrow> 's \<Rightarrow> ('s wallet, ffi_error, unit) op" where
  "set_storage_handle W now b s w =
     (case cleanup_expired_credentials W now (w\<lparr>w_backend := Some b, w_storage := s\<rparr>) of
        (_, w1) \<Rightarrow>
          (case load_anchor_from_storage W w1 of
             (Inr (Some a), w2) \<Rightarrow> (Inr (), w2\<lparr>w_anchor := Some a\<rparr>)
           | (_, w2) \<Rightarrow> (Inr (), w2)))"

text \<open>\<open>cached_free\<close> and \<open>config_free\<close> say whether \<open>try_lock\<close> gets the two mutexes.\<close>

definition emergency_zeroize :: "bool \<Rightarrow> bool \<Rightarrow> 's wallet \<Rightarrow> 's wallet" where
  "emergency_zeroize cached_free config_free w =
     (let w1 = (if cached_free then w\<lparr>w_challenges := []\<rparr> else w);
          w2 = (if config_free then w1\<lparr>w_config := zeroize_secrets (w_config w1)\<rparr> else w1)
      in w2\<lparr>w_state := state_reset (w_state w2)\<rparr>)"

definition trim_end_slashes :: "string \<Rightarrow> string" where
  "trim_end_slashes s = rev (dropWhile (\<lambda>c. c = CHR ''/'') (rev s))"

text \<open>\<open>url_parse\<close> gives the scheme and the normalised text of a URL.\<close>

definition set_verifier_base_url ::
    "(string \<Rightarrow> string + string \<times> string) \<Rightarrow> string \<Rightarrow> ('s wallet, ffi_error, unit) op" where
  "set_verifier_base_url url_parse base_url w =
     (case url_parse base_url of
        Inl e \<Rightarrow> (Inl (FInvalidFormat (''Invalid URL: '' @ e)), w)
      | Inr (scheme, txt) \<Rightarrow>
          (if scheme \<noteq> ''https'' then (Inl (FInvalidFormat ''Verifier URL must use HTTPS''), w)
           else (Inr (), w\<lparr>w_config := (w_config w)\<lparr>wc_verifier_api_url := trim_end_slashes txt\<rparr>\<rparr>)))"

definition get_verifier_base_url :: "'s wallet \<Rightarrow> string" where
  "get_verifier_base_url w = wc_verifier_api_url (w_config w)"

definition update_config :: "wallet_config \<Rightarrow> ('s wallet, ffi_error, unit) op" where
  "update_config c w =
     (case config_validate c of
        Inl e \<Rightarrow> (Inl (FInvalidFormat e), w)
      | Inr _ \<Rightarrow> (Inr (), w\<lparr>w_config := c\<rparr>))"

end
