(* ===== verification/Wallet_Session.thy ===== *)
theory Wallet_Session
  imports Wallet
begin

text \<open>
  Challenges and proofs (\<open>ffi/src/wallet/qr.rs\<close>, \<open>ffi/src/wallet/proof.rs\<close>): a scanned or
  typed challenge is parsed, if need be fetched, validated, cached under its identifier
  and made a session; a proof rehydrates the stored credential with its secrets and calls
  the prover; a submission posts it and completes the session. An HTTP request is the
  function \<open>get\<close> or \<open>post\<close> from its arguments to the outcome, error included.
\<close>

section \<open>Challenges\<close>

definition parse_qr_payload_internal ::
    "wallet_env \<Rightarrow> (string \<Rightarrow> ffi_error + string) \<Rightarrow> string \<Rightarrow> 's wallet \<Rightarrow> ffi_error + qr_payload" where
  "parse_qr_payload_internal W get qr_content w =
     (let Z = we_qr W
      in case parse_qr_code Z qr_content of
        Inr parsed \<Rightarrow> map_err FInvalidFormat (qx_parse Z parsed)
      | Inl e \<Rightarrow>
          (if contains_str ''MINIMAL_CHALLENGE'' (show_ffi_error e)
           then bindR (extract_challenge_id_from_qr Z qr_content) (\<lambda>cid.
                bindR (validate_challenge_id_format cid) (\<lambda>_.
                bindR (get (wc_verifier_api_url (w_config w) @ ''/v1/challenge/'' @ cid @ ''/details'')) (\<lambda>json.
                bindR (map_err FInvalidFormat (qx_parse Z json)) (\<lambda>q.
                bindR (map_err FInvalidFormat (validate_field_lengths (qx_url_scheme Z) q)) (\<lambda>_.
                Inr q)))))
           else Inl e))"

definition CACHE_SECONDS :: nat where
  "CACHE_SECONDS = 300"

text \<open>\<open>SystemTime::checked_add\<close>, whose seconds are an \<open>i64\<close>, with the fallback to \<open>now\<close>.\<close>

definition expiry_of :: "nat \<Rightarrow> nat" where
  "expiry_of now =
     (if now + CACHE_SECONDS * 10 ^ 9 < 2 ^ 63 * 10 ^ 9 then now + CACHE_SECONDS * 10 ^ 9 else now)"

text \<open>
  The common end of both entry points: eviction when the cache is full, refusal when it
  still is, insertion, and the start of the session. \<open>now_evict\<close> is the second reading of
  the clock.
\<close>

definition cache_challenge :: "nat \<Rightarrow> nat \<Rightarrow> qr_payload \<Rightarrow> ('s wallet, ffi_error, string) op" where
  "cache_challenge now now_evict q w =
     (let w1 = (if length (w_challenges w) \<ge> 64
                then w\<lparr>w_challenges := filter (\<lambda>(_, v). cc_expires_at v > now_evict) (w_challenges w)\<rparr>
                else w)
      in if length (w_challenges w1) \<ge> 64
         then (Inl (FInvalidFormat ''challenge cache full; try again shortly''), w1)
         else let entry = \<lparr>cc_payload = q, cc_received_at = now, cc_expires_at = expiry_of now\<rparr>;
                  w2 = w1\<lparr>w_challenges := AList.update (qr_challenge_id q) entry (w_challenges w1)\<rparr>
              in (Inr (qr_challenge_id q),
                  w2\<lparr>w_state := start_verification (qr_challenge_id q) (w_state w2)\<rparr>))"

definition process_qr_challenge ::
    "wallet_env \<Rightarrow> (string \<Rightarrow> ffi_error + string) \<Rightarrow> nat \<Rightarrow> nat \<Rightarrow> string \<Rightarrow> ('s wallet, ffi_error, string) op" where
  "process_qr_challenge W get now now_evict qr_content =
     bindS (\<lambda>w. (parse_qr_payload_internal W get qr_content w, w)) (\<lambda>q.
     cache_challenge now now_evict q)"

definition fetch_challenge_by_short_code ::
    "(string \<Rightarrow> ffi_error + string) \<Rightarrow> string \<Rightarrow> 's wallet \<Rightarrow> ffi_error + string" where
  "fetch_challenge_by_short_code get short_code w =
     (let normalized = strip_whitespace short_code
      in if \<not> is_short_code normalized
         then Inl (FInvalidFormat ''Invalid short code format (must be 12 digits)'')
         else get (trim_end_slashes (wc_verifier_api_url (w_config w)) @ ''/v1/challenge/by-code/'' @ normalized))"

definition process_manual_entry ::
    "wallet_env \<Rightarrow> (string \<Rightarrow> ffi_error + string) \<Rightarrow> nat \<Rightarrow> nat \<Rightarrow> string \<Rightarrow> ('s wallet, ffi_error, string) op" where
  "process_manual_entry W get now now_evict input =
     (let normalized = strip_whitespace input; Z = we_qr W
      in if \<not> is_short_code normalized
         then pureS (Inl (FInvalidFormat ''Invalid short code format. Expected 12 digits.''))
         else bindS (\<lambda>w. (fetch_challenge_by_short_code get normalized w, w)) (\<lambda>json.
              bindS (pureS (map_err (\<lambda>e. FInvalidFormat (''Failed to parse challenge response: '' @ e))
                      (qx_parse Z json))) (\<lambda>q.
              bindS (pureS (map_err FInvalidFormat (validate_field_lengths (qx_url_scheme Z) q))) (\<lambda>_.
              cache_challenge now now_evict q))))"

text \<open>\<open>get_with_headers\<close> sends the API key and origin of the configuration.\<close>

definition fetch_challenge_details ::
    "(string \<Rightarrow> string option \<Rightarrow> string option \<Rightarrow> ffi_error + string) \<Rightarrow> string \<Rightarrow> 's wallet \<Rightarrow> ffi_error + string" where
  "fetch_challenge_details get_with_headers challenge_id w =
     bindR (validate_challenge_id_format challenge_id) (\<lambda>_.
     let c = w_config w
     in get_with_headers (trim_end_slashes (wc_verifier_api_url c) @ ''/v1/challenge/'' @ challenge_id @ ''/details'')
          (wc_verifier_api_key c) (wc_verifier_origin c))"

definition parse_qr_payload ::
    "wallet_env \<Rightarrow> (string \<Rightarrow> ffi_error + string) \<Rightarrow> string \<Rightarrow> 's wallet \<Rightarrow> ffi_error + string" where
  "parse_qr_payload W get qr_content w =
     bindR (parse_qr_payload_internal W get qr_content w) (\<lambda>q. map_err FInvalidFormat (qx_print (we_qr W) q))"

datatype qr_action = QaVerificationChallenge string | QaAttestation string

definition process_scanned_qr ::
    "wallet_env \<Rightarrow> (string \<Rightarrow> ffi_error + string) \<Rightarrow> string \<Rightarrow> 's wallet \<Rightarrow> ffi_error + qr_action" where
  "process_scanned_qr W get qr_content w =
     bindR (parse_qr_payload W get qr_content w) (\<lambda>parsed.
     bindR (map_err FInvalidFormat (x_json (we_x W) parsed)) (\<lambda>data.
     if json_get ''type'' data = Some (JString ''attestation'')
     then (case Option.bind (json_get ''data'' data) json_str of
             Some d \<Rightarrow> Inr (QaAttestation d)
           | None \<Rightarrow> Inl (FInvalidFormat ''Missing attestation data''))
     else if json_get ''challenge_id'' data \<noteq> None then Inr (QaVerificationChallenge parsed)
     else Inl (FInvalidFormat ''Unknown QR code type'')))"

definition cleanup_expired_challenges :: "nat \<Rightarrow> 's wallet \<Rightarrow> u32 \<times> 's wallet" where
  "cleanup_expired_challenges now w =
     (let expired = map fst (filter (\<lambda>(_, c). now > cc_expires_at c) (w_challenges w))
      in (if length expired < 2 ^ 32 then word_of_nat (length expired) else - 1,
          w\<lparr>w_challenges := fold AList.delete expired (w_challenges w)\<rparr>))"

definition wallet_cancel_verification :: "string \<Rightarrow> ('s wallet, ffi_error, unit) op" where
  "wallet_cancel_verification challenge_id w =
     (Inr (), w\<lparr>w_state := cancel_verification challenge_id (w_state w)\<rparr>)"

section \<open>Proofs\<close>

text \<open>The surroundings of a call of the prover; \<open>pr_now\<close> is its own reading of the clock.\<close>

record 'p prover_run =
  pr_ext :: "'p prover_ext"
  pr_globals :: "'p prover_globals"
  pr_in_rayon :: bool
  pr_spawn :: "string + unit"
  pr_thread_panics :: bool
  pr_now :: u64

definition run_prover ::
    "wallet_env \<Rightarrow> 'p prover_run \<Rightarrow> credential \<Rightarrow> qr_payload \<Rightarrow> prover_error + submit_proof_request" where
  "run_prover W R c q =
     build_verify_request (we_x W) (pr_ext R) (pr_in_rayon R) (pr_spawn R) (pr_thread_panics R)
       (pr_globals R) (pr_now R) c q"

text \<open>The stored credential with its secret fields filled in; \<open>msg\<close> is the caller's text.\<close>

definition rehydrate ::
    "wallet_env \<Rightarrow> string \<Rightarrow> string \<Rightarrow> credential \<Rightarrow> ('s wallet, ffi_error, credential) op" where
  "rehydrate W msg cred_id c =
     (if cred_dob_days c = None \<or> cred_r_bits c = None
      then bindS (on_storage of_anyhow (\<lambda>B. load_credential_secrets (we_codec W) B cred_id)) (\<lambda>os.
           pureS (case os of
             Some s \<Rightarrow> Inr (c\<lparr>cred_dob_days := Some (sec_dob_days s), cred_r_bits := Some (sec_r_bits s)\<rparr>)
           | None \<Rightarrow> Inl (FInvalidFormat msg)))
      else pureS (Inr c))"

definition create_age_proof ::
    "wallet_env \<Rightarrow> 'p prover_run \<Rightarrow> u64 \<Rightarrow> string \<Rightarrow> string \<Rightarrow> ('s wallet, ffi_error, string) op" where
  "create_age_proof W R now cred_id challenge_id w =
     (case map_of (w_challenges w) challenge_id of
        None \<Rightarrow> (Inl (FInvalidFormat (''Challenge not found: '' @ challenge_id)), w)
      | Some ch \<Rightarrow>
          bindS (on_storage of_anyhow (\<lambda>B. get_credential (we_codec W) B cred_id)) (\<lambda>oc.
          bindS (pureS (ok_or FCredentialNotFound oc)) (\<lambda>c0.
          bindS (rehydrate W (''Credential missing secrets: '' @ cred_id) cred_id c0) (\<lambda>c.
          if cred_exp c < now then pureS (Inl FCredentialExpired)
          else bindS (pureS (map_err (\<lambda>e. FProver (''Proof generation failed: '' @ we_debug_prover W e))
                       (run_prover W R c (cc_payload ch)))) (\<lambda>req w1.
               let w2 = w1\<lparr>w_state := update_verification_status challenge_id ProofGenerated (w_state w1)\<rparr>
               in (map_err FGeneric (we_print_request W req), w2))))) w)"

definition create_age_proof_auto ::
    "wallet_env \<Rightarrow> 'p prover_run \<Rightarrow> u64 \<Rightarrow> u64 \<Rightarrow> string \<Rightarrow> ('s wallet, ffi_error, string) op" where
  "create_age_proof_auto W R now_list now challenge_id w =
     (case map_of (w_challenges w) challenge_id of
        None \<Rightarrow> (Inl (FInvalidFormat (''Challenge not found: '' @ challenge_id)), w)
      | Some ch \<Rightarrow>
          bindS (on_storage FStorage (\<lambda>B. list_credentials (we_codec W) B now_list)) (\<lambda>l w1.
          case provable_in_namespace w1 l of
            [] \<Rightarrow> (Inl (FGeneric ''No credential stored. Please import a credential first.''), w1)
          | [ci] \<Rightarrow> create_age_proof W R now (ci_id ci) challenge_id w1
          | cis \<Rightarrow>
              (case suitability_loop W (qr_cutoff_days (cc_payload ch)) (wants_under_age (cc_payload ch)) cis [] w1 of
                 (vs, w2) \<Rightarrow> (Inl (FGeneric (we_print_choices W vs)), w2))) w)"

definition debug_preflight ::
    "wallet_env \<Rightarrow> 'p prover_run \<Rightarrow> string \<Rightarrow> string \<Rightarrow> ('s wallet, ffi_error, string) op" where
  "debug_preflight W R cred_id challenge_id =
     bindS (on_storage of_anyhow (\<lambda>B. get_credential (we_codec W) B cred_id)) (\<lambda>oc.
     bindS (pureS (ok_or (FGeneric ''Credential not found'') oc)) (\<lambda>c0.
     bindS (rehydrate W ''Credential missing secrets'' cred_id c0) (\<lambda>c w.
     case map_of (w_challenges w) challenge_id of
       None \<Rightarrow> (Inl (FGeneric ''Challenge not found''), w)
     | Some ch \<Rightarrow>
         (bindR (map_err (\<lambda>e. FProver (show_prover_error e))
                  (preflight_report (we_x W) (pr_ext R) (pr_globals R) c (cc_payload ch))) (\<lambda>rep.
          map_err FInvalidFormat (we_print_preflight W rep)), w))))"

definition submit_proof ::
    "wallet_env \<Rightarrow> (string \<Rightarrow> string \<Rightarrow> ffi_error + string) \<Rightarrow> string \<Rightarrow> ('s wallet, ffi_error, bool) op" where
  "submit_proof W post proof_json =
     bindS (pureS (map_err FInvalidFormat (we_parse_request W proof_json))) (\<lambda>proof.
     bindS (\<lambda>w. (post (wc_verifier_api_url (w_config w) @ ''/v1/verify'') proof_json, w)) (\<lambda>body.
     bindS (pureS (map_err FInvalidFormat (we_parse_response W body))) (\<lambda>resp w.
     let success = (vr_result resp = ''OK'')
     in (Inr success, w\<lparr>w_state := complete_verification (spr_challenge_id proof) success (w_state w)\<rparr>))))"

end
