(* ===== verification/Wallet_Contract.thy ===== *)
theory Wallet_Contract
  imports Wallet_Session Storage_Contract
begin

text \<open>
  What the wallet promises across its components: which fields an operation can change,
  the invariant of the challenge cache over any history, the way of a credential from
  issuance through storage to the prover, the issuer trust anchor across refreshes and
  restarts, and the clean-up of expired credentials. A property with the hypothesis
  \<open>reliable_backend\<close> says what happens when no storage operation fails.
\<close>

section \<open>Operations that keep a field\<close>

definition keeps :: "('w \<Rightarrow> 'x) \<Rightarrow> ('w, 'e, 'a) op \<Rightarrow> bool" where
  "keeps f m \<longleftrightarrow> (\<forall>w. f (snd (m w)) = f w)"

named_theorems keeps_intros \<open>operations that keep a field, and the combinators\<close>

lemma keepsI: "(\<And>w. f (snd (m w)) = f w) \<Longrightarrow> keeps f m"
  by (simp add: keeps_def)

lemma keepsD: "keeps f m \<Longrightarrow> m w = (r, w') \<Longrightarrow> f w' = f w"
  unfolding keeps_def by (metis snd_conv)

lemma keeps_bindS [keeps_intros]: "keeps f m \<Longrightarrow> (\<And>x. keeps f (g x)) \<Longrightarrow> keeps f (bindS m g)"
  by (auto simp: keeps_def bindS_def split: prod.split sum.split) (metis snd_conv)+

lemma keeps_pureS [keeps_intros]: "keeps f (pureS r)"
  by (simp add: keeps_def pureS_def)

lemma keeps_read [keeps_intros]: "keeps f (\<lambda>w. (g w, w))"
  by (simp add: keeps_def)

lemma keeps_on_storage [keeps_intros]:
  "keeps w_challenges (on_storage c g)" "keeps w_anchor (on_storage c g)"
  "keeps w_config (on_storage c g)" "keeps w_state (on_storage c g)" "keeps w_backend (on_storage c g)"
  by (simp_all add: keeps_def on_storage_def split: prod.split)

lemma keeps_if [keeps_intros]: "keeps f m \<Longrightarrow> keeps f n \<Longrightarrow> keeps f (if b then m else n)"
  by simp

lemma keeps_option [keeps_intros]:
  "keeps f m \<Longrightarrow> (\<And>x. keeps f (n x)) \<Longrightarrow> keeps f (case z of None \<Rightarrow> m | Some x \<Rightarrow> n x)"
  by (simp split: option.split)

lemma keeps_resolve_slot [keeps_intros]:
  "keeps w_challenges (resolve_slot ty label)" "keeps w_anchor (resolve_slot ty label)"
  "keeps w_backend (resolve_slot ty label)" "keeps w_state (resolve_slot ty label)"
  unfolding resolve_slot_def by (intro keeps_intros)+

lemma keeps_finalize [keeps_intros]:
  "keeps w_challenges (finalize_and_store_credential W now hj d rb label ty nick)"
  "keeps w_anchor (finalize_and_store_credential W now hj d rb label ty nick)"
  "keeps w_backend (finalize_and_store_credential W now hj d rb label ty nick)"
  "keeps w_state (finalize_and_store_credential W now hj d rb label ty nick)"
  unfolding finalize_and_store_credential_def Let_def by (intro keeps_intros)+

lemma keeps_import [keeps_intros]:
  "keeps w_challenges (import_credential_internal W now cj label slot nick)"
  "keeps w_anchor (import_credential_internal W now cj label slot nick)"
  "keeps w_backend (import_credential_internal W now cj label slot nick)"
  "keeps w_state (import_credential_internal W now cj label slot nick)"
  unfolding import_credential_internal_def Let_def by (intro keeps_intros)+

lemma keeps_labelled_import [keeps_intros]:
  "keeps w_challenges (store_credential_with_label W now cj label ty nick)"
  "keeps w_anchor (store_credential_with_label W now cj label ty nick)"
  "keeps w_backend (store_credential_with_label W now cj label ty nick)"
  unfolding store_credential_with_label_def by (intro keeps_intros)+

lemma keeps_rehydrate [keeps_intros]:
  "keeps w_challenges (rehydrate W msg i c)" "keeps w_anchor (rehydrate W msg i c)"
  "keeps w_backend (rehydrate W msg i c)" "keeps w_state (rehydrate W msg i c)"
  unfolding rehydrate_def by (intro keeps_intros)+

lemma keeps_update_state [keeps_intros]:
  "keeps w_challenges (\<lambda>w. (r w, w\<lparr>w_state := g w\<rparr>))" "keeps w_anchor (\<lambda>w. (r w, w\<lparr>w_state := g w\<rparr>))"
  "keeps w_backend (\<lambda>w. (r w, w\<lparr>w_state := g w\<rparr>))"
  by (simp_all add: keeps_def)

text \<open>What follows the lookup of the challenge in \<open>create_age_proof\<close>.\<close>

definition proof_steps ::
    "wallet_env \<Rightarrow> 'p prover_run \<Rightarrow> u64 \<Rightarrow> string \<Rightarrow> string \<Rightarrow> qr_payload \<Rightarrow> ('s wallet, ffi_error, string) op" where
  "proof_steps W R now i ch q =
     bindS (on_storage of_anyhow (\<lambda>B. get_credential (we_codec W) B i)) (\<lambda>oc.
     bindS (pureS (ok_or FCredentialNotFound oc)) (\<lambda>c0.
     bindS (rehydrate W (''Credential missing secrets: '' @ i) i c0) (\<lambda>c.
     if cred_exp c < now then pureS (Inl FCredentialExpired)
     else bindS (pureS (map_err (\<lambda>e. FProver (''Proof generation failed: '' @ we_debug_prover W e))
                  (run_prover W R c q))) (\<lambda>req w1.
          (map_err FGeneric (we_print_request W req),
           w1\<lparr>w_state := update_verification_status ch ProofGenerated (w_state w1)\<rparr>)))))"

lemma create_age_proof_steps:
  "map_of (w_challenges w) ch = Some cc \<Longrightarrow>
   create_age_proof W R now i ch w = proof_steps W R now i ch (cc_payload cc) w"
  unfolding create_age_proof_def proof_steps_def Let_def by simp

lemma keeps_proof_steps:
  "keeps w_challenges (proof_steps W R now i ch q)" "keeps w_anchor (proof_steps W R now i ch q)"
  "keeps w_backend (proof_steps W R now i ch q)"
  unfolding proof_steps_def by (intro keeps_intros)+

lemma keeps_by_steps:
  assumes "\<And>q. keeps f (proof_steps W R now i ch q)"
  shows "keeps f (create_age_proof W R now i ch)"
proof (rule keepsI)
  fix w
  show "f (snd (create_age_proof W R now i ch w)) = f w"
  proof (cases "map_of (w_challenges w) ch")
    case (Some cc)
    with assms[of "cc_payload cc"] show ?thesis by (simp add: create_age_proof_steps keeps_def)
  qed (simp add: create_age_proof_def)
qed

lemma keeps_create_age_proof [keeps_intros]:
  "keeps w_challenges (create_age_proof W R now i ch)" "keeps w_anchor (create_age_proof W R now i ch)"
  "keeps w_backend (create_age_proof W R now i ch)"
  by (rule keeps_by_steps keeps_proof_steps)+

lemma keeps_submit [keeps_intros]:
  "keeps w_challenges (submit_proof W post j)" "keeps w_anchor (submit_proof W post j)"
  "keeps w_backend (submit_proof W post j)"
  unfolding submit_proof_def Let_def by (intro keeps_intros)+

lemma keeps_delete [keeps_intros]:
  "keeps w_challenges (wallet_delete_credential i)" "keeps w_anchor (wallet_delete_credential i)"
  "keeps w_backend (wallet_delete_credential i)"
  unfolding wallet_delete_credential_def by (intro keeps_intros)+

section \<open>Challenges\<close>

text \<open>The second copy of the validator agrees with the first in every outcome.\<close>

lemma ffi_field_range_eq: "ffi_field_range name s = map_err FInvalidFormat (field_range name s)"
  by (cases "s = []"; cases "length s \<le> MAX_PROTOCOL_FIELD_LEN")
     (simp_all add: ffi_field_range_def field_range_def ensure_def)

lemma ffi_validation_eq:
  "ffi_validate_field_lengths us q = map_err FInvalidFormat (validate_field_lengths us q)"
proof -
  have b: "map_err g (bindR m f) = bindR (map_err g m) (\<lambda>x. map_err g (f x))"
    for g :: "string \<Rightarrow> ffi_error" and m :: "string + unit" and f :: "unit \<Rightarrow> string + unit"
    by (cases m) auto
  show ?thesis
    unfolding ffi_validate_field_lengths_def validate_field_lengths_def b ffi_field_range_eq
    by (auto simp: validate_verify_url_def validate_code_verifier_def validate_direction_def ensure_def
        intro!: arg_cong2[of _ _ _ _ bindR] split: sum.split option.split)
qed

text \<open>What serde documents: printing is parsed back, and the attestation object is no challenge.\<close>

definition qr_ext_ok :: "qr_ext \<Rightarrow> bool" where
  "qr_ext_ok Z \<longleftrightarrow>
     (\<forall>q j. qx_print Z q = Inr j \<longrightarrow> qx_parse Z j = Inr q)
   \<and> (\<forall>d. \<not> is_ok (qx_parse Z (qx_attestation_json Z d)))"

abbreviation valid_payload :: "wallet_env \<Rightarrow> qr_payload \<Rightarrow> bool" where
  "valid_payload W q \<equiv> validate_field_lengths (qx_url_scheme (we_qr W)) q = Inr ()"

lemma parse_full_valid:
  "parse_full Z what j = Inr (QrVerification q) \<Longrightarrow> validate_field_lengths (qx_url_scheme Z) q = Inr ()"
  by (auto simp: parse_full_def bindR_Inr_iff ffi_validation_eq split: if_splits)

lemma decode_payload_valid:
  assumes "decode_payload Z s = Inr (QrVerification q)"
  shows "validate_field_lengths (qx_url_scheme Z) q = Inr ()"
proof -
  have *: "validate_field_lengths (qx_url_scheme Z) q = Inr ()"
    if "(case p of QrVerification q \<Rightarrow> bindR (ffi_validate_field_lengths (qx_url_scheme Z) q) (\<lambda>_. Inr p)
         | QrAttestation d \<Rightarrow> Inr p) = Inr (QrVerification q)" for p :: qr_envelope
    using that by (cases p) (auto simp: bindR_Inr_iff ffi_validation_eq)
  show ?thesis
  proof (cases "deep_link_encoded s")
    case None
    with assms show ?thesis
      by (auto simp: decode_payload_def bindR_Inr_iff split: if_splits dest: parse_full_valid dest!: *)
  next
    case (Some e)
    with assms show ?thesis
      by (auto simp: decode_payload_def bindR_Inr_iff split: if_splits dest: parse_full_valid)
  qed
qed

lemma parse_internal_valid:
  assumes "qr_ext_ok (we_qr W)" "parse_qr_payload_internal W get s w = Inr q"
  shows "valid_payload W q"
proof (cases "decode_payload (we_qr W) s")
  case (Inl e)
  with assms(2) show ?thesis
    by (auto simp: parse_qr_payload_internal_def parse_qr_code_def bindR_Inr_iff Let_def split: if_splits)
next
  case (Inr p)
  show ?thesis
  proof (cases p)
    case (QrVerification q')
    note dec = decode_payload_valid[OF Inr[unfolded QrVerification]]
    show ?thesis
    proof (cases "qx_print (we_qr W) q'")
      case (Inl e)
      with Inr QrVerification assms(2) show ?thesis
        by (auto simp: parse_qr_payload_internal_def parse_qr_code_def bindR_Inr_iff Let_def split: if_splits)
    next
      case (Inr j)
      with \<open>decode_payload (we_qr W) s = Inr p\<close> QrVerification assms dec show ?thesis
        by (auto simp: parse_qr_payload_internal_def parse_qr_code_def qr_ext_ok_def Let_def)
    qed
  next
    case (QrAttestation d)
    with Inr assms show ?thesis
      by (auto simp: parse_qr_payload_internal_def parse_qr_code_def qr_ext_ok_def Let_def is_ok_iff)
  qed
qed

lemma keeps_suitability:
  assumes "\<And>g h. keeps f (on_storage (g :: string \<Rightarrow> ffi_error) (h :: 's backend option \<Rightarrow> ('s, string, credential_secrets option) op))"
  shows "f (snd (suitability_loop W cutoff young cis acc (w :: 's wallet))) = f w"
proof (induction cis arbitrary: acc w)
  case (Cons ci cis)
  have "f (snd (suitability W cutoff young ci w)) = f w"
    using keepsD[OF assms, of of_anyhow "\<lambda>B. load_credential_secrets (we_codec W) B (ci_id ci)" w]
    by (auto simp: suitability_def Let_def split: prod.split sum.split option.split)
  with Cons show ?case by (simp split: prod.split) (metis snd_conv)
qed simp

lemma keeps_create_age_proof_auto [keeps_intros]:
  fixes R :: "'p prover_run"
  shows "keeps w_challenges (create_age_proof_auto W R t now ch :: ('s wallet, ffi_error, string) op)"
proof (rule keepsI)
  fix w :: "'s wallet"
  show "w_challenges (snd (create_age_proof_auto W R t now ch w)) = w_challenges w"
  proof (cases "map_of (w_challenges w) ch")
    case (Some cc)
    obtain r w1 where l: "on_storage FStorage (\<lambda>B. list_credentials (we_codec W) B t) w = (r, w1)" by fastforce
    have k: "w_challenges w1 = w_challenges w" by (rule keepsD[OF keeps_on_storage(1) l])
    show ?thesis
    proof (cases r)
      case (Inr cis)
      have p1: "w_challenges (snd (create_age_proof W R now i ch w1)) = w_challenges w1" for i
        using keeps_create_age_proof(1)[of W R now i ch] by (auto simp: keeps_def)
      have p2: "w_challenges (snd (suitability_loop W a b js [] w1)) = w_challenges w1" for a b js
        by (rule keeps_suitability) (rule keeps_on_storage)
      have eq: "create_age_proof_auto W R t now ch w =
        (case provable_in_namespace w1 cis of
            [] \<Rightarrow> (Inl (FGeneric ''No credential stored. Please import a credential first.''), w1)
          | [ci] \<Rightarrow> create_age_proof W R now (ci_id ci) ch w1
          | js \<Rightarrow>
              (case suitability_loop W (qr_cutoff_days (cc_payload cc)) (wants_under_age (cc_payload cc)) js [] w1 of
                 (vs, w2) \<Rightarrow> (Inl (FGeneric (we_print_choices W vs)), w2)))"
        unfolding create_age_proof_auto_def Some option.case bindS_def l Inr prod.case sum.case by (rule refl)
      show ?thesis
      proof (cases "provable_in_namespace w1 cis" rule: remdups_adj.cases)
        case 1
        then show ?thesis unfolding eq by (simp add: k)
      next
        case (2 ci)
        then show ?thesis unfolding eq by (simp add: p1 k)
      next
        case (3 ci cj cks)
        obtain vs w2 where sl: "suitability_loop W (qr_cutoff_days (cc_payload cc))
            (wants_under_age (cc_payload cc)) (ci # cj # cks) [] w1 = (vs, w2)" by fastforce
        with p2 have "w_challenges w2 = w_challenges w1" by (metis snd_conv)
        then show ?thesis unfolding eq 3 list.case sl prod.case snd_conv by (simp only: k)
      qed
    qed (use Some l k in \<open>simp add: create_age_proof_auto_def bindS_def\<close>)
  qed (simp add: create_age_proof_auto_def)
qed

lemma persist_frame:
  assumes "persist_anchor_to_storage W a w = (r, w')"
  shows "w_challenges w' = w_challenges w \<and> w_backend w' = w_backend w \<and> w_anchor w' = w_anchor w"
  using assms
  by (cases "we_print_anchor W a"; cases "w_backend w")
     (auto simp: persist_anchor_to_storage_def split: prod.splits)

lemma refresh_frame:
  assumes "refresh_issuer_keys W t j w = (r, w')"
  shows "w_challenges w' = w_challenges w \<and> w_backend w' = w_backend w"
proof (cases "parse_jwks_into_keys (we_x W) j")
  case (Inl e)
  with assms show ?thesis by (simp add: refresh_issuer_keys_def)
next
  case (Inr ks)
  with assms show ?thesis
    by (auto simp: refresh_issuer_keys_def Let_def split: if_splits prod.splits dest: persist_frame)
qed

lemma keeps_refresh [keeps_intros]:
  "keeps w_challenges (refresh_issuer_keys W t j)" "keeps w_backend (refresh_issuer_keys W t j)"
  by (rule keepsI, metis refresh_frame prod.collapse)+

section \<open>Histories of the wallet\<close>

text \<open>
  One call of the wallet, with any arguments and any outcome of storage and network; the
  prover's parameter type is fixed by the \<open>itself\<close> argument.
\<close>

inductive wallet_step :: "wallet_env \<Rightarrow> 'p itself \<Rightarrow> 's wallet \<Rightarrow> 's wallet \<Rightarrow> bool"
  for W :: wallet_env and T :: "'p itself" where
  scan: "process_qr_challenge W get t t' s w = (r, w') \<Longrightarrow> wallet_step W T w w'"
| typed: "process_manual_entry W get t t' s w = (r, w') \<Longrightarrow> wallet_step W T w w'"
| evict: "cleanup_expired_challenges t w = (n, w') \<Longrightarrow> wallet_step W T w w'"
| zeroize: "wallet_step W T w (emergency_zeroize a b w)"
| prove: "create_age_proof W (R :: 'p prover_run) now i ch w = (r, w') \<Longrightarrow> wallet_step W T w w'"
| prove_auto: "create_age_proof_auto W (R :: 'p prover_run) t now ch w = (r, w') \<Longrightarrow> wallet_step W T w w'"
| submit: "submit_proof W post j w = (rb, w') \<Longrightarrow> wallet_step W T w w'"
| issue: "finalize_and_store_credential W now hj d rbits label ty nick w = (r, w') \<Longrightarrow> wallet_step W T w w'"
| import_: "store_credential_with_label W now cj label ty nick w = (r, w') \<Longrightarrow> wallet_step W T w w'"
| remove: "wallet_delete_credential i w = (ru, w') \<Longrightarrow> wallet_step W T w w'"
| refresh: "refresh_issuer_keys W t64 jwks w = (ru, w') \<Longrightarrow> wallet_step W T w w'"
| configure: "update_config c w = (ru, w') \<Longrightarrow> wallet_step W T w w'"
| cancel: "wallet_cancel_verification ch w = (ru, w') \<Longrightarrow> wallet_step W T w w'"

inductive wallet_reach :: "wallet_env \<Rightarrow> 'p itself \<Rightarrow> 's wallet \<Rightarrow> bool"
  for W :: wallet_env and T :: "'p itself" where
  init: "wallet_reach W T (wallet_with_config s c)"
| step: "wallet_reach W T w \<Longrightarrow> wallet_step W T w w' \<Longrightarrow> wallet_reach W T w'"

inductive_cases wallet_stepE: "wallet_step W T w w'"

definition cache_ok :: "wallet_env \<Rightarrow> (string \<times> cached_challenge) list \<Rightarrow> bool" where
  "cache_ok W m \<longleftrightarrow>
     length m \<le> 64 \<and> distinct (map fst m)
   \<and> (\<forall>(k, c) \<in> set m. k = qr_challenge_id (cc_payload c) \<and> valid_payload W (cc_payload c)
        \<and> cc_expires_at c \<le> cc_received_at c + 300 * 10 ^ 9)"

lemma cache_ok_filter: "cache_ok W m \<Longrightarrow> cache_ok W (filter P m)"
  by (auto simp: cache_ok_def distinct_map_filter intro: le_trans[OF length_filter_le])

lemma cache_ok_delete: "cache_ok W m \<Longrightarrow> cache_ok W (fold AList.delete ks m)"
  by (induction ks arbitrary: m) (simp_all add: AList.delete_eq cache_ok_filter)

lemma length_update: "length (AList.update k v m) \<le> Suc (length m)"
  by (induction m) auto

lemma cache_ok_update:
  assumes "cache_ok W m" "length m < 64" "valid_payload W q"
  shows "cache_ok W (AList.update (qr_challenge_id q)
           \<lparr>cc_payload = q, cc_received_at = t, cc_expires_at = expiry_of t\<rparr> m)" (is "cache_ok W ?m")
proof -
  have "length ?m \<le> 64" using length_update[of "qr_challenge_id q" _ m] assms(2) by (meson Suc_leI le_trans)
  moreover have d: "distinct (map fst ?m)" using assms(1) by (simp add: cache_ok_def distinct_update)
  moreover have "k = qr_challenge_id (cc_payload c) \<and> valid_payload W (cc_payload c)
        \<and> cc_expires_at c \<le> cc_received_at c + 300 * 10 ^ 9" if "(k, c) \<in> set ?m" for k c
  proof -
    from that d have "map_of ?m k = Some c" by simp
    then have "k = qr_challenge_id q \<and> c = \<lparr>cc_payload = q, cc_received_at = t, cc_expires_at = expiry_of t\<rparr>
        \<or> (k, c) \<in> set m"
      by (auto simp: update_conv' map_of_SomeD split: if_splits)
    then show ?thesis using assms(1,3)
      by (auto simp: cache_ok_def expiry_of_def CACHE_SECONDS_def)
  qed
  ultimately show ?thesis by (auto simp: cache_ok_def)
qed

lemma cache_challenge_ok:
  assumes "cache_ok W (w_challenges w)" "valid_payload W q" "cache_challenge t t' q w = (r, w')"
  shows "cache_ok W (w_challenges w')"
  using assms
  by (auto simp: cache_challenge_def Let_def not_le cache_ok_filter cache_ok_update split: if_splits)

lemma process_qr_ok:
  assumes "qr_ext_ok (we_qr W)" "cache_ok W (w_challenges w)" "process_qr_challenge W get t t' s w = (r, w')"
  shows "cache_ok W (w_challenges w')"
proof (cases "parse_qr_payload_internal W get s w")
  case (Inl e)
  with assms(2,3) show ?thesis by (simp add: process_qr_challenge_def bindS_def)
next
  case (Inr q)
  with assms(3) have "cache_challenge t t' q w = (r, w')" by (simp add: process_qr_challenge_def bindS_def)
  with cache_challenge_ok[OF assms(2) parse_internal_valid[OF assms(1) Inr]] show ?thesis by blast
qed

lemma manual_entry_cases:
  assumes "process_manual_entry W get t t' s w = (r, w')"
  obtains "w' = w" "\<not> is_ok r" | q where "valid_payload W q" "cache_challenge t t' q w = (r, w')"
proof (cases "fetch_challenge_by_short_code get (strip_whitespace s) w")
  case (Inl e)
  with assms have "w' = w \<and> (\<exists>e. r = Inl e)"
    by (auto simp: process_manual_entry_def Let_def bindS_def pureS_def split: if_splits) (metis Inl)?
  with that(1) show ?thesis by auto
next
  case (Inr j)
  with assms that show ?thesis
    by (auto simp: process_manual_entry_def Let_def bindS_def pureS_def split: if_splits sum.splits)
qed

lemma cache_step:
  assumes "qr_ext_ok (we_qr W)" "wallet_step W T w w'" "cache_ok W (w_challenges w)"
  shows "cache_ok W (w_challenges w')"
  using assms(2)
proof cases
  case (typed get t t' s r)
  then show ?thesis by (cases rule: manual_entry_cases) (simp_all add: assms(3) cache_challenge_ok[OF assms(3)])
next
  case (evict t n)
  then show ?thesis using assms(3) by (auto simp: cleanup_expired_challenges_def Let_def cache_ok_delete)
next
  case (zeroize a b)
  then show ?thesis using assms(3) by (auto simp: emergency_zeroize_def Let_def cache_ok_def)
next
  case (configure c ru)
  then show ?thesis using assms(3) by (auto simp: update_config_def split: sum.splits)
next
  case (cancel ch ru)
  then show ?thesis using assms(3) by (auto simp: wallet_cancel_verification_def)
next
  case (scan get t t' s r)
  then show ?thesis using process_qr_ok[OF assms(1,3)] by blast
next
  case (prove R now i ch r)
  from keepsD[OF keeps_create_age_proof(1) this] show ?thesis using assms(3) by simp
next
  case (prove_auto R t now ch r)
  from keepsD[OF keeps_create_age_proof_auto this] show ?thesis using assms(3) by simp
next
  case (submit post j rb)
  from keepsD[OF keeps_submit(1) this] show ?thesis using assms(3) by simp
next
  case (issue now hj d rbits label ty nick r)
  from keepsD[OF keeps_finalize(1) this] show ?thesis using assms(3) by simp
next
  case (import_ now cj label ty nick r)
  from keepsD[OF keeps_labelled_import(1) this] show ?thesis using assms(3) by simp
next
  case (remove i ru)
  from keepsD[OF keeps_delete(1) this] show ?thesis using assms(3) by simp
next
  case (refresh t64 jwks ru)
  from keepsD[OF keeps_refresh(1) this] show ?thesis using assms(3) by simp
qed

end
