(* ===== verification/Wallet_Flows.thy ===== *)
theory Wallet_Flows
  imports Wallet_Contract
begin

text \<open>
  The flows that cross components: a credential from issuance through storage to the
  prover, the trust anchor across credential operations and a restart, and the clean-up
  of expired credentials, each as a lemma over a backend with the documented contract.
\<close>

section \<open>Successful runs\<close>

lemma bindS_ok_iff: "bindS m f s = (Inr y, s') \<longleftrightarrow> (\<exists>x t. m s = (Inr x, t) \<and> f x t = (Inr y, s'))"
  by (auto simp: bindS_def split: prod.splits sum.splits)

lemma pureS_ok_iff: "pureS r s = (Inr x, s') \<longleftrightarrow> r = Inr x \<and> s' = s"
  by (auto simp: pureS_def)

lemma on_storage_ok_iff:
  "on_storage c f w = (Inr x, w') \<longleftrightarrow>
     (\<exists>s'. f (w_backend w) (w_storage w) = (Inr x, s') \<and> w' = w\<lparr>w_storage := s'\<rparr>)"
  by (auto simp: on_storage_def split: prod.splits)

lemma on_storage_run:
  "f (w_backend w) (w_storage w) = (r, s') \<Longrightarrow> on_storage c f w = (map_err c r, w\<lparr>w_storage := s'\<rparr>)"
  by (simp add: on_storage_def)

lemmas run_iffs = bindS_ok_iff pureS_ok_iff on_storage_ok_iff

lemma check_anchor_some:
  "w_anchor w = Some a \<Longrightarrow> check_anchor h w = Inr () \<longleftrightarrow> hdr_issuer_vk h \<in> tk_vk ` set (ta_keys a)"
  by (auto simp: check_anchor_def validate_issuer_vk_def list_ex_iff map_err_Inl_iff)

lemma finalize_and_store_ok:
  "finalize_and_store_credential W now hj d rj label ty nick w = (Inr cid, w') \<longleftrightarrow>
     (\<exists>slot w1 h rb c s1 s2.
        resolve_slot ty label w = (Inr slot, w1) \<and> we_parse_header W hj = Inr h
      \<and> check_anchor h w1 = Inr () \<and> x_b64_decode (we_x W) rj = Inr rb
      \<and> finalize_credential (we_x W) h d (unpack_bits rb R_BITS_LEN) = Inr c
      \<and> store_credential_with_slot (we_codec W) (w_backend w1) now (redacted c) label slot nick (w_storage w1)
          = (Inr cid, s1)
      \<and> store_credential_secrets (we_codec W) (w_backend w1) cid
          \<lparr>sec_dob_days = d, sec_r_bits = unpack_bits rb R_BITS_LEN\<rparr> s1 = (Inr (), s2)
      \<and> w' = w1\<lparr>w_storage := s2\<rparr>)"
  unfolding finalize_and_store_credential_def Let_def redacted_def
  by (auto simp: run_iffs simp del: bindS_pure) blast?

context storage_backend
begin

lemma next_index_frame:
  assumes "inv s" "next_available_managed_index (Some B) ns s = (r, s')"
  shows "inv s' \<and> view s' = view s"
proof -
  from assms(2) have "bindS (ctx ''Failed to list keys'' (be_list_keys B)) (\<lambda>ks.
      let occupied = fold (mark_occupied (fst (managed_prefixes ns))) ks (replicate MAX_MANAGED_SLOTS False)
      in pureS (case find (\<lambda>i. \<not> occupied ! i) [0..<MAX_MANAGED_SLOTS] of
              Some i \<Rightarrow> Inr (word_of_nat i)
            | None \<Rightarrow> Inl (''All '' @ show_nat MAX_MANAGED_SLOTS @ '' managed credential slots are full''))) s = (r, s')"
    by (simp add: next_available_managed_index_def)
  then show ?thesis
    by (cases rule: bindS_cases)
       (auto elim!: ctx_cases simp: Let_def pureS_def dest!: list_law[OF assms(1)])
qed

lemma resolve_slot_frame:
  assumes "w_backend w = Some B" "inv (w_storage w)" "resolve_slot ty label w = (r, w')"
  shows "inv (w_storage w') \<and> view (w_storage w') = view (w_storage w)"
proof (cases "ty = ''managed''")
  case True
  obtain ri s' where n: "next_available_managed_index (Some B) (from_label label) (w_storage w) = (ri, s')"
    by fastforce
  from next_index_frame[OF assms(2) n] assms True n show ?thesis
    by (cases ri) (auto simp: resolve_slot_def bindS_def on_storage_def pureS_def)
next
  case False
  with assms show ?thesis by (auto simp: resolve_slot_def pureS_def split: if_splits)
qed

end

context reliable_backend
begin

lemma get_some_run:
  assumes "inv s" "view s k = Some d" "decode_stored X d = Inr st"
  shows "\<exists>s'. get_credential X (Some B) k s = (Inr (Some (sc_credential st)), s') \<and> inv s' \<and> view s' = view s"
  using retrieve_some[OF assms(1,2), of BioNone] retrieve_law[OF assms(1)] assms(3)
  by (auto simp: get_credential_def retrieve_or_none_def)

lemma load_some_run:
  assumes "inv s" "view s (secrets_key i) = Some d" "sx_dec_secrets X d = Inr sec"
  shows "\<exists>s'. load_credential_secrets X (Some B) i s = (Inr (Some sec), s') \<and> inv s' \<and> view s' = view s"
  using retrieve_some[OF assms(1,2), of for_credential_secrets] retrieve_law[OF assms(1)] assms(3)
  by (auto simp: load_credential_secrets_def retrieve_or_none_def)

text \<open>What an issued credential leaves in storage.\<close>

lemma issued_records:
  assumes "w_backend w = Some B" "inv (w_storage w)" "codec_roundtrip (we_codec W)"
    "finalize_and_store_credential W now hj d rj label ty nick w = (Inr cid, w')"
  shows "\<exists>h rb c st ds dp. we_parse_header W hj = Inr h \<and> x_b64_decode (we_x W) rj = Inr rb
    \<and> finalize_credential (we_x W) h d (unpack_bits rb 128) = Inr c
    \<and> w_backend w' = Some B \<and> inv (w_storage w')
    \<and> view (w_storage w') cid = Some dp \<and> decode_stored (we_codec W) dp = Inr st \<and> sc_credential st = redacted c
    \<and> view (w_storage w') (secrets_key cid) = Some ds
    \<and> sx_dec_secrets (we_codec W) ds = Inr \<lparr>sec_dob_days = d, sec_r_bits = unpack_bits rb 128\<rparr>"
proof -
  from assms(4)[unfolded finalize_and_store_ok] obtain slot w1 h rb c s1 s2 where
    1: "resolve_slot ty label w = (Inr slot, w1)" "we_parse_header W hj = Inr h"
      "x_b64_decode (we_x W) rj = Inr rb" "finalize_credential (we_x W) h d (unpack_bits rb R_BITS_LEN) = Inr c"
    and st: "store_credential_with_slot (we_codec W) (w_backend w1) now (redacted c) label slot nick (w_storage w1)
          = (Inr cid, s1)"
    and se: "store_credential_secrets (we_codec W) (w_backend w1) cid
          \<lparr>sec_dob_days = d, sec_r_bits = unpack_bits rb R_BITS_LEN\<rparr> s1 = (Inr (), s2)"
    and w': "w' = w1\<lparr>w_storage := s2\<rparr>"
    by blast
  have b1: "w_backend w1 = Some B" using keepsD[OF keeps_resolve_slot(3) 1(1)] assms(1) by simp
  have i1: "inv (w_storage w1)" using resolve_slot_frame[OF assms(1,2) 1(1)] by simp
  let ?ns = "from_label label"
  from store_effect[OF i1 st[unfolded b1]] obtain dp where
    e: "inv s1" "cid = cred_prefix ?ns slot @ compute_base_id (we_codec W) (redacted c)"
      "encode_stored (we_codec W) \<lparr>sc_credential = redacted c, sc_metadata = new_metadata now label slot nick\<rparr> = Inr dp"
    and v: "\<And>k. k \<in> slot_keys ?ns slot \<Longrightarrow> view s1 k = (if k = cid then Some dp else None)" by blast
  have "view s1 cid = Some dp" using v[of cid] e(2) by (auto simp: slot_keys_iff)
  moreover from store_secrets_effect[OF e(1) se[unfolded b1]] obtain ds where
    "inv s2" "sx_enc_secrets (we_codec W) \<lparr>sec_dob_days = d, sec_r_bits = unpack_bits rb R_BITS_LEN\<rparr> = Inr ds"
    "view s2 = (view s1)(secrets_key cid \<mapsto> ds)" by auto
  moreover have "cid \<noteq> secrets_key cid" using sec_key_neq e(2) by (metis secrets_key_prefix)
  moreover note codec_storedD[OF assms(3) e(3)]
  moreover have "sx_dec_secrets (we_codec W) ds = Inr \<lparr>sec_dob_days = d, sec_r_bits = unpack_bits rb R_BITS_LEN\<rparr>"
    if "sx_enc_secrets (we_codec W) \<lparr>sec_dob_days = d, sec_r_bits = unpack_bits rb R_BITS_LEN\<rparr> = Inr ds" for ds
    using codec_secrets[OF assms(3)] that by (metis sum.inject(2))
  ultimately show ?thesis using 1 w' b1 by (auto simp: R_BITS_LEN_def redacted_def)
qed

text \<open>The prover gets the stored public record completed with the stored secrets.\<close>

lemma proof_of_stored:
  assumes "w_backend w = Some B" "inv (w_storage w)"
    "view (w_storage w) i = Some dp" "decode_stored (we_codec W) dp = Inr st"
    "view (w_storage w) (secrets_key i) = Some ds" "sx_dec_secrets (we_codec W) ds = Inr sec"
    "cred_dob_days (sc_credential st) = None"
    "c = (sc_credential st)\<lparr>cred_dob_days := Some (sec_dob_days sec), cred_r_bits := Some (sec_r_bits sec)\<rparr>"
  shows "fst (proof_steps W R now i ch q w) =
    (if cred_exp c < now then Inl FCredentialExpired
     else case run_prover W R c q of
       Inl e \<Rightarrow> Inl (FProver (''Proof generation failed: '' @ we_debug_prover W e))
     | Inr req \<Rightarrow> map_err FGeneric (we_print_request W req))"
proof -
  obtain s1 where g: "get_credential (we_codec W) (Some B) i (w_storage w) = (Inr (Some (sc_credential st)), s1)"
      "inv s1" "view s1 = view (w_storage w)"
    using get_some_run[OF assms(2-4)] by blast
  from assms(5) g(3) have "view s1 (secrets_key i) = Some ds" by simp
  from load_some_run[OF g(2) this assms(6)] obtain s2 where
    l: "load_credential_secrets (we_codec W) (Some B) i s1 = (Inr (Some sec), s2)" by blast
  let ?w1 = "w\<lparr>w_storage := s1\<rparr>" and ?w2 = "w\<lparr>w_storage := s2\<rparr>"
  have r1: "on_storage of_anyhow (\<lambda>B. get_credential (we_codec W) B i) w = (Inr (Some (sc_credential st)), ?w1)"
    using g(1) assms(1) by (simp add: on_storage_def)
  have "on_storage of_anyhow (\<lambda>B. load_credential_secrets (we_codec W) B i) ?w1 = (Inr (Some sec), ?w2)"
    using l assms(1) by (simp add: on_storage_def)
  then have r2: "rehydrate W m i (sc_credential st) ?w1 = (Inr c, ?w2)" for m
    by (simp add: rehydrate_def assms(7,8) bindS_Inr pureS_def)
  show ?thesis
    unfolding proof_steps_def
    by (simp add: bindS_Inr[where m = "on_storage of_anyhow (\<lambda>B. get_credential (we_codec W) B i)", OF r1]
        bindS_Inr[where m = "rehydrate W m i (sc_credential st)" for m, OF r2] ok_or_def pureS_def split: sum.split)
qed

end

section \<open>What an operation leaves alone\<close>

text \<open>An operation of the wallet keeps the values under the keys of \<open>K\<close>.\<close>

definition frames ::
    "'s backend \<Rightarrow> ('s \<Rightarrow> string \<Rightarrow> bytes option) \<Rightarrow> ('s \<Rightarrow> bool) \<Rightarrow> string set \<Rightarrow> ('s wallet, ffi_error, 'a) op \<Rightarrow> bool" where
  "frames B view I K m \<longleftrightarrow>
     (\<forall>w r w'. w_backend w = Some B \<longrightarrow> I (w_storage w) \<longrightarrow> m w = (r, w') \<longrightarrow>
        w_backend w' = Some B \<and> I (w_storage w')
      \<and> (\<forall>k \<in> K. view (w_storage w') k = view (w_storage w) k))"

named_theorems frames_intros \<open>operations that keep keys, and the combinators\<close>

lemma framesD:
  assumes "frames B view I K m" "w_backend w = Some B" "I (w_storage w)" "m w = (r, w')"
  shows "w_backend w' = Some B" "I (w_storage w')" "\<And>k. k \<in> K \<Longrightarrow> view (w_storage w') k = view (w_storage w) k"
  using assms unfolding frames_def by blast+

lemma frames_bindS [frames_intros]:
  assumes "frames B view I K m" "\<And>x. frames B view I K (f x)"
  shows "frames B view I K (bindS m f)"
  unfolding frames_def
proof (intro allI impI)
  fix w r w' assume a: "w_backend w = Some B" "I (w_storage w)" "bindS m f w = (r, w')"
  from a(3) show "w_backend w' = Some B \<and> I (w_storage w')
      \<and> (\<forall>k \<in> K. view (w_storage w') k = view (w_storage w) k)"
  proof (cases rule: bindS_cases)
    case (err e)
    from framesD[OF assms(1) a(1,2) err(1)] show ?thesis by blast
  next
    case (ok x t)
    note 1 = framesD[OF assms(1) a(1,2) ok(1)]
    from framesD[OF assms(2) 1(1,2) ok(2)] 1(3) show ?thesis by simp
  qed
qed

lemma frames_pure [frames_intros]: "frames B view I K (pureS r)" "frames B view I K (\<lambda>w. (g w, w))"
  by (auto simp: frames_def pureS_def)

lemma frames_if [frames_intros]:
  "frames B view I K m \<Longrightarrow> frames B view I K n \<Longrightarrow> frames B view I K (if b then m else n)"
  by simp

lemma frames_option [frames_intros]:
  "frames B view I K m \<Longrightarrow> (\<And>x. frames B view I K (n x)) \<Longrightarrow>
   frames B view I K (case z of None \<Rightarrow> m | Some x \<Rightarrow> n x)"
  by (simp split: option.split)

lemma frames_on_storage:
  assumes "\<And>s r s'. I s \<Longrightarrow> f (Some B) s = (r, s') \<Longrightarrow> I s' \<and> (\<forall>k \<in> K. view s' k = view s k)"
  shows "frames B view I K (on_storage c f)"
  using assms by (fastforce simp: frames_def on_storage_def split: prod.splits)

text \<open>The trust anchor lies outside every slot.\<close>

lemma anchor_key_apart:
  "TRUST_ANCHOR_STORAGE_KEY \<notin> slot_keys ns slot" "secrets_key i \<noteq> TRUST_ANCHOR_STORAGE_KEY"
  "\<not> is_credential_key TRUST_ANCHOR_STORAGE_KEY" "\<not> in_namespace NsSandbox TRUST_ANCHOR_STORAGE_KEY"
proof -
  have sec: "sec_prefix ns' slot' @ b \<noteq> TRUST_ANCHOR_STORAGE_KEY" for ns' slot' b
    by (cases ns'; cases slot') (simp_all add: key_simps TRUST_ANCHOR_STORAGE_KEY_def)
  have cred: "cred_prefix ns' slot' @ b \<noteq> TRUST_ANCHOR_STORAGE_KEY" for ns' slot' b
    by (cases ns'; cases slot') (simp_all add: key_simps TRUST_ANCHOR_STORAGE_KEY_def)
  show "TRUST_ANCHOR_STORAGE_KEY \<notin> slot_keys ns slot" using sec cred by (auto simp: slot_keys_iff) metis+
  show "secrets_key i \<noteq> TRUST_ANCHOR_STORAGE_KEY"
    using sec by (simp add: secrets_key_def Let_def split: prod.split) (metis snd_conv)
  show "\<not> is_credential_key TRUST_ANCHOR_STORAGE_KEY"
    by (simp add: is_credential_key_simp ALL_CRED_PREFIXES_def starts_with_def key_simps TRUST_ANCHOR_STORAGE_KEY_def)
  show "\<not> in_namespace NsSandbox TRUST_ANCHOR_STORAGE_KEY"
    by (simp add: in_sandbox_iff starts_with_def TRUST_ANCHOR_STORAGE_KEY_def)
qed

context storage_backend
begin

lemma frames_resolve_slot: "frames B view inv K (resolve_slot ty label)"
  unfolding frames_def
proof (intro allI impI)
  fix w r w' assume a: "w_backend w = Some B" "inv (w_storage w)" "resolve_slot ty label w = (r, w')"
  from resolve_slot_frame[OF a] keepsD[OF keeps_resolve_slot(3) a(3)] a(1)
  show "w_backend w' = Some B \<and> inv (w_storage w') \<and> (\<forall>k \<in> K. view (w_storage w') k = view (w_storage w) k)"
    by simp
qed

lemma frames_store:
  "frames B view inv {TRUST_ANCHOR_STORAGE_KEY}
     (on_storage c (\<lambda>B. store_credential_with_slot X B now cr label slot nick))"
proof (rule frames_on_storage)
  fix s r s' assume a: "inv s" "store_credential_with_slot X (Some B) now cr label slot nick s = (r, s')"
  from store_effect[OF a] anchor_key_apart(1)[of "from_label label" slot]
  show "inv s' \<and> (\<forall>k \<in> {TRUST_ANCHOR_STORAGE_KEY}. view s' k = view s k)" by simp
qed

lemma frames_store_secrets:
  "frames B view inv {TRUST_ANCHOR_STORAGE_KEY} (on_storage c (\<lambda>B. store_credential_secrets X B i sec))"
proof (rule frames_on_storage)
  fix s r s' assume a: "inv s" "store_credential_secrets X (Some B) i sec s = (r, s')"
  from store_secrets_effect[OF this] anchor_key_apart(2)[of i]
  show "inv s' \<and> (\<forall>k \<in> {TRUST_ANCHOR_STORAGE_KEY}. view s' k = view s k)"
    by (auto split: sum.splits)
qed

lemma frames_delete:
  "i \<noteq> TRUST_ANCHOR_STORAGE_KEY \<Longrightarrow>
   frames B view inv {TRUST_ANCHOR_STORAGE_KEY} (on_storage c (\<lambda>B. delete_credential B i))"
proof (rule frames_on_storage)
  fix s r s' assume i: "i \<noteq> TRUST_ANCHOR_STORAGE_KEY" and a: "inv s" "delete_credential (Some B) i s = (r, s')"
  from delete_effect[OF a] i anchor_key_apart(2)[of i]
  show "inv s' \<and> (\<forall>k \<in> {TRUST_ANCHOR_STORAGE_KEY}. view s' k = view s k)" by (metis singletonD)
qed

lemma frames_purge:
  "frames B view inv {TRUST_ANCHOR_STORAGE_KEY} (on_storage c delete_sandbox_credentials)"
proof (rule frames_on_storage)
  fix s r s' assume a: "inv s" "delete_sandbox_credentials (Some B) s = (r, s')"
  from a(2) have "bindS (ctx ''Failed to list keys'' (be_list_keys B)) (\<lambda>ks s.
      case delete_count_loop B (in_namespace NsSandbox) ks 0 s of (n, s') \<Rightarrow> (Inr n, s')) s = (r, s')"
    by (simp add: delete_sandbox_credentials_def delete_all_in_namespace_def)
  then show "inv s' \<and> (\<forall>k \<in> {TRUST_ANCHOR_STORAGE_KEY}. view s' k = view s k)"
  proof (cases rule: bindS_cases)
    case (err e)
    then show ?thesis by (auto elim!: ctx_cases dest!: list_law[OF a(1)])
  next
    case (ok ks t)
    from ok(1) have "be_list_keys B s = (Inr ks, t)" by (auto elim!: ctx_cases)
    from list_law[OF a(1) this] have t: "inv t" "view t = view s" by auto
    obtain n u where "delete_count_loop B (in_namespace NsSandbox) ks 0 t = (n, u)" by fastforce
    with ok(2) delete_count_frame[OF t(1) this] t(2) anchor_key_apart(4) show ?thesis by auto
  qed
qed

lemma frames_import_internal:
  "frames B view inv {TRUST_ANCHOR_STORAGE_KEY} (import_credential_internal W now cj label slot nick)"
  unfolding import_credential_internal_def Let_def
  by (intro frames_intros frames_store frames_store_secrets)

lemma frames_issue:
  "frames B view inv {TRUST_ANCHOR_STORAGE_KEY} (finalize_and_store_credential W now hj d rj label ty nick)"
  unfolding finalize_and_store_credential_def Let_def
  by (intro frames_intros frames_store frames_store_secrets frames_resolve_slot)

lemma frames_import:
  "frames B view inv {TRUST_ANCHOR_STORAGE_KEY} (store_credential_with_label W now cj label ty nick)"
  unfolding store_credential_with_label_def
  by (intro frames_intros frames_import_internal frames_resolve_slot)

end

section \<open>Clean-up of expired credentials\<close>

text \<open>The keys of the expired public records of a map.\<close>

definition expired_keys :: "storage_codec \<Rightarrow> u64 \<Rightarrow> (string \<Rightarrow> bytes option) \<Rightarrow> string set" where
  "expired_keys X now v =
     {k. is_credential_key k \<and> (\<exists>d st. v k = Some d \<and> decode_stored X d = Inr st \<and> cred_exp (sc_credential st) < now)}"

lemma in_map_filter: "y \<in> set (List.map_filter f xs) \<longleftrightarrow> (\<exists>x \<in> set xs. f x = Some y)"
  by (induction xs) (auto simp: List.map_filter_simps split: option.split)

lemma listed_entry:
  "listed X now v k = Some ci \<Longrightarrow>
   \<exists>d st. is_credential_key k \<and> v k = Some d \<and> decode_stored X d = Inr st
        \<and> ci = credential_info_of now k st (v (secrets_key k) \<noteq> None)"
  by (auto simp: listed_def split: if_splits option.splits sum.splits)

lemma listed_expired:
  "ci_id ` {ci \<in> set (List.map_filter (listed X now v) ks). ci_is_expired ci} = expired_keys X now v \<inter> set ks"
  (is "?L = ?R")
proof
  show "?L \<subseteq> ?R"
    by (auto simp: in_map_filter expired_keys_def credential_info_of_def Let_def dest!: listed_entry)
  show "?R \<subseteq> ?L"
  proof
    fix k assume "k \<in> ?R"
    then obtain d st where k: "k \<in> set ks" "is_credential_key k" "v k = Some d" "decode_stored X d = Inr st"
      "cred_exp (sc_credential st) < now" by (auto simp: expired_keys_def)
    let ?ci = "credential_info_of now k st (v (secrets_key k) \<noteq> None)"
    have "listed X now v k = Some ?ci" using k by (simp add: listed_def)
    then have "?ci \<in> set (List.map_filter (listed X now v) ks)"
      using k(1) by (auto simp: in_map_filter)
    moreover have "ci_is_expired ?ci" "ci_id ?ci = k" using k(5) by (simp_all add: credential_info_of_def Let_def)
    ultimately show "k \<in> ?L" by (metis (mono_tags, lifting) image_eqI mem_Collect_eq)
  qed
qed

lemma distinct_listed: "distinct ks \<Longrightarrow> distinct (map ci_id (List.map_filter (listed X now v) ks))"
proof (induction ks)
  case (Cons k ks)
  have "ci_id ci \<in> set ks" if "ci \<in> set (List.map_filter (listed X now v) ks)" for ci
    using that listed_id by (fastforce simp: in_map_filter)
  with Cons show ?case
    by (auto simp: List.map_filter_simps dest: listed_id split: option.split)
qed (simp add: List.map_filter_simps)

context storage_backend
begin

lemma list_loop_frame:
  assumes "inv s" "list_loop X B now ks acc s = (l, s')"
  shows "inv s' \<and> view s' = view s"
  using assms
proof (induction ks arbitrary: acc s)
  case (Cons k ks)
  show ?case
  proof (cases "is_credential_key k")
    case False
    with Cons show ?thesis by simp
  next
    case True
    obtain r s1 where r: "be_retrieve B k BioNone s = (r, s1)" by fastforce
    from retrieve_law[OF Cons.prems(1) r] have s1: "inv s1" "view s1 = view s" by auto
    obtain x s2 where x: "be_exists B (secrets_key k) s1 = (x, s2)" by fastforce
    from exists_law[OF s1(1) x] s1(2) have s2: "inv s2" "view s2 = view s" by auto
    from Cons.prems(2) True r x Cons.IH[OF s1(1)] Cons.IH[OF s2(1)] s1(2) s2(2) show ?thesis
      by (auto split: sum.splits)
  qed
qed simp

lemma list_credentials_frame:
  assumes "inv s" "list_credentials X (Some B) now s = (r, s')"
  shows "inv s' \<and> view s' = view s"
proof -
  from assms(2) have "bindS (ctx ''Failed to list keys'' (be_list_keys B)) (\<lambda>ks s.
      case list_loop X B now ks [] s of (l, s') \<Rightarrow> (Inr l, s')) s = (r, s')"
    by (simp add: list_credentials_def)
  then show ?thesis
  proof (cases rule: bindS_cases)
    case (err e)
    then show ?thesis by (auto elim!: ctx_cases dest!: list_law[OF assms(1)])
  next
    case (ok ks t)
    from ok(1) have "be_list_keys B s = (Inr ks, t)" by (auto elim!: ctx_cases)
    from list_law[OF assms(1) this] have t: "inv t" "view t = view s" by auto
    obtain l u where "list_loop X B now ks [] t = (l, u)" by fastforce
    with ok(2) list_loop_frame[OF t(1) this] t(2) show ?thesis by auto
  qed
qed

end

context reliable_backend
begin

lemma cleanup_loop_run:
  assumes "w_backend w = Some B" "inv (w_storage w)"
  shows "\<exists>m s'. cleanup_loop_infos cis n w = (m, w\<lparr>w_storage := s'\<rparr>) \<and> inv s'
    \<and> unat m = min (unat n + length (filter ci_is_expired cis)) (2 ^ 32 - 1)
    \<and> (\<forall>k. view s' k = (if \<exists>ci \<in> set cis. ci_is_expired ci \<and> (k = ci_id ci \<or> k = secrets_key (ci_id ci))
                       then None else view (w_storage w) k))"
  using assms
proof (induction cis arbitrary: n w)
  case Nil
  have "unat n < 2 ^ LENGTH(32)" by (rule unsigned_less)
  then have "unat n \<le> 2 ^ 32 - 1" by simp
  with Nil show ?case by (auto intro!: exI[of _ "w_storage w"])
next
  case (Cons ci cis)
  show ?case
  proof (cases "ci_is_expired ci")
    case False
    with Cons show ?thesis by simp
  next
    case True
    obtain t where d: "delete_credential (Some B) (ci_id ci) (w_storage w) = (Inr (), t)" "inv t"
        "view t = (view (w_storage w))(ci_id ci := None, secrets_key (ci_id ci) := None)"
      using delete_succeeds[OF Cons.prems(2)] by blast
    let ?w = "w\<lparr>w_storage := t\<rparr>"
    have run: "cleanup_loop_infos (ci # cis) n w = cleanup_loop_infos cis (sat_add n 1) ?w"
      using True d(1) Cons.prems(1) by (simp add: on_storage_def)
    have "w_backend ?w = Some B" "inv (w_storage ?w)" using Cons.prems(1) d(2) by simp_all
    from Cons.IH[OF this, of "sat_add n 1"] obtain m s' where
      ih: "cleanup_loop_infos cis (sat_add n 1) ?w = (m, ?w\<lparr>w_storage := s'\<rparr>)" "inv s'"
        "unat m = min (unat (sat_add n 1) + length (filter ci_is_expired cis)) (2 ^ 32 - 1)"
        "\<forall>k. view s' k = (if \<exists>ci \<in> set cis. ci_is_expired ci \<and> (k = ci_id ci \<or> k = secrets_key (ci_id ci))
                       then None else view (w_storage ?w) k)" by blast
    have ws: "w_storage ?w = t" by simp
    have u: "unat m = min (unat n + length (filter ci_is_expired (ci # cis))) (2 ^ 32 - 1)"
      using ih(3) True by (simp add: unat_sat_add)
    have v: "view s' k = (if \<exists>cj \<in> set (ci # cis). ci_is_expired cj \<and> (k = ci_id cj \<or> k = secrets_key (ci_id cj))
                       then None else view (w_storage w) k)" for k
    proof -
      have "view s' k = (if \<exists>cj \<in> set cis. ci_is_expired cj \<and> (k = ci_id cj \<or> k = secrets_key (ci_id cj))
          then None else ((view (w_storage w))(ci_id ci := None, secrets_key (ci_id ci) := None)) k)"
        using ih(4) unfolding ws d(3) by blast
      then show ?thesis using True
        by (cases "k = ci_id ci"; cases "k = secrets_key (ci_id ci)") auto
    qed
    have "cleanup_loop_infos (ci # cis) n w = (m, w\<lparr>w_storage := s'\<rparr>)" using run ih(1) by simp
    with ih(2) u v show ?thesis by blast
  qed
qed

lemma cleanup_run:
  assumes "w_backend w = Some B" "inv (w_storage w)"
  shows "\<exists>m s'. cleanup_expired_credentials W now w = (m, w\<lparr>w_storage := s'\<rparr>) \<and> inv s'
    \<and> unat m = min (card (expired_keys (we_codec W) now (view (w_storage w)))) (2 ^ 32 - 1)
    \<and> (\<forall>k. view s' k =
          (if k \<in> expired_keys (we_codec W) now (view (w_storage w))
              \<or> k \<in> secrets_key ` expired_keys (we_codec W) now (view (w_storage w))
           then None else view (w_storage w) k))"
proof -
  let ?v = "view (w_storage w)" and ?X = "we_codec W"
  let ?E = "expired_keys ?X now ?v"
  obtain ks t where l: "list_credentials ?X (Some B) now (w_storage w)
      = (Inr (List.map_filter (listed ?X now ?v) ks), t)" and ks: "distinct ks" "set ks = dom ?v"
    using list_credentials_listed[OF assms(2)] by blast
  have t: "inv t" "view t = ?v" using list_credentials_frame[OF assms(2) l] by auto
  let ?l = "List.map_filter (listed ?X now ?v) ks" and ?w = "w\<lparr>w_storage := t\<rparr>"
  have run: "cleanup_expired_credentials W now w = cleanup_loop_infos ?l 0 ?w"
    using l assms(1) by (simp add: cleanup_expired_credentials_def on_storage_def)
  have E: "ci_id ` {ci \<in> set ?l. ci_is_expired ci} = ?E"
    using listed_expired[of ?X now ?v ks] ks(2) by (auto simp: expired_keys_def)
  have "distinct (map ci_id (filter ci_is_expired ?l))"
    using distinct_listed[OF ks(1), of ?X now ?v] by (simp add: distinct_map_filter)
  then have len: "length (filter ci_is_expired ?l) = card ?E"
    using distinct_card[of "map ci_id (filter ci_is_expired ?l)"] E by simp
  have mem: "(\<exists>ci \<in> set ?l. ci_is_expired ci \<and> (k = ci_id ci \<or> k = secrets_key (ci_id ci)))
      \<longleftrightarrow> k \<in> ?E \<or> k \<in> secrets_key ` ?E" for k
    unfolding E[symmetric] by auto
  have w: "w_backend ?w = Some B" "inv (w_storage ?w)" "view (w_storage ?w) = ?v" using assms(1) t by simp_all
  obtain m s' where c: "cleanup_loop_infos ?l 0 ?w = (m, ?w\<lparr>w_storage := s'\<rparr>)" "inv s'"
      "unat m = min (unat (0 :: u32) + length (filter ci_is_expired ?l)) (2 ^ 32 - 1)"
    and v: "\<And>k. view s' k = (if \<exists>ci \<in> set ?l. ci_is_expired ci \<and> (k = ci_id ci \<or> k = secrets_key (ci_id ci))
                       then None else ?v k)"
    using cleanup_loop_run[OF w(1,2), of ?l 0] unfolding w(3) by blast
  have "cleanup_expired_credentials W now w = (m, w\<lparr>w_storage := s'\<rparr>)" using run c(1) by simp
  moreover have "unat m = min (card ?E) (2 ^ 32 - 1)" using c(3) len by simp
  ultimately show ?thesis using c(2) v unfolding mem by blast
qed

end

section \<open>The trust anchor across a restart\<close>

text \<open>The calls that change what is stored about credentials.\<close>

datatype cred_call =
    CallIssue u64 string i32 string "string option" string "string option"
  | CallImport u64 string "string option" string "string option"
  | CallNickname string "string option"
  | CallDelete string
  | CallPurge

fun run_call :: "wallet_env \<Rightarrow> cred_call \<Rightarrow> 's wallet \<Rightarrow> 's wallet" where
  "run_call W (CallIssue now hj d rj label ty nick) w = snd (finalize_and_store_credential W now hj d rj label ty nick w)"
| "run_call W (CallImport now cj label ty nick) w = snd (store_credential_with_label W now cj label ty nick w)"
| "run_call W (CallNickname i nick) w = snd (wallet_update_nickname W i nick w)"
| "run_call W (CallDelete i) w = snd (wallet_delete_credential i w)"
| "run_call W CallPurge w = snd (wallet_delete_sandbox_credentials w)"

text \<open>The identifiers a caller passes name public records, not the trust anchor.\<close>

fun call_ok :: "cred_call \<Rightarrow> bool" where
  "call_ok (CallNickname i nick) \<longleftrightarrow> is_credential_key i"
| "call_ok (CallDelete i) \<longleftrightarrow> is_credential_key i"
| "call_ok _ \<longleftrightarrow> True"

context storage_backend
begin

lemma nickname_frame:
  assumes "inv s" "update_credential_nickname X (Some B) i nick s = (r, s')"
  shows "inv s' \<and> (\<forall>k. k \<noteq> i \<longrightarrow> view s' k = view s k)"
proof -
  obtain rb t where g: "be_retrieve B i BioNone s = (rb, t)" by fastforce
  from retrieve_law[OF assms(1) g] have t: "inv t" "view t = view s" by auto
  show ?thesis
  proof (cases rb)
    case (Inl e)
    with assms(2) g t show ?thesis
      by (auto simp: update_credential_nickname_def bindS_def ctx_def map_errS_def)
  next
    case (Inr d)
    show ?thesis
    proof (cases "decode_stored X d")
      case (Inl e)
      with assms(2) g t Inr show ?thesis
        by (auto simp: update_credential_nickname_def bindS_def ctx_def map_errS_def pureS_def)
    next
      case (Inr st)
      let ?st = "st\<lparr>sc_metadata := (sc_metadata st)\<lparr>md_nickname := nick\<rparr>\<rparr>"
      show ?thesis
      proof (cases "encode_stored X ?st")
        case (Inl e)
        with assms(2) g t \<open>rb = Inr d\<close> Inr show ?thesis
          by (auto simp: update_credential_nickname_def bindS_def ctx_def map_errS_def pureS_def Let_def)
      next
        case (Inr d')
        obtain x u where w: "be_store B i d' BioNone t = (x, u)" by fastforce
        from store_law[OF t(1) w] t(2) assms(2) g \<open>rb = Inr d\<close> \<open>decode_stored X d = Inr st\<close> Inr w show ?thesis
          by (auto simp: update_credential_nickname_def bindS_def ctx_def map_errS_def pureS_def Let_def
              split: sum.splits)
      qed
    qed
  qed
qed

lemma frames_nickname:
  "is_credential_key i \<Longrightarrow> frames B view inv {TRUST_ANCHOR_STORAGE_KEY} (wallet_update_nickname W i nick)"
  unfolding wallet_update_nickname_def
  by (rule frames_on_storage) (metis nickname_frame anchor_key_apart(3) singletonD)

lemma run_call_frame:
  assumes "call_ok c" "w_backend w = Some B" "inv (w_storage w)"
  shows "w_backend (run_call W c w) = Some B \<and> inv (w_storage (run_call W c w))
    \<and> view (w_storage (run_call W c w)) TRUST_ANCHOR_STORAGE_KEY = view (w_storage w) TRUST_ANCHOR_STORAGE_KEY"
proof -
  have *: "w_backend (snd (m w)) = Some B \<and> inv (w_storage (snd (m w)))
    \<and> view (w_storage (snd (m w))) TRUST_ANCHOR_STORAGE_KEY = view (w_storage w) TRUST_ANCHOR_STORAGE_KEY"
    if "frames B view inv {TRUST_ANCHOR_STORAGE_KEY} m" for m :: "('s wallet, ffi_error, 'b) op"
    using framesD[OF that assms(2,3), of "fst (m w)" "snd (m w)"] by simp
  show ?thesis
  proof (cases c)
    case (CallIssue now hj d rj label ty nick)
    with *[OF frames_issue] show ?thesis by simp
  next
    case (CallImport now cj label ty nick)
    with frames_import[of W now cj label ty nick] assms(2,3) show ?thesis
      unfolding frames_def by (metis run_call.simps(2) prod.collapse singletonI)
  next
    case (CallNickname i nick)
    with frames_nickname[of i W nick] assms show ?thesis
      unfolding frames_def by (metis call_ok.simps(1) run_call.simps(3) prod.collapse singletonI)
  next
    case (CallDelete i)
    with assms(1) have "i \<noteq> TRUST_ANCHOR_STORAGE_KEY" using anchor_key_apart(3) by auto
    from frames_delete[OF this, of of_anyhow] CallDelete assms(2,3) show ?thesis
      unfolding frames_def wallet_delete_credential_def
      by (metis run_call.simps(4) wallet_delete_credential_def prod.collapse singletonI)
  next
    case CallPurge
    have "frames B view inv {TRUST_ANCHOR_STORAGE_KEY} wallet_delete_sandbox_credentials"
      unfolding wallet_delete_sandbox_credentials_def by (intro frames_intros frames_purge)
    with CallPurge assms(2,3) show ?thesis
      unfolding frames_def by (metis run_call.simps(5) prod.collapse singletonI)
  qed
qed

lemma run_calls_frame:
  assumes "\<forall>c \<in> set cs. call_ok c" "w_backend w = Some B" "inv (w_storage w)"
  shows "inv (w_storage (fold (run_call W) cs w))
    \<and> view (w_storage (fold (run_call W) cs w)) TRUST_ANCHOR_STORAGE_KEY = view (w_storage w) TRUST_ANCHOR_STORAGE_KEY"
  using assms
proof (induction cs arbitrary: w)
  case (Cons c cs)
  from Cons.prems(1) have "call_ok c" by simp
  from run_call_frame[OF this Cons.prems(2,3), of W] Cons.IH[of "run_call W c w"] Cons.prems(1)
  show ?case by simp
qed simp

end

context reliable_backend
begin

lemma refresh_run:
  assumes "w_backend w = Some B" "inv (w_storage w)" "refresh_issuer_keys W t jwks w = (ru, w1)"
    "parse_jwks_into_keys (we_x W) jwks = Inr ks" "ks \<noteq> []" "w_anchor w1 = Some a" "we_print_anchor W a = Inr j"
  shows "w_backend w1 = Some B \<and> inv (w_storage w1)
    \<and> view (w_storage w1) TRUST_ANCHOR_STORAGE_KEY = Some (bytes_of_string j)"
proof -
  let ?a = "case w_anchor w of
        Some existing \<Rightarrow> (union_merge ks existing)\<lparr>ta_fetched_at := t\<rparr>
      | None \<Rightarrow> \<lparr>ta_keys = ks, ta_fetched_at = t\<rparr>"
  obtain rp w2 where p: "persist_anchor_to_storage W ?a (w\<lparr>w_anchor := Some ?a\<rparr>) = (rp, w2)" by fastforce
  with assms(3-5) have "w1 = w2" by (simp add: refresh_issuer_keys_def Let_def)
  moreover from persist_frame[OF p] have "w_anchor w2 = Some ?a" by simp
  ultimately have a: "?a = a" using assms(6) by simp
  obtain s' where s': "be_store B TRUST_ANCHOR_STORAGE_KEY (bytes_of_string j) BioNone (w_storage w) = (Inr (), s')"
    using store_ok[OF assms(2)] by blast
  from p[unfolded a] have "w2 = w\<lparr>w_anchor := Some a, w_storage := s'\<rparr>"
    using assms(1,7) s' by (simp add: persist_anchor_to_storage_def)
  with \<open>w1 = w2\<close> assms(1) store_law[OF assms(2) s'] show ?thesis by simp
qed

lemma restart_run:
  assumes "inv s" "view s TRUST_ANCHOR_STORAGE_KEY = Some b" "we_parse_anchor W b = Inr a"
  shows "\<exists>w'. set_storage_handle W now B s w0 = (Inr (), w') \<and> w_anchor w' = Some a"
proof -
  let ?w = "w0\<lparr>w_backend := Some B, w_storage := s\<rparr>"
  let ?E = "expired_keys (we_codec W) now (view s)"
  have w: "w_backend ?w = Some B" "inv (w_storage ?w)" "view (w_storage ?w) = view s" using assms(1) by simp_all
  obtain m s1 where c: "cleanup_expired_credentials W now ?w = (m, ?w\<lparr>w_storage := s1\<rparr>)" "inv s1"
    and v: "\<And>k. view s1 k = (if k \<in> ?E \<or> k \<in> secrets_key ` ?E then None else view s k)"
    using cleanup_run[OF w(1,2), of W now] unfolding w(3) by blast
  have "TRUST_ANCHOR_STORAGE_KEY \<notin> ?E" using anchor_key_apart(3) by (auto simp: expired_keys_def)
  moreover have "TRUST_ANCHOR_STORAGE_KEY \<notin> secrets_key ` ?E" using anchor_key_apart(2) by (metis imageE)
  ultimately have "view s1 TRUST_ANCHOR_STORAGE_KEY = Some b" using v assms(2) by simp
  from retrieve_some[OF c(2) this, of BioNone] obtain s2 where
    "be_retrieve B TRUST_ANCHOR_STORAGE_KEY BioNone s1 = (Inr b, s2)" by blast
  with c(1) assms(3) show ?thesis by (simp add: set_storage_handle_def load_anchor_from_storage_def)
qed

end

end
