(* ===== verification/Sample_Wallet.thy ===== *)
theory Sample_Wallet
  imports Wallet_Flows
begin

text \<open>
  A small world in which the wallet runs: one well-formed challenge, one header over the
  commitment of 128 set bits, key sets under three names, the in-memory backend and the
  sample codec. The witnesses of the wallet's properties evaluate in it.
\<close>

definition sample_challenge :: qr_payload where
  "sample_challenge =
     \<lparr>qr_challenge_id = ''0a0a0a0a-0b0b-4c0c-8d0d-0e0e0e0e0e0e'', qr_rp_challenge = replicate 32 CHR ''r'',
      qr_cutoff_days = 100, qr_verifying_key_id = 1, qr_submit_secret = ''s'', qr_expires_at = 50,
      qr_verify_url = ''https://v'', qr_code_verifier = None, qr_proof_direction = None\<rparr>"

definition sample_qr :: qr_ext where
  "sample_qr =
     \<lparr>qx_b64_decode = (\<lambda>s. Inr (bytes_of_string s)), qx_utf8_msg = (\<lambda>_. ''utf8''),
      qx_parse = (\<lambda>s. if s = ''full'' then Inr sample_challenge else Inl ''no challenge''),
      qx_print = (\<lambda>q. if q = sample_challenge then Inr ''full'' else Inl ''unsupported''),
      qx_parse_id = (\<lambda>s. Inl ''no id''), qx_parse_envelope = (\<lambda>s. Inl ''no envelope''),
      qx_attestation_json = (\<lambda>d. ''attestation''),
      qx_url_scheme = (\<lambda>u. if starts_with ''https://'' u then Inr ''https'' else Inl ''relative URL'')\<rparr>"

definition jwk :: "string \<Rightarrow> string \<Rightarrow> json" where
  "jwk kid x =
     JObject [(''kty'', JString ''OKP''), (''crv'', JString ''JUBJUB''), (''kid'', JString kid), (''x'', JString x)]"

definition sample_json :: "string \<Rightarrow> string + json" where
  "sample_json s =
     (if s = ''doubled'' then Inr (JObject [(''keys'', JArray [jwk ''k'' (replicate 32 CHR ''a''), jwk ''k'' (replicate 32 CHR ''b'')])])
      else if s = ''rotated'' then Inr (JObject [(''keys'', JArray [jwk ''k'' (replicate 32 CHR ''c'')])])
      else if s = ''full'' then Inr (JObject [(''challenge_id'', JString (qr_challenge_id sample_challenge))])
      else Inl ''no json'')"

text \<open>A header with strings of the circuit's lengths, signed by the key of the sample anchor.\<close>

definition sample_header :: header where
  "sample_header =
     \<lparr>hdr_v = 2, hdr_kid = ''provii:2026-05'', hdr_issuer_vk = replicate 64 99, hdr_sig_rj = replicate 64 99,
      hdr_c_bytes = [7, 128], hdr_iat = 10, hdr_exp = 20, hdr_schema = ''provii.age/0''\<rparr>"

definition sample_anchor :: trust_anchor where
  "sample_anchor = \<lparr>ta_keys = [\<lparr>tk_kid = ''k'', tk_vk = replicate 64 99\<rparr>], ta_fetched_at = 1\<rparr>"

text \<open>The anchor one refresh with the set \<open>rotated\<close> leaves.\<close>

definition rotated_anchor :: trust_anchor where
  "rotated_anchor = \<lparr>ta_keys = [\<lparr>tk_kid = ''k'', tk_vk = replicate 32 99\<rparr>], ta_fetched_at = 1\<rparr>"

definition sample_r_bits :: string where
  "sample_r_bits = string_of_bytes (pack_bits (replicate 128 True))"

definition sample_env :: wallet_env where
  "sample_env =
     \<lparr>we_x = toy_externals\<lparr>x_json := sample_json\<rparr>, we_codec = sample_codec, we_qr = sample_qr,
      we_parse_header = (\<lambda>s. if s = ''h'' then Inr sample_header else Inl ''no header''),
      we_parse_credential = (\<lambda>s. if s = ''c'' then Inr (sample_credential 5 7) else Inl ''no credential''),
      we_print_credential = (\<lambda>c. Inr ''c''),
      we_parse_anchor = (\<lambda>b. if b = [97] then Inr rotated_anchor else Inl ''no anchor''),
      we_print_anchor = (\<lambda>a. if a = rotated_anchor then Inr ''a'' else Inl ''unsupported''),
      we_print_request = (\<lambda>r. Inr ''request''), we_parse_request = (\<lambda>s. Inl ''no request''),
      we_parse_response = (\<lambda>s. Inl ''no response''), we_print_preflight = (\<lambda>p. Inr ''report''),
      we_print_choices = (\<lambda>l. ''choices''), we_debug_prover = (\<lambda>e. ''error'')\<rparr>"

definition sample_wallet :: "memory wallet" where
  "sample_wallet =
     (wallet_new [])\<lparr>w_backend := Some memory_backend,
        w_challenges := [(qr_challenge_id sample_challenge,
          \<lparr>cc_payload = sample_challenge, cc_received_at = 0, cc_expires_at = 300\<rparr>)],
        w_anchor := Some sample_anchor\<rparr>"

lemma sample_qr_ok: "qr_ext_ok sample_qr"
  by (simp add: qr_ext_ok_def sample_qr_def is_ok_iff)

lemma sample_challenge_valid: "validate_field_lengths (qx_url_scheme sample_qr) sample_challenge = Inr ()"
  by code_simp

lemma sample_wallet_simps [simp]:
  "w_backend sample_wallet = Some memory_backend" "w_storage sample_wallet = []"
  "w_anchor sample_wallet = Some sample_anchor"
  by (simp_all add: sample_wallet_def wallet_new_def)

lemma sample_env_simps [simp]:
  "we_codec sample_env = sample_codec" "we_qr sample_env = sample_qr"
  by (simp_all add: sample_env_def)

lemma sample_unpack: "unpack_bits (pack_bits (replicate 128 True)) 128 = replicate 128 True"
proof -
  obtain pad where "concat (map byte_bits (pack_bits (replicate 128 True))) = replicate 128 True @ pad"
    using concat_bits_pack by blast
  then show ?thesis by (simp add: unpack_bits_concat)
qed

text \<open>A prover that is loaded with the verifying key of the sample challenge and succeeds.\<close>

definition sample_snark :: snark_proof where
  "sample_snark = \<lparr>sp_cutoff = 100, sp_issuer_vk_bytes = [], sp_cred_nullifier = [], sp_proof = []\<rparr>"

definition sample_run :: "unit prover_run" where
  "sample_run =
     \<lparr>pr_ext = \<lparr>px_load = (\<lambda>b. Inr ()), px_vk_bytes = (\<lambda>_. []), px_blake2s = (\<lambda>b. b), px_nullifier = (\<lambda>b. b),
        px_publics = (\<lambda>_ _ _ _ _. Inr []), px_prove = (\<lambda>_ _ _ _ _ _ _. Proved sample_snark), px_debug = (\<lambda>e. e)\<rparr>,
      pr_globals = \<lparr>pg_params = Some (), pg_fingerprint = None, pg_vk_id = Some 1\<rparr>,
      pr_in_rayon = False, pr_spawn = Inr (), pr_thread_panics = False, pr_now = 15\<rparr>"

definition sample_credential_issued :: credential where
  "sample_credential_issued = attach_secrets sample_header 7 (replicate 128 True)"

lemma sample_finalized:
  "finalize_credential (we_x sample_env) sample_header 7 (replicate 128 True) = Inr sample_credential_issued"
  by (simp add: finalize_ok sample_env_def toy_externals_def sample_header_def sample_credential_issued_def)

lemma sample_proved:
  "run_prover sample_env sample_run sample_credential_issued sample_challenge
     = Inr (make_request (we_x sample_env) sample_challenge sample_snark)"
proof -
  have "build_verify_request_internal (we_x sample_env) (pr_ext sample_run) False (pr_globals sample_run) 15
      sample_credential_issued sample_challenge = Inr (make_request (we_x sample_env) sample_challenge sample_snark)"
    unfolding build_ok
    by (rule exI[of _ "()"], rule exI[of _ 7], rule exI[of _ "replicate 128 True"],
        rule exI[of _ "bytes_of_string (replicate 32 CHR ''r'')"], rule exI[of _ sample_snark])
       (simp add: sample_run_def sample_credential_issued_def attach_secrets_def sample_header_def
        sample_challenge_def preflight_passes_def sample_env_def toy_externals_def cred_to_msg_def
        validate_age_def wants_under_age_def generate_ok sample_snark_def)
  then show ?thesis by (simp add: run_prover_def build_verify_request_def sample_run_def)
qed

lemma sample_issue:
  "\<exists>cid w'. finalize_and_store_credential sample_env 1 ''h'' 7 sample_r_bits None ''primary'' None sample_wallet
     = (Inr cid, w')"
proof -
  let ?c = "redacted sample_credential_issued"
  have I: "memory_inv []" by (simp add: memory_inv_def)
  obtain cid s1 where s1: "store_credential_with_slot sample_codec (Some memory_backend) 1 ?c None SlotPrimary None []
      = (Inr cid, s1)"
    using mem.store_succeeds[OF I sample_codec_roundtrip] by blast
  from mem.store_effect[OF I s1] have "memory_inv s1" by blast
  then obtain s2 where s2: "store_credential_secrets sample_codec (Some memory_backend) cid
      \<lparr>sec_dob_days = 7, sec_r_bits = replicate 128 True\<rparr> s1 = (Inr (), s2)"
    using mem.store_secrets_succeeds sample_codec_roundtrip by blast
  have r: "resolve_slot ''primary'' None sample_wallet = (Inr SlotPrimary, sample_wallet)"
    by (simp add: resolve_slot_def pureS_def)
  have h: "we_parse_header sample_env ''h'' = Inr sample_header" by (simp add: sample_env_def)
  have a: "check_anchor sample_header sample_wallet = Inr ()"
    by (simp add: check_anchor_some sample_header_def sample_anchor_def)
  have b: "x_b64_decode (we_x sample_env) sample_r_bits = Inr (pack_bits (replicate 128 True))"
    by (simp add: sample_env_def toy_externals_def sample_r_bits_def)
  have u: "unpack_bits (pack_bits (replicate 128 True)) R_BITS_LEN = replicate 128 True"
    using sample_unpack by (simp add: R_BITS_LEN_def)
  have "finalize_and_store_credential sample_env 1 ''h'' 7 sample_r_bits None ''primary'' None sample_wallet
      = (Inr cid, sample_wallet\<lparr>w_storage := s2\<rparr>)"
    unfolding finalize_and_store_ok
    by (rule exI[of _ SlotPrimary], rule exI[of _ sample_wallet], rule exI[of _ sample_header],
        rule exI[of _ "pack_bits (replicate 128 True)"], rule exI[of _ sample_credential_issued],
        rule exI[of _ s1], rule exI[of _ s2])
       (simp add: r h a b u sample_finalized s1 s2)
  then show ?thesis by blast
qed

end
