(* ===== verification/Backend_Support.thy ===== *)
theory Backend_Support
  imports Platform_Storage
begin

text \<open>
  What the two platform backends (\<open>store-ios\<close> and \<open>store-android\<close>) have in common: the item
  cache with its age limit and its eviction of the oldest entry, the bounded audit log, the
  operation statistics of the process, and the label a key has in a log line. Both files
  write these out; each backend's own definitions say where it deviates. A hash map is an
  association list whose order is not specified by Rust, and nothing below depends on it.
\<close>

section \<open>The item cache\<close>

record cached_item =
  ci_data :: bytes
  ci_cached_at :: u64
  ci_ttl :: u64

type_synonym item_cache = "(string \<times> cached_item) list"

definition sat_mul :: "u64 \<Rightarrow> u64 \<Rightarrow> u64" where
  "sat_mul a b = (if unat a * unat b < 2 ^ 64 then a * b else - 1)"

text \<open>The age in milliseconds against the limit in seconds.\<close>

definition still_fresh :: "u64 \<Rightarrow> cached_item \<Rightarrow> bool" where
  "still_fresh now it \<longleftrightarrow> sat_sub now (ci_cached_at it) < sat_mul (ci_ttl it) 1000"

text \<open>\<open>min_by_key(.. cached_at)\<close>, which takes the first of several minima.\<close>

fun oldest :: "item_cache \<Rightarrow> (string \<times> cached_item) option" where
  "oldest [] = None"
| "oldest (e # es) =
     (case oldest es of
        None \<Rightarrow> Some e
      | Some e' \<Rightarrow> if ci_cached_at (snd e) \<le> ci_cached_at (snd e') then Some e else Some e')"

definition evict_oldest :: "item_cache \<Rightarrow> item_cache" where
  "evict_oldest c = (case oldest c of None \<Rightarrow> c | Some (k, _) \<Rightarrow> AList.delete k c)"

lemma oldest_in: "oldest c = Some e \<Longrightarrow> e \<in> set c"
  by (induction c arbitrary: e) (auto split: option.splits if_splits)

lemma oldest_none [simp]: "oldest c = None \<longleftrightarrow> c = []"
  by (cases c) (auto split: option.splits)

lemma oldest_least: "oldest c = Some e \<Longrightarrow> \<forall>x \<in> set c. ci_cached_at (snd e) \<le> ci_cached_at (snd x)"
proof (induction c arbitrary: e)
  case (Cons a c)
  show ?case
  proof (cases "oldest c")
    case None
    with Cons.prems show ?thesis by simp
  next
    case (Some b)
    note least = Cons.IH[OF Some]
    show ?thesis
    proof (cases "ci_cached_at (snd a) \<le> ci_cached_at (snd b)")
      case True
      with Some Cons.prems have "e = a" by simp
      with True least show ?thesis by (auto intro: order.trans)
    next
      case False
      with Some Cons.prems have "e = b" by simp
      with False least show ?thesis by auto
    qed
  qed
qed simp

lemma map_of_evict: "map_of (evict_oldest c) k = Some it \<Longrightarrow> map_of c k = Some it"
  by (auto simp: evict_oldest_def delete_conv' split: option.splits if_splits)

lemma distinct_evict: "distinct (map fst c) \<Longrightarrow> distinct (map fst (evict_oldest c))"
  by (auto simp: evict_oldest_def distinct_delete split: option.splits)

lemma length_delete_present:
  "distinct (map fst c) \<Longrightarrow> k \<in> fst ` set c \<Longrightarrow> length (AList.delete k c) = length c - 1"
proof (induction c)
  case (Cons a c)
  have gone: "AList.delete k c = c" if "k \<notin> fst ` set c"
    using that by (simp add: delete_id)
  show ?case
  proof (cases "fst a = k")
    case True
    with Cons.prems gone show ?thesis by (cases a) auto
  next
    case False
    with Cons.prems have "k \<in> fst ` set c" by auto
    moreover from this have "c \<noteq> []" by auto
    ultimately show ?thesis using Cons False by (cases a) (auto simp: neq_Nil_conv)
  qed
qed simp

lemma length_evict: "distinct (map fst c) \<Longrightarrow> length (evict_oldest c) = length c - 1"
proof (cases "oldest c")
  case (Some e)
  moreover assume "distinct (map fst c)"
  moreover have "fst e \<in> fst ` set c" using oldest_in[OF Some] by simp
  ultimately show ?thesis by (cases e) (simp add: evict_oldest_def length_delete_present)
qed (simp add: evict_oldest_def)

section \<open>The audit log and the statistics\<close>

record 'e security_event =
  se_type :: 'e
  se_timestamp :: u64
  se_details :: string
  se_risk :: nat

text \<open>\<open>push_back\<close>, then \<open>pop_front\<close> above 1000 events.\<close>

definition push_event :: "'e \<Rightarrow> 'e list \<Rightarrow> 'e list" where
  "push_event e log = (let l = log @ [e] in if length l > 1000 then tl l else l)"

lemma length_push_event: "length log \<le> 1000 \<Longrightarrow> length (push_event e log) \<le> 1000"
  by (simp add: push_event_def Let_def)

section \<open>Log labels\<close>

definition position_of :: "char \<Rightarrow> string \<Rightarrow> nat option" where
  "position_of c s = (if c \<in> set s then Some (length (takeWhile (\<lambda>d. d \<noteq> c) s)) else None)"

text \<open>\<open>{:08x}\<close> of the low 32 bits.\<close>

definition hex_char :: "nat \<Rightarrow> char" where
  "hex_char n = (if n < 10 then char_of (48 + n) else char_of (87 + n))"

definition hex8 :: "u64 \<Rightarrow> string" where
  "hex8 w = map (\<lambda>i. hex_char (unat w div 16 ^ i mod 16)) (rev [0..<8])"

text \<open>
  \<open>h\<close> is the standard library's \<open>DefaultHasher\<close>, whose algorithm is not specified. The
  slices cannot split a character of a validated key; \<open>key_label_checked\<close> in \<open>Android_Init\<close> is the
  label of any key.
\<close>

definition safe_key_label :: "(string \<Rightarrow> u64) \<Rightarrow> string \<Rightarrow> string" where
  "safe_key_label h key =
     (let head = take 20 key;
          prefix_end = (case position_of (CHR ''.'') head of
             Some i \<Rightarrow> i + 1
           | None \<Rightarrow> (case position_of (CHR ''_'') head of Some i \<Rightarrow> i + 1 | None \<Rightarrow> min (length key) 8))
      in take prefix_end key @ ''..'' @ hex8 (h key))"

section \<open>Text and bytes\<close>

text \<open>\<open>u64::to_le_bytes\<close>.\<close>

definition le_bytes :: "u64 \<Rightarrow> bytes" where
  "le_bytes w = map (\<lambda>i. ucast (drop_bit (8 * i) w)) [0..<8]"

definition requires_bio :: "biometric_requirement \<Rightarrow> bool" where
  "requires_bio b = (case b of BioNone \<Rightarrow> False | BioRequired _ \<Rightarrow> True)"

record usage_stats =
  us_total_keys :: nat
  us_total_bytes :: nat
  us_credentials_count :: nat

section \<open>Operations with two outcomes\<close>

text \<open>
  From a state with \<open>P\<close> the operation ends with \<open>Q\<close> of its result, or with \<open>R\<close> on an error.
\<close>

definition ends :: "('s \<Rightarrow> bool) \<Rightarrow> ('s, 'e, 'a) op \<Rightarrow> ('a \<Rightarrow> 's \<Rightarrow> bool) \<Rightarrow> ('s \<Rightarrow> bool) \<Rightarrow> bool" where
  "ends P f Q R \<longleftrightarrow>
     (\<forall>s r s'. P s \<longrightarrow> f s = (r, s') \<longrightarrow> (case r of Inr x \<Rightarrow> Q x s' | Inl _ \<Rightarrow> R s'))"

lemma endsI: "(\<And>s r s'. P s \<Longrightarrow> f s = (r, s') \<Longrightarrow> (case r of Inr x \<Rightarrow> Q x s' | Inl _ \<Rightarrow> R s')) \<Longrightarrow> ends P f Q R"
  by (auto simp: ends_def)

lemma endsD: "ends P f Q R \<Longrightarrow> P s \<Longrightarrow> f s = (r, s') \<Longrightarrow> (case r of Inr x \<Rightarrow> Q x s' | Inl _ \<Rightarrow> R s')"
  by (auto simp: ends_def)

lemma ends_bindS:
  assumes "ends P f Q R" "\<And>x. ends (Q x) (g x) S R"
  shows "ends P (bindS f g) S R"
proof (rule endsI)
  fix s r s' assume "P s" "bindS f g s = (r, s')"
  from this(2) show "case r of Inr x \<Rightarrow> S x s' | Inl _ \<Rightarrow> R s'"
  proof (cases rule: bindS_cases)
    case (err e)
    with endsD[OF assms(1) \<open>P s\<close> err(1)] show ?thesis by simp
  next
    case (ok x t)
    with endsD[OF assms(1) \<open>P s\<close> ok(1)] endsD[OF assms(2)] show ?thesis by simp
  qed
qed

lemma ends_pureS:
  "(\<And>s x. P s \<Longrightarrow> r = Inr x \<Longrightarrow> Q x s) \<Longrightarrow> (\<And>s e. P s \<Longrightarrow> r = Inl e \<Longrightarrow> R s) \<Longrightarrow> ends P (pureS r) Q R"
  by (auto simp: ends_def pureS_def split: sum.splits)

lemma ends_if: "(b \<Longrightarrow> ends P f Q R) \<Longrightarrow> (\<not> b \<Longrightarrow> ends P g Q R) \<Longrightarrow> ends P (if b then f else g) Q R"
  by simp

lemma ends_weaken: "ends P f Q R \<Longrightarrow> (\<And>x s. Q x s \<Longrightarrow> Q' x s) \<Longrightarrow> (\<And>s. R s \<Longrightarrow> R' s) \<Longrightarrow> ends P f Q' R'"
  unfolding ends_def by (fastforce split: sum.splits)

lemma is_ok_run: "is_ok (fst x) \<Longrightarrow> \<exists>s'. x = (Inr (), s')"
  by (cases x; cases "fst x") auto

text \<open>An operation that keeps \<open>P\<close> whatever its outcome.\<close>

definition still :: "('s \<Rightarrow> bool) \<Rightarrow> ('s, 'e, 'a) op \<Rightarrow> bool" where
  "still P f \<longleftrightarrow> (\<forall>s r s'. P s \<longrightarrow> f s = (r, s') \<longrightarrow> P s')"

named_theorems still_intros \<open>the rules of the operations that keep a condition\<close>

lemma still_ends: "still P f \<Longrightarrow> ends P f (\<lambda>_. P) P"
  by (auto simp: still_def ends_def split: sum.splits)

lemma stillI: "(\<And>s r s'. P s \<Longrightarrow> f s = (r, s') \<Longrightarrow> P s') \<Longrightarrow> still P f"
  by (auto simp: still_def)

lemma stillD: "still P f \<Longrightarrow> P s \<Longrightarrow> f s = (r, s') \<Longrightarrow> P s'"
  by (auto simp: still_def)

lemma still_bindS [still_intros]: "still P f \<Longrightarrow> (\<And>x. still P (g x)) \<Longrightarrow> still P (bindS f g)"
  unfolding still_def by (metis bindS_cases)

lemma still_pureS [still_intros]: "still P (pureS r)"
  by (simp add: still_def pureS_def)

lemma still_if [still_intros]: "still P f \<Longrightarrow> still P g \<Longrightarrow> still P (if b then f else g)"
  by simp

lemma still_map_errS [still_intros]: "still P f \<Longrightarrow> still P (map_errS g f)"
  unfolding still_def by (metis map_errS_cases)

lemma still_settleS [still_intros]: "still P f \<Longrightarrow> still P (settleS f)"
  by (auto simp: still_def settleS_def split: prod.splits)

end
