(* ===== verification/Typed_Storage.thy ===== *)
theory Typed_Storage
  imports Sample_Wallet Backend_Support
begin

text \<open>
  The types of what is stored: every public record decodes as a stored credential and every
  secrets record as secrets. The operations of \<open>Credential_Storage\<close> keep this for any backend
  with the documented contract, whichever of its calls fail, and so do the calls of the
  wallet; a read of a well-typed store then never fails to parse.
\<close>

section \<open>Well-typed stores\<close>

definition is_secrets_key :: "string \<Rightarrow> bool" where
  "is_secrets_key k \<longleftrightarrow> list_ex (\<lambda>p. starts_with p k) ALL_CREDSEC_PREFIXES"

definition fits_key :: "storage_codec \<Rightarrow> string \<Rightarrow> bytes \<Rightarrow> bool" where
  "fits_key X k d \<longleftrightarrow> (if is_credential_key k then is_ok (decode_stored X d)
     else if is_secrets_key k then is_ok (sx_dec_secrets X d) else True)"

definition typed_store :: "storage_codec \<Rightarrow> (string \<Rightarrow> bytes option) \<Rightarrow> bool" where
  "typed_store X v \<longleftrightarrow> (\<forall>k d. v k = Some d \<longrightarrow> fits_key X k d)"

lemma sec_prefix_key: "is_secrets_key (sec_prefix ns slot @ b)"
  by (cases ns; cases slot) (simp_all add: is_secrets_key_def ALL_CREDSEC_PREFIXES_def)

lemma secrets_key_typed [simp]: "is_secrets_key (secrets_key i)" "\<not> is_credential_key (secrets_key i)"
  by (simp_all add: secrets_key_def Let_def split: prod.split)
    (metis sec_prefix_key not_credential_key_sec snd_conv)+

lemma typed_empty [simp]: "typed_store X Map.empty"
  by (simp add: typed_store_def)

lemma typed_storeD: "typed_store X v \<Longrightarrow> v k = Some d \<Longrightarrow> fits_key X k d"
  by (simp add: typed_store_def)

lemma typed_update: "typed_store X v \<Longrightarrow> fits_key X k d \<Longrightarrow> typed_store X (v(k \<mapsto> d))"
  by (simp add: typed_store_def)

lemma typed_delete: "typed_store X v \<Longrightarrow> typed_store X (v(k := None))"
  by (simp add: typed_store_def)

lemma bindS_const: "bindS (pureS (Inl e)) f = pureS (Inl e)" "bindS (pureS (Inr x)) f = f x"
  by (simp_all add: fun_eq_iff) (simp add: pureS_def)

lemma still_map_err [still_intros]: "still P f \<Longrightarrow> still P (ctx msg f)"
  unfolding ctx_def still_def by (metis map_errS_cases)

context storage_backend
begin

abbreviation well_typed :: "storage_codec \<Rightarrow> 's \<Rightarrow> bool" where
  "well_typed X s \<equiv> inv s \<and> typed_store X (view s)"

lemma still_list [still_intros]: "still (well_typed X) (be_list_keys B)"
proof (rule stillI)
  fix s r s' assume "well_typed X s" "be_list_keys B s = (r, s')"
  with list_law[of s r s'] show "well_typed X s'" by simp
qed

lemma still_retrieve [still_intros]: "still (well_typed X) (be_retrieve B k bio)"
proof (rule stillI)
  fix s r s' assume "well_typed X s" "be_retrieve B k bio s = (r, s')"
  with retrieve_law[of s k bio r s'] show "well_typed X s'" by simp
qed

lemma still_delete [still_intros]: "still (well_typed X) (be_delete B k)"
proof (rule stillI)
  fix s r s' assume "well_typed X s" "be_delete B k s = (r, s')"
  with delete_law[of s k r s'] show "well_typed X s'" by (cases r) (simp_all add: typed_delete)
qed

lemma still_store: "fits_key X k d \<Longrightarrow> still (well_typed X) (be_store B k d bio)"
proof (rule stillI)
  fix s r s' assume "fits_key X k d" "well_typed X s" "be_store B k d bio s = (r, s')"
  with store_law[of s k d bio r s'] show "well_typed X s'" by (cases r) (simp_all add: typed_update)
qed

text \<open>Encoding, then storing what came out.\<close>

lemma still_encode:
  assumes "\<And>d. enc = Inr d \<Longrightarrow> fits_key X k d"
  shows "still (well_typed X) (bindS (pureS (map_err g enc)) (\<lambda>d. ctx msg (be_store B k d bio)))"
proof (cases enc)
  case (Inr d)
  from assms[OF this] show ?thesis by (simp add: bindS_const Inr still_map_err still_store)
qed (simp add: bindS_const still_pureS)

lemma still_encode_then:
  assumes "\<And>d. enc = Inr d \<Longrightarrow> fits_key X k d" "\<And>x. still (well_typed X) (rest x)"
  shows "still (well_typed X) (bindS (pureS (map_err g enc)) (\<lambda>d. bindS (ctx msg (be_store B k d bio)) rest))"
proof (cases enc)
  case (Inr d)
  from assms(1)[OF this] assms(2) show ?thesis by (simp add: bindS_const Inr still_map_err still_store still_bindS)
qed (simp add: bindS_const still_pureS)

lemma delete_matching_typed: "well_typed X s \<Longrightarrow> delete_matching B P ks s = (r, s') \<Longrightarrow> well_typed X s'"
proof (induction ks arbitrary: s)
  case (Cons k ks)
  show ?case
  proof (cases "P k")
    case True
    with Cons.prems have "bindS (ctx ''Failed to delete existing credential'' (be_delete B k))
        (\<lambda>_. delete_matching B P ks) s = (r, s')" by simp
    then show ?thesis
    proof (cases rule: bindS_cases)
      case (err e)
      from stillD[OF still_map_err[OF still_delete] Cons.prems(1) err(1)] show ?thesis .
    next
      case (ok x t)
      from stillD[OF still_map_err[OF still_delete] Cons.prems(1) ok(1)] Cons.IH ok(2) show ?thesis by blast
    qed
  qed (use Cons in simp)
qed simp

lemma delete_count_typed: "well_typed X s \<Longrightarrow> delete_count_loop B P ks n s = (m, s') \<Longrightarrow> well_typed X s'"
proof (induction ks arbitrary: n s)
  case (Cons k ks)
  obtain r t where d: "be_delete B k s = (r, t)" by fastforce
  from stillD[OF still_delete Cons.prems(1) d] have t: "well_typed X t" .
  show ?case
  proof (cases "P k")
    case True
    with Cons.prems(2) d Cons.IH[OF t] show ?thesis by (cases r) simp_all
  qed (use Cons in simp)
qed simp

lemma still_store_credential:
  assumes "codec_roundtrip X"
  shows "still (well_typed X) (store_credential_with_slot X (Some B) now c label slot nick)"
proof -
  let ?st = "\<lparr>sc_credential = c, sc_metadata = new_metadata now label slot nick\<rparr>"
  have fit: "fits_key X (cred_prefix ns slot @ i) d" if "encode_stored X ?st = Inr d" for ns i d
    using codec_storedD[OF assms that] by (simp add: fits_key_def)
  show ?thesis
    unfolding store_credential_with_slot_def with_backend_Some split_beta Let_def
    by (rule still_bindS[OF still_map_err[OF still_list]], rule still_bindS, rule stillI, erule delete_matching_typed,
        assumption, rule still_encode_then, erule fit, rule still_pureS)
qed

lemma still_store_secrets:
  assumes "codec_roundtrip X"
  shows "still (well_typed X) (store_credential_secrets X (Some B) i sec)"
proof -
  have "fits_key X (secrets_key i) d" if "sx_enc_secrets X sec = Inr d" for d
    using codec_secrets[OF assms, of sec] that by (auto simp: fits_key_def)
  then show ?thesis
    unfolding store_credential_secrets_def with_backend_Some by (rule still_encode)
qed

lemma still_nickname:
  assumes "codec_roundtrip X" "is_credential_key i"
  shows "still (well_typed X) (update_credential_nickname X (Some B) i nick)"
proof -
  have fit: "fits_key X i d" if "encode_stored X st = Inr d" for st d
    using codec_storedD[OF assms(1) that] assms(2) by (simp add: fits_key_def)
  show ?thesis
    unfolding update_credential_nickname_def with_backend_Some Let_def
    by (rule still_bindS[OF still_map_err[OF still_retrieve]], rule still_bindS[OF still_pureS],
        rule still_encode, erule fit)
qed

lemma still_delete_credential: "still (well_typed X) (delete_credential (Some B) i)"
proof -
  have "still (well_typed X) (\<lambda>s. case be_delete B k s of (_, s') \<Rightarrow> (Inr (), s'))" for k
    by (rule stillI) (auto split: prod.splits dest: stillD[OF still_delete, rotated])
  then show ?thesis unfolding delete_credential_def with_backend_Some by (intro still_intros)
qed

lemma still_purge: "still (well_typed X) (delete_sandbox_credentials (Some B))"
proof -
  have "still (well_typed X) (\<lambda>s. case delete_count_loop B P ks 0 s of (n, s') \<Rightarrow> (Inr n, s'))" for P ks
  proof (rule stillI)
    fix s r s' assume w: "well_typed X s"
      and run: "(case delete_count_loop B P ks 0 s of (n, s') \<Rightarrow> (Inr n, s')) = (r, s')"
    obtain m u where "delete_count_loop B P ks 0 s = (m, u)" by fastforce
    with delete_count_typed[OF w this] run show "well_typed X s'" by simp
  qed
  then show ?thesis
    unfolding delete_sandbox_credentials_def delete_all_in_namespace_def with_backend_Some by (intro still_intros)
qed

section \<open>The calls of the wallet\<close>

text \<open>The wallet over the backend \<open>B\<close>, whose store is well typed.\<close>

abbreviation well_typed_wallet :: "wallet_env \<Rightarrow> 's wallet \<Rightarrow> bool" where
  "well_typed_wallet W w \<equiv> w_backend w = Some B \<and> well_typed (we_codec W) (w_storage w)"

lemma still_on_storage: "still (well_typed (we_codec W)) (f (Some B)) \<Longrightarrow> still (well_typed_wallet W) (on_storage g f)"
proof (rule stillI)
  fix w r w' assume f: "still (well_typed (we_codec W)) (f (Some B))"
    and w: "well_typed_wallet W w" "on_storage g f w = (r, w')"
  obtain q s where q: "f (Some B) (w_storage w) = (q, s)" by fastforce
  from w(1) have "well_typed (we_codec W) (w_storage w)" by simp
  from stillD[OF f this q] w q show "well_typed_wallet W w'" by (auto simp: on_storage_def)
qed

lemma still_check [still_intros]: "still (well_typed_wallet W) (\<lambda>w. (g w, w))"
  by (simp add: still_def)

lemma still_resolve_slot: "still (well_typed_wallet W) (resolve_slot ty label)"
proof -
  have "still (well_typed (we_codec W)) (next_available_managed_index (Some B) ns)" for ns
    unfolding next_available_managed_index_def with_backend_Some Let_def by (intro still_intros)
  then show ?thesis unfolding resolve_slot_def by (intro still_intros still_on_storage)
qed

lemma still_import:
  assumes "codec_roundtrip (we_codec W)"
  shows "still (well_typed_wallet W) (import_credential_internal W now cj label slot nick)"
proof -
  have secrets: "still (well_typed_wallet W) (case secrets of
       Some s \<Rightarrow> bindS (on_storage FStorage (\<lambda>B. store_credential_secrets (we_codec W) B i s)) (\<lambda>_. pureS (Inr i))
     | None \<Rightarrow> pureS (Inr i))" for secrets i
    by (cases secrets) (auto intro!: still_intros still_on_storage still_store_secrets[OF assms])
  show ?thesis
    unfolding import_credential_internal_def Let_def
    by (intro still_intros still_on_storage still_store_credential[OF assms] secrets)
qed

lemma still_issue:
  assumes "codec_roundtrip (we_codec W)"
  shows "still (well_typed_wallet W) (finalize_and_store_credential W now hj d rj label ty nick)"
  unfolding finalize_and_store_credential_def Let_def
  by (intro still_intros still_resolve_slot still_on_storage still_store_credential[OF assms] still_store_secrets[OF assms])

lemma run_call_typed:
  assumes "codec_roundtrip (we_codec W)" "call_ok c" "well_typed_wallet W w"
  shows "well_typed_wallet W (run_call W c w)"
proof -
  have "well_typed_wallet W (snd (f w))" if "still (well_typed_wallet W) f" for f :: "('s wallet, ffi_error, 'b) op"
    using stillD[OF that assms(3), of "fst (f w)" "snd (f w)"] by simp
  note step = this
  have label: "still (well_typed_wallet W) (store_credential_with_label W now cj l ty nick)" for now cj l ty nick
    unfolding store_credential_with_label_def by (intro still_intros still_resolve_slot still_import[OF assms(1)])
  show ?thesis
  proof (cases c)
    case (CallIssue now hj d rj l ty nick)
    from step[OF still_issue[OF assms(1)]] CallIssue show ?thesis by simp
  next
    case (CallImport now cj l ty nick)
    from stillD[OF label assms(3)] CallImport show ?thesis by (metis run_call.simps(2) prod.collapse)
  next
    case (CallNickname i nick)
    with assms(2) have i: "is_credential_key i" by simp
    have "still (well_typed_wallet W) (wallet_update_nickname W i nick)"
      unfolding wallet_update_nickname_def by (intro still_on_storage still_nickname[OF assms(1) i])
    from stillD[OF this assms(3)] CallNickname show ?thesis by (metis run_call.simps(3) prod.collapse)
  next
    case (CallDelete i)
    have "still (well_typed_wallet W) (wallet_delete_credential i)"
      unfolding wallet_delete_credential_def by (intro still_on_storage still_delete_credential)
    from stillD[OF this assms(3)] CallDelete show ?thesis by (metis run_call.simps(4) prod.collapse)
  next
    case CallPurge
    have "still (well_typed_wallet W) wallet_delete_sandbox_credentials"
      unfolding wallet_delete_sandbox_credentials_def by (intro still_intros still_on_storage still_purge)
    from stillD[OF this assms(3)] CallPurge show ?thesis by (metis run_call.simps(5) prod.collapse)
  qed
qed

lemma run_calls_typed:
  "codec_roundtrip (we_codec W) \<Longrightarrow> list_all call_ok cs \<Longrightarrow> well_typed_wallet W w \<Longrightarrow>
   well_typed_wallet W (fold (run_call W) cs w)"
proof (induction cs arbitrary: w)
  case (Cons c cs)
  then show ?case using run_call_typed[of W c w] by simp
qed simp

text \<open>A read of a well-typed store fails only in the backend.\<close>

lemma get_typed:
  assumes "well_typed X s" "is_credential_key i"
  shows "fst (get_credential X (Some B) i s) = Inl m \<longleftrightarrow>
    (\<exists>e. fst (be_retrieve B i BioNone s) = Inl e \<and> \<not> contains_str ''NotFound'' (show_platform_error e)
      \<and> m = ''Failed to retrieve credential: '' @ show_platform_error e)"
proof -
  obtain r t where r: "be_retrieve B i BioNone s = (r, t)" by fastforce
  have "\<exists>st. decode_stored X d = Inr st" if "r = Inr d" for d
  proof -
    from retrieve_law[of s i BioNone r t] assms r that have "view s i = Some d" by simp
    with typed_storeD[of X "view s" i d] assms show ?thesis by (simp add: fits_key_def is_ok_iff)
  qed
  note parsed = this
  show ?thesis
  proof (cases r)
    case (Inl e)
    with r show ?thesis by (auto simp add: get_credential_def retrieve_or_none_def)
  next
    case (Inr d)
    with parsed obtain st where "decode_stored X d = Inr st" by blast
    with r Inr show ?thesis by (simp add: get_credential_def retrieve_or_none_def)
  qed
qed

lemma load_typed:
  assumes "well_typed X s"
  shows "fst (load_credential_secrets X (Some B) i s) = Inl m \<longleftrightarrow>
    (\<exists>e. fst (be_retrieve B (secrets_key i) for_credential_secrets s) = Inl e
      \<and> \<not> contains_str ''NotFound'' (show_platform_error e)
      \<and> m = ''Failed to retrieve secrets: '' @ show_platform_error e)"
proof -
  obtain r t where r: "be_retrieve B (secrets_key i) for_credential_secrets s = (r, t)" by fastforce
  have "\<exists>sec. sx_dec_secrets X d = Inr sec" if "r = Inr d" for d
  proof -
    from retrieve_law[of s "secrets_key i" for_credential_secrets r t] assms r that
    have "view s (secrets_key i) = Some d" by simp
    with typed_storeD[of X "view s" "secrets_key i" d] assms show ?thesis by (simp add: fits_key_def is_ok_iff)
  qed
  note parsed = this
  show ?thesis
  proof (cases r)
    case (Inl e)
    with r show ?thesis by (auto simp add: load_credential_secrets_def retrieve_or_none_def)
  next
    case (Inr d)
    with parsed obtain sec where "sx_dec_secrets X d = Inr sec" by blast
    with r Inr show ?thesis by (simp add: load_credential_secrets_def retrieve_or_none_def)
  qed
qed

end

section \<open>Properties\<close>

text \<open>C10: The store stays well typed: started from a store whose public records decode as stored
  credentials and whose secrets records decode as secrets, any sequence of issuing, importing,
  renaming, deleting and purging calls leaves such a store, whichever calls of the backend
  fail. Reading a credential or its secrets from it then fails only when the backend fails to
  retrieve the record, with the backend's error, and never because a record does not parse.\<close>

theorem typed_store_invariant:
  assumes "storage_backend B view I" "codec_roundtrip (we_codec W)" "list_all call_ok cs"
    and "w_backend w = Some B" "I (w_storage w)" "typed_store (we_codec W) (view (w_storage w))"
    and "w' = fold (run_call W) cs w" "is_credential_key i"
  shows "typed_store (we_codec W) (view (w_storage w'))
    \<and> (fst (get_credential (we_codec W) (Some B) i (w_storage w')) = Inl m \<longleftrightarrow>
        (\<exists>e. fst (be_retrieve B i BioNone (w_storage w')) = Inl e \<and> \<not> contains_str ''NotFound'' (show_platform_error e)
          \<and> m = ''Failed to retrieve credential: '' @ show_platform_error e))
    \<and> (fst (load_credential_secrets (we_codec W) (Some B) i (w_storage w')) = Inl m' \<longleftrightarrow>
        (\<exists>e. fst (be_retrieve B (secrets_key i) for_credential_secrets (w_storage w')) = Inl e
          \<and> \<not> contains_str ''NotFound'' (show_platform_error e)
          \<and> m' = ''Failed to retrieve secrets: '' @ show_platform_error e))"
proof -
  have "I (w_storage w') \<and> typed_store (we_codec W) (view (w_storage w'))"
    using storage_backend.run_calls_typed[OF assms(1-3), of w] assms(4-7) by simp
  then show ?thesis
    using storage_backend.get_typed[OF assms(1), of "w_storage w'" "we_codec W" i m] assms(8)
      storage_backend.load_typed[OF assms(1), of "w_storage w'" "we_codec W" i m'] by simp
qed

lemma typed_store_invariant_witness:
  "typed_store sample_codec (map_of (w_storage (fold (run_call sample_env)
     [CallImport 0 ''c'' None ''primary'' None, CallNickname ''provii.cred.primary.x'' None, CallPurge] sample_wallet)))"
proof -
  let ?cs = "[CallImport 0 ''c'' None ''primary'' None, CallNickname ''provii.cred.primary.x'' None, CallPurge]"
  let ?i = "cred_prefix NsPrimary SlotPrimary @ ''x''"
  have ok: "list_all call_ok ?cs"
    using is_credential_key_cred[of NsPrimary SlotPrimary "''x''"] by (simp add: key_simps)
  have cr: "codec_roundtrip (we_codec sample_env)" using sample_codec_roundtrip by simp
  have start: "memory_inv (w_storage sample_wallet)" "typed_store (we_codec sample_env) (map_of (w_storage sample_wallet))"
    by (simp_all add: memory_inv_def typed_store_def)
  from typed_store_invariant[OF mem.storage_backend_axioms cr ok sample_wallet_simps(1) start refl is_credential_key_cred,
      of NsPrimary SlotPrimary "''x''"]
  show ?thesis by simp
qed

end
