(* ===== verification/Wallet_Properties.thy ===== *)
theory Wallet_Properties
  imports Sample_Wallet
begin

text \<open>
  The properties of the wallet object: what an issued credential becomes, which keys it
  trusts, what its challenge cache holds, and what it makes of scanned and linked input.
  Each witness runs in the sample world.
\<close>

text \<open>A credential the wallet issued and stored is proved with exactly the fields that were
  signed: on a backend that does not fail, a proof for a cached challenge runs the prover on
  the signed header together with the date of birth and the blinding bits of the issuance,
  put together again from the separately stored public record and secrets, unless the
  credential has expired.\<close>

theorem issued_credential_proves:
  assumes "reliable_backend B view I" "w_backend w = Some B" "I (w_storage w)" "codec_roundtrip (we_codec W)"
    "finalize_and_store_credential W now hj d rj label ty nick w = (Inr cid, w1)"
    "map_of (w_challenges w) ch = Some cc"
  shows "\<exists>h rb. we_parse_header W hj = Inr h \<and> x_b64_decode (we_x W) rj = Inr rb
    \<and> (let c = attach_secrets h d (unpack_bits rb 128)
       in fst (create_age_proof W R t cid ch w1) =
         (if hdr_exp h < t then Inl FCredentialExpired
          else case run_prover W R c (cc_payload cc) of
            Inl e \<Rightarrow> Inl (FProver (''Proof generation failed: '' @ we_debug_prover W e))
          | Inr req \<Rightarrow> map_err FGeneric (we_print_request W req)))"
proof -
  obtain h rb c st ds dp where
    1: "we_parse_header W hj = Inr h" "x_b64_decode (we_x W) rj = Inr rb"
      "finalize_credential (we_x W) h d (unpack_bits rb 128) = Inr c"
    and w1: "w_backend w1 = Some B" "I (w_storage w1)"
    and p: "view (w_storage w1) cid = Some dp" "decode_stored (we_codec W) dp = Inr st" "sc_credential st = redacted c"
    and s: "view (w_storage w1) (secrets_key cid) = Some ds"
      "sx_dec_secrets (we_codec W) ds = Inr \<lparr>sec_dob_days = d, sec_r_bits = unpack_bits rb 128\<rparr>"
    using reliable_backend.issued_records[OF assms(1-5)] by blast
  from 1(3) have c: "c = attach_secrets h d (unpack_bits rb 128)" by (simp add: finalize_ok)
  have "map_of (w_challenges w1) ch = Some cc" using keepsD[OF keeps_finalize(1) assms(5)] assms(6) by simp
  note steps = create_age_proof_steps[OF this, of W R t cid]
  have "cred_dob_days (sc_credential st) = None" "c = (sc_credential st)\<lparr>
      cred_dob_days := Some (sec_dob_days \<lparr>sec_dob_days = d, sec_r_bits = unpack_bits rb 128\<rparr>),
      cred_r_bits := Some (sec_r_bits \<lparr>sec_dob_days = d, sec_r_bits = unpack_bits rb 128\<rparr>)\<rparr>"
    by (simp_all add: p(3) c attach_secrets_def redacted_def)
  from reliable_backend.proof_of_stored[OF assms(1) w1 p(1,2) s this, of R t ch "cc_payload cc"] 1(1,2)
  show ?thesis unfolding steps c by (simp add: attach_secrets_def Let_def)
qed

lemma issued_credential_proves_witness:
  "\<exists>cid w1. finalize_and_store_credential sample_env 1 ''h'' 7 sample_r_bits None ''primary'' None sample_wallet
      = (Inr cid, w1)
    \<and> fst (create_age_proof sample_env sample_run 15 cid (qr_challenge_id sample_challenge) w1) = Inr ''request''"
proof -
  obtain cid w1 where run: "finalize_and_store_credential sample_env 1 ''h'' 7 sample_r_bits None ''primary'' None
      sample_wallet = (Inr cid, w1)"
    using sample_issue by blast
  have I: "memory_inv (w_storage sample_wallet)" by (simp add: memory_inv_def)
  have b: "w_backend sample_wallet = Some memory_backend" by simp
  have cr: "codec_roundtrip (we_codec sample_env)" using sample_codec_roundtrip by simp
  have ch: "map_of (w_challenges sample_wallet) (qr_challenge_id sample_challenge)
      = Some \<lparr>cc_payload = sample_challenge, cc_received_at = 0, cc_expires_at = 300\<rparr>"
    by (simp add: sample_wallet_def)
  from issued_credential_proves[OF mem.reliable_backend_axioms, OF b I cr run ch, of sample_run 15]
  obtain h rb where h: "we_parse_header sample_env ''h'' = Inr h" "x_b64_decode (we_x sample_env) sample_r_bits = Inr rb"
    and r: "fst (create_age_proof sample_env sample_run 15 cid (qr_challenge_id sample_challenge) w1) =
         (if hdr_exp h < 15 then Inl FCredentialExpired
          else case run_prover sample_env sample_run (attach_secrets h 7 (unpack_bits rb 128)) sample_challenge of
            Inl e \<Rightarrow> Inl (FProver (''Proof generation failed: '' @ we_debug_prover sample_env e))
          | Inr req \<Rightarrow> map_err FGeneric (we_print_request sample_env req))"
    by (auto simp: Let_def)
  from h have "h = sample_header" "rb = pack_bits (replicate 128 True)"
    by (auto simp: sample_env_def toy_externals_def sample_r_bits_def)
  with r have "fst (create_age_proof sample_env sample_run 15 cid (qr_challenge_id sample_challenge) w1)
      = map_err FGeneric (we_print_request sample_env (make_request (we_x sample_env) sample_challenge sample_snark))"
    using sample_proved by (simp add: sample_unpack sample_credential_issued_def sample_header_def)
  with run show ?thesis by (auto simp: sample_env_def)
qed

text \<open>C7: Once the wallet holds a trust anchor, whatever backend it uses, every credential it
  issues and stores carries a verification key of that anchor, a signature that verifies
  under that key, and a commitment that the date of birth and the decoded 128 blinding
  bits open; issuing does not change the anchor.\<close>

theorem anchored_issuance:
  assumes "w_anchor w = Some a"
    "finalize_and_store_credential W now hj d rj label ty nick w = (Inr cid, w1)"
  shows "\<exists>h rb. we_parse_header W hj = Inr h \<and> x_b64_decode (we_x W) rj = Inr rb
    \<and> (\<exists>k \<in> set (ta_keys a). tk_vk k = hdr_issuer_vk h)
    \<and> x_verify_cred (we_x W) (header_msg h) (hdr_sig_rj h) (hdr_issuer_vk h) = Inr ()
    \<and> length (unpack_bits rb 128) = 128
    \<and> x_pedersen (we_x W) d (unpack_bits rb 128) = Inr (hdr_c_bytes h)
    \<and> hdr_v h = 2 \<and> hdr_iat h \<le> hdr_exp h \<and> w_anchor w1 = Some a"
proof -
  from assms(2)[unfolded finalize_and_store_ok] obtain slot w' h rb c where
    1: "resolve_slot ty label w = (Inr slot, w')" "we_parse_header W hj = Inr h" "check_anchor h w' = Inr ()"
      "x_b64_decode (we_x W) rj = Inr rb" "finalize_credential (we_x W) h d (unpack_bits rb R_BITS_LEN) = Inr c"
    by blast
  have "w_anchor w' = Some a" using keepsD[OF keeps_resolve_slot(2) 1(1)] assms(1) by simp
  with 1(3) have "\<exists>k \<in> set (ta_keys a). tk_vk k = hdr_issuer_vk h" by (auto simp: check_anchor_some)
  moreover have "w_anchor w1 = Some a" using keepsD[OF keeps_finalize(2) assms(2)] assms(1) by simp
  ultimately show ?thesis using 1 by (auto simp: finalize_ok R_BITS_LEN_def)
qed

lemma anchored_issuance_witness:
  "\<exists>cid w1. finalize_and_store_credential sample_env 1 ''h'' 7 sample_r_bits None ''primary'' None sample_wallet
      = (Inr cid, w1) \<and> w_anchor w1 = Some sample_anchor
    \<and> (\<exists>k \<in> set (ta_keys sample_anchor). tk_vk k = hdr_issuer_vk sample_header)"
proof -
  obtain cid w1 where run: "finalize_and_store_credential sample_env 1 ''h'' 7 sample_r_bits None ''primary'' None
      sample_wallet = (Inr cid, w1)"
    using sample_issue by blast
  have "w_anchor sample_wallet = Some sample_anchor" by simp
  from anchored_issuance[OF this run] obtain h where "we_parse_header sample_env ''h'' = Inr h"
    "\<exists>k \<in> set (ta_keys sample_anchor). tk_vk k = hdr_issuer_vk h" "w_anchor w1 = Some sample_anchor" by blast
  moreover from this(1) have "h = sample_header" by (simp add: sample_env_def)
  ultimately show ?thesis using run by blast
qed

text \<open>C6: After any history of wallet calls, with any answers of storage, network and prover, the
  challenge cache holds at most 64 challenges with distinct identifiers, each filed under
  its own identifier, each having passed the field validation, and none lives longer than
  300 seconds after its receipt.\<close>

theorem challenge_cache_invariant:
  assumes "qr_ext_ok (we_qr W)" "wallet_reach W T w"
  shows "length (w_challenges w) \<le> 64 \<and> distinct (map fst (w_challenges w))
    \<and> (\<forall>(k, c) \<in> set (w_challenges w). k = qr_challenge_id (cc_payload c)
         \<and> validate_field_lengths (qx_url_scheme (we_qr W)) (cc_payload c) = Inr ()
         \<and> cc_expires_at c \<le> cc_received_at c + 300 * 10 ^ 9)"
proof -
  from assms(2) have "cache_ok W (w_challenges w)"
  proof induction
    case (init s c)
    show ?case by (simp add: cache_ok_def wallet_with_config_def wallet_new_def)
  next
    case (step w w')
    then show ?case using cache_step[OF assms(1)] by blast
  qed
  then show ?thesis by (simp add: cache_ok_def)
qed

lemma challenge_cache_invariant_witness:
  "\<exists>w. process_manual_entry sample_env (\<lambda>url. Inr ''full'') 5 6 ''1234 5678 9012'' (wallet_new ([] :: memory))
      = (Inr (qr_challenge_id sample_challenge), w)
    \<and> w_challenges w \<noteq> [] \<and> length (w_challenges w) \<le> 64"
proof -
  let ?w0 = "wallet_new [] :: memory wallet"
  have s: "strip_whitespace ''1234 5678 9012'' = ''123456789012''" "strip_whitespace ''123456789012'' = ''123456789012''"
    by (simp_all add: strip_whitespace_def is_whitespace_def is_cont_def Let_def)
  have c: "is_short_code ''123456789012''" by (simp add: is_short_code_def s is_digit_def)
  define w where "w = snd (cache_challenge 5 6 sample_challenge ?w0)"
  have w: "cache_challenge 5 6 sample_challenge ?w0 = (Inr (qr_challenge_id sample_challenge), w)"
    and ne: "w_challenges w \<noteq> []"
    by (simp_all add: w_def cache_challenge_def wallet_new_def Let_def)
  have p: "qx_parse (we_qr sample_env) ''full'' = Inr sample_challenge" by (simp add: sample_qr_def)
  have "process_manual_entry sample_env (\<lambda>url. Inr ''full'') 5 6 ''1234 5678 9012'' ?w0
      = (Inr (qr_challenge_id sample_challenge), w)"
    unfolding process_manual_entry_def Let_def s fetch_challenge_by_short_code_def bindS_def pureS_def
    using w sample_challenge_valid c p by simp
  moreover from this have "wallet_step sample_env TYPE(unit) ?w0 w" by (rule wallet_step.typed)
  then have "wallet_reach sample_env TYPE(unit) w"
    using wallet_reach.init[of sample_env "TYPE(unit)" "[]" wallet_config_default]
    by (auto simp: wallet_with_config_def wallet_new_def intro: wallet_reach.step)
  from challenge_cache_invariant[OF _ this] have "length (w_challenges w) \<le> 64"
    using sample_qr_ok by simp
  ultimately show ?thesis using ne by blast
qed


lemma sample_rotated:
  "parse_jwks_into_keys (we_x sample_env) ''rotated'' = Inr [\<lparr>tk_kid = ''k'', tk_vk = replicate 32 99\<rparr>]"
  by (simp add: parse_jwks_into_keys_def sample_env_def toy_externals_def sample_json_def jwk_def jwk_key_def
      List.map_filter_simps bytes_of_string_def)


text \<open>The clean-up deletes exactly the expired public records, each with its secrets, leaves
  every other key as it was, and reports their number, up to the largest 32-bit one.\<close>

theorem expired_cleanup_exact:
  assumes "reliable_backend B view I" "w_backend w = Some B" "I (w_storage w)"
  shows "\<exists>n s'. cleanup_expired_credentials W now w = (n, w\<lparr>w_storage := s'\<rparr>)
    \<and> unat n = min (card (expired_keys (we_codec W) now (view (w_storage w)))) (2 ^ 32 - 1)
    \<and> (\<forall>k. view s' k =
          (if k \<in> expired_keys (we_codec W) now (view (w_storage w))
              \<or> k \<in> secrets_key ` expired_keys (we_codec W) now (view (w_storage w))
           then None else view (w_storage w) k))"
  using reliable_backend.cleanup_run[OF assms] by blast

lemma expired_cleanup_exact_witness:
  "\<exists>n s'. cleanup_expired_credentials sample_env 9 (sample_wallet\<lparr>w_storage := [(''other'', [1])]\<rparr>)
      = (n, sample_wallet\<lparr>w_storage := s'\<rparr>) \<and> map_of s' ''other'' = Some [1]"
proof -
  let ?w = "sample_wallet\<lparr>w_storage := [(''other'', [1])]\<rparr>"
  have b: "w_backend ?w = Some memory_backend" and I: "memory_inv (w_storage ?w)" by (simp_all add: memory_inv_def)
  have "\<not> is_credential_key ''other''" by code_simp
  then have E: "expired_keys (we_codec sample_env) 9 (map_of (w_storage ?w)) = {}"
    by (auto simp: expired_keys_def split: if_splits)
  from expired_cleanup_exact[OF mem.reliable_backend_axioms, OF b I, of sample_env 9]
  obtain n s' where "cleanup_expired_credentials sample_env 9 ?w = (n, ?w\<lparr>w_storage := s'\<rparr>)"
    "\<forall>k. map_of s' k = map_of (w_storage ?w) k"
    unfolding E by auto
  then have "cleanup_expired_credentials sample_env 9 ?w = (n, sample_wallet\<lparr>w_storage := s'\<rparr>)"
    "map_of s' ''other'' = Some [1]" by simp_all
  then show ?thesis by blast
qed

text \<open>C35: A challenge accepted from a scan or a typed code is ready to be proved: it is cached under
  its identifier with a life of 300 seconds from its receipt, its session is active and
  waiting with no failures recorded, and no other cached challenge that had not expired is lost.\<close>

theorem accepted_challenge_ready:
  assumes "process_qr_challenge W get t t' s w = (Inr cid, w') \<or> process_manual_entry W get t t' s w = (Inr cid, w')"
    "t < 2 ^ 62 * 10 ^ 9"
  shows "\<exists>q. qr_challenge_id q = cid
    \<and> map_of (w_challenges w') cid = Some \<lparr>cc_payload = q, cc_received_at = t, cc_expires_at = t + 300 * 10 ^ 9\<rparr>
    \<and> cid \<in> set (sm_active_verifications (w_state w')) \<and> sm_verification_status (w_state w') = ChallengeReceived
    \<and> sm_failed_attempts (w_state w') = 0 \<and> sm_last_error (w_state w') = None
    \<and> (\<forall>(k, c) \<in> set (w_challenges w). k \<noteq> cid \<longrightarrow> t' < cc_expires_at c \<longrightarrow> (k, c) \<in> set (w_challenges w'))"
proof -
  obtain q where q: "cache_challenge t t' q w = (Inr cid, w')"
  proof (cases "process_qr_challenge W get t t' s w = (Inr cid, w')")
    case True
    then show ?thesis using that
      by (cases "parse_qr_payload_internal W get s w") (auto simp: process_qr_challenge_def bindS_def)
  next
    case False
    with assms(1) have "process_manual_entry W get t t' s w = (Inr cid, w')" by simp
    then show ?thesis using that by (cases rule: manual_entry_cases) auto
  qed
  define m where "m = (if 64 \<le> length (w_challenges w)
    then filter (\<lambda>(_, v). cc_expires_at v > t') (w_challenges w) else w_challenges w)"
  let ?e = "\<lparr>cc_payload = q, cc_received_at = t, cc_expires_at = expiry_of t\<rparr>"
  from q have w': "qr_challenge_id q = cid" "w_challenges w' = AList.update cid ?e m"
      "w_state w' = start_verification cid (w_state w)"
    by (auto simp: cache_challenge_def Let_def m_def split: if_splits)
  have "expiry_of t = t + 300 * 10 ^ 9" using assms(2) by (simp add: expiry_of_def CACHE_SECONDS_def)
  moreover have "(k, c) \<in> set (AList.update cid ?e m)" if "(k, c) \<in> set m" "k \<noteq> cid" for k c
    using that by (induction m) auto
  moreover have "(k, c) \<in> set m" if "(k, c) \<in> set (w_challenges w)" "t' < cc_expires_at c" for k c
    using that by (auto simp: m_def)
  ultimately show ?thesis using w'
    by (auto simp: update_conv' start_verification_def push_verification_def Let_def intro!: exI[of _ q])
qed

lemma accepted_challenge_ready_witness:
  "\<exists>w. process_manual_entry sample_env (\<lambda>url. Inr ''full'') 5 6 ''123456789012'' (wallet_new ([] :: memory))
      = (Inr (qr_challenge_id sample_challenge), w)
    \<and> qr_challenge_id sample_challenge \<in> set (sm_active_verifications (w_state w))"
proof -
  let ?w0 = "wallet_new [] :: memory wallet"
  have s: "strip_whitespace ''123456789012'' = ''123456789012''"
    by (simp_all add: strip_whitespace_def is_whitespace_def is_cont_def Let_def)
  have c: "is_short_code ''123456789012''" by (simp add: is_short_code_def s is_digit_def)
  define w where "w = snd (cache_challenge 5 6 sample_challenge ?w0)"
  have w: "cache_challenge 5 6 sample_challenge ?w0 = (Inr (qr_challenge_id sample_challenge), w)"
    by (simp add: w_def cache_challenge_def wallet_new_def Let_def)
  have p: "qx_parse (we_qr sample_env) ''full'' = Inr sample_challenge" by (simp add: sample_qr_def)
  have run: "process_manual_entry sample_env (\<lambda>url. Inr ''full'') 5 6 ''123456789012'' ?w0
      = (Inr (qr_challenge_id sample_challenge), w)"
    unfolding process_manual_entry_def Let_def s fetch_challenge_by_short_code_def bindS_def pureS_def
    using w sample_challenge_valid c p by simp
  from accepted_challenge_ready[OF disjI2, OF run] have
    "qr_challenge_id sample_challenge \<in> set (sm_active_verifications (w_state w))" by auto
  with run show ?thesis by blast
qed

text \<open>The two copies of the challenge validator, that of the core and that of the FFI layer,
  accept the same payloads and report the same message for every rejected one, so a payload
  that crosses the boundary is judged the same on both sides.\<close>

theorem validators_agree:
  "ffi_validate_field_lengths us q = map_err FInvalidFormat (validate_field_lengths us q)"
  by (rule ffi_validation_eq)

text \<open>Key rotation misses a duplicated identifier: the first fetch of a wallet without an anchor
  keeps a key set as it came, so when the set lists an identifier twice, the second key
  stays trusted after the issuer has replaced the key of that identifier, although a
  merge of the same two sets into an empty anchor would have dropped it.\<close>

theorem stale_key_after_rotation:
  assumes "w_anchor w = None"
    "parse_jwks_into_keys (we_x W) j1 = Inr [\<lparr>tk_kid = k, tk_vk = v1\<rparr>, \<lparr>tk_kid = k, tk_vk = v2\<rparr>]"
    "parse_jwks_into_keys (we_x W) j2 = Inr [\<lparr>tk_kid = k, tk_vk = v3\<rparr>]" "v2 \<noteq> v3" "hdr_issuer_vk h = v2"
  shows "check_anchor h (snd (refresh_issuer_keys W t2 j2 (snd (refresh_issuer_keys W t1 j1 w)))) = Inr ()
    \<and> validate_issuer_vk h (union_merge [\<lparr>tk_kid = k, tk_vk = v3\<rparr>]
        (union_merge [\<lparr>tk_kid = k, tk_vk = v1\<rparr>, \<lparr>tk_kid = k, tk_vk = v2\<rparr>] \<lparr>ta_keys = [], ta_fetched_at = t1\<rparr>))
      = Inl (SecurityError ''issuer verification key not in trust anchor'')"
proof -
  let ?a1 = "\<lparr>ta_keys = [\<lparr>tk_kid = k, tk_vk = v1\<rparr>, \<lparr>tk_kid = k, tk_vk = v2\<rparr>], ta_fetched_at = t1\<rparr>"
  let ?a2 = "(union_merge [\<lparr>tk_kid = k, tk_vk = v3\<rparr>] ?a1)\<lparr>ta_fetched_at := t2\<rparr>"
  define w1 where "w1 = snd (refresh_issuer_keys W t1 j1 w)"
  obtain r1 u1 where p1: "persist_anchor_to_storage W ?a1 (w\<lparr>w_anchor := Some ?a1\<rparr>) = (r1, u1)" by fastforce
  then have "w1 = u1" using assms(1,2) by (simp add: w1_def refresh_issuer_keys_def)
  then have a1: "w_anchor w1 = Some ?a1" using persist_frame[OF p1] by simp
  obtain r2 u2 where p2: "persist_anchor_to_storage W ?a2 (w1\<lparr>w_anchor := Some ?a2\<rparr>) = (r2, u2)" by fastforce
  then have "snd (refresh_issuer_keys W t2 j2 w1) = u2" using a1 assms(3) by (simp add: refresh_issuer_keys_def)
  then have "w_anchor (snd (refresh_issuer_keys W t2 j2 w1)) = Some ?a2" using persist_frame[OF p2] by simp
  then have "check_anchor h (snd (refresh_issuer_keys W t2 j2 w1)) = Inr ()"
    by (simp add: check_anchor_some union_merge_def assms(5))
  moreover have "validate_issuer_vk h (union_merge [\<lparr>tk_kid = k, tk_vk = v3\<rparr>]
        (union_merge [\<lparr>tk_kid = k, tk_vk = v1\<rparr>, \<lparr>tk_kid = k, tk_vk = v2\<rparr>] \<lparr>ta_keys = [], ta_fetched_at = t1\<rparr>))
      = Inl (SecurityError ''issuer verification key not in trust anchor'')"
    using assms(4,5) by (simp add: union_merge_def validate_issuer_vk_def)
  ultimately show ?thesis by (simp add: w1_def)
qed

lemma stale_key_after_rotation_witness:
  "check_anchor (sample_header\<lparr>hdr_issuer_vk := replicate 32 98\<rparr>)
     (snd (refresh_issuer_keys sample_env 2 ''rotated''
       (snd (refresh_issuer_keys sample_env 1 ''doubled'' (wallet_new ([] :: memory)))))) = Inr ()"
proof -
  have n: "w_anchor (wallet_new ([] :: memory)) = None" by (simp add: wallet_new_def)
  have d: "parse_jwks_into_keys (we_x sample_env) ''doubled''
      = Inr [\<lparr>tk_kid = ''k'', tk_vk = replicate 32 97\<rparr>, \<lparr>tk_kid = ''k'', tk_vk = replicate 32 98\<rparr>]"
    by (simp add: parse_jwks_into_keys_def sample_env_def toy_externals_def sample_json_def jwk_def jwk_key_def
        List.map_filter_simps bytes_of_string_def)
  have ne: "(replicate 32 98 :: bytes) \<noteq> replicate 32 99" by simp
  from stale_key_after_rotation[OF n d sample_rotated ne, of "sample_header\<lparr>hdr_issuer_vk := replicate 32 98\<rparr>" 2 1]
  show ?thesis by simp
qed

text \<open>C40: A rejected payload can pass for a minimal one, because the two are told apart by the text of
  the error: a complete challenge whose direction is not one of the two words but contains
  the marker of the minimal form is not refused, the wallet sends a request to the
  verifier for the identifier in it and goes on with the answer.\<close>

theorem rejected_payload_fetched:
  assumes "length s \<le> 500" "deep_link_encoded s = None" "starts_with ''{'' (trim s)" "contains_str ''challenge_id'' s"
    "\<not> is_minimal s" "qx_parse (we_qr W) s = Inr q" "qr_proof_direction q = Some dir"
    "contains_str ''MINIMAL_CHALLENGE'' dir" "dir \<noteq> ''over_age''" "dir \<noteq> ''under_age''"
    "validate_field_lengths (qx_url_scheme (we_qr W)) (q\<lparr>qr_proof_direction := None\<rparr>) = Inr ()"
    "qx_parse_id (we_qr W) s = Inr cid" "validate_challenge_id_format cid = Inr ()"
    "get (wc_verifier_api_url (w_config w) @ ''/v1/challenge/'' @ cid @ ''/details'') = Inr j"
    "qx_parse (we_qr W) j = Inr q'" "validate_field_lengths (qx_url_scheme (we_qr W)) q' = Inr ()"
  shows "parse_qr_payload_internal W get s w = Inr q'"
proof -
  let ?msg = "''invalid proof_direction '' @ [CHR 0x27] @ dir @ [CHR 0x27] @ '', expected '' @ [CHR 0x27] @
      ''over_age'' @ [CHR 0x27] @ '' or '' @ [CHR 0x27] @ ''under_age'' @ [CHR 0x27]"
  have "validate_field_lengths (qx_url_scheme (we_qr W)) q = Inl ?msg"
    using assms(7,9-11) by (auto simp: validate_field_lengths_def bindR_Inr_iff validate_direction_def)
  then have "decode_payload (we_qr W) s = Inl (FInvalidFormat ?msg)"
    using assms(1-6) by (simp add: decode_payload_def MAX_QR_PAYLOAD_SIZE_def parse_full_def ffi_validation_eq)
  moreover have "contains_str ''MINIMAL_CHALLENGE'' (show_ffi_error (FInvalidFormat ?msg))"
  proof -
    from assms(8) obtain a b where "dir = a @ ''MINIMAL_CHALLENGE'' @ b" by (auto simp: contains_str_iff)
    then show ?thesis unfolding contains_str_iff
      by (intro exI[of _ "''Invalid format: '' @ ''invalid proof_direction '' @ [CHR 0x27] @ a"]
          exI[of _ "b @ [CHR 0x27] @ '', expected '' @ [CHR 0x27] @
            ''over_age'' @ [CHR 0x27] @ '' or '' @ [CHR 0x27] @ ''under_age'' @ [CHR 0x27]"]) simp
  qed
  moreover have "extract_challenge_id_from_qr (we_qr W) s = Inr cid"
    using assms(1,2,12) by (simp add: extract_challenge_id_from_qr_def MAX_QR_PAYLOAD_SIZE_def)
  ultimately show ?thesis using assms(13-16)
    by (simp add: parse_qr_payload_internal_def parse_qr_code_def Let_def del: show_ffi_error.simps contains_str.simps)
qed

definition marked_qr :: string where
  "marked_qr = ''{'' @ quoted ''rp_challenge'' @ '' challenge_id''"

definition marked_env :: wallet_env where
  "marked_env = sample_env\<lparr>we_qr := sample_qr\<lparr>
     qx_parse := (\<lambda>t. if t = ''full'' then Inr sample_challenge
                      else Inr (sample_challenge\<lparr>qr_proof_direction := Some ''MINIMAL_CHALLENGE''\<rparr>)),
     qx_parse_id := (\<lambda>_. Inr (qr_challenge_id sample_challenge))\<rparr>\<rparr>"

lemma rejected_payload_fetched_witness:
  "parse_qr_payload_internal marked_env (\<lambda>url. Inr ''full'') marked_qr sample_wallet = Inr sample_challenge"
proof -
  let ?q = "sample_challenge\<lparr>qr_proof_direction := Some ''MINIMAL_CHALLENGE''\<rparr>"
  have 1: "length marked_qr \<le> 500" "deep_link_encoded marked_qr = None" "contains_str ''challenge_id'' marked_qr"
    "\<not> is_minimal marked_qr"
    by code_simp+
  have 2: "starts_with ''{'' (trim marked_qr)"
    by (simp add: marked_qr_def quoted_def trim_def is_whitespace_def is_cont_def Let_def starts_with_def)
  have 3: "qx_parse (we_qr marked_env) marked_qr = Inr ?q" "qx_parse (we_qr marked_env) ''full'' = Inr sample_challenge"
    "qx_parse_id (we_qr marked_env) marked_qr = Inr (qr_challenge_id sample_challenge)"
    "qx_url_scheme (we_qr marked_env) = qx_url_scheme sample_qr"
    by (simp_all add: marked_env_def marked_qr_def)
  have 4: "contains_str ''MINIMAL_CHALLENGE'' ''MINIMAL_CHALLENGE''" by (simp add: starts_with_def)
  have 5: "validate_challenge_id_format (qr_challenge_id sample_challenge) = Inr ()" by code_simp
  have d: "?q\<lparr>qr_proof_direction := None\<rparr> = sample_challenge" by (simp add: sample_challenge_def)
  have 6: "validate_field_lengths (qx_url_scheme (we_qr marked_env)) (?q\<lparr>qr_proof_direction := None\<rparr>) = Inr ()"
    "validate_field_lengths (qx_url_scheme (we_qr marked_env)) sample_challenge = Inr ()"
    unfolding d 3(4) by (rule sample_challenge_valid)+
  have 7: "qr_proof_direction ?q = Some ''MINIMAL_CHALLENGE''" by simp
  show ?thesis
    by (rule rejected_payload_fetched[OF 1(1,2) 2 1(3,4) 3(1) 7 4 _ _ 6(1) 3(3) 5 refl 3(2) 6(2)]) simp_all
qed

text \<open>A scan never yields an attestation, though the result type and the decoder have one: what
  the scan reads back must be a challenge, so an attestation QR code, which the decoder
  accepts, is refused as malformed.\<close>

theorem scan_never_attests:
  assumes "qr_ext_ok (we_qr W)"
    "\<forall>q j. qx_print (we_qr W) q = Inr j \<longrightarrow> (\<exists>m. x_json (we_x W) j = Inr (JObject m) \<and> map_of m ''type'' = None)"
  shows "process_scanned_qr W get s w \<noteq> Inr (QaAttestation a)
    \<and> (decode_payload (we_qr W) s = Inr (QrAttestation d) \<longrightarrow>
        (\<exists>e. process_scanned_qr W get s w = Inl (FInvalidFormat e)))"
proof
  show "process_scanned_qr W get s w \<noteq> Inr (QaAttestation a)"
  proof
    assume "process_scanned_qr W get s w = Inr (QaAttestation a)"
    then obtain q j data where "qx_print (we_qr W) q = Inr j" "x_json (we_x W) j = Inr data"
      "json_get ''type'' data = Some (JString ''attestation'')"
      by (auto simp: process_scanned_qr_def parse_qr_payload_def bindR_Inr_iff split: if_splits option.splits)
    with assms(2) show False by fastforce
  qed
  show "decode_payload (we_qr W) s = Inr (QrAttestation d) \<longrightarrow>
        (\<exists>e. process_scanned_qr W get s w = Inl (FInvalidFormat e))"
  proof
    assume a: "decode_payload (we_qr W) s = Inr (QrAttestation d)"
    from assms(1) obtain e where "qx_parse (we_qr W) (qx_attestation_json (we_qr W) d) = Inl e"
      by (auto simp: qr_ext_ok_def is_ok_iff) (metis sum.exhaust)
    with a show "\<exists>e. process_scanned_qr W get s w = Inl (FInvalidFormat e)"
      by (simp add: process_scanned_qr_def parse_qr_payload_def parse_qr_payload_internal_def parse_qr_code_def Let_def)
  qed
qed

definition attestation_env :: wallet_env where
  "attestation_env = sample_env\<lparr>we_qr := sample_qr\<lparr>qx_parse_envelope := (\<lambda>s. Inr (QrAttestation ''x''))\<rparr>\<rparr>"

lemma scan_never_attests_witness:
  "\<exists>e. process_scanned_qr attestation_env (\<lambda>url. Inl FNotInitialized) ''att'' sample_wallet = Inl (FInvalidFormat e)"
proof -
  have ok: "qr_ext_ok (we_qr attestation_env)"
    by (simp add: qr_ext_ok_def attestation_env_def sample_qr_def is_ok_iff)
  have js: "\<forall>q j. qx_print (we_qr attestation_env) q = Inr j \<longrightarrow>
      (\<exists>m. x_json (we_x attestation_env) j = Inr (JObject m) \<and> map_of m ''type'' = None)"
    by (auto simp: attestation_env_def sample_env_def sample_qr_def sample_json_def split: if_splits)
  have "\<not> contains_str ''challenge_id'' ''att''" "deep_link_encoded ''att'' = None" by code_simp+
  then have "decode_payload (we_qr attestation_env) ''att'' = Inr (QrAttestation ''x'')"
    by (simp add: decode_payload_def MAX_QR_PAYLOAD_SIZE_def attestation_env_def)
  with scan_never_attests[OF ok js] show ?thesis by blast
qed

lemma uuid_loop_ok:
  "uuid_loop i s = Inr () \<longleftrightarrow>
     (\<forall>n < length s. if n + i \<in> {8, 13, 18, 23} then s ! n = CHR ''-'' else is_hex_digit (s ! n))"
proof (induction s arbitrary: i)
  case (Cons b bs)
  have "(\<forall>n < length (b # bs). if n + i \<in> {8, 13, 18, 23} then (b # bs) ! n = CHR ''-'' else is_hex_digit ((b # bs) ! n))
    \<longleftrightarrow> (if i \<in> {8, 13, 18, 23} then b = CHR ''-'' else is_hex_digit b)
      \<and> (\<forall>n < length bs. if n + Suc i \<in> {8, 13, 18, 23} then bs ! n = CHR ''-'' else is_hex_digit (bs ! n))"
    by (simp add: All_less_Suc2 del: insert_iff)
  then show ?case using Cons.IH[of "Suc i"] by (simp del: insert_iff)
qed simp

lemma list_all_upt: "list_all P [0..<n] \<longleftrightarrow> (\<forall>i<n. P i)"
  by (auto simp: list_all_iff)

text \<open>An identifier passes the check before it is put into a request path exactly when it has 36
  bytes, hyphens at the four places of a UUID and hexadecimal digits everywhere else, so it
  holds no character that could leave its path segment.\<close>

theorem challenge_id_exact:
  "validate_challenge_id_format s = Inr () \<longleftrightarrow>
     length s = 36
   \<and> list_all (\<lambda>n. if n \<in> {8, 13, 18, 23} then s ! n = CHR ''-'' else is_hex_digit (s ! n)) [0..<36]"
  unfolding list_all_upt
  by (auto simp: validate_challenge_id_format_def validate_uuid_format_def uuid_loop_ok)

text \<open>A deep link is accepted exactly when it has at most 4096 bytes, is of the wallet's own scheme
  or an https link of the wallet's own host, and names one of two actions: an attestation
  whose d parameter is a non-empty base64url text, handed on unchanged, or a challenge
  whose d parameter decodes to the returned text, which parses as a payload within the field
  limits.\<close>

theorem deeplink_exact:
  "parse_deeplink D url = Inr act \<longleftrightarrow>
     length url \<le> 4096
   \<and> (\<exists>u a d. dx_url D url = Inr u \<and> link_action D u = Inr a
        \<and> (pu_scheme u = ''proviiwallet'' \<or> pu_scheme u = ''https'' \<and> pu_host u = Some ''proviiwallet.app'')
        \<and> map_of (rev (pu_query u)) ''d'' = Some d
        \<and> (case act of
             Attest x \<Rightarrow> a = ''attest'' \<and> x = d \<and> d \<noteq> [] \<and> list_all base64url_char d
           | ScanChallenge j \<Rightarrow> a = ''verify''
               \<and> (\<exists>b p. dx_b64_decode D d = Inr b \<and> utf8_ok (map unat b) \<and> j = string_of_bytes b \<and> trim j \<noteq> []
                    \<and> dx_parse_verify D j = Inr p \<and> validate_verify_field_lengths D p = Inr ())))"
proof -
  have host: "link_action D u = Inr a \<Longrightarrow>
      pu_scheme u = ''proviiwallet'' \<or> pu_scheme u = ''https'' \<and> pu_host u = Some ''proviiwallet.app''" for u a
    by (auto simp: link_action_def Let_def UNIVERSAL_LINK_HOST_def split: if_splits option.splits)
  define handle where "handle u a =
      (if a = ''verify''
       then bindR (ok_or ''missing d parameter'' (map_of (rev (pu_query u)) ''d'')) (\<lambda>d.
            bindR (map_err (\<lambda>e. ''bad b64url encoding: '' @ e) (dx_b64_decode D d)) (\<lambda>raw.
            if \<not> utf8_ok (map unat raw) then Inl (''invalid UTF-8 in payload: '' @ dx_utf8_msg D raw)
            else if trim (string_of_bytes raw) = [] then Inl ''empty payload''
            else bindR (map_err (\<lambda>e. ''invalid verify payload: '' @ e) (dx_parse_verify D (string_of_bytes raw))) (\<lambda>p.
                 bindR (validate_verify_field_lengths D p) (\<lambda>_. Inr (ScanChallenge (string_of_bytes raw))))))
       else if a = ''attest''
       then bindR (ok_or ''missing d parameter'' (map_of (rev (pu_query u)) ''d'')) (\<lambda>d.
            if d = [] then Inl ''attestation data cannot be empty''
            else if \<not> list_all base64url_char d
            then Inl ''invalid attestation data format (must be base64url)''
            else Inr (Attest d))
       else Inl (''unsupported deeplink action: '' @ a))" for u :: parsed_url and a
  have handle: "handle u a = Inr act \<longleftrightarrow> (\<exists>d. map_of (rev (pu_query u)) ''d'' = Some d
        \<and> (case act of
             Attest x \<Rightarrow> a = ''attest'' \<and> x = d \<and> d \<noteq> [] \<and> list_all base64url_char d
           | ScanChallenge j \<Rightarrow> a = ''verify''
               \<and> (\<exists>b p. dx_b64_decode D d = Inr b \<and> utf8_ok (map unat b) \<and> j = string_of_bytes b \<and> trim j \<noteq> []
                    \<and> dx_parse_verify D j = Inr p \<and> validate_verify_field_lengths D p = Inr ())))" for u a
  proof (cases "map_of (rev (pu_query u)) ''d''")
    case (Some d)
    consider "a = ''verify''" | "a = ''attest''" | "a \<noteq> ''verify''" "a \<noteq> ''attest''" by blast
    then show ?thesis
    proof cases
      case 1
      then show ?thesis unfolding handle_def Some
        by (cases act) (auto simp: bindR_Inr_iff ok_or_def simp del: utf8_ok.simps)
    next
      case 2
      then show ?thesis unfolding handle_def Some by (cases act) (auto simp: ok_or_def)
    next
      case 3
      then show ?thesis unfolding handle_def Some by (cases act) simp_all
    qed
  qed (simp add: handle_def ok_or_def)
  have "parse_deeplink D url = Inr act \<longleftrightarrow> length url \<le> 4096
      \<and> (\<exists>u a. dx_url D url = Inr u \<and> link_action D u = Inr a \<and> handle u a = Inr act)"
    unfolding parse_deeplink_def handle_def Let_def MAX_DEEPLINK_SIZE_def by (simp add: bindR_Inr_iff not_le)
  then show ?thesis unfolding handle using host by blast
qed

end
