(* ===== verification/Store_Ios.thy ===== *)
theory Store_Ios
  imports Backend_Support
begin

text \<open>
  The iOS backend (\<open>store-ios\<close>): the trait's operations over the keychain services, with the
  retry loop, the item cache, the metrics, the audit log, the wipe and the key rotation. The
  Security framework is the parameter \<open>keychain\<close>, whose documented behaviour is
  \<open>keychain_laws\<close>; the clock is a sequence of readings. Counters are natural numbers: none
  reaches 2 ^ 64. The two readings around an operation that only feed a debug line are left
  out, so an operation during which the wall clock is set back is not modelled.
\<close>

section \<open>The keychain\<close>

definition errSecSuccess :: int where "errSecSuccess = 0"
definition errSecDuplicateItem :: int where "errSecDuplicateItem = - 25299"
definition errSecItemNotFound :: int where "errSecItemNotFound = - 25300"
definition errSecAuthFailed :: int where "errSecAuthFailed = - 25293"
definition errSecUserCanceled :: int where "errSecUserCanceled = - 128"

lemmas status_defs = errSecSuccess_def errSecDuplicateItem_def errSecItemNotFound_def
  errSecAuthFailed_def errSecUserCanceled_def

text \<open>What a query returns: data, an array of accounts, an object of another type, or null.\<close>

datatype 'a cf_result = CfValue 'a | CfOther | CfNull

text \<open>
  The calls the backend makes, each with the service name first: \<open>kc_access_control\<close> tells
  whether an access control object can be created, \<open>kc_add\<close> takes the account, the data and
  whether the item carries the biometric access control, \<open>kc_copy\<close> whether a prompt is set.
  \<open>kc_list\<close> yields for each item its account, or nothing where the attribute is no string.
\<close>

record 'k keychain =
  kc_access_control :: "'k \<Rightarrow> bool"
  kc_add :: "string \<Rightarrow> string \<Rightarrow> bytes \<Rightarrow> bool \<Rightarrow> 'k \<Rightarrow> int \<times> 'k"
  kc_update :: "string \<Rightarrow> string \<Rightarrow> bytes \<Rightarrow> 'k \<Rightarrow> int \<times> 'k"
  kc_copy :: "string \<Rightarrow> string \<Rightarrow> bool \<Rightarrow> 'k \<Rightarrow> (int \<times> bytes cf_result) \<times> 'k"
  kc_attributes :: "string \<Rightarrow> string \<Rightarrow> 'k \<Rightarrow> int \<times> 'k"
  kc_delete :: "string \<Rightarrow> string \<Rightarrow> 'k \<Rightarrow> int \<times> 'k"
  kc_list :: "string \<Rightarrow> 'k \<Rightarrow> (int \<times> string option list cf_result) \<times> 'k"

section \<open>State and configuration\<close>

record ios_config =
  ic_require_biometrics :: bool
  ic_use_secure_enclave :: bool
  ic_enable_caching :: bool
  ic_service_name :: string
  ic_max_cache_size :: nat
  ic_cache_ttl_seconds :: u64
  ic_enable_audit_logging :: bool

definition ios_config_default :: ios_config where
  "ios_config_default =
     \<lparr>ic_require_biometrics = True, ic_use_secure_enclave = True, ic_enable_caching = False,
      ic_service_name = ''app.provii.wallet.sdk'', ic_max_cache_size = 100,
      ic_cache_ttl_seconds = 300, ic_enable_audit_logging = True\<rparr>"

definition ios_production_config :: ios_config where
  "ios_production_config =
     \<lparr>ic_require_biometrics = True, ic_use_secure_enclave = True, ic_enable_caching = False,
      ic_service_name = ''app.provii.wallet.sdk'', ic_max_cache_size = 0,
      ic_cache_ttl_seconds = 0, ic_enable_audit_logging = True\<rparr>"

definition ios_development_config :: ios_config where
  "ios_development_config =
     \<lparr>ic_require_biometrics = False, ic_use_secure_enclave = False, ic_enable_caching = True,
      ic_service_name = ''app.provii.wallet.sdk.dev'', ic_max_cache_size = 50,
      ic_cache_ttl_seconds = 300, ic_enable_audit_logging = True\<rparr>"

datatype ios_event = KeychainAccess | IosBiometricAuth | IosFailedOperation | KeyRotation | ConfigChange

text \<open>The risk levels are 0 for low, 1 for medium and 2 for high.\<close>

record ios_metrics =
  im_operations_count :: nat
  im_cache_hits :: nat
  im_cache_misses :: nat
  im_biometric_prompts :: nat
  im_errors_count :: nat
  im_last_error :: "string option"

record ios_statistics =
  is_total_operations :: nat
  is_successful_operations :: nat
  is_failed_operations :: nat
  is_biometric_authentications :: nat
  is_cache_hits :: nat
  is_last_operation_time :: u64

record 'k ios =
  ios_keychain :: 'k
  ios_cache :: item_cache
  ios_metrics :: ios_metrics
  ios_audit :: "ios_event security_event list"
  ios_stats :: ios_statistics
  ios_ticks :: nat

record 'k ios_env =
  ie_keychain :: "'k keychain"
  ie_clock :: "nat \<Rightarrow> u64"
  ie_hash :: "string \<Rightarrow> u64"

definition ios_new :: "ios_statistics \<Rightarrow> 'k \<Rightarrow> 'k ios" where
  "ios_new stats k =
     \<lparr>ios_keychain = k, ios_cache = [],
      ios_metrics = \<lparr>im_operations_count = 0, im_cache_hits = 0, im_cache_misses = 0,
        im_biometric_prompts = 0, im_errors_count = 0, im_last_error = None\<rparr>,
      ios_audit = [], ios_stats = stats, ios_ticks = 0\<rparr>"

definition ios_max_cache_size :: "ios_config \<Rightarrow> nat" where
  "ios_max_cache_size C = (if ic_enable_caching C then ic_max_cache_size C else 0)"

definition ios_now :: "'k ios_env \<Rightarrow> 'k ios \<Rightarrow> u64 \<times> 'k ios" where
  "ios_now E s = (ie_clock E (ios_ticks s), s\<lparr>ios_ticks := ios_ticks s + 1\<rparr>)"

section \<open>Logging and counting\<close>

definition ios_log_event ::
    "'k ios_env \<Rightarrow> ios_config \<Rightarrow> ios_event \<Rightarrow> string \<Rightarrow> nat \<Rightarrow> 'k ios \<Rightarrow> 'k ios" where
  "ios_log_event E C ty details risk s =
     (if \<not> ic_enable_audit_logging C then s
      else case ios_now E s of (t, s') \<Rightarrow>
        s'\<lparr>ios_audit := push_event \<lparr>se_type = ty, se_timestamp = t, se_details = details, se_risk = risk\<rparr>
             (ios_audit s')\<rparr>)"

definition ios_record_operation :: "'k ios_env \<Rightarrow> bool \<Rightarrow> bool \<Rightarrow> 'k ios \<Rightarrow> 'k ios" where
  "ios_record_operation E success bio s =
     (case ios_now E s of (t, s') \<Rightarrow>
        let st = ios_stats s'
        in s'\<lparr>ios_stats := st\<lparr>is_total_operations := is_total_operations st + 1,
             is_successful_operations := is_successful_operations st + (if success then 1 else 0),
             is_failed_operations := is_failed_operations st + (if success then 0 else 1),
             is_biometric_authentications := is_biometric_authentications st + (if bio then 1 else 0),
             is_last_operation_time := t\<rparr>\<rparr>)"

definition ios_count :: "string option \<Rightarrow> 'k ios \<Rightarrow> 'k ios" where
  "ios_count err s =
     (let m = ios_metrics s;
          m1 = m\<lparr>im_operations_count := im_operations_count m + 1\<rparr>
      in s\<lparr>ios_metrics := (case err of None \<Rightarrow> m1
            | Some e \<Rightarrow> m1\<lparr>im_errors_count := im_errors_count m + 1, im_last_error := Some e\<rparr>)\<rparr>)"

section \<open>Validation and the cache\<close>

definition ios_validate_key :: "string \<Rightarrow> platform_error + unit" where
  "ios_validate_key key =
     (if key = [] then Inl (PStorage ''Key cannot be empty'')
      else if length key > 255 then Inl (PStorage ''Key too long (max 255 characters)'')
      else if \<not> list_all key_char key then Inl (PStorage ''Key contains invalid characters'')
      else Inr ())"

definition ios_max_item_size :: nat where "ios_max_item_size = 1024 * 1024"

definition ios_validate_data :: "bytes \<Rightarrow> platform_error + unit" where
  "ios_validate_data d =
     (if d = [] then Inl (PStorage ''Data cannot be empty'')
      else if length d > ios_max_item_size
      then Inl (PStorage (''Data too large (max '' @ show_nat ios_max_item_size @ '' bytes)''))
      else Inr ())"

definition ios_get_from_cache :: "'k ios_env \<Rightarrow> ios_config \<Rightarrow> string \<Rightarrow> 'k ios \<Rightarrow> bytes option \<times> 'k ios" where
  "ios_get_from_cache E C key s =
     (if \<not> ic_enable_caching C then (None, s)
      else case map_of (ios_cache s) key of
        None \<Rightarrow> (None, s)
      | Some it \<Rightarrow> (case ios_now E s of (t, s') \<Rightarrow>
          (if still_fresh t it then Some (ci_data it) else None, s')))"

definition ios_add_to_cache :: "'k ios_env \<Rightarrow> ios_config \<Rightarrow> string \<Rightarrow> bytes \<Rightarrow> 'k ios \<Rightarrow> 'k ios" where
  "ios_add_to_cache E C key d s =
     (if \<not> ic_enable_caching C then s
      else let m = ios_max_cache_size C;
               c = (if length (ios_cache s) \<ge> m \<and> m > 0 then evict_oldest (ios_cache s) else ios_cache s);
               s1 = s\<lparr>ios_cache := c\<rparr>
           in if m > 0
              then case ios_now E s1 of (t, s2) \<Rightarrow>
                s2\<lparr>ios_cache := AList.update key
                     \<lparr>ci_data = d, ci_cached_at = t, ci_ttl = ic_cache_ttl_seconds C\<rparr> (ios_cache s2)\<rparr>
              else s1)"

definition ios_remove_from_cache :: "ios_config \<Rightarrow> string \<Rightarrow> 'k ios \<Rightarrow> 'k ios" where
  "ios_remove_from_cache C key s =
     (if ic_enable_caching C then s\<lparr>ios_cache := AList.delete key (ios_cache s)\<rparr> else s)"

definition ios_clear_cache :: "'k ios \<Rightarrow> 'k ios" where
  "ios_clear_cache s = s\<lparr>ios_cache := []\<rparr>"

section \<open>Keychain operations\<close>

definition on_keychain :: "('k \<Rightarrow> 'a \<times> 'k) \<Rightarrow> 'k ios \<Rightarrow> 'a \<times> 'k ios" where
  "on_keychain f s = (case f (ios_keychain s) of (x, k) \<Rightarrow> (x, s\<lparr>ios_keychain := k\<rparr>))"

definition map_keychain_error :: "int \<Rightarrow> platform_error" where
  "map_keychain_error status =
     PStorage ((if status = errSecItemNotFound then ''NotFound''
                else if status = errSecDuplicateItem then ''Duplicate item''
                else if status = errSecAuthFailed then ''Authentication failed''
                else if status = errSecUserCanceled then ''User cancelled''
                else ''Keychain error'') @ '' (OSStatus: '' @ show_int status @ '')'')"

definition delete_item_internal :: "'k ios_env \<Rightarrow> ios_config \<Rightarrow> string \<Rightarrow> ('k ios, platform_error, unit) op" where
  "delete_item_internal E C key s =
     (case on_keychain (kc_delete (ie_keychain E) (ic_service_name C) key) s of (st, s') \<Rightarrow>
        (if st = errSecSuccess \<or> st = errSecItemNotFound then Inr () else Inl (map_keychain_error st), s'))"

definition update_item_internal ::
    "'k ios_env \<Rightarrow> ios_config \<Rightarrow> string \<Rightarrow> bytes \<Rightarrow> ('k ios, platform_error, unit) op" where
  "update_item_internal E C key d s =
     (case on_keychain (kc_update (ie_keychain E) (ic_service_name C) key d) s of (st, s') \<Rightarrow>
        (if st = errSecSuccess then Inr () else Inl (map_keychain_error st), s'))"

definition add_item ::
    "'k ios_env \<Rightarrow> ios_config \<Rightarrow> string \<Rightarrow> bytes \<Rightarrow> bool \<Rightarrow> 'k ios \<Rightarrow> int \<times> 'k ios" where
  "add_item E C key d bio = on_keychain (kc_add (ie_keychain E) (ic_service_name C) key d bio)"

definition store_item_internal ::
    "'k ios_env \<Rightarrow> ios_config \<Rightarrow> string \<Rightarrow> bytes \<Rightarrow> bool \<Rightarrow> ('k ios, platform_error, unit) op" where
  "store_item_internal E C key d bio s =
     (if bio \<and> \<not> kc_access_control (ie_keychain E) (ios_keychain s)
      then (Inl (PStorage ''Failed to create biometric access control''), s)
      else case add_item E C key d bio s of (st, s1) \<Rightarrow>
        if st = errSecSuccess then (Inr (), s1)
        else if st = errSecDuplicateItem
        then (if bio
              then bindS (delete_item_internal E C key) (\<lambda>_ s2.
                     case add_item E C key d bio s2 of (st', s3) \<Rightarrow>
                       (if st' = errSecSuccess then Inr () else Inl (map_keychain_error st'), s3)) s1
              else update_item_internal E C key d s1)
        else (Inl (map_keychain_error st), s1))"

definition retrieve_item_internal ::
    "'k ios_env \<Rightarrow> ios_config \<Rightarrow> string \<Rightarrow> bool \<Rightarrow> ('k ios, platform_error, bytes) op" where
  "retrieve_item_internal E C key bio s =
     (case on_keychain (kc_copy (ie_keychain E) (ic_service_name C) key bio) s of ((st, v), s') \<Rightarrow>
        (if st = errSecSuccess
         then (case v of
             CfValue d \<Rightarrow> Inr d
           | CfOther \<Rightarrow> Inl (PStorage ''SecItemCopyMatching returned unexpected CFType (expected CFData)'')
           | CfNull \<Rightarrow> Inl (PStorage ''Keychain returned null data''))
         else if st = errSecItemNotFound then Inl (PStorage ''NotFound'')
         else Inl (map_keychain_error st), s'))"

definition list_keys_internal :: "'k ios_env \<Rightarrow> ios_config \<Rightarrow> ('k ios, platform_error, string list) op" where
  "list_keys_internal E C s =
     (case on_keychain (kc_list (ie_keychain E) (ic_service_name C)) s of ((st, v), s') \<Rightarrow>
        (if st = errSecItemNotFound then Inr []
         else if st \<noteq> errSecSuccess then Inl (map_keychain_error st)
         else (case v of
             CfValue xs \<Rightarrow> Inr (List.map_filter (\<lambda>x. x) xs)
           | CfOther \<Rightarrow> Inl (PStorage ''SecItemCopyMatching returned unexpected CFType (expected CFArray)'')
           | CfNull \<Rightarrow> Inr []), s'))"

definition exists_internal :: "'k ios_env \<Rightarrow> ios_config \<Rightarrow> string \<Rightarrow> ('k ios, platform_error, bool) op" where
  "exists_internal E C key s =
     (case on_keychain (kc_attributes (ie_keychain E) (ic_service_name C) key) s of (st, s') \<Rightarrow>
        (if st = errSecSuccess then Inr True
         else if st = errSecItemNotFound then Inr False
         else Inl (map_keychain_error st), s'))"

section \<open>Retries\<close>

definition is_non_retryable_error :: "platform_error \<Rightarrow> bool" where
  "is_non_retryable_error err =
     (case err of
        PBiometricFailed _ \<Rightarrow> True
      | PStorage msg \<Rightarrow> contains_str ''Authentication failed'' msg \<or> contains_str ''User cancelled'' msg
          \<or> contains_str (''OSStatus: '' @ show_int errSecAuthFailed) msg
          \<or> contains_str (''OSStatus: '' @ show_int errSecUserCanceled) msg
      | _ \<Rightarrow> False)"

text \<open>The first argument is the number of attempts that remain after this one.\<close>

fun with_retry :: "nat \<Rightarrow> ('s, platform_error, 'a) op \<Rightarrow> ('s, platform_error, 'a) op" where
  "with_retry 0 f s = f s"
| "with_retry (Suc n) f s =
     (case f s of
        (Inr v, s') \<Rightarrow> (Inr v, s')
      | (Inl e, s') \<Rightarrow> if is_non_retryable_error e then (Inl e, s') else with_retry n f s')"

definition max_keychain_retries :: nat where "max_keychain_retries = 3"

section \<open>The public operations\<close>

definition ios_attempts :: "bool \<Rightarrow> ('s, platform_error, 'a) op \<Rightarrow> ('s, platform_error, 'a) op" where
  "ios_attempts bio f = (if bio then f else with_retry max_keychain_retries f)"

definition ios_store_secure ::
    "'k ios_env \<Rightarrow> ios_config \<Rightarrow> string \<Rightarrow> bytes \<Rightarrow> bool \<Rightarrow> ('k ios, platform_error, unit) op" where
  "ios_store_secure E C key d bio =
     bindS (pureS (ios_validate_key key)) (\<lambda>_.
     bindS (pureS (ios_validate_data d)) (\<lambda>_ s.
       let lbl = safe_key_label (ie_hash E) key
       in case ios_attempts bio (store_item_internal E C key d bio) s of (r, s1) \<Rightarrow>
         let s2 = ios_count (if is_ok r then None else Some (''Store failed for key: '' @ lbl)) s1;
             s3 = ios_record_operation E (is_ok r) bio s2;
             s4 = (if is_ok r \<and> ic_enable_caching C \<and> \<not> bio then ios_add_to_cache E C key d s3 else s3)
         in (r, if is_ok r then ios_log_event E C KeychainAccess (''Stored item: '' @ lbl) 0 s4
                else ios_log_event E C IosFailedOperation (''Failed to store: '' @ lbl) 1 s4)))"

definition ios_retrieve_uncached ::
    "'k ios_env \<Rightarrow> ios_config \<Rightarrow> string \<Rightarrow> bool \<Rightarrow> ('k ios, platform_error, bytes) op" where
  "ios_retrieve_uncached E C key bio =
     bindS (pureS (ios_validate_key key)) (\<lambda>_ s.
       let lbl = safe_key_label (ie_hash E) key
       in case ios_attempts bio (retrieve_item_internal E C key bio) s of (r, s1) \<Rightarrow>
         let s2 = ios_count (if is_ok r then None else Some (''Retrieve failed for key: '' @ lbl)) s1
         in (r, case r of
               Inr d \<Rightarrow> if ic_enable_caching C \<and> \<not> bio then ios_add_to_cache E C key d s2 else s2
             | Inl _ \<Rightarrow> s2))"

definition ios_retrieve_secure ::
    "'k ios_env \<Rightarrow> ios_config \<Rightarrow> string \<Rightarrow> bool \<Rightarrow> ('k ios, platform_error, bytes) op" where
  "ios_retrieve_secure E C key bio s =
     (case (if bio then (None, s) else ios_get_from_cache E C key s) of
        (Some d, s1) \<Rightarrow>
          (Inr d, s1\<lparr>ios_metrics := (ios_metrics s1)\<lparr>im_cache_hits := im_cache_hits (ios_metrics s1) + 1\<rparr>\<rparr>)
      | (None, s1) \<Rightarrow>
          ios_retrieve_uncached E C key bio
            (if ic_enable_caching C
             then s1\<lparr>ios_metrics := (ios_metrics s1)\<lparr>im_cache_misses := im_cache_misses (ios_metrics s1) + 1\<rparr>\<rparr>
             else s1))"

definition ios_delete_secure :: "'k ios_env \<Rightarrow> ios_config \<Rightarrow> string \<Rightarrow> ('k ios, platform_error, unit) op" where
  "ios_delete_secure E C key =
     bindS (pureS (ios_validate_key key)) (\<lambda>_ s.
       case delete_item_internal E C key s of (r, s1) \<Rightarrow>
         (r, ios_log_event E C KeychainAccess (''Deleted item: '' @ safe_key_label (ie_hash E) key) 0
               (ios_remove_from_cache C key s1)))"

definition ios_backend :: "'k ios_env \<Rightarrow> ios_config \<Rightarrow> 'k ios backend" where
  "ios_backend E C =
     \<lparr>be_store = (\<lambda>key d bio. ios_store_secure E C key d (requires_bio bio)),
      be_retrieve = (\<lambda>key bio. ios_retrieve_secure E C key (requires_bio bio)),
      be_delete = ios_delete_secure E C,
      be_exists = (\<lambda>key. bindS (pureS (ios_validate_key key)) (\<lambda>_. exists_internal E C key)),
      be_list_keys = list_keys_internal E C\<rparr>"

section \<open>Maintenance\<close>

definition ios_self_test :: "'k ios_env \<Rightarrow> ios_config \<Rightarrow> ('k ios, platform_error, unit) op" where
  "ios_self_test E C =
     bindS (ios_store_secure E C ''provii.test.access'' (bytes_of_string ''test_data'') False) (\<lambda>_.
     bindS (ios_retrieve_secure E C ''provii.test.access'' False) (\<lambda>d.
     bindS (ios_delete_secure E C ''provii.test.access'') (\<lambda>_.
       pureS (if d \<noteq> bytes_of_string ''test_data'' then Inl (PStorage ''Keychain test data mismatch'')
              else Inr ()))))"

fun ios_wipe_loop :: "'k ios_env \<Rightarrow> ios_config \<Rightarrow> string list \<Rightarrow> 'k ios \<Rightarrow> 'k ios" where
  "ios_wipe_loop E C [] s = s"
| "ios_wipe_loop E C (k # ks) s = ios_wipe_loop E C ks (snd (ios_delete_secure E C k s))"

definition ios_wipe_all :: "'k ios_env \<Rightarrow> ios_config \<Rightarrow> ('k ios, platform_error, unit) op" where
  "ios_wipe_all E C =
     bindS (list_keys_internal E C) (\<lambda>keys s. (Inr (), ios_clear_cache (ios_wipe_loop E C keys s)))"

text \<open>The two reading passes of the rotation: the items read, and the keys that could not be.\<close>

fun ios_read_loop ::
    "'k ios_env \<Rightarrow> ios_config \<Rightarrow> bool \<Rightarrow> string list \<Rightarrow> 'k ios \<Rightarrow>
      ((string \<times> bytes \<times> bool) list \<times> string list) \<times> 'k ios" where
  "ios_read_loop E C bio [] s = (([], []), s)"
| "ios_read_loop E C bio (k # ks) s =
     (case ios_retrieve_secure E C k bio s of (r, s1) \<Rightarrow>
      case ios_read_loop E C bio ks s1 of ((backup, failed), s2) \<Rightarrow>
        ((case r of Inr d \<Rightarrow> ((k, d, bio) # backup, failed) | Inl _ \<Rightarrow> (backup, k # failed)), s2))"

fun ios_restore_loop ::
    "'k ios_env \<Rightarrow> ios_config \<Rightarrow> (string \<times> bytes \<times> bool) list \<Rightarrow> 'k ios \<Rightarrow> nat \<times> 'k ios" where
  "ios_restore_loop E C [] s = (0, s)"
| "ios_restore_loop E C ((k, d, bio) # b) s =
     (case ios_store_secure E C k d bio s of (r, s1) \<Rightarrow>
      case ios_restore_loop E C b s1 of (n, s2) \<Rightarrow> ((if is_ok r then n else n + 1), s2))"

definition ios_stamp_rotation :: "'k ios_env \<Rightarrow> ios_config \<Rightarrow> 'k ios \<Rightarrow> 'k ios" where
  "ios_stamp_rotation E C s =
     (case ios_now E s of (t, s1) \<Rightarrow> snd (ios_store_secure E C ''__provii.rotated_at'' (le_bytes t) False s1))"

definition ios_rotate_master_key :: "'k ios_env \<Rightarrow> ios_config \<Rightarrow> ('k ios, platform_error, unit) op" where
  "ios_rotate_master_key E C =
     bindS (list_keys_internal E C) (\<lambda>keys s.
       case ios_read_loop E C False keys s of ((plain, bio_keys), s1) \<Rightarrow>
       case ios_read_loop E C True bio_keys s1 of ((bio_items, skipped), s2) \<Rightarrow>
       case ios_restore_loop E C (plain @ bio_items) s2 of (failures, s3) \<Rightarrow>
       let s4 = ios_stamp_rotation E C s3
       in if failures > 0
          then (Inl (PStorage (''Key rotation: '' @ show_nat failures @ '' of '' @
                      show_nat (length (plain @ bio_items)) @ '' items failed to re-store'')),
                ios_log_event E C KeyRotation (''Master key rotation completed with '' @
                  show_nat failures @ '' re-store failure(s)'') 2 s4)
          else (Inr (), ios_log_event E C KeyRotation ''Master key rotation completed'' 0 s4))"

fun ios_usage_loop :: "'k ios_env \<Rightarrow> ios_config \<Rightarrow> string list \<Rightarrow> nat \<times> nat \<Rightarrow> 'k ios \<Rightarrow> (nat \<times> nat) \<times> 'k ios" where
  "ios_usage_loop E C [] a s = (a, s)"
| "ios_usage_loop E C (k # ks) a s =
     (case ios_retrieve_secure E C k False s of
        (Inr d, s1) \<Rightarrow>
          ios_usage_loop E C ks (fst a + length d,
            snd a + (if starts_with ''provii.credential'' k then 1 else 0)) s1
      | (Inl _, s1) \<Rightarrow> ios_usage_loop E C ks a s1)"

definition ios_usage_stats :: "'k ios_env \<Rightarrow> ios_config \<Rightarrow> ('k ios, platform_error, usage_stats) op" where
  "ios_usage_stats E C =
     bindS (list_keys_internal E C) (\<lambda>keys s.
       case ios_usage_loop E C keys (0, 0) s of ((used, creds), s1) \<Rightarrow>
         (Inr \<lparr>us_total_keys = length keys, us_total_bytes = used, us_credentials_count = creds\<rparr>, s1))"

end
