(* ===== verification/Ios_Contract.thy ===== *)
theory Ios_Contract
  imports Store_Ios
begin

text \<open>
  What the iOS backend promises over a keychain with the documented behaviour: the storage
  contract when the cache is off, current reads for the keys that are never stored behind
  biometry when it is on, the retry budget, and what a key rotation leaves.
\<close>

section \<open>The documented keychain\<close>

text \<open>
  \<open>v\<close> maps a service and an account to the stored data and whether the item carries the
  biometric access control. A call that reports another status than success has no effect.
\<close>

definition keychain_ok ::
    "'k keychain \<Rightarrow> ('k \<Rightarrow> string \<times> string \<Rightarrow> (bytes \<times> bool) option) \<Rightarrow> ('k \<Rightarrow> bool) \<Rightarrow> bool" where
  "keychain_ok K v I \<longleftrightarrow>
     (\<forall>g a d bio k st k'. I k \<longrightarrow> kc_add K g a d bio k = (st, k') \<longrightarrow>
        I k' \<and> (if st = errSecSuccess then v k (g, a) = None \<and> v k' = (v k)((g, a) \<mapsto> (d, bio))
                else v k' = v k \<and> (st = errSecDuplicateItem \<longrightarrow> v k (g, a) \<noteq> None)))
   \<and> (\<forall>g a d k st k'. I k \<longrightarrow> kc_update K g a d k = (st, k') \<longrightarrow>
        I k' \<and> (if st = errSecSuccess
                then \<exists>d0 b. v k (g, a) = Some (d0, b) \<and> v k' = (v k)((g, a) \<mapsto> (d, b))
                else v k' = v k))
   \<and> (\<forall>g a p k st x k'. I k \<longrightarrow> kc_copy K g a p k = ((st, x), k') \<longrightarrow>
        I k' \<and> v k' = v k \<and> (\<forall>d. st = errSecSuccess \<and> x = CfValue d \<longrightarrow> (\<exists>b. v k (g, a) = Some (d, b))))
   \<and> (\<forall>g a k st k'. I k \<longrightarrow> kc_attributes K g a k = (st, k') \<longrightarrow>
        I k' \<and> v k' = v k \<and> (st = errSecSuccess \<longrightarrow> v k (g, a) \<noteq> None)
             \<and> (st = errSecItemNotFound \<longrightarrow> v k (g, a) = None))
   \<and> (\<forall>g a k st k'. I k \<longrightarrow> kc_delete K g a k = (st, k') \<longrightarrow>
        I k' \<and> (if st = errSecSuccess then v k' = (v k)((g, a) := None) else v k' = v k)
             \<and> (st = errSecItemNotFound \<longrightarrow> v k (g, a) = None))
   \<and> (\<forall>g k st x k'. I k \<longrightarrow> kc_list K g k = ((st, x), k') \<longrightarrow>
        I k' \<and> v k' = v k \<and> (st = errSecItemNotFound \<longrightarrow> (\<forall>a. v k (g, a) = None))
             \<and> (st = errSecSuccess \<longrightarrow>
                 (\<exists>as. x = CfValue (map Some as) \<and> distinct as \<and> set as = {a. v k (g, a) \<noteq> None})))"

text \<open>Adding an item where there is none succeeds.\<close>

definition adds_when_absent ::
    "'k keychain \<Rightarrow> ('k \<Rightarrow> string \<times> string \<Rightarrow> (bytes \<times> bool) option) \<Rightarrow> ('k \<Rightarrow> bool) \<Rightarrow> bool" where
  "adds_when_absent K v I \<longleftrightarrow>
     (\<forall>g a d bio k. I k \<longrightarrow> v k (g, a) = None \<longrightarrow> fst (kc_add K g a d bio k) = errSecSuccess)"

lemmas keychain_addD = keychain_ok_def [THEN iffD1, THEN conjunct1, rule_format]
lemmas keychain_updateD = keychain_ok_def [THEN iffD1, THEN conjunct2, THEN conjunct1, rule_format]
lemmas keychain_copyD = keychain_ok_def [THEN iffD1, THEN conjunct2, THEN conjunct2, THEN conjunct1, rule_format]
lemmas keychain_attributesD = keychain_ok_def [THEN iffD1, THEN conjunct2, THEN conjunct2, THEN conjunct2, THEN conjunct1, rule_format]
lemmas keychain_deleteD = keychain_ok_def [THEN iffD1, THEN conjunct2, THEN conjunct2, THEN conjunct2, THEN conjunct2, THEN conjunct1, rule_format]
lemmas keychain_listD = keychain_ok_def [THEN iffD1, THEN conjunct2, THEN conjunct2, THEN conjunct2, THEN conjunct2, THEN conjunct2, rule_format]
lemmas adds_when_absentD = adds_when_absent_def [THEN iffD1, rule_format]

lemma status_distinct [simp]:
  "errSecDuplicateItem \<noteq> errSecSuccess" "errSecItemNotFound \<noteq> errSecSuccess"
  "errSecSuccess \<noteq> errSecDuplicateItem" "errSecSuccess \<noteq> errSecItemNotFound"
  by (simp_all add: status_defs)

section \<open>What leaves the keychain alone\<close>

lemma ios_now_keychain [simp]: "ios_keychain (snd (ios_now E s)) = ios_keychain s"
  by (simp add: ios_now_def)

lemma log_keychain [simp]: "ios_keychain (ios_log_event E C ty x n s) = ios_keychain s"
  by (simp add: ios_log_event_def ios_now_def)

lemma record_keychain [simp]: "ios_keychain (ios_record_operation E ok bio s) = ios_keychain s"
  by (simp add: ios_record_operation_def ios_now_def Let_def)

lemma count_keychain [simp]: "ios_keychain (ios_count e s) = ios_keychain s"
  by (simp add: ios_count_def Let_def split: option.splits)

lemma add_cache_keychain [simp]: "ios_keychain (ios_add_to_cache E C k d s) = ios_keychain s"
  by (simp add: ios_add_to_cache_def ios_now_def Let_def)

lemma remove_cache_keychain [simp]: "ios_keychain (ios_remove_from_cache C k s) = ios_keychain s"
  by (simp add: ios_remove_from_cache_def)

lemma get_cache_keychain:
  "ios_get_from_cache E C k s = (r, s') \<Longrightarrow> ios_keychain s' = ios_keychain s \<and> ios_cache s' = ios_cache s"
  by (auto simp: ios_get_from_cache_def ios_now_def split: if_splits option.splits prod.splits)

lemma log_cache [simp]: "ios_cache (ios_log_event E C ty x n s) = ios_cache s"
  by (simp add: ios_log_event_def ios_now_def)

lemma record_cache [simp]: "ios_cache (ios_record_operation E ok bio s) = ios_cache s"
  by (simp add: ios_record_operation_def ios_now_def Let_def)

lemma count_cache [simp]: "ios_cache (ios_count e s) = ios_cache s"
  by (simp add: ios_count_def Let_def split: option.splits)

lemma is_ok_simps [simp]: "is_ok (Inr x)" "\<not> is_ok (Inl e)"
  by simp_all

section \<open>The retry loop\<close>

lemma with_retry_law:
  assumes step: "\<And>s r s'. J s \<Longrightarrow> f s = (r, s') \<Longrightarrow> (case r of Inl e \<Rightarrow> J s' | Inr x \<Rightarrow> Q x s')"
    and "J s" "with_retry n f s = (r, s')"
  shows "case r of Inl e \<Rightarrow> J s' | Inr x \<Rightarrow> Q x s'"
  using assms(2,3)
proof (induction n arbitrary: s)
  case 0
  then show ?case using step[of s r s'] by simp
next
  case (Suc n)
  obtain r0 s0 where f: "f s = (r0, s0)" by fastforce
  with Suc.prems step[OF Suc.prems(1) f] Suc.IH[of s0] show ?case
    by (cases r0) (auto split: if_splits)
qed

lemma ios_attempts_law:
  assumes "\<And>s r s'. J s \<Longrightarrow> f s = (r, s') \<Longrightarrow> (case r of Inl e \<Rightarrow> J s' | Inr x \<Rightarrow> Q x s')"
    and "J s" "ios_attempts bio f s = (r, s')"
  shows "case r of Inl e \<Rightarrow> J s' | Inr x \<Rightarrow> Q x s'"
proof (cases bio)
  case True
  with assms show ?thesis by (simp add: ios_attempts_def)
next
  case False
  with assms with_retry_law[of J f Q s max_keychain_retries r s'] show ?thesis
    by (simp add: ios_attempts_def)
qed

section \<open>The keychain operations\<close>

text \<open>The keychain holds \<open>m\<close> and the cache \<open>c\<close>.\<close>

definition ios_at ::
    "('k \<Rightarrow> string \<times> string \<Rightarrow> (bytes \<times> bool) option) \<Rightarrow> ('k \<Rightarrow> bool) \<Rightarrow>
      (string \<times> string \<Rightarrow> (bytes \<times> bool) option) \<Rightarrow> item_cache \<Rightarrow> 'k ios \<Rightarrow> bool" where
  "ios_at v I m c s \<longleftrightarrow> I (ios_keychain s) \<and> v (ios_keychain s) = m \<and> ios_cache s = c"

lemma ios_at_same: "ios_at v I m c s \<Longrightarrow> ios_keychain s' = ios_keychain s \<Longrightarrow> ios_cache s' = ios_cache s \<Longrightarrow>
    ios_at v I m c s'"
  by (simp add: ios_at_def)

lemma ios_delete_item_law:
  assumes "keychain_ok (ie_keychain E) v I" "ios_at v I m c s" "delete_item_internal E C key s = (r, s')"
  shows "case r of Inl e \<Rightarrow> ios_at v I m c s'
    | Inr _ \<Rightarrow> ios_at v I (m((ic_service_name C, key) := None)) c s'"
proof -
  obtain st k' where d: "kc_delete (ie_keychain E) (ic_service_name C) key (ios_keychain s) = (st, k')"
    by fastforce
  have I: "I (ios_keychain s)" and m: "m = v (ios_keychain s)" using assms(2) by (auto simp: ios_at_def)
  have gone: "f(x := None) = f" if "f x = None" for f :: "string \<times> string \<Rightarrow> (bytes \<times> bool) option" and x
    using that by auto
  from keychain_deleteD[OF assms(1) I d] assms(2,3) d show ?thesis
    by (auto simp: delete_item_internal_def on_keychain_def ios_at_def gone split: if_splits)
qed

lemma ios_add_item_law:
  assumes "keychain_ok (ie_keychain E) v I" "ios_at v I m c s" "add_item E C key d bio s = (st, s')"
  shows "if st = errSecSuccess
    then m (ic_service_name C, key) = None \<and> ios_at v I (m((ic_service_name C, key) \<mapsto> (d, bio))) c s'
    else ios_at v I m c s'"
proof -
  obtain k' where a: "kc_add (ie_keychain E) (ic_service_name C) key d bio (ios_keychain s) = (st, k')"
      and s': "s' = s\<lparr>ios_keychain := k'\<rparr>"
    using assms(3) by (auto simp: add_item_def on_keychain_def split: prod.splits)
  have I: "I (ios_keychain s)" using assms(2) by (simp add: ios_at_def)
  from keychain_addD[OF assms(1) I a] assms(2) s' show ?thesis
    by (auto simp: ios_at_def split: if_splits)
qed

lemma ios_update_item_law:
  assumes "keychain_ok (ie_keychain E) v I" "ios_at v I m c s" "update_item_internal E C key d s = (r, s')"
  shows "case r of Inl e \<Rightarrow> ios_at v I m c s'
    | Inr _ \<Rightarrow> (\<exists>b. ios_at v I (m((ic_service_name C, key) \<mapsto> (d, b))) c s')"
proof -
  obtain st k' where u: "kc_update (ie_keychain E) (ic_service_name C) key d (ios_keychain s) = (st, k')"
    by fastforce
  have I: "I (ios_keychain s)" using assms(2) by (simp add: ios_at_def)
  from keychain_updateD[OF assms(1) I u] assms(2,3) u show ?thesis
    by (auto simp: update_item_internal_def on_keychain_def ios_at_def split: if_splits)
qed

lemma ios_store_item_law:
  assumes "keychain_ok (ie_keychain E) v I" "ios_at v I m c s" "store_item_internal E C key d bio s = (r, s')"
  shows "case r of
      Inl e \<Rightarrow> ios_at v I m c s' \<or> bio \<and> ios_at v I (m((ic_service_name C, key) := None)) c s'
    | Inr _ \<Rightarrow> (\<exists>b. ios_at v I (m((ic_service_name C, key) \<mapsto> (d, b))) c s')"
proof (cases "bio \<and> \<not> kc_access_control (ie_keychain E) (ios_keychain s)")
  case True
  with assms show ?thesis by (auto simp: store_item_internal_def)
next
  case acl: False
  obtain st s1 where a: "add_item E C key d bio s = (st, s1)" by fastforce
  note first = ios_add_item_law[OF assms(1,2) a]
  show ?thesis
  proof (cases "st = errSecDuplicateItem")
    case False
    with acl a first assms(3) show ?thesis
      by (auto simp: store_item_internal_def split: if_splits)
  next
    case dup: True
    with first have at1: "ios_at v I m c s1" by simp
    show ?thesis
    proof (cases bio)
      case False
      with dup a assms(3) have "update_item_internal E C key d s1 = (r, s')"
        by (simp add: store_item_internal_def)
      from ios_update_item_law[OF assms(1) at1 this] show ?thesis by (auto split: sum.splits)
    next
      case True
      obtain rd s2 where dl: "delete_item_internal E C key s1 = (rd, s2)" by fastforce
      note gone = ios_delete_item_law[OF assms(1) at1 dl]
      show ?thesis
      proof (cases rd)
        case (Inl e)
        with True dup acl a dl gone assms(3) show ?thesis by (auto simp: store_item_internal_def bindS_def)
      next
        case (Inr u)
        obtain st3 s3 where re: "add_item E C key d bio s2 = (st3, s3)" by fastforce
        from gone Inr have "ios_at v I (m((ic_service_name C, key) := None)) c s2" by simp
        from ios_add_item_law[OF assms(1) this re] True dup acl a dl re Inr assms(3) show ?thesis
          by (auto simp: store_item_internal_def bindS_def split: if_splits)
      qed
    qed
  qed
qed

text \<open>A failed store leaves the item when the keychain adds absent items without fail.\<close>

lemma store_item_atomic:
  assumes "keychain_ok (ie_keychain E) v I" "adds_when_absent (ie_keychain E) v I" "ios_at v I m c s"
    "store_item_internal E C key d bio s = (Inl e, s')"
  shows "ios_at v I m c s'"
proof (cases "bio \<and> \<not> kc_access_control (ie_keychain E) (ios_keychain s)")
  case True
  with assms show ?thesis by (auto simp: store_item_internal_def)
next
  case acl: False
  obtain st s1 where a: "add_item E C key d bio s = (st, s1)" by fastforce
  note first = ios_add_item_law[OF assms(1,3) a]
  show ?thesis
  proof (cases "bio \<and> st = errSecDuplicateItem")
    case False
    with acl a first assms(4) ios_update_item_law[OF assms(1), of m c s1 C key d "Inl e" s'] show ?thesis
      by (auto simp: store_item_internal_def split: if_splits)
  next
    case dup: True
    with first have at1: "ios_at v I m c s1" by simp
    obtain rd s2 where dl: "delete_item_internal E C key s1 = (rd, s2)" by fastforce
    note gone = ios_delete_item_law[OF assms(1) at1 dl]
    show ?thesis
    proof (cases rd)
      case (Inl e')
      with dup acl a dl gone assms(4) show ?thesis by (simp add: store_item_internal_def bindS_def)
    next
      case (Inr u)
      with gone have at2: "ios_at v I (m((ic_service_name C, key) := None)) c s2" by simp
      then have "I (ios_keychain s2)" "v (ios_keychain s2) (ic_service_name C, key) = None"
        by (auto simp: ios_at_def)
      from adds_when_absentD[OF assms(2) this, of d bio]
      have "fst (add_item E C key d bio s2) = errSecSuccess"
        by (simp add: add_item_def on_keychain_def case_prod_unfold)
      with dup acl a dl Inr assms(4) show ?thesis
        by (auto simp: store_item_internal_def bindS_def split: prod.splits if_splits)
    qed
  qed
qed

lemma ios_retrieve_item_law:
  assumes "keychain_ok (ie_keychain E) v I" "ios_at v I m c s" "retrieve_item_internal E C key bio s = (r, s')"
  shows "ios_at v I m c s' \<and> (\<forall>d. r = Inr d \<longrightarrow> (\<exists>b. m (ic_service_name C, key) = Some (d, b)))"
proof -
  obtain st x k' where a: "kc_copy (ie_keychain E) (ic_service_name C) key bio (ios_keychain s) = ((st, x), k')"
    by (metis prod.collapse)
  have I: "I (ios_keychain s)" using assms(2) by (simp add: ios_at_def)
  from keychain_copyD[OF assms(1) I a] assms(2,3) a show ?thesis
    by (auto simp: retrieve_item_internal_def on_keychain_def ios_at_def split: if_splits cf_result.splits)
qed

lemma ios_exists_law:
  assumes "keychain_ok (ie_keychain E) v I" "ios_at v I m c s" "exists_internal E C key s = (r, s')"
  shows "ios_at v I m c s' \<and> (\<forall>b. r = Inr b \<longrightarrow> b = (m (ic_service_name C, key) \<noteq> None))"
proof -
  obtain st k' where a: "kc_attributes (ie_keychain E) (ic_service_name C) key (ios_keychain s) = (st, k')"
    by fastforce
  have I: "I (ios_keychain s)" using assms(2) by (simp add: ios_at_def)
  from keychain_attributesD[OF assms(1) I a] assms(2,3) a show ?thesis
    by (auto simp: exists_internal_def on_keychain_def ios_at_def split: if_splits)
qed

lemma map_filter_Some: "List.map_filter (\<lambda>x. x) (map Some xs) = xs"
  by (induction xs) (simp_all add: List.map_filter_def)

lemma ios_list_keys_law:
  assumes "keychain_ok (ie_keychain E) v I" "ios_at v I m c s" "list_keys_internal E C s = (r, s')"
  shows "ios_at v I m c s'
    \<and> (\<forall>ks. r = Inr ks \<longrightarrow> distinct ks \<and> set ks = {a. m (ic_service_name C, a) \<noteq> None})"
proof -
  obtain st x k' where a: "kc_list (ie_keychain E) (ic_service_name C) (ios_keychain s) = ((st, x), k')"
    by (metis prod.collapse)
  have I: "I (ios_keychain s)" using assms(2) by (simp add: ios_at_def)
  from keychain_listD[OF assms(1) I a] assms(2,3) a show ?thesis
    by (auto simp: list_keys_internal_def on_keychain_def ios_at_def map_filter_Some split: if_splits)
qed

section \<open>The public operations\<close>

definition cache_wf :: "ios_config \<Rightarrow> item_cache \<Rightarrow> bool" where
  "cache_wf C c \<longleftrightarrow> distinct (map fst c) \<and> length c \<le> ios_max_cache_size C"

text \<open>\<open>c'\<close> is a well-formed cache that holds \<open>d\<close> at \<open>key\<close>, if anything, and else only what \<open>c\<close> held.\<close>

definition cached_after :: "ios_config \<Rightarrow> string \<Rightarrow> bytes \<Rightarrow> item_cache \<Rightarrow> item_cache \<Rightarrow> bool" where
  "cached_after C key d c c' \<longleftrightarrow> (cache_wf C c \<longrightarrow> cache_wf C c' \<and>
     (\<forall>k it. map_of c' k = Some it \<longrightarrow> (if k = key then ci_data it = d else map_of c k = Some it)))"

lemma length_update_le: "length (AList.update k x c) \<le> Suc (length c)"
  by (induction c) auto

lemma map_of_update: "map_of (AList.update k x c) = (map_of c)(k \<mapsto> x)"
  by (simp add: update_conv')

lemma add_to_cache_law:
  assumes "ic_enable_caching C"
  shows "cached_after C key d (ios_cache s) (ios_cache (ios_add_to_cache E C key d s))"
proof -
  let ?m = "ios_max_cache_size C"
  let ?c0 = "if length (ios_cache s) \<ge> ?m \<and> ?m > 0 then evict_oldest (ios_cache s) else ios_cache s"
  show ?thesis
  proof (cases "?m > 0")
    case False
    with assms have "ios_cache (ios_add_to_cache E C key d s) = ios_cache s"
      by (simp add: ios_add_to_cache_def ios_now_def Let_def)
    with False show ?thesis by (auto simp: cached_after_def cache_wf_def)
  next
    case True
    define it where "it = \<lparr>ci_data = d, ci_cached_at = ie_clock E (ios_ticks s), ci_ttl = ic_cache_ttl_seconds C\<rparr>"
    have c': "ios_cache (ios_add_to_cache E C key d s) = AList.update key it ?c0"
      using assms True by (auto simp: ios_add_to_cache_def ios_now_def Let_def it_def)
    have wf: "distinct (map fst ?c0)" "length ?c0 < ?m" if "cache_wf C (ios_cache s)"
      using that True length_evict[of "ios_cache s"] by (auto simp: cache_wf_def distinct_evict)
    show ?thesis
      using wf map_of_evict[of "ios_cache s"] length_update_le[of key it ?c0]
      unfolding cached_after_def cache_wf_def c'
      by (auto simp: distinct_update map_of_update it_def split: if_splits)
  qed
qed

lemma attempts_store_law:
  assumes "keychain_ok (ie_keychain E) v I" "ios_at v I m c s"
    "ios_attempts bio (store_item_internal E C key d bio) s = (r, s')"
  shows "case r of
      Inl e \<Rightarrow> ios_at v I m c s' \<or> bio \<and> ios_at v I (m((ic_service_name C, key) := None)) c s'
    | Inr _ \<Rightarrow> (\<exists>b. ios_at v I (m((ic_service_name C, key) \<mapsto> (d, b))) c s')"
proof (cases bio)
  case True
  with assms ios_store_item_law[OF assms(1,2), of C key d bio r s'] show ?thesis by (simp add: ios_attempts_def)
next
  case False
  have "case r of Inl e \<Rightarrow> ios_at v I m c s'
      | Inr _ \<Rightarrow> (\<exists>b. ios_at v I (m((ic_service_name C, key) \<mapsto> (d, b))) c s')"
  proof (rule ios_attempts_law[where J = "ios_at v I m c", OF _ assms(2,3)])
    fix s0 r0 s1 assume "ios_at v I m c s0" "store_item_internal E C key d bio s0 = (r0, s1)"
    from ios_store_item_law[OF assms(1) this] False
    show "case r0 of Inl e \<Rightarrow> ios_at v I m c s1
      | Inr _ \<Rightarrow> (\<exists>b. ios_at v I (m((ic_service_name C, key) \<mapsto> (d, b))) c s1)"
      by (auto split: sum.splits)
  qed
  then show ?thesis by (auto split: sum.splits)
qed

lemma attempts_store_atomic:
  assumes "keychain_ok (ie_keychain E) v I" "adds_when_absent (ie_keychain E) v I" "ios_at v I m c s"
    "ios_attempts bio (store_item_internal E C key d bio) s = (Inl e, s')"
  shows "ios_at v I m c s'"
proof -
  have "case (Inl e :: platform_error + unit) of Inl e \<Rightarrow> ios_at v I m c s' | Inr x \<Rightarrow> (\<lambda>x s. True) x s'"
  proof (rule ios_attempts_law[where J = "ios_at v I m c" and Q = "\<lambda>x s. True", OF _ assms(3,4)])
    fix s0 r0 s1 assume "ios_at v I m c s0" "store_item_internal E C key d bio s0 = (r0, s1)"
    with store_item_atomic[OF assms(1,2)]
    show "case r0 of Inl e \<Rightarrow> ios_at v I m c s1 | Inr x \<Rightarrow> True" by (cases r0) auto
  qed
  then show ?thesis by simp
qed

lemma attempts_retrieve_law:
  assumes "keychain_ok (ie_keychain E) v I" "ios_at v I m c s"
    "ios_attempts bio (retrieve_item_internal E C key bio) s = (r, s')"
  shows "ios_at v I m c s' \<and> (\<forall>d. r = Inr d \<longrightarrow> (\<exists>b. m (ic_service_name C, key) = Some (d, b)))"
proof -
  have "case r of Inl e \<Rightarrow> ios_at v I m c s'
      | Inr d \<Rightarrow> ios_at v I m c s' \<and> (\<exists>b. m (ic_service_name C, key) = Some (d, b))"
  proof (rule ios_attempts_law[where J = "ios_at v I m c", OF _ assms(2,3)])
    fix s0 r0 s1 assume "ios_at v I m c s0" "retrieve_item_internal E C key bio s0 = (r0, s1)"
    from ios_retrieve_item_law[OF assms(1) this]
    show "case r0 of Inl e \<Rightarrow> ios_at v I m c s1
      | Inr d \<Rightarrow> ios_at v I m c s1 \<and> (\<exists>b. m (ic_service_name C, key) = Some (d, b))"
      by (auto split: sum.splits)
  qed
  then show ?thesis by (auto split: sum.splits)
qed

text \<open>What follows the attempts of a store: the books, the cache and the log.\<close>

lemma store_secure_cases:
  assumes "ios_store_secure E C key d bio s = (r, s')"
  obtains (invalid) e where "r = Inl e" "s' = s"
  | (ran) s1 where "ios_attempts bio (store_item_internal E C key d bio) s = (r, s1)"
      "ios_keychain s' = ios_keychain s1"
      "if is_ok r \<and> ic_enable_caching C \<and> \<not> bio then cached_after C key d (ios_cache s1) (ios_cache s')
       else ios_cache s' = ios_cache s1"
proof (cases "ios_validate_key key")
  case (Inl e)
  with assms have "r = Inl e" "s' = s" by (simp_all add: ios_store_secure_def)
  then show ?thesis by (rule invalid)
next
  case key: (Inr u)
  show ?thesis
  proof (cases "ios_validate_data d")
    case (Inl e)
    with assms key have "r = Inl e" "s' = s" by (simp_all add: ios_store_secure_def)
    then show ?thesis by (rule invalid)
  next
    case (Inr u')
    obtain r1 s1 where a: "ios_attempts bio (store_item_internal E C key d bio) s = (r1, s1)" by fastforce
    let ?s3 = "ios_record_operation E (is_ok r1) bio
      (ios_count (if is_ok r1 then None
         else Some (''Store failed for key: '' @ safe_key_label (ie_hash E) key)) s1)"
    have "r = r1 \<and> ios_keychain s' = ios_keychain s1
        \<and> ios_cache s' = ios_cache (if is_ok r1 \<and> ic_enable_caching C \<and> \<not> bio
            then ios_add_to_cache E C key d ?s3 else ?s3)"
      using assms key Inr a by (auto simp: ios_store_secure_def Let_def split: if_splits)
    moreover have "cached_after C key d (ios_cache s1) (ios_cache (ios_add_to_cache E C key d ?s3))"
      if "ic_enable_caching C"
      using add_to_cache_law[OF that, of key d ?s3 E] by simp
    ultimately show ?thesis using a by (intro ran[of s1]) (auto split: if_splits)
  qed
qed

lemma ios_store_secure_law:
  assumes "keychain_ok (ie_keychain E) v I" "ios_at v I m c s" "ios_store_secure E C key d bio s = (r, s')"
  shows "case r of
      Inl e \<Rightarrow> ios_at v I m c s' \<or> bio \<and> ios_at v I (m((ic_service_name C, key) := None)) c s'
    | Inr _ \<Rightarrow> (\<exists>b c'. ios_at v I (m((ic_service_name C, key) \<mapsto> (d, b))) c' s'
        \<and> (if ic_enable_caching C \<and> \<not> bio then cached_after C key d c c' else c' = c))"
  using assms(3)
proof (cases rule: store_secure_cases)
  case (invalid e)
  with assms(2) show ?thesis by simp
next
  case (ran s1)
  from attempts_store_law[OF assms(1,2) ran(1)] ran(2,3) show ?thesis
    by (cases r) (auto simp: ios_at_def split: if_splits)
qed

lemma store_secure_atomic:
  assumes "keychain_ok (ie_keychain E) v I" "adds_when_absent (ie_keychain E) v I" "ios_at v I m c s"
    "ios_store_secure E C key d bio s = (Inl e, s')"
  shows "ios_at v I m c s'"
  using assms(4)
proof (cases rule: store_secure_cases)
  case (invalid e)
  with assms(3) show ?thesis by simp
next
  case (ran s1)
  from attempts_store_atomic[OF assms(1-3) ran(1)] ran(2,3) show ?thesis
    by (auto simp: ios_at_def)
qed

lemma retrieve_uncached_law:
  assumes "keychain_ok (ie_keychain E) v I" "ios_at v I m c s" "ios_retrieve_uncached E C key bio s = (r, s')"
  shows "\<exists>c'. ios_at v I m c' s' \<and> (\<forall>d. r = Inr d \<longrightarrow> (\<exists>b. m (ic_service_name C, key) = Some (d, b)))
    \<and> (c' = c \<or> ic_enable_caching C \<and> \<not> bio \<and> (\<exists>d. r = Inr d \<and> cached_after C key d c c'))"
proof (cases "ios_validate_key key")
  case (Inl e)
  with assms show ?thesis by (auto simp: ios_retrieve_uncached_def)
next
  case (Inr u)
  obtain r1 s1 where a: "ios_attempts bio (retrieve_item_internal E C key bio) s = (r1, s1)" by fastforce
  note law = attempts_retrieve_law[OF assms(1,2) a]
  define s2 where "s2 = ios_count (if is_ok r1 then None
         else Some (''Retrieve failed for key: '' @ safe_key_label (ie_hash E) key)) s1"
  have at2: "ios_at v I m c s2" using law by (simp add: s2_def ios_at_def)
  have "ios_retrieve_uncached E C key bio s = (r1, case r1 of
       Inr d \<Rightarrow> if ic_enable_caching C \<and> \<not> bio then ios_add_to_cache E C key d s2 else s2
     | Inl _ \<Rightarrow> s2)"
    by (simp only: ios_retrieve_uncached_def Inr bindS_pure sum.case a prod.case Let_def s2_def)
  with assms(3) have r: "r = r1" and s': "s' = (case r1 of
       Inr d \<Rightarrow> if ic_enable_caching C \<and> \<not> bio then ios_add_to_cache E C key d s2 else s2
     | Inl _ \<Rightarrow> s2)"
    by auto
  show ?thesis
  proof (cases "\<exists>d. r1 = Inr d \<and> ic_enable_caching C \<and> \<not> bio")
    case True
    then obtain d where d: "r1 = Inr d" "ic_enable_caching C" "\<not> bio" by blast
    have "cached_after C key d c (ios_cache s')"
      using add_to_cache_law[OF d(2), of key d s2 E] at2 s' d by (simp add: ios_at_def)
    moreover have "ios_at v I m (ios_cache s') s'" using at2 s' d by (simp add: ios_at_def)
    ultimately show ?thesis using law r d by blast
  next
    case False
    then have "s' = s2" using s' by (auto split: sum.splits if_splits)
    with at2 law r show ?thesis by blast
  qed
qed

lemma ios_retrieve_secure_law:
  assumes "keychain_ok (ie_keychain E) v I" "ios_at v I m c s" "ios_retrieve_secure E C key bio s = (r, s')"
  shows "(\<exists>it. ic_enable_caching C \<and> \<not> bio \<and> map_of c key = Some it \<and> r = Inr (ci_data it) \<and> ios_at v I m c s')
    \<or> (\<exists>c'. ios_at v I m c' s' \<and> (\<forall>d. r = Inr d \<longrightarrow> (\<exists>b. m (ic_service_name C, key) = Some (d, b)))
        \<and> (c' = c \<or> ic_enable_caching C \<and> \<not> bio \<and> (\<exists>d. r = Inr d \<and> cached_after C key d c c')))"
proof -
  obtain h s1 where h: "(if bio then (None, s) else ios_get_from_cache E C key s) = (h, s1)" by fastforce
  have at1: "ios_at v I m c s1"
    using h assms(2) get_cache_keychain[of E C key s h s1] by (auto simp: ios_at_def split: if_splits)
  show ?thesis
  proof (cases h)
    case None
    define s2 where "s2 = (if ic_enable_caching C
       then s1\<lparr>ios_metrics := (ios_metrics s1)\<lparr>im_cache_misses := im_cache_misses (ios_metrics s1) + 1\<rparr>\<rparr>
       else s1)"
    have "ios_at v I m c s2" using at1 by (simp add: s2_def ios_at_def)
    moreover have "ios_retrieve_uncached E C key bio s2 = (r, s')"
      using assms(3) h None by (simp add: ios_retrieve_secure_def s2_def)
    ultimately show ?thesis using retrieve_uncached_law[OF assms(1), of m c s2 C key bio r s'] by blast
  next
    case (Some d)
    with h have nb: "\<not> bio" and g: "ios_get_from_cache E C key s = (Some d, s1)" by (auto split: if_splits)
    from g have "ic_enable_caching C" "\<exists>it. map_of (ios_cache s) key = Some it \<and> ci_data it = d"
      by (auto simp: ios_get_from_cache_def ios_now_def split: if_splits option.splits)
    moreover have "r = Inr d" "ios_at v I m c s'"
      using assms(3) h Some at1 by (auto simp: ios_retrieve_secure_def ios_at_def)
    ultimately show ?thesis using nb assms(2) by (auto simp: ios_at_def)
  qed
qed

lemma ios_delete_secure_law:
  assumes "keychain_ok (ie_keychain E) v I" "ios_at v I m c s" "ios_delete_secure E C key s = (r, s')"
  shows "\<exists>c'. (c' = c \<or> c' = AList.delete key c)
    \<and> (case r of Inl e \<Rightarrow> ios_at v I m c' s'
        | Inr _ \<Rightarrow> ios_at v I (m((ic_service_name C, key) := None)) c' s'
            \<and> (ic_enable_caching C \<longrightarrow> c' = AList.delete key c))"
proof (cases "ios_validate_key key")
  case (Inl e)
  with assms have "r = Inl e" "s' = s" by (simp_all add: ios_delete_secure_def)
  with assms(2) show ?thesis by auto
next
  case (Inr u)
  obtain r1 s1 where a: "delete_item_internal E C key s = (r1, s1)" by fastforce
  define s2 where "s2 = ios_log_event E C KeychainAccess
       (''Deleted item: '' @ safe_key_label (ie_hash E) key) 0 (ios_remove_from_cache C key s1)"
  have r: "r = r1" "s' = s2"
    using assms(3) Inr a by (simp_all add: ios_delete_secure_def s2_def)
  have s2: "ios_keychain s2 = ios_keychain s1"
      "ios_cache s2 = (if ic_enable_caching C then AList.delete key (ios_cache s1) else ios_cache s1)"
    by (simp_all add: s2_def ios_remove_from_cache_def)
  have "ios_cache s1 = c" using ios_delete_item_law[OF assms(1,2) a] by (auto simp: ios_at_def split: sum.splits)
  with s2 ios_delete_item_law[OF assms(1,2) a] show ?thesis
    unfolding r by (intro exI[of _ "ios_cache s2"]) (auto simp: ios_at_def split: sum.splits)
qed

end
