(* ===== verification/Ios_Properties.thy ===== *)
theory Ios_Properties
  imports Ios_Contract
begin

text \<open>
  The properties of the iOS backend and the reference keychain in which they are applied: an
  association list from service and account to the data and the access control flag.
\<close>

section \<open>The reference keychain\<close>

type_synonym ref_items = "((string \<times> string) \<times> (bytes \<times> bool)) list"

definition ref_keychain :: "ref_items keychain" where
  "ref_keychain =
     \<lparr>kc_access_control = (\<lambda>_. True),
      kc_add = (\<lambda>g a d bio k. if map_of k (g, a) = None then (errSecSuccess, AList.update (g, a) (d, bio) k)
                else (errSecDuplicateItem, k)),
      kc_update = (\<lambda>g a d k. (case map_of k (g, a) of
           None \<Rightarrow> (errSecItemNotFound, k)
         | Some (_, b) \<Rightarrow> (errSecSuccess, AList.update (g, a) (d, b) k))),
      kc_copy = (\<lambda>g a p k. (case map_of k (g, a) of
           None \<Rightarrow> ((errSecItemNotFound, CfNull), k)
         | Some (d, _) \<Rightarrow> ((errSecSuccess, CfValue d), k))),
      kc_attributes = (\<lambda>g a k. (if map_of k (g, a) = None then errSecItemNotFound else errSecSuccess, k)),
      kc_delete = (\<lambda>g a k. if map_of k (g, a) = None then (errSecItemNotFound, k)
                   else (errSecSuccess, AList.delete (g, a) k)),
      kc_list = (\<lambda>g k. let as = map (snd \<circ> fst) (filter (\<lambda>e. fst (fst e) = g) k)
                 in ((if as = [] then (errSecItemNotFound, CfNull)
                      else (errSecSuccess, CfValue (map Some as))), k))\<rparr>"

definition ref_inv :: "ref_items \<Rightarrow> bool" where
  "ref_inv k \<longleftrightarrow> distinct (map fst k)"

lemma ref_accounts:
  assumes "ref_inv k"
  shows "distinct (map (snd \<circ> fst) (filter (\<lambda>e. fst (fst e) = g) k))"
    "set (map (snd \<circ> fst) (filter (\<lambda>e. fst (fst e) = g) k)) = {a. map_of k (g, a) \<noteq> None}"
proof -
  have "distinct (map fst (filter (\<lambda>e. fst (fst e) = g) k))"
    using assms by (simp add: ref_inv_def distinct_map_filter)
  then show "distinct (map (snd \<circ> fst) (filter (\<lambda>e. fst (fst e) = g) k))"
    by (auto simp: distinct_map inj_on_def)
  have "map_of k (g, a) \<noteq> None \<longleftrightarrow> (g, a) \<in> fst ` set k" for a
    by (simp add: map_of_eq_None_iff)
  then show "set (map (snd \<circ> fst) (filter (\<lambda>e. fst (fst e) = g) k)) = {a. map_of k (g, a) \<noteq> None}"
    by (force simp: image_iff)
qed

lemma ref_keychain_ok: "keychain_ok ref_keychain map_of ref_inv"
  unfolding keychain_ok_def
proof (intro conjI, goal_cases)
  case 1
  show ?case
    by (auto simp: ref_keychain_def ref_inv_def status_defs distinct_update update_conv' dest: map_of_SomeD
        split: if_splits)
next
  case 2
  show ?case
    by (fastforce simp: ref_keychain_def ref_inv_def status_defs distinct_update update_conv' split: option.splits)
next
  case 3
  show ?case by (auto simp: ref_keychain_def status_defs split: option.splits)
next
  case 4
  show ?case by (auto simp: ref_keychain_def status_defs split: if_splits)
next
  case 5
  show ?case
    by (auto simp: ref_keychain_def ref_inv_def status_defs distinct_delete delete_conv' split: if_splits)
next
  case 6
  show ?case
  proof (intro allI impI)
    fix g k st x k' assume I: "ref_inv k" and l: "kc_list ref_keychain g k = ((st, x), k')"
    define as where "as = map (snd \<circ> fst) (filter (\<lambda>e. fst (fst e) = g) k)"
    have "k' = k" "(st, x) = (if as = [] then (errSecItemNotFound, CfNull) else (errSecSuccess, CfValue (map Some as)))"
      using l unfolding ref_keychain_def as_def Let_def by (auto split: if_splits)
    moreover have "distinct as" "set as = {a. map_of k (g, a) \<noteq> None}"
      unfolding as_def by (rule ref_accounts[OF I])+
    moreover from this have "as = [] \<Longrightarrow> map_of k (g, a) = None" for a by (cases "map_of k (g, a)") auto
    ultimately show "ref_inv k' \<and> map_of k' = map_of k \<and> (st = errSecItemNotFound \<longrightarrow> (\<forall>a. map_of k (g, a) = None))
        \<and> (st = errSecSuccess \<longrightarrow> (\<exists>as. x = CfValue (map Some as) \<and> distinct as
             \<and> set as = {a. map_of k (g, a) \<noteq> None}))"
      using I by (cases "as = []") auto
  qed
qed

lemma ref_adds: "adds_when_absent ref_keychain map_of ref_inv"
  by (simp add: adds_when_absent_def ref_keychain_def)

definition sample_ios_env :: "ref_items ios_env" where
  "sample_ios_env = \<lparr>ie_keychain = ref_keychain, ie_clock = (\<lambda>n. word_of_nat (1000 + n)), ie_hash = (\<lambda>_. 0)\<rparr>"

definition sample_ios :: "ref_items \<Rightarrow> ref_items ios" where
  "sample_ios = ios_new \<lparr>is_total_operations = 0, is_successful_operations = 0, is_failed_operations = 0,
     is_biometric_authentications = 0, is_cache_hits = 0, is_last_operation_time = 0\<rparr>"

lemma sample_ios_env_simps [simp]:
  "ie_keychain sample_ios_env = ref_keychain" "ie_clock sample_ios_env n = word_of_nat (1000 + n)"
  "ie_hash sample_ios_env k = 0"
  by (simp_all add: sample_ios_env_def)

section \<open>The storage contract\<close>

definition ios_view ::
    "('k \<Rightarrow> string \<times> string \<Rightarrow> (bytes \<times> bool) option) \<Rightarrow> ios_config \<Rightarrow> 'k ios \<Rightarrow> string \<Rightarrow> bytes option" where
  "ios_view v C s a = map_option fst (v (ios_keychain s) (ic_service_name C, a))"

lemma ios_at_now: "I (ios_keychain s) \<Longrightarrow> ios_at v I (v (ios_keychain s)) (ios_cache s) s"
  by (simp add: ios_at_def)

lemma ios_storage_backend:
  assumes "keychain_ok (ie_keychain E) v I" "adds_when_absent (ie_keychain E) v I"
    "\<not> ic_enable_caching C"
  shows "storage_backend (ios_backend E C) (ios_view v C) (\<lambda>s. I (ios_keychain s))"
proof (standard, goal_cases)
  case (1 s k d bio r s')
  then have st: "ios_store_secure E C k d (requires_bio bio) s = (r, s')" by (simp add: ios_backend_def)
  from ios_store_secure_law[OF assms(1) ios_at_now[of I s v, OF 1(1)] st]
       store_secure_atomic[OF assms(1,2) ios_at_now[of I s v, OF 1(1)], of C k d "requires_bio bio"] st
  show ?case by (cases r) (fastforce simp: ios_at_def ios_view_def)+
next
  case (2 s k bio r s')
  then have "ios_retrieve_secure E C k (requires_bio bio) s = (r, s')" by (simp add: ios_backend_def)
  from ios_retrieve_secure_law[OF assms(1) ios_at_now[of I s v, OF 2(1)] this] assms(3)
  show ?case by (fastforce simp: ios_at_def ios_view_def)
next
  case (3 s k r s')
  then have "ios_delete_secure E C k s = (r, s')" by (simp add: ios_backend_def)
  from ios_delete_secure_law[OF assms(1) ios_at_now[of I s v, OF 3(1)] this]
  show ?case by (cases r) (auto simp: ios_at_def ios_view_def)
next
  case (4 s k r s')
  show ?case
  proof (cases "ios_validate_key k")
    case (Inl e)
    with 4 have "r = Inl e" "s' = s" by (simp_all add: ios_backend_def)
    with 4(1) show ?thesis by simp
  next
    case (Inr u)
    with 4 have "exists_internal E C k s = (r, s')" by (simp add: ios_backend_def)
    from ios_exists_law[OF assms(1) ios_at_now[of I s v, OF 4(1)] this] show ?thesis
      by (auto simp: ios_at_def ios_view_def)
  qed
next
  case (5 s r s')
  then have "list_keys_internal E C s = (r, s')" by (simp add: ios_backend_def)
  from ios_list_keys_law[OF assms(1) ios_at_now[of I s v, OF 5(1)] this] show ?case
    by (auto simp: ios_at_def ios_view_def dom_def)
qed

interpretation ios: storage_backend "ios_backend sample_ios_env ios_production_config"
  "ios_view map_of ios_production_config" "\<lambda>s. ref_inv (ios_keychain s)"
  by (rule ios_storage_backend) (simp_all add: ref_keychain_ok ref_adds ios_production_config_def)

text \<open>C17: With the cache off, as in production, and over a keychain that behaves as documented and
  adds absent items without fail, the iOS backend meets the storage contract: each of its
  operations has exactly its documented effect on the stored map or fails without any, for
  every key, datum and biometric requirement, through retries, overwrites and re-additions.\<close>

theorem ios_meets_contract:
  assumes "keychain_ok (ie_keychain E) v I" "adds_when_absent (ie_keychain E) v I"
    "\<not> ic_enable_caching C"
  shows "storage_backend (ios_backend E C) (ios_view v C) (\<lambda>s. I (ios_keychain s))"
  using assms by (rule ios_storage_backend)

theorem ios_meets_contract_witness:
  "storage_backend (ios_backend sample_ios_env ios_production_config)
     (ios_view map_of ios_production_config) (\<lambda>s. ref_inv (ios_keychain s))"
  by (rule ios_meets_contract) (simp_all add: ref_keychain_ok ref_adds ios_production_config_def)

section \<open>Reads with the cache on\<close>

datatype ios_call =
    CallStore string bytes bool
  | CallRetrieve string bool
  | CallDelete string
  | CallExists string
  | CallListKeys
  | CallWipe
  | CallClearCache
  | CallUsage

fun ios_exec :: "'k ios_env \<Rightarrow> ios_config \<Rightarrow> ios_call \<Rightarrow> 'k ios \<Rightarrow> 'k ios" where
  "ios_exec E C (CallStore k d bio) s = snd (ios_store_secure E C k d bio s)"
| "ios_exec E C (CallRetrieve k bio) s = snd (ios_retrieve_secure E C k bio s)"
| "ios_exec E C (CallDelete k) s = snd (ios_delete_secure E C k s)"
| "ios_exec E C (CallExists k) s = snd (be_exists (ios_backend E C) k s)"
| "ios_exec E C CallListKeys s = snd (list_keys_internal E C s)"
| "ios_exec E C CallWipe s = snd (ios_wipe_all E C s)"
| "ios_exec E C CallClearCache s = ios_clear_cache s"
| "ios_exec E C CallUsage s = snd (ios_usage_stats E C s)"

definition ios_run :: "'k ios_env \<Rightarrow> ios_config \<Rightarrow> ios_call list \<Rightarrow> 'k ios \<Rightarrow> 'k ios" where
  "ios_run E C cs s = fold (ios_exec E C) cs s"

text \<open>A well-formed cache that agrees with the keychain \<open>m\<close> on one key.\<close>

definition agrees ::
    "ios_config \<Rightarrow> string \<Rightarrow> (string \<times> string \<Rightarrow> (bytes \<times> bool) option) \<Rightarrow> item_cache \<Rightarrow> bool" where
  "agrees C key m c \<longleftrightarrow> cache_wf C c
     \<and> (\<forall>it. map_of c key = Some it \<longrightarrow> (\<exists>b. m (ic_service_name C, key) = Some (ci_data it, b)))"

definition ios_coherent ::
    "('k \<Rightarrow> string \<times> string \<Rightarrow> (bytes \<times> bool) option) \<Rightarrow> ('k \<Rightarrow> bool) \<Rightarrow> ios_config \<Rightarrow> string \<Rightarrow> 'k ios \<Rightarrow> bool" where
  "ios_coherent v I C key s \<longleftrightarrow> I (ios_keychain s) \<and> agrees C key (v (ios_keychain s)) (ios_cache s)"

lemma coherentI: "ios_at v I m c s \<Longrightarrow> agrees C key m c \<Longrightarrow> ios_coherent v I C key s"
  by (auto simp: ios_at_def ios_coherent_def)

lemma coherentD: "ios_coherent v I C key s \<Longrightarrow> ios_at v I (v (ios_keychain s)) (ios_cache s) s
    \<and> agrees C key (v (ios_keychain s)) (ios_cache s)"
  by (auto simp: ios_at_def ios_coherent_def)

lemma agrees_delete: "agrees C key m c \<Longrightarrow> agrees C key m (AList.delete k c)"
  using length_delete_le[of k c]
  by (auto simp: agrees_def cache_wf_def distinct_delete delete_conv' split: if_splits)

lemma agrees_delete_same: "agrees C key m c \<Longrightarrow> agrees C key (m((ic_service_name C, k) := None)) (AList.delete k c)"
  using length_delete_le[of k c]
  by (auto simp: agrees_def cache_wf_def distinct_delete delete_conv' split: if_splits)

lemma agrees_put:
  "agrees C key m c \<Longrightarrow> cached_after C k d c c' \<Longrightarrow> agrees C key (m((ic_service_name C, k) \<mapsto> (d, b))) c'"
  by (fastforce simp: agrees_def cached_after_def)

lemma agrees_get:
  "agrees C key m c \<Longrightarrow> cached_after C k d c c' \<Longrightarrow> m (ic_service_name C, k) = Some (d, b) \<Longrightarrow> agrees C key m c'"
  unfolding agrees_def cached_after_def by (metis (no_types))

lemma agrees_other:
  "agrees C key m c \<Longrightarrow> k \<noteq> key \<Longrightarrow> agrees C key (m((ic_service_name C, k) := x)) c"
  by (auto simp: agrees_def)

text \<open>Without a cache nothing can disagree.\<close>

lemma agrees_no_cache:
  "agrees C key m c \<Longrightarrow> \<not> ic_enable_caching C \<Longrightarrow> agrees C key m' c"
  by (auto simp: agrees_def cache_wf_def ios_max_cache_size_def)

lemma coherent_store:
  assumes "keychain_ok (ie_keychain E) v I" "ios_coherent v I C key s" "k = key \<longrightarrow> \<not> bio"
  shows "ios_coherent v I C key (snd (ios_store_secure E C k d bio s))"
proof -
  obtain r s' where st: "ios_store_secure E C k d bio s = (r, s')" by fastforce
  note at = coherentD[OF assms(2)]
  show ?thesis
  proof (cases r)
    case (Inl e)
    with ios_store_secure_law[OF assms(1) conjunct1[OF at] st] at assms(3) show ?thesis
      by (auto simp: st intro: coherentI agrees_other)
  next
    case (Inr u)
    with ios_store_secure_law[OF assms(1) conjunct1[OF at] st] obtain b c'
      where at': "ios_at v I ((v (ios_keychain s))((ic_service_name C, k) \<mapsto> (d, b))) c' s'"
        and c': "if ic_enable_caching C \<and> \<not> bio then cached_after C k d (ios_cache s) c' else c' = ios_cache s"
      by auto
    have "agrees C key ((v (ios_keychain s))((ic_service_name C, k) \<mapsto> (d, b))) c'"
    proof (cases "ic_enable_caching C \<and> \<not> bio")
      case True
      with c' at show ?thesis by (auto intro: agrees_put)
    next
      case False
      with c' at assms(3) show ?thesis by (auto intro: agrees_other agrees_no_cache)
    qed
    with at' show ?thesis by (simp add: st coherentI)
  qed
qed

lemma coherent_retrieve:
  assumes "keychain_ok (ie_keychain E) v I" "ios_coherent v I C key s"
    "ios_retrieve_secure E C k bio s = (r, s')"
  shows "ios_coherent v I C key s'
    \<and> (k = key \<longrightarrow> (\<forall>d. r = Inr d \<longrightarrow> (\<exists>b. v (ios_keychain s') (ic_service_name C, key) = Some (d, b))))"
proof -
  note at = coherentD[OF assms(2)]
  from ios_retrieve_secure_law[OF assms(1) conjunct1[OF at] assms(3)] show ?thesis
  proof (elim disjE exE conjE)
    fix it assume h: "map_of (ios_cache s) k = Some it" "r = Inr (ci_data it)"
      and at': "ios_at v I (v (ios_keychain s)) (ios_cache s) s'"
    from at' have same: "v (ios_keychain s') = v (ios_keychain s)" by (simp add: ios_at_def)
    have "k = key \<longrightarrow> (\<exists>b. v (ios_keychain s) (ic_service_name C, key) = Some (ci_data it, b))"
      using conjunct2[OF at] h(1) by (auto simp: agrees_def)
    with at' at h(2) show ?thesis by (auto simp: same intro: coherentI)
  next
    fix c' assume at': "ios_at v I (v (ios_keychain s)) c' s'"
      and d: "\<forall>d. r = Inr d \<longrightarrow> (\<exists>b. v (ios_keychain s) (ic_service_name C, k) = Some (d, b))"
      and "c' = ios_cache s"
    moreover from at' have same: "v (ios_keychain s') = v (ios_keychain s)" by (simp add: ios_at_def)
    ultimately show ?thesis using at by (auto simp: same intro: coherentI)
  next
    fix c' d' assume at': "ios_at v I (v (ios_keychain s)) c' s'"
      and d: "\<forall>d. r = Inr d \<longrightarrow> (\<exists>b. v (ios_keychain s) (ic_service_name C, k) = Some (d, b))"
      and c': "r = Inr d'" "cached_after C k d' (ios_cache s) c'"
    from at' have same: "v (ios_keychain s') = v (ios_keychain s)" by (simp add: ios_at_def)
    from d c'(1) obtain b where "v (ios_keychain s) (ic_service_name C, k) = Some (d', b)" by auto
    with at c'(2) have "agrees C key (v (ios_keychain s)) c'" by (auto intro: agrees_get)
    with at' d show ?thesis by (auto simp: same intro: coherentI)
  qed
qed

lemma coherent_delete:
  assumes "keychain_ok (ie_keychain E) v I" "ios_coherent v I C key s"
  shows "ios_coherent v I C key (snd (ios_delete_secure E C k s))"
proof -
  obtain r s' where dl: "ios_delete_secure E C k s = (r, s')" by fastforce
  note at = coherentD[OF assms(2)]
  from ios_delete_secure_law[OF assms(1) conjunct1[OF at] dl] obtain c'
    where c': "c' = ios_cache s \<or> c' = AList.delete k (ios_cache s)"
      and law: "case r of Inl e \<Rightarrow> ios_at v I (v (ios_keychain s)) c' s'
        | Inr _ \<Rightarrow> ios_at v I ((v (ios_keychain s))((ic_service_name C, k) := None)) c' s'
            \<and> (ic_enable_caching C \<longrightarrow> c' = AList.delete k (ios_cache s))" by blast
  show ?thesis
  proof (cases r)
    case (Inl e)
    with law c' at show ?thesis by (auto simp: dl intro: coherentI agrees_delete)
  next
    case (Inr u)
    show ?thesis
    proof (cases "ic_enable_caching C")
      case True
      with Inr law at show ?thesis by (auto simp: dl intro: coherentI agrees_delete_same)
    next
      case False
      from c' at have "agrees C key (v (ios_keychain s)) c'" by (auto intro: agrees_delete)
      with False Inr law show ?thesis by (auto simp: dl intro: coherentI agrees_no_cache)
    qed
  qed
qed

lemma coherent_wipe_loop:
  "keychain_ok (ie_keychain E) v I \<Longrightarrow> ios_coherent v I C key s \<Longrightarrow> ios_coherent v I C key (ios_wipe_loop E C ks s)"
  by (induction ks arbitrary: s) (simp_all add: coherent_delete)

lemma coherent_usage_loop:
  "keychain_ok (ie_keychain E) v I \<Longrightarrow> ios_coherent v I C key s \<Longrightarrow>
     ios_usage_loop E C ks a s = (x, s') \<Longrightarrow> ios_coherent v I C key s'"
proof (induction ks arbitrary: a s)
  case (Cons k ks)
  obtain r s1 where r: "ios_retrieve_secure E C k False s = (r, s1)" by fastforce
  with coherent_retrieve[OF Cons.prems(1,2) r] Cons show ?case by (cases r) auto
qed simp

lemma coherent_list:
  "keychain_ok (ie_keychain E) v I \<Longrightarrow> ios_coherent v I C key s \<Longrightarrow> list_keys_internal E C s = (r, s') \<Longrightarrow>
     ios_coherent v I C key s'"
  using ios_list_keys_law[of E v I "v (ios_keychain s)" "ios_cache s" s C r s'] coherentD[of v I C key s]
  by (auto intro: coherentI)

lemma coherent_exec:
  assumes ok: "keychain_ok (ie_keychain E) v I" and co: "ios_coherent v I C key s"
    and no_bio: "\<forall>d. call \<noteq> CallStore key d True"
  shows "ios_coherent v I C key (ios_exec E C call s)"
proof (cases call)
  case (CallStore k d bio)
  with coherent_store[OF ok co, of k bio d] no_bio show ?thesis by auto
next
  case (CallRetrieve k bio)
  obtain r s' where "ios_retrieve_secure E C k bio s = (r, s')" by fastforce
  with coherent_retrieve[OF ok co this] CallRetrieve show ?thesis by simp
next
  case (CallDelete k)
  with coherent_delete[OF ok co] show ?thesis by simp
next
  case (CallExists k)
  obtain r s' where e: "exists_internal E C k s = (r, s')" by fastforce
  note at = coherentD[OF co]
  from ios_exists_law[OF ok conjunct1[OF at] e] at have "ios_coherent v I C key s'" by (auto intro: coherentI)
  with co e show ?thesis by (simp add: CallExists ios_backend_def split: sum.split)
next
  case CallListKeys
  obtain r s' where "list_keys_internal E C s = (r, s')" by fastforce
  with coherent_list[OF ok co this] CallListKeys show ?thesis by simp
next
  case CallWipe
  obtain r s' where l: "list_keys_internal E C s = (r, s')" by fastforce
  note co' = coherent_list[OF ok co l]
  have "ios_coherent v I C key (ios_clear_cache t)" if "ios_coherent v I C key t" for t :: "'a ios"
    using that by (simp add: ios_coherent_def agrees_def cache_wf_def ios_clear_cache_def)
  with co' l coherent_wipe_loop[OF ok co'] show ?thesis
    by (cases r) (simp_all add: CallWipe ios_wipe_all_def bindS_def)
next
  case CallClearCache
  with co show ?thesis by (simp add: ios_coherent_def agrees_def cache_wf_def ios_clear_cache_def)
next
  case CallUsage
  obtain r s' where l: "list_keys_internal E C s = (r, s')" by fastforce
  note co' = coherent_list[OF ok co l]
  show ?thesis
  proof (cases r)
    case (Inl e)
    with co' l show ?thesis by (simp add: CallUsage ios_usage_stats_def bindS_def)
  next
    case (Inr ks)
    obtain x s'' where "ios_usage_loop E C ks (0, 0) s' = (x, s'')" by fastforce
    with coherent_usage_loop[OF ok co' this] l Inr show ?thesis
      by (simp add: CallUsage ios_usage_stats_def bindS_def split: prod.split)
  qed
qed

lemma coherent_run:
  assumes "keychain_ok (ie_keychain E) v I" "\<forall>d. CallStore key d True \<notin> set cs" "ios_coherent v I C key s"
  shows "ios_coherent v I C key (ios_run E C cs s)"
  using assms(2,3) unfolding ios_run_def
proof (induction cs arbitrary: s)
  case (Cons call cs)
  have "\<forall>d. call \<noteq> CallStore key d True" using Cons.prems(1) by auto
  from coherent_exec[OF assms(1) Cons.prems(2) this] Cons show ?case by simp
qed simp

text \<open>C21: A key that is never stored behind biometry is always read back as the keychain holds it,
  cache or no cache: after any history of stores, reads, deletions, listings, wipes and
  statistics over any keys, a successful read of it returns the current item, and the
  cache holds at most its configured number of entries.\<close>

theorem ios_reads_current:
  assumes "keychain_ok (ie_keychain E) v I" "I k0" "\<forall>d. CallStore key d True \<notin> set cs"
    "ios_retrieve_secure E C key bio (ios_run E C cs (ios_new stats k0)) = (Inr d, s')"
  shows "ios_view v C s' key = Some d \<and> length (ios_cache s') \<le> ios_max_cache_size C"
proof -
  have "ios_coherent v I C key (ios_new stats k0)"
    using assms(2) by (simp add: ios_coherent_def agrees_def cache_wf_def ios_new_def)
  from coherent_retrieve[OF assms(1) coherent_run[OF assms(1,3) this] assms(4)] show ?thesis
    by (auto simp: ios_view_def ios_coherent_def agrees_def cache_wf_def)
qed

lemma with_retry_first: "f s = (Inr x, s') \<Longrightarrow> with_retry n f s = (Inr x, s')"
  by (cases n) simp_all

lemma k_valid: "ios_validate_key ''k'' = Inr ()"
  by (simp add: ios_validate_key_def key_char_def)

lemmas ios_eval = ios_run_def ios_store_secure_def ios_retrieve_secure_def ios_retrieve_uncached_def
  k_valid ios_validate_data_def ios_max_item_size_def ios_attempts_def store_item_internal_def
  add_item_def on_keychain_def retrieve_item_internal_def update_item_internal_def ref_keychain_def
  status_defs Let_def ios_new_def with_retry_first

theorem ios_reads_current_witness:
  "\<exists>d s'. ios_retrieve_secure sample_ios_env ios_development_config ''k'' True
       (ios_run sample_ios_env ios_development_config [CallStore ''k'' [1] False] (sample_ios [])) = (Inr d, s')
     \<and> ios_view map_of ios_development_config s' ''k'' = Some d
     \<and> length (ios_cache s') \<le> ios_max_cache_size ios_development_config"
proof -
  let ?s = "ios_run sample_ios_env ios_development_config [CallStore ''k'' [1] False] (sample_ios [])"
  have "is_ok (fst (ios_retrieve_secure sample_ios_env ios_development_config ''k'' True ?s))"
    by (simp add: ios_eval sample_ios_def)
  then obtain d s' where r: "ios_retrieve_secure sample_ios_env ios_development_config ''k'' True ?s = (Inr d, s')"
    by (metis is_ok_iff prod.collapse)
  have "ios_view map_of ios_development_config s' ''k'' = Some d
     \<and> length (ios_cache s') \<le> ios_max_cache_size ios_development_config"
    by (rule ios_reads_current[OF _ _ _ r[unfolded sample_ios_def], where I = ref_inv])
      (simp_all add: ref_keychain_ok ref_inv_def)
  with r show ?thesis by blast
qed

section \<open>Key rotation\<close>

lemma no_cache_at: "\<not> ic_enable_caching C \<Longrightarrow> cache_wf C c \<Longrightarrow> c = []"
  by (simp add: cache_wf_def ios_max_cache_size_def)

text \<open>A backup entry carries the datum the keychain holds.\<close>

definition faithful :: "ios_config \<Rightarrow> (string \<times> string \<Rightarrow> (bytes \<times> bool) option) \<Rightarrow>
    (string \<times> bytes \<times> bool) list \<Rightarrow> bool" where
  "faithful C m b \<longleftrightarrow> (\<forall>(k, d, bio) \<in> set b. map_option fst (m (ic_service_name C, k)) = Some d)"

lemma ios_read_loop_law:
  assumes "keychain_ok (ie_keychain E) v I" "\<not> ic_enable_caching C" "ios_at v I m c s"
    "ios_read_loop E C bio ks s = ((b, f), s')"
  shows "ios_at v I m c s' \<and> faithful C m b"
  using assms(3,4)
proof (induction ks arbitrary: s b f)
  case (Cons k ks)
  obtain r s1 where r: "ios_retrieve_secure E C k bio s = (r, s1)" by fastforce
  obtain b1 f1 where l: "ios_read_loop E C bio ks s1 = ((b1, f1), s')"
    using Cons.prems(2) r by (auto split: prod.splits)
  from ios_retrieve_secure_law[OF assms(1) Cons.prems(1) r] assms(2)
  have "ios_at v I m c s1" "\<forall>d. r = Inr d \<longrightarrow> (\<exists>x. m (ic_service_name C, k) = Some (d, x))" by auto
  with Cons.IH[OF _ l] Cons.prems(2) r l show ?case
    by (cases r) (auto simp: faithful_def)
qed (simp add: faithful_def)

lemma ios_restore_loop_law:
  assumes "keychain_ok (ie_keychain E) v I" "adds_when_absent (ie_keychain E) v I" "\<not> ic_enable_caching C"
    "ios_at v I m c s" "faithful C m b" "ios_restore_loop E C b s = (n, s')"
  shows "\<exists>m'. ios_at v I m' c s' \<and> (\<forall>k. map_option fst (m' k) = map_option fst (m k))"
  using assms(4-6)
proof (induction b arbitrary: s m n)
  case (Cons e b)
  obtain k d bio where e: "e = (k, d, bio)" by (cases e)
  obtain r s1 where st: "ios_store_secure E C k d bio s = (r, s1)" by fastforce
  obtain n1 where l: "ios_restore_loop E C b s1 = (n1, s')"
    using Cons.prems(3) st by (auto simp: e split: prod.splits)
  show ?case
  proof (cases r)
    case (Inl x)
    with st store_secure_atomic[OF assms(1,2) Cons.prems(1)] have "ios_at v I m c s1" by auto
    from Cons.IH[OF this _ l] Cons.prems(2) show ?thesis by (auto simp: faithful_def)
  next
    case (Inr u)
    with ios_store_secure_law[OF assms(1) Cons.prems(1) st] assms(3) obtain x
      where at1: "ios_at v I (m((ic_service_name C, k) \<mapsto> (d, x))) c s1" by auto
    define m1 where "m1 = m((ic_service_name C, k) \<mapsto> (d, x))"
    have same: "map_option fst (m1 y) = map_option fst (m y)" for y
      using Cons.prems(2) by (auto simp: m1_def e faithful_def)
    then have "faithful C m1 b" using Cons.prems(2) by (simp add: faithful_def)
    from Cons.IH[OF at1[folded m1_def] this l] same show ?thesis by auto
  qed
qed auto



section \<open>Where a failed store has an effect\<close>

text \<open>C22: Overwriting an item behind biometry deletes it before the new item is added, so when the
  second addition is refused the store fails and the old item is gone.\<close>

theorem ios_failed_overwrite_loses_item:
  assumes "keychain_ok (ie_keychain E) v I" "I (ios_keychain s)"
    "ios_validate_key key = Inr ()" "ios_validate_data d = Inr ()"
    "kc_access_control (ie_keychain E) (ios_keychain s)"
    "kc_add (ie_keychain E) (ic_service_name C) key d True (ios_keychain s) = (errSecDuplicateItem, k1)"
    "kc_delete (ie_keychain E) (ic_service_name C) key k1 = (errSecSuccess, k2)"
    "kc_add (ie_keychain E) (ic_service_name C) key d True k2 = (st, k3)" "st \<noteq> errSecSuccess"
    "ios_store_secure E C key d True s = (r, s')"
  shows "r = Inl (map_keychain_error st) \<and> ios_view v C s key \<noteq> None \<and> ios_view v C s' key = None"
proof -
  from keychain_addD[OF assms(1,2,6)] have i1: "I k1" "v (ios_keychain s) (ic_service_name C, key) \<noteq> None"
    by (auto simp: status_defs)
  from keychain_deleteD[OF assms(1) i1(1) assms(7)] have i2: "I k2" "v k2 (ic_service_name C, key) = None" by auto
  from keychain_addD[OF assms(1) i2(1) assms(8)] assms(9) i2(2) have i3: "v k3 (ic_service_name C, key) = None"
    by auto
  have "ios_attempts True (store_item_internal E C key d True) s = (Inl (map_keychain_error st), s\<lparr>ios_keychain := k3\<rparr>)"
    using assms(5-9)
    by (simp add: ios_attempts_def store_item_internal_def add_item_def on_keychain_def delete_item_internal_def bindS_def)
  with assms(3,4,10) i1 i3 show ?thesis
    by (auto simp: ios_store_secure_def Let_def ios_view_def)
qed

text \<open>A keychain without room: an absent item cannot be added.\<close>

definition full_keychain :: "ref_items keychain" where
  "full_keychain = ref_keychain\<lparr>kc_add := (\<lambda>g a d bio k.
     (if map_of k (g, a) = None then - 34018 else errSecDuplicateItem, k))\<rparr>"

lemma full_simps [simp]:
  "kc_access_control full_keychain k" "kc_update full_keychain = kc_update ref_keychain"
  "kc_copy full_keychain = kc_copy ref_keychain"
  "kc_attributes full_keychain = kc_attributes ref_keychain" "kc_delete full_keychain = kc_delete ref_keychain"
  "kc_list full_keychain = kc_list ref_keychain"
  "kc_add full_keychain = (\<lambda>g a d bio k. (if map_of k (g, a) = None then - 34018 else errSecDuplicateItem, k))"
  by (simp_all add: full_keychain_def ref_keychain_def)

lemma full_keychain_ok: "keychain_ok full_keychain map_of ref_inv"
  unfolding keychain_ok_def full_simps
proof (rule conjI, goal_cases)
  case 1
  show ?case by (simp add: status_defs)
next
  case 2
  show ?case by (rule ref_keychain_ok[unfolded keychain_ok_def, THEN conjunct2])
qed

lemma ref_delete: "kc_delete ref_keychain g a k =
    (if map_of k (g, a) = None then (errSecItemNotFound, k) else (errSecSuccess, AList.delete (g, a) k))"
  by (simp add: ref_keychain_def)

theorem ios_failed_overwrite_loses_item_witness:
  "\<exists>r s'. ios_store_secure (sample_ios_env\<lparr>ie_keychain := full_keychain\<rparr>) ios_production_config ''k'' [2] True
       (sample_ios [((''app.provii.wallet.sdk'', ''k''), ([1], True))]) = (r, s')
     \<and> r = Inl (map_keychain_error (- 34018)) \<and> ios_view map_of ios_production_config s' ''k'' = None"
proof -
  let ?E = "sample_ios_env\<lparr>ie_keychain := full_keychain\<rparr>"
  let ?s = "sample_ios [((''app.provii.wallet.sdk'', ''k''), ([1], True))]"
  obtain r s' where r: "ios_store_secure ?E ios_production_config ''k'' [2] True ?s = (r, s')" by fastforce
  have "r = Inl (map_keychain_error (- 34018)) \<and> ios_view map_of ios_production_config ?s ''k'' \<noteq> None
      \<and> ios_view map_of ios_production_config s' ''k'' = None"
    by (rule ios_failed_overwrite_loses_item[OF _ _ _ _ _ _ _ _ _ r, where I = ref_inv
          and ?k1.0 = "[((''app.provii.wallet.sdk'', ''k''), ([1], True))]" and ?k2.0 = "[]" and ?k3.0 = "[]"])
      (simp_all add: full_keychain_ok ref_inv_def sample_ios_def ios_new_def k_valid ios_validate_data_def
        ios_max_item_size_def ref_delete status_defs ios_production_config_def)
  with r show ?thesis by blast
qed

section \<open>The cache and biometry\<close>

lemma on_keychain_cache: "on_keychain f s = (x, s') \<Longrightarrow> ios_cache s' = ios_cache s"
  by (auto simp: on_keychain_def split: prod.splits)

lemma add_item_cache: "add_item E C key d bio s = (x, s') \<Longrightarrow> ios_cache s' = ios_cache s"
  unfolding add_item_def by (rule on_keychain_cache)

lemma delete_item_cache: "delete_item_internal E C key s = (x, s') \<Longrightarrow> ios_cache s' = ios_cache s"
  by (auto simp: delete_item_internal_def dest: on_keychain_cache split: prod.splits)

lemma store_item_cache:
  assumes "store_item_internal E C key d True s = (r, s')"
  shows "ios_cache s' = ios_cache s"
proof (cases "kc_access_control (ie_keychain E) (ios_keychain s)")
  case False
  with assms show ?thesis by (auto simp: store_item_internal_def)
next
  case True
  obtain st s1 where a: "add_item E C key d True s = (st, s1)" by fastforce
  obtain rd s2 where dl: "delete_item_internal E C key s1 = (rd, s2)" by fastforce
  obtain st3 s3 where re: "add_item E C key d True s2 = (st3, s3)" by fastforce
  from True a dl re assms have "s' = s1 \<or> s' = s2 \<or> s' = s3"
    by (auto simp: store_item_internal_def bindS_def split: if_splits sum.splits)
  with add_item_cache[OF a] delete_item_cache[OF dl] add_item_cache[OF re] show ?thesis by auto
qed

text \<open>Storing an item behind biometry leaves an earlier cache entry of the same key in place, so as
  long as that entry is fresh a read without biometry returns the old item, and asks neither
  the user nor the keychain.\<close>

theorem ios_biometric_store_leaves_cache:
  assumes "ic_enable_caching C" "ios_store_secure E C key d True s = (Inr (), s1)"
    "map_of (ios_cache s) key = Some it" "still_fresh (ie_clock E (ios_ticks s1)) it"
  shows "\<exists>s2. ios_retrieve_secure E C key False s1 = (Inr (ci_data it), s2) \<and> ios_keychain s2 = ios_keychain s1"
proof -
  have "ios_cache s1 = ios_cache s"
    using assms(2)
  proof (cases rule: store_secure_cases)
    case (ran t)
    have "ios_cache t = ios_cache s"
      using ran(1) by (auto simp: ios_attempts_def dest: store_item_cache)
    with ran(3) show ?thesis by simp
  qed simp
  with assms show ?thesis
    by (auto simp: ios_retrieve_secure_def ios_get_from_cache_def ios_now_def)
qed

theorem ios_biometric_store_leaves_cache_witness:
  "\<exists>s1 s2. ios_store_secure sample_ios_env ios_development_config ''k'' [2] True
       (ios_run sample_ios_env ios_development_config [CallStore ''k'' [1] False] (sample_ios [])) = (Inr (), s1)
     \<and> ios_retrieve_secure sample_ios_env ios_development_config ''k'' False s1 = (Inr [1], s2)"
proof -
  let ?C = ios_development_config
  let ?s = "ios_run sample_ios_env ?C [CallStore ''k'' [1] False] (sample_ios [])"
  let ?it = "\<lparr>ci_data = [1], ci_cached_at = 1001, ci_ttl = 300\<rparr>"
  obtain r s1 where st: "ios_store_secure sample_ios_env ?C ''k'' [2] True ?s = (r, s1)" by fastforce
  have c: "map_of (ios_cache ?s) ''k'' = Some ?it"
    by (simp add: ios_eval sample_ios_def ios_development_config_def ios_add_to_cache_def ios_now_def
        ios_record_operation_def ios_count_def ios_log_event_def ios_max_cache_size_def)
  have "r = Inr ()" "still_fresh (ie_clock sample_ios_env (ios_ticks s1)) ?it"
    using st
    by (auto simp: ios_eval sample_ios_def ios_development_config_def ios_add_to_cache_def ios_now_def
        ios_record_operation_def ios_count_def ios_log_event_def ios_max_cache_size_def
        delete_item_internal_def bindS_Inr[of "delete_item_internal E C k" for E C k]
        still_fresh_def sat_sub_def sat_mul_def)
  with ios_biometric_store_leaves_cache[OF _ _ c, of ?C sample_ios_env "[2]" s1] st show ?thesis
    by (auto simp: ios_development_config_def)
qed

section \<open>The retry budget\<close>

text \<open>The state before attempt \<open>i\<close>, and whether its outcome ends the loop.\<close>

fun attempt_state :: "('s, platform_error, 'a) op \<Rightarrow> 's \<Rightarrow> nat \<Rightarrow> 's" where
  "attempt_state f s 0 = s"
| "attempt_state f s (Suc i) = attempt_state f (snd (f s)) i"

definition settled :: "(platform_error + 'a) \<times> 's \<Rightarrow> bool" where
  "settled out \<longleftrightarrow> (case fst out of Inl e \<Rightarrow> is_non_retryable_error e | Inr _ \<Rightarrow> True)"

lemma upt_shift: "[0..<Suc j] = 0 # map Suc [0..<j]"
  by (simp only: upt_rec[of 0 "Suc j"] map_Suc_upt) simp

lemma with_retry_settles:
  "\<exists>j\<le>n. with_retry n f s = f (attempt_state f s j)
     \<and> list_all (\<lambda>i. \<not> settled (f (attempt_state f s i))) [0..<j]
     \<and> (j = n \<or> settled (f (attempt_state f s j)))"
proof (induction n arbitrary: s)
  case 0
  show ?case by simp
next
  case (Suc n)
  show ?case
  proof (cases "settled (f s)")
    case True
    then have "with_retry (Suc n) f s = f s"
      by (cases "f s") (auto simp: settled_def split: sum.splits)
    with True show ?thesis by (intro exI[of _ 0]) simp
  next
    case False
    obtain j where "j \<le> n" "with_retry n f (snd (f s)) = f (attempt_state f (snd (f s)) j)"
      "list_all (\<lambda>i. \<not> settled (f (attempt_state f (snd (f s)) i))) [0..<j]"
      "j = n \<or> settled (f (attempt_state f (snd (f s)) j))"
      using Suc.IH[of "snd (f s)"] by blast
    moreover from False have "with_retry (Suc n) f s = with_retry n f (snd (f s))"
      by (cases "f s") (auto simp: settled_def split: sum.splits)
    ultimately show ?thesis using False
      by (intro exI[of _ "Suc j"]) (simp add: upt_shift list.pred_map comp_def del: upt_Suc map_Suc_upt)
  qed
qed

text \<open>The retry loop ends after at most four attempts, and after a single one where biometry is
  asked for; the outcome is that of the first attempt that succeeds or fails with a refused
  or cancelled authentication, which is never repeated, and else that of the last.\<close>

theorem ios_retry_budget:
  "\<exists>j \<le> (if bio then 0 else 3).
     ios_attempts bio f s = f (attempt_state f s j)
   \<and> list_all (\<lambda>i. \<not> settled (f (attempt_state f s i))) [0..<j]
   \<and> (bio \<or> j = 3 \<or> settled (f (attempt_state f s j)))"
proof (cases bio)
  case False
  then have a: "ios_attempts bio f s = with_retry 3 f s"
    by (simp add: ios_attempts_def max_keychain_retries_def)
  from with_retry_settles[of 3 f s] False show ?thesis unfolding a by simp
qed (simp add: ios_attempts_def)

end
