(* ===== verification/Store_Android.thy ===== *)
theory Store_Android
  imports Backend_Support
begin

text \<open>
  The Android backend (\<open>store-android\<close>): the trait's operations over the Java keystore
  bridge, with the biometric prompt, the operation cache, the metrics, the audit log, the
  hardware check, the wipe and the rotation of the master key. The Java side is the
  parameter \<open>keystore_bridge\<close>; each call stands for one \<open>jni_safe_call\<close> with the conversion of
  its arguments and result, and yields its value or the error that function makes of a JNI
  error or exception. The clock is a sequence of readings and is not set back during an
  operation; counters are natural numbers, none of which reaches 2 ^ 64.
\<close>

section \<open>The Java side\<close>

text \<open>
  \<open>kb_attach\<close> is \<open>get_jni_env\<close>; \<open>kb_instance\<close> finds the bridge class and its singleton. The
  device calls answer what \<open>assess_hardware_features\<close> asks.
\<close>

type_synonym ('b, 'a) jni = "'b \<Rightarrow> (platform_error + 'a) \<times> 'b"

record 'b keystore_bridge =
  kb_attach :: "('b, unit) jni"
  kb_instance :: "('b, unit) jni"
  kb_ensure_master_key :: "bool \<Rightarrow> bool \<Rightarrow> ('b, bool) jni"
  kb_initialise :: "bool \<Rightarrow> bool \<Rightarrow> ('b, unit) jni"
  kb_store :: "string \<Rightarrow> bytes \<Rightarrow> bool \<Rightarrow> bool \<Rightarrow> ('b, bool) jni"
  kb_retrieve :: "string \<Rightarrow> bool \<Rightarrow> ('b, bytes option) jni"
  kb_delete :: "string \<Rightarrow> ('b, bool) jni"
  kb_list :: "('b, string list option) jni"
  kb_authenticate :: "string \<Rightarrow> int \<Rightarrow> ('b, bool) jni"
  kb_rotate :: "('b, bool) jni"
  kb_api_level :: "('b, int) jni"
  kb_hardware_keystore :: "('b, bool) jni"
  kb_has_strongbox :: "('b, bool) jni"
  kb_can_authenticate :: "bool \<Rightarrow> ('b, int) jni"
  kb_patch_level :: "('b, string) jni"

section \<open>State and configuration\<close>

record android_config =
  ac_require_biometrics :: bool
  ac_use_strongbox :: bool
  ac_enable_audit_logging :: bool
  ac_max_failed_attempts :: u32
  ac_lockout_duration :: u32
  ac_enable_caching :: bool
  ac_cache_ttl :: u64
  ac_allow_software_keystore :: bool

definition android_config_default :: android_config where
  "android_config_default =
     \<lparr>ac_require_biometrics = True, ac_use_strongbox = True, ac_enable_audit_logging = True,
      ac_max_failed_attempts = 5, ac_lockout_duration = 300, ac_enable_caching = False,
      ac_cache_ttl = 600, ac_allow_software_keystore = False\<rparr>"

definition android_production_config :: android_config where
  "android_production_config =
     \<lparr>ac_require_biometrics = True, ac_use_strongbox = True, ac_enable_audit_logging = True,
      ac_max_failed_attempts = 3, ac_lockout_duration = 300, ac_enable_caching = False,
      ac_cache_ttl = 0, ac_allow_software_keystore = False\<rparr>"

definition android_development_config :: android_config where
  "android_development_config =
     \<lparr>ac_require_biometrics = False, ac_use_strongbox = False, ac_enable_audit_logging = True,
      ac_max_failed_attempts = 10, ac_lockout_duration = 60, ac_enable_caching = True,
      ac_cache_ttl = 300, ac_allow_software_keystore = True\<rparr>"

record device_profile =
  dp_has_strongbox :: bool
  dp_has_hardware_keystore :: bool
  dp_has_biometric_hardware :: bool
  dp_security_patch_level :: string
  dp_api_level :: int
  dp_last_assessed :: u64

datatype android_event =
  KeystoreAccess | AndBiometricAuth | HardwareFeatureCheck | AndFailedOperation | ConfigurationChange

text \<open>The risk levels are 0 for low, 1 for medium, 2 for high and 3 for critical.\<close>

record android_metrics =
  am_operations_count :: nat
  am_cache_hits :: nat
  am_cache_misses :: nat
  am_biometric_prompts :: nat
  am_strongbox_operations :: nat
  am_errors_count :: nat
  am_average_operation_time_ms :: nat
  am_last_error :: "string option"

record android_statistics =
  as_total_operations :: nat
  as_successful_operations :: nat
  as_failed_operations :: nat
  as_biometric_authentications :: nat
  as_hardware_operations :: nat
  as_last_operation_time :: u64

record 'b android =
  and_java :: 'b
  and_connected :: bool
  and_profile :: "device_profile option"
  and_cache :: item_cache
  and_metrics :: android_metrics
  and_audit :: "android_event security_event list"
  and_stats :: android_statistics
  and_ticks :: nat

record 'b android_env =
  ae_bridge :: "'b keystore_bridge"
  ae_clock :: "nat \<Rightarrow> u64"

definition and_new :: "android_statistics \<Rightarrow> 'b \<Rightarrow> 'b android" where
  "and_new stats b =
     \<lparr>and_java = b, and_connected = False, and_profile = None, and_cache = [],
      and_metrics = \<lparr>am_operations_count = 0, am_cache_hits = 0, am_cache_misses = 0,
        am_biometric_prompts = 0, am_strongbox_operations = 0, am_errors_count = 0,
        am_average_operation_time_ms = 0, am_last_error = None\<rparr>,
      and_audit = [], and_stats = stats, and_ticks = 0\<rparr>"

definition and_now :: "'b android_env \<Rightarrow> 'b android \<Rightarrow> u64 \<times> 'b android" where
  "and_now E s = (ae_clock E (and_ticks s), s\<lparr>and_ticks := and_ticks s + 1\<rparr>)"

definition on_java :: "('b, 'a) jni \<Rightarrow> ('b android, platform_error, 'a) op" where
  "on_java f s = (case f (and_java s) of (r, b) \<Rightarrow> (r, s\<lparr>and_java := b\<rparr>))"

section \<open>Logging and counting\<close>

definition and_log_event ::
    "'b android_env \<Rightarrow> android_config \<Rightarrow> android_event \<Rightarrow> string \<Rightarrow> nat \<Rightarrow> 'b android \<Rightarrow> 'b android" where
  "and_log_event E C ty details risk s =
     (if \<not> ac_enable_audit_logging C then s
      else case and_now E s of (t, s') \<Rightarrow>
        s'\<lparr>and_audit := push_event \<lparr>se_type = ty, se_timestamp = t, se_details = details, se_risk = risk\<rparr>
             (and_audit s')\<rparr>)"

definition and_record_operation :: "'b android_env \<Rightarrow> bool \<Rightarrow> bool \<Rightarrow> bool \<Rightarrow> 'b android \<Rightarrow> 'b android" where
  "and_record_operation E success bio hardware s =
     (case and_now E s of (t, s') \<Rightarrow>
        let st = and_stats s'
        in s'\<lparr>and_stats := st\<lparr>as_total_operations := as_total_operations st + 1,
             as_successful_operations := as_successful_operations st + (if success then 1 else 0),
             as_failed_operations := as_failed_operations st + (if success then 0 else 1),
             as_biometric_authentications := as_biometric_authentications st + (if bio then 1 else 0),
             as_hardware_operations := as_hardware_operations st + (if hardware then 1 else 0),
             as_last_operation_time := t\<rparr>\<rparr>)"

definition and_update_metrics ::
    "'b android_env \<Rightarrow> bool \<Rightarrow> bool \<Rightarrow> bool \<Rightarrow> u64 \<Rightarrow> 'b android \<Rightarrow> 'b android" where
  "and_update_metrics E success bio strongbox time_ms s =
     (let m = and_metrics s
      in and_record_operation E success bio strongbox
           (s\<lparr>and_metrics := m\<lparr>am_operations_count := am_operations_count m + 1,
                am_errors_count := am_errors_count m + (if success then 0 else 1),
                am_biometric_prompts := am_biometric_prompts m + (if bio then 1 else 0),
                am_strongbox_operations := am_strongbox_operations m + (if strongbox then 1 else 0),
                am_average_operation_time_ms := (am_average_operation_time_ms m + unat time_ms) div 2\<rparr>\<rparr>))"

definition and_update_cache_metrics :: "bool \<Rightarrow> 'b android \<Rightarrow> 'b android" where
  "and_update_cache_metrics hit s =
     (let m = and_metrics s
      in s\<lparr>and_metrics := (if hit then m\<lparr>am_cache_hits := am_cache_hits m + 1\<rparr>
             else m\<lparr>am_cache_misses := am_cache_misses m + 1\<rparr>)\<rparr>)"

section \<open>Validation and the cache\<close>

definition and_validate_key :: "string \<Rightarrow> platform_error + unit" where
  "and_validate_key key =
     (if key = [] then Inl (PStorage ''Key cannot be empty'')
      else if length key > 255 then Inl (PStorage ''Key too long (max 255 characters)'')
      else if \<not> list_all key_char key then Inl (PStorage ''Key contains invalid characters'')
      else Inr ())"

definition and_max_item_size :: nat where "and_max_item_size = 2 * 1024 * 1024"

definition and_validate_data :: "bytes \<Rightarrow> platform_error + unit" where
  "and_validate_data d =
     (if d = [] then Inl (PStorage ''Data cannot be empty'')
      else if length d > and_max_item_size
      then Inl (PStorage (''Data too large (max '' @ show_nat and_max_item_size @ '' bytes)''))
      else Inr ())"

definition and_get_from_cache :: "'b android_env \<Rightarrow> string \<Rightarrow> 'b android \<Rightarrow> bytes option \<times> 'b android" where
  "and_get_from_cache E key s =
     (case map_of (and_cache s) key of
        None \<Rightarrow> (None, s)
      | Some it \<Rightarrow> (case and_now E s of (t, s') \<Rightarrow> (if still_fresh t it then Some (ci_data it) else None, s')))"

definition and_add_to_cache ::
    "'b android_env \<Rightarrow> android_config \<Rightarrow> string \<Rightarrow> bytes \<Rightarrow> 'b android \<Rightarrow> 'b android" where
  "and_add_to_cache E C key d s =
     (if \<not> ac_enable_caching C then s
      else let c = (if length (and_cache s) \<ge> 100 then evict_oldest (and_cache s) else and_cache s)
           in case and_now E (s\<lparr>and_cache := c\<rparr>) of (t, s') \<Rightarrow>
             s'\<lparr>and_cache := AList.update key \<lparr>ci_data = d, ci_cached_at = t, ci_ttl = ac_cache_ttl C\<rparr>
                  (and_cache s')\<rparr>)"

definition and_remove_from_cache :: "string \<Rightarrow> 'b android \<Rightarrow> 'b android" where
  "and_remove_from_cache key s = s\<lparr>and_cache := AList.delete key (and_cache s)\<rparr>"

definition and_clear_cache :: "'b android \<Rightarrow> 'b android" where
  "and_clear_cache s = s\<lparr>and_cache := []\<rparr>"

section \<open>The bridge and the prompt\<close>

definition get_keystore_bridge :: "'b android_env \<Rightarrow> android_config \<Rightarrow> ('b android, platform_error, unit) op" where
  "get_keystore_bridge E C s =
     (if and_connected s then (Inr (), s)
      else bindS (on_java (kb_instance (ae_bridge E))) (\<lambda>_.
           bindS (on_java (kb_has_strongbox (ae_bridge E))) (\<lambda>sb.
           bindS (on_java (kb_ensure_master_key (ae_bridge E) sb (ac_require_biometrics C))) (\<lambda>ok.
           if \<not> ok then pureS (Inl (PStorage ''Failed to prepare master key''))
           else bindS (on_java (kb_initialise (ae_bridge E) (ac_require_biometrics C) sb)) (\<lambda>_ s'.
             (Inr (), s'\<lparr>and_connected := True\<rparr>))))) s)"

definition authenticate_biometric ::
    "'b android_env \<Rightarrow> android_config \<Rightarrow> string \<Rightarrow> ('b android, platform_error, bool) op" where
  "authenticate_biometric E C reason =
     bindS (get_keystore_bridge E C) (\<lambda>_.
     bindS (on_java (kb_authenticate (ae_bridge E) reason 30000)) (\<lambda>ok s.
       (Inr ok, if ok then and_log_event E C AndBiometricAuth ''biometric OK'' 0 s
                else and_log_event E C AndFailedOperation ''biometric FAIL'' 2 s)))"

text \<open>The fail-closed use of the prompt; the result is whether biometry was used.\<close>

definition and_gate ::
    "'b android_env \<Rightarrow> android_config \<Rightarrow> bool \<Rightarrow> string \<Rightarrow> ('b android, platform_error, bool) op" where
  "and_gate E C require_bio reason =
     (if require_bio
      then bindS (authenticate_biometric E C reason) (\<lambda>ok.
        pureS (if \<not> ok then Inl (PBiometricFailed ''Biometric authentication rejected or timed out'')
               else Inr True))
      else pureS (Inr False))"

definition and_uses_strongbox :: "android_config \<Rightarrow> 'b android \<Rightarrow> bool" where
  "and_uses_strongbox C s \<longleftrightarrow>
     (case and_profile s of Some p \<Rightarrow> dp_has_strongbox p | None \<Rightarrow> False) \<and> ac_use_strongbox C"

section \<open>The public operations\<close>

text \<open>\<open>let start = current_timestamp()\<close> at the head of an operation.\<close>

definition and_timed :: "'b android_env \<Rightarrow> (u64 \<Rightarrow> ('b android, 'e, 'a) op) \<Rightarrow> ('b android, 'e, 'a) op" where
  "and_timed E f s = (case and_now E s of (start, s') \<Rightarrow> f start s')"

definition and_commit_store ::
    "'b android_env \<Rightarrow> android_config \<Rightarrow> string \<Rightarrow> bytes \<Rightarrow> bool \<Rightarrow> bool \<Rightarrow> u64 \<Rightarrow>
      ('b android, platform_error, unit) op" where
  "and_commit_store E C key d bio used_bio start s =
     (let used_sb = and_uses_strongbox C s
      in bindS (on_java (kb_store (ae_bridge E) key d used_sb bio)) (\<lambda>ok s'.
           if \<not> ok
           then (Inl (PStorage ''Keystore error''), and_log_event E C AndFailedOperation ''storeSecure failed'' 1 s')
           else case and_now E s' of (t, s'') \<Rightarrow>
             (Inr (), and_update_metrics E True used_bio used_sb (t - start) s'')) s)"

definition and_store_secure ::
    "'b android_env \<Rightarrow> android_config \<Rightarrow> string \<Rightarrow> bytes \<Rightarrow> bool \<Rightarrow> ('b android, platform_error, unit) op" where
  "and_store_secure E C key d bio =
     and_timed E (\<lambda>start.
      bindS (on_java (kb_attach (ae_bridge E))) (\<lambda>_.
      bindS (pureS (and_validate_key key)) (\<lambda>_.
      bindS (pureS (and_validate_data d)) (\<lambda>_.
      bindS (and_gate E C bio ''Authenticate to store credentials'') (\<lambda>used_bio.
      bindS (get_keystore_bridge E C) (\<lambda>_.
        and_commit_store E C key d bio used_bio start))))))"

definition and_finish_retrieve ::
    "'b android_env \<Rightarrow> android_config \<Rightarrow> string \<Rightarrow> bool \<Rightarrow> bool \<Rightarrow> u64 \<Rightarrow> bytes \<Rightarrow>
      ('b android, platform_error, bytes) op" where
  "and_finish_retrieve E C key bio used_bio start d s =
     (let s1 = (if ac_enable_caching C \<and> \<not> bio then and_add_to_cache E C key d s else s)
      in case and_now E s1 of (t, s2) \<Rightarrow>
        (Inr d, and_update_metrics E True used_bio (and_uses_strongbox C s1) (t - start) s2))"

definition and_retrieve_uncached ::
    "'b android_env \<Rightarrow> android_config \<Rightarrow> string \<Rightarrow> bool \<Rightarrow> u64 \<Rightarrow> ('b android, platform_error, bytes) op" where
  "and_retrieve_uncached E C key bio start =
     bindS (pureS (and_validate_key key)) (\<lambda>_.
     bindS (and_gate E C bio ''Authenticate to access credentials'') (\<lambda>used_bio.
     bindS (get_keystore_bridge E C) (\<lambda>_.
     bindS (on_java (kb_retrieve (ae_bridge E) key bio)) (\<lambda>arr.
     bindS (pureS (ok_or (PStorage ''NotFound'') arr)) (\<lambda>d.
       and_finish_retrieve E C key bio used_bio start d)))))"

definition and_retrieve_cached ::
    "'b android_env \<Rightarrow> android_config \<Rightarrow> string \<Rightarrow> bool \<Rightarrow> u64 \<Rightarrow> ('b android, platform_error, bytes) op" where
  "and_retrieve_cached E C key bio start s =
     (if ac_enable_caching C \<and> \<not> bio
      then (case and_get_from_cache E key s of
          (Some d, s') \<Rightarrow> (Inr d, and_update_cache_metrics True s')
        | (None, s') \<Rightarrow> and_retrieve_uncached E C key bio start (and_update_cache_metrics False s'))
      else and_retrieve_uncached E C key bio start s)"

definition and_retrieve_secure ::
    "'b android_env \<Rightarrow> android_config \<Rightarrow> string \<Rightarrow> bool \<Rightarrow> ('b android, platform_error, bytes) op" where
  "and_retrieve_secure E C key bio =
     and_timed E (\<lambda>start.
       bindS (on_java (kb_attach (ae_bridge E))) (\<lambda>_. and_retrieve_cached E C key bio start))"

text \<open>The boolean that \<open>deleteSecure\<close> returns is not looked at.\<close>

definition and_delete_secure :: "'b android_env \<Rightarrow> android_config \<Rightarrow> string \<Rightarrow> ('b android, platform_error, unit) op" where
  "and_delete_secure E C key =
     bindS (on_java (kb_attach (ae_bridge E))) (\<lambda>_.
     bindS (pureS (and_validate_key key)) (\<lambda>_.
     bindS (get_keystore_bridge E C) (\<lambda>_.
     bindS (on_java (kb_delete (ae_bridge E) key)) (\<lambda>_ s.
       (Inr (), if ac_enable_caching C then and_remove_from_cache key s else s)))))"

definition and_list_keys :: "'b android_env \<Rightarrow> android_config \<Rightarrow> ('b android, platform_error, string list) op" where
  "and_list_keys E C =
     bindS (on_java (kb_attach (ae_bridge E))) (\<lambda>_.
     bindS (get_keystore_bridge E C) (\<lambda>_.
     bindS (on_java (kb_list (ae_bridge E))) (\<lambda>arr.
       pureS (Inr (case arr of None \<Rightarrow> [] | Some ks \<Rightarrow> ks)))))"

definition and_exists :: "'b android_env \<Rightarrow> android_config \<Rightarrow> string \<Rightarrow> ('b android, platform_error, bool) op" where
  "and_exists E C key =
     bindS (pureS (and_validate_key key)) (\<lambda>_.
     bindS (and_list_keys E C) (\<lambda>keys. pureS (Inr (list_ex (\<lambda>k. k = key) keys))))"

definition android_backend :: "'b android_env \<Rightarrow> android_config \<Rightarrow> 'b android backend" where
  "android_backend E C =
     \<lparr>be_store = (\<lambda>key d bio. and_store_secure E C key d (requires_bio bio)),
      be_retrieve = (\<lambda>key bio. and_retrieve_secure E C key (requires_bio bio)),
      be_delete = and_delete_secure E C,
      be_exists = and_exists E C,
      be_list_keys = and_list_keys E C\<rparr>"

section \<open>Construction\<close>

definition check_biometric_hardware :: "'b android_env \<Rightarrow> ('b android, platform_error, bool) op" where
  "check_biometric_hardware E =
     bindS (on_java (kb_api_level (ae_bridge E))) (\<lambda>api.
     bindS (on_java (kb_can_authenticate (ae_bridge E) (api \<ge> 30))) (\<lambda>r. pureS (Inr (r = 0))))"

definition assess_hardware_features :: "'b android_env \<Rightarrow> ('b android, platform_error, device_profile) op" where
  "assess_hardware_features E s =
     (case and_now E s of (t, s1) \<Rightarrow>
      bindS (on_java (kb_api_level (ae_bridge E))) (\<lambda>api.
      bindS (on_java (kb_hardware_keystore (ae_bridge E))) (\<lambda>hw.
      bindS (on_java (kb_has_strongbox (ae_bridge E))) (\<lambda>sb.
      bindS (check_biometric_hardware E) (\<lambda>bio.
      bindS (on_java (kb_patch_level (ae_bridge E))) (\<lambda>patch.
        pureS (Inr \<lparr>dp_has_strongbox = sb, dp_has_hardware_keystore = hw, dp_has_biometric_hardware = bio,
          dp_security_patch_level = patch, dp_api_level = api, dp_last_assessed = t\<rparr>)))))) s1)"

definition validate_hardware_requirements :: "device_profile \<Rightarrow> android_config \<Rightarrow> platform_error + unit" where
  "validate_hardware_requirements p C =
     (if dp_api_level p < 29 then Inl (PStorage ''Android version too old (minimum API 29 required)'')
      else if \<not> dp_has_hardware_keystore p \<and> \<not> ac_allow_software_keystore C
      then Inl (PStorage (''Hardware keystore required but not available. Set allow_software_keystore=true'' @
                  '' to override (NOT RECOMMENDED for production).''))
      else Inr ())"

definition and_initialize :: "'b android_env \<Rightarrow> android_config \<Rightarrow> ('b android, platform_error, unit) op" where
  "and_initialize E C =
     bindS (on_java (kb_attach (ae_bridge E))) (\<lambda>_.
     bindS (assess_hardware_features E) (\<lambda>p.
     bindS (pureS (validate_hardware_requirements p C)) (\<lambda>_ s.
       (Inr (), s\<lparr>and_profile := Some p\<rparr>))))"

definition and_new_with_config ::
    "'b android_env \<Rightarrow> android_config \<Rightarrow> android_statistics \<Rightarrow> 'b \<Rightarrow> platform_error + 'b android" where
  "and_new_with_config E C stats b =
     (case and_initialize E C (and_new stats b) of (Inr _, s) \<Rightarrow> Inr s | (Inl e, _) \<Rightarrow> Inl e)"

section \<open>Maintenance\<close>

definition and_self_test :: "'b android_env \<Rightarrow> android_config \<Rightarrow> ('b android, platform_error, unit) op" where
  "and_self_test E C =
     bindS (and_store_secure E C ''provii_test_connectivity'' (bytes_of_string ''test_data_12345'') False) (\<lambda>_.
     bindS (and_retrieve_secure E C ''provii_test_connectivity'' False) (\<lambda>d.
     if d \<noteq> bytes_of_string ''test_data_12345'' then pureS (Inl (PStorage ''Keystore test data mismatch''))
     else bindS (and_delete_secure E C ''provii_test_connectivity'') (\<lambda>_ s.
       case and_retrieve_secure E C ''provii_test_connectivity'' False s of (r, s') \<Rightarrow>
         (if r = Inl (PStorage ''NotFound'') then Inr () else Inl (PStorage ''Keystore delete test failed''), s'))))"

fun and_wipe_loop :: "'b android_env \<Rightarrow> android_config \<Rightarrow> string list \<Rightarrow> 'b android \<Rightarrow> 'b android" where
  "and_wipe_loop E C [] s = s"
| "and_wipe_loop E C (k # ks) s = and_wipe_loop E C ks (snd (and_delete_secure E C k s))"

definition and_wipe_all :: "'b android_env \<Rightarrow> android_config \<Rightarrow> ('b android, platform_error, unit) op" where
  "and_wipe_all E C =
     bindS (and_list_keys E C) (\<lambda>keys s. (Inr (), and_clear_cache (and_wipe_loop E C keys s)))"

fun and_read_loop ::
    "'b android_env \<Rightarrow> android_config \<Rightarrow> bool \<Rightarrow> string list \<Rightarrow> 'b android \<Rightarrow>
      ((string \<times> bytes \<times> bool) list \<times> string list) \<times> 'b android" where
  "and_read_loop E C bio [] s = (([], []), s)"
| "and_read_loop E C bio (k # ks) s =
     (case and_retrieve_secure E C k bio s of (r, s1) \<Rightarrow>
      case and_read_loop E C bio ks s1 of ((backup, failed), s2) \<Rightarrow>
        ((case r of Inr d \<Rightarrow> ((k, d, bio) # backup, failed) | Inl _ \<Rightarrow> (backup, k # failed)), s2))"

fun and_restore_loop ::
    "'b android_env \<Rightarrow> android_config \<Rightarrow> (string \<times> bytes \<times> bool) list \<Rightarrow> 'b android \<Rightarrow> nat \<times> 'b android" where
  "and_restore_loop E C [] s = (0, s)"
| "and_restore_loop E C ((k, d, bio) # b) s =
     (case and_store_secure E C k d bio s of (r, s1) \<Rightarrow>
      case and_restore_loop E C b s1 of (n, s2) \<Rightarrow> ((if is_ok r then n else n + 1), s2))"

text \<open>Both passes over the listed keys: the backup with the original requirement, and the rest.\<close>

definition and_backup ::
    "'b android_env \<Rightarrow> android_config \<Rightarrow> string list \<Rightarrow> 'b android \<Rightarrow>
      ((string \<times> bytes \<times> bool) list \<times> string list) \<times> 'b android" where
  "and_backup E C keys s =
     (case and_read_loop E C False keys s of ((plain, bio_keys), s1) \<Rightarrow>
      case and_read_loop E C True bio_keys s1 of ((bio_items, skipped), s2) \<Rightarrow>
        ((plain @ bio_items, skipped), s2))"

definition and_rotate_master_key :: "'b android_env \<Rightarrow> android_config \<Rightarrow> ('b android, platform_error, unit) op" where
  "and_rotate_master_key E C =
     bindS (on_java (kb_attach (ae_bridge E))) (\<lambda>_.
     bindS (and_list_keys E C) (\<lambda>keys s.
       case and_backup E C keys s of ((backup, skipped), s1) \<Rightarrow>
       if backup = [] \<and> length keys > 0
       then (Inl (PStorage ''Key rotation aborted: could not read any items for backup''), s1)
       else bindS (get_keystore_bridge E C) (\<lambda>_.
            bindS (on_java (kb_rotate (ae_bridge E))) (\<lambda>recreated s2.
              if \<not> recreated then (Inl (PStorage ''Failed to rotate master key''), s2)
              else case and_restore_loop E C backup s2 of (failures, s3) \<Rightarrow>
                (if failures > 0
                 then Inl (PStorage (''Key rotation: '' @ show_nat failures @ '' of '' @
                        show_nat (length backup) @ '' items failed to re-store (data may be lost)''))
                 else Inr (), s3))) s1))"

fun and_usage_loop ::
    "'b android_env \<Rightarrow> android_config \<Rightarrow> string list \<Rightarrow> nat \<times> nat \<Rightarrow> 'b android \<Rightarrow> (nat \<times> nat) \<times> 'b android" where
  "and_usage_loop E C [] a s = (a, s)"
| "and_usage_loop E C (k # ks) a s =
     (case and_retrieve_secure E C k False s of
        (Inr d, s1) \<Rightarrow>
          and_usage_loop E C ks (fst a + length d,
            snd a + (if starts_with ''provii_credential'' k then 1 else 0)) s1
      | (Inl _, s1) \<Rightarrow> and_usage_loop E C ks a s1)"

definition and_usage_stats :: "'b android_env \<Rightarrow> android_config \<Rightarrow> ('b android, platform_error, usage_stats) op" where
  "and_usage_stats E C =
     bindS (and_list_keys E C) (\<lambda>keys s.
       case and_usage_loop E C keys (0, 0) s of ((used, creds), s1) \<Rightarrow>
         (Inr \<lparr>us_total_keys = length keys, us_total_bytes = used, us_credentials_count = creds\<rparr>, s1))"

end
