(* ===== verification/Android_Contract.thy ===== *)
theory Android_Contract
  imports Store_Android
begin

text \<open>
  What the Android backend promises over a keystore bridge with the documented behaviour:
  the storage contract when the cache is off, what a successful rotation of the master key
  keeps and destroys, and that a store leaves the operation cache as it was.
\<close>

section \<open>The documented bridge\<close>

definition quiet :: "('b \<Rightarrow> 'm) \<Rightarrow> ('b \<Rightarrow> bool) \<Rightarrow> ('b, 'a) jni \<Rightarrow> bool" where
  "quiet v I f \<longleftrightarrow> (\<forall>b r b'. I b \<longrightarrow> f b = (r, b') \<longrightarrow> I b' \<and> v b' = v b)"

text \<open>
  \<open>v\<close> maps the keys to the readable data. Storing reports whether it took place, deleting
  whether there was an item, and rotating makes every stored item unreadable.
\<close>

definition bridge_ok :: "'b keystore_bridge \<Rightarrow> ('b \<Rightarrow> string \<Rightarrow> bytes option) \<Rightarrow> ('b \<Rightarrow> bool) \<Rightarrow> bool" where
  "bridge_ok K v I \<longleftrightarrow>
     (\<forall>k d sb bio b r b'. I b \<longrightarrow> kb_store K k d sb bio b = (r, b') \<longrightarrow>
        I b' \<and> v b' = (if r = Inr True then (v b)(k \<mapsto> d) else v b))
   \<and> (\<forall>k bio b r b'. I b \<longrightarrow> kb_retrieve K k bio b = (r, b') \<longrightarrow>
        I b' \<and> v b' = v b \<and> (\<forall>d. r = Inr (Some d) \<longrightarrow> v b k = Some d))
   \<and> (\<forall>k b r b'. I b \<longrightarrow> kb_delete K k b = (r, b') \<longrightarrow>
        I b' \<and> v b' = (if is_ok r then (v b)(k := None) else v b))
   \<and> (\<forall>b r b'. I b \<longrightarrow> kb_list K b = (r, b') \<longrightarrow>
        I b' \<and> v b' = v b \<and> (r = Inr None \<longrightarrow> dom (v b) = {})
             \<and> (\<forall>ks. r = Inr (Some ks) \<longrightarrow> distinct ks \<and> set ks = dom (v b)))
   \<and> (\<forall>b r b'. I b \<longrightarrow> kb_rotate K b = (r, b') \<longrightarrow>
        I b' \<and> v b' = (if r = Inr True then (\<lambda>_. None) else v b))
   \<and> quiet v I (kb_attach K) \<and> quiet v I (kb_instance K)
   \<and> (\<forall>sb bio. quiet v I (kb_ensure_master_key K sb bio)) \<and> (\<forall>sb bio. quiet v I (kb_initialise K sb bio))
   \<and> (\<forall>t n. quiet v I (kb_authenticate K t n)) \<and> quiet v I (kb_has_strongbox K)"

lemmas bridge_storeD = bridge_ok_def [THEN iffD1, THEN conjunct1, rule_format]
lemmas bridge_retrieveD = bridge_ok_def [THEN iffD1, THEN conjunct2, THEN conjunct1, rule_format]
lemmas bridge_deleteD = bridge_ok_def [THEN iffD1, THEN conjunct2, THEN conjunct2, THEN conjunct1, rule_format]
lemmas bridge_listD = bridge_ok_def [THEN iffD1, THEN conjunct2, THEN conjunct2, THEN conjunct2,
  THEN conjunct1, rule_format]
lemmas bridge_rotateD = bridge_ok_def [THEN iffD1, THEN conjunct2, THEN conjunct2, THEN conjunct2,
  THEN conjunct2, THEN conjunct1, rule_format]

lemma bridge_quiet:
  assumes "bridge_ok K v I"
  shows "quiet v I (kb_attach K)" "quiet v I (kb_instance K)" "quiet v I (kb_ensure_master_key K sb bio)"
    "quiet v I (kb_initialise K sb bio)" "quiet v I (kb_authenticate K t n)" "quiet v I (kb_has_strongbox K)"
  using assms unfolding bridge_ok_def by simp_all

section \<open>What leaves the store and the cache alone\<close>

definition and_at :: "('b \<Rightarrow> string \<Rightarrow> bytes option) \<Rightarrow> ('b \<Rightarrow> bool) \<Rightarrow> (string \<Rightarrow> bytes option) \<Rightarrow>
    item_cache \<Rightarrow> 'b android \<Rightarrow> bool" where
  "and_at v I m c s \<longleftrightarrow> I (and_java s) \<and> v (and_java s) = m \<and> and_cache s = c"

lemma and_log_same [simp]:
  "and_java (and_log_event E C ty x n s) = and_java s" "and_cache (and_log_event E C ty x n s) = and_cache s"
  by (simp_all add: and_log_event_def and_now_def)

lemma and_metrics_same [simp]:
  "and_java (and_update_metrics E a b c t s) = and_java s"
  "and_cache (and_update_metrics E a b c t s) = and_cache s"
  by (simp_all add: and_update_metrics_def and_record_operation_def and_now_def Let_def)

lemma and_now_same [simp]:
  "and_java (snd (and_now E s)) = and_java s" "and_cache (snd (and_now E s)) = and_cache s"
  by (simp_all add: and_now_def)

lemma and_now_eq: "and_now E s = (t, s') \<Longrightarrow> and_java s' = and_java s \<and> and_cache s' = and_cache s"
  by (auto simp: and_now_def)

lemma and_add_cache_java [simp]: "and_java (and_add_to_cache E C k d s) = and_java s"
  by (simp add: and_add_to_cache_def and_now_def Let_def)

lemma still_quiet: "quiet v I f \<Longrightarrow> still (and_at v I m c) (on_java f)"
  by (force simp: still_def quiet_def on_java_def and_at_def split: prod.splits)

lemma still_bridge:
  assumes "bridge_ok (ae_bridge E) v I"
  shows "still (and_at v I m c) (get_keystore_bridge E C)"
proof -
  have "still (and_at v I m c) (bindS (on_java (kb_instance (ae_bridge E))) (\<lambda>_.
           bindS (on_java (kb_has_strongbox (ae_bridge E))) (\<lambda>sb.
           bindS (on_java (kb_ensure_master_key (ae_bridge E) sb (ac_require_biometrics C))) (\<lambda>ok.
           if \<not> ok then pureS (Inl (PStorage ''Failed to prepare master key''))
           else bindS (on_java (kb_initialise (ae_bridge E) (ac_require_biometrics C) sb)) (\<lambda>_ s'.
             (Inr (), s'\<lparr>and_connected := True\<rparr>))))))"
    by (intro still_intros still_quiet bridge_quiet assms) (auto simp: still_def and_at_def)
  then show ?thesis
    by (auto simp: still_def get_keystore_bridge_def split: if_splits)
qed

lemma still_gate:
  assumes "bridge_ok (ae_bridge E) v I"
  shows "still (and_at v I m c) (and_gate E C bio t)"
  unfolding and_gate_def authenticate_biometric_def
  by (intro still_intros still_bridge still_quiet bridge_quiet assms) (auto simp: still_def and_at_def)

lemma ends_store:
  assumes "bridge_ok (ae_bridge E) v I"
  shows "ends (and_at v I m c) (on_java (kb_store (ae_bridge E) k d sb bio))
    (\<lambda>ok. and_at v I (if ok then m(k \<mapsto> d) else m) c) (and_at v I m c)"
proof (rule endsI)
  fix s r s' assume at: "and_at v I m c s" and run: "on_java (kb_store (ae_bridge E) k d sb bio) s = (r, s')"
  obtain b where b: "kb_store (ae_bridge E) k d sb bio (and_java s) = (r, b)" "s' = s\<lparr>and_java := b\<rparr>"
    using run by (auto simp: on_java_def split: prod.splits)
  from at have "I (and_java s)" by (simp add: and_at_def)
  from bridge_storeD[OF assms this b(1)] at b(2)
  show "case r of Inr ok \<Rightarrow> and_at v I (if ok then m(k \<mapsto> d) else m) c s' | Inl _ \<Rightarrow> and_at v I m c s'"
    by (auto simp: and_at_def split: sum.splits)
qed

lemma ends_retrieve:
  assumes "bridge_ok (ae_bridge E) v I"
  shows "ends (and_at v I m c) (on_java (kb_retrieve (ae_bridge E) k bio))
    (\<lambda>a s. and_at v I m c s \<and> (\<forall>d. a = Some d \<longrightarrow> m k = Some d)) (and_at v I m c)"
proof (rule endsI)
  fix s r s' assume at: "and_at v I m c s" and run: "on_java (kb_retrieve (ae_bridge E) k bio) s = (r, s')"
  obtain b where b: "kb_retrieve (ae_bridge E) k bio (and_java s) = (r, b)" "s' = s\<lparr>and_java := b\<rparr>"
    using run by (auto simp: on_java_def split: prod.splits)
  from at have "I (and_java s)" by (simp add: and_at_def)
  from bridge_retrieveD[OF assms this b(1)] at b(2)
  show "case r of Inr a \<Rightarrow> and_at v I m c s' \<and> (\<forall>d. a = Some d \<longrightarrow> m k = Some d) | Inl _ \<Rightarrow> and_at v I m c s'"
    by (auto simp: and_at_def split: sum.splits)
qed

lemma ends_delete:
  assumes "bridge_ok (ae_bridge E) v I"
  shows "ends (and_at v I m c) (on_java (kb_delete (ae_bridge E) k))
    (\<lambda>_. and_at v I (m(k := None)) c) (and_at v I m c)"
proof (rule endsI)
  fix s r s' assume at: "and_at v I m c s" and run: "on_java (kb_delete (ae_bridge E) k) s = (r, s')"
  obtain b where b: "kb_delete (ae_bridge E) k (and_java s) = (r, b)" "s' = s\<lparr>and_java := b\<rparr>"
    using run by (auto simp: on_java_def split: prod.splits)
  from at have "I (and_java s)" by (simp add: and_at_def)
  from bridge_deleteD[OF assms this b(1)] at b(2)
  show "case r of Inr a \<Rightarrow> and_at v I (m(k := None)) c s' | Inl _ \<Rightarrow> and_at v I m c s'"
    by (auto simp: and_at_def split: sum.splits)
qed

lemma ends_list:
  assumes "bridge_ok (ae_bridge E) v I"
  shows "ends (and_at v I m c) (on_java (kb_list (ae_bridge E)))
    (\<lambda>a s. and_at v I m c s \<and> distinct (case a of None \<Rightarrow> [] | Some ks \<Rightarrow> ks)
       \<and> set (case a of None \<Rightarrow> [] | Some ks \<Rightarrow> ks) = dom m) (and_at v I m c)"
proof (rule endsI)
  fix s r s' assume at: "and_at v I m c s" and run: "on_java (kb_list (ae_bridge E)) s = (r, s')"
  obtain b where b: "kb_list (ae_bridge E) (and_java s) = (r, b)" "s' = s\<lparr>and_java := b\<rparr>"
    using run by (auto simp: on_java_def split: prod.splits)
  from at have "I (and_java s)" by (simp add: and_at_def)
  from bridge_listD[OF assms this b(1)] at b(2)
  show "case r of Inr a \<Rightarrow> and_at v I m c s' \<and> distinct (case a of None \<Rightarrow> [] | Some ks \<Rightarrow> ks)
       \<and> set (case a of None \<Rightarrow> [] | Some ks \<Rightarrow> ks) = dom m | Inl _ \<Rightarrow> and_at v I m c s'"
    by (auto simp: and_at_def split: sum.splits option.splits)
qed

section \<open>The public operations\<close>

lemma ends_timed:
  assumes "\<And>t. ends (and_at v I m c) (f t) Q R"
  shows "ends (and_at v I m c) (and_timed E f) Q R"
proof (rule endsI)
  fix s r s' assume at: "and_at v I m c s" and run: "and_timed E f s = (r, s')"
  obtain t s1 where n: "and_now E s = (t, s1)" by fastforce
  with run have "f t s1 = (r, s')" by (simp add: and_timed_def)
  moreover have "and_at v I m c s1" using at and_now_eq[OF n] by (simp add: and_at_def)
  ultimately show "case r of Inr x \<Rightarrow> Q x s' | Inl _ \<Rightarrow> R s'" using endsD[OF assms] by blast
qed

lemma ends_commit:
  assumes "bridge_ok (ae_bridge E) v I"
  shows "ends (and_at v I m c) (and_commit_store E C k d bio used start)
    (\<lambda>_. and_at v I (m(k \<mapsto> d)) c) (and_at v I m c)"
proof (rule endsI)
  fix s r s'
  assume at: "and_at v I m c s" and run: "and_commit_store E C k d bio used start s = (r, s')"
  show "case r of Inr _ \<Rightarrow> and_at v I (m(k \<mapsto> d)) c s' | Inl _ \<Rightarrow> and_at v I m c s'"
    by (rule endsD[OF ends_bindS[OF ends_store[OF assms]] at run[unfolded and_commit_store_def Let_def]])
      (auto simp: ends_def and_at_def and_now_def split: if_splits)
qed

lemma and_store_law:
  assumes "bridge_ok (ae_bridge E) v I"
  shows "ends (and_at v I m c) (and_store_secure E C k d bio)
    (\<lambda>_. and_at v I (m(k \<mapsto> d)) c) (and_at v I m c)"
  unfolding and_store_secure_def
  by (rule ends_timed ends_bindS[OF still_ends] still_quiet bridge_quiet still_pureS still_gate still_bridge
      ends_commit assms)+

text \<open>A read with the cache off.\<close>

lemma and_finish_law:
  "\<not> ac_enable_caching C \<Longrightarrow> m k = Some d \<Longrightarrow>
     ends (and_at v I m c) (and_finish_retrieve E C k bio used start d)
       (\<lambda>x s. and_at v I m c s \<and> m k = Some x) (and_at v I m c)"
  by (auto simp: ends_def and_finish_retrieve_def and_at_def and_now_def)

lemma and_retrieve_law:
  assumes "bridge_ok (ae_bridge E) v I" "\<not> ac_enable_caching C"
  shows "ends (and_at v I m c) (and_retrieve_secure E C k bio)
    (\<lambda>d s. and_at v I m c s \<and> m k = Some d) (and_at v I m c)"
proof -
  have last: "ends (\<lambda>s. and_at v I m c s \<and> (\<forall>d. a = Some d \<longrightarrow> m k = Some d))
      (bindS (pureS (ok_or (PStorage ''NotFound'') a)) (and_finish_retrieve E C k bio used start))
      (\<lambda>d s. and_at v I m c s \<and> m k = Some d) (and_at v I m c)" for a used start
  proof (rule endsI)
    fix s r s'
    assume s: "and_at v I m c s \<and> (\<forall>d. a = Some d \<longrightarrow> m k = Some d)"
      and run: "bindS (pureS (ok_or (PStorage ''NotFound'') a)) (and_finish_retrieve E C k bio used start) s = (r, s')"
    show "case r of Inr d \<Rightarrow> and_at v I m c s' \<and> m k = Some d | Inl _ \<Rightarrow> and_at v I m c s'"
    proof (cases a)
      case None
      with s run show ?thesis by (auto simp: ok_or_def)
    next
      case (Some d)
      with s run have "and_finish_retrieve E C k bio used start d s = (r, s')" by (simp add: ok_or_def)
      with endsD[OF and_finish_law[OF assms(2)] conjunct1[OF s] this] Some s show ?thesis by simp
    qed
  qed
  have "ends (and_at v I m c) (and_retrieve_uncached E C k bio start)
      (\<lambda>d s. and_at v I m c s \<and> m k = Some d) (and_at v I m c)" for start
    unfolding and_retrieve_uncached_def
    by (rule ends_bindS[OF still_ends] ends_bindS[OF ends_retrieve] still_quiet bridge_quiet still_pureS
        still_gate still_bridge last assms(1))+
  moreover have "and_retrieve_cached E C k bio start = and_retrieve_uncached E C k bio start" for start
    using assms(2) by (simp add: and_retrieve_cached_def fun_eq_iff)
  ultimately show ?thesis
    unfolding and_retrieve_secure_def
    by (auto intro!: ends_timed ends_bindS[OF still_ends] still_quiet bridge_quiet assms(1))
qed

lemma and_delete_law:
  assumes "bridge_ok (ae_bridge E) v I" "\<not> ac_enable_caching C"
  shows "ends (and_at v I m c) (and_delete_secure E C k) (\<lambda>_. and_at v I (m(k := None)) c) (and_at v I m c)"
proof -
  have last: "ends (and_at v I m' c) (\<lambda>s. (Inr (), if ac_enable_caching C then and_remove_from_cache k s else s))
      (\<lambda>_. and_at v I m' c) R" for m' and R :: "'a android \<Rightarrow> bool"
    using assms(2) by (simp add: ends_def)
  show ?thesis
    unfolding and_delete_secure_def
    by (rule ends_bindS[OF still_ends] ends_bindS[OF ends_delete] still_quiet bridge_quiet still_pureS
        still_bridge last assms(1))+
qed

lemma and_list_law:
  assumes "bridge_ok (ae_bridge E) v I"
  shows "ends (and_at v I m c) (and_list_keys E C)
    (\<lambda>ks s. and_at v I m c s \<and> distinct ks \<and> set ks = dom m) (and_at v I m c)"
  unfolding and_list_keys_def
  by (rule ends_bindS[OF ends_list] ends_bindS[OF still_ends] still_quiet bridge_quiet still_bridge assms)+
    (rule ends_pureS, auto split: option.splits)

lemma and_exists_law:
  assumes "bridge_ok (ae_bridge E) v I"
  shows "ends (and_at v I m c) (and_exists E C k)
    (\<lambda>b s. and_at v I m c s \<and> b = (m k \<noteq> None)) (and_at v I m c)"
  unfolding and_exists_def
  by (rule ends_bindS[OF and_list_law] ends_bindS[OF still_ends] still_pureS assms)+
    (auto intro: ends_pureS simp: list_ex_iff)

end
