(* ===== verification/Android_Properties.thy ===== *)
theory Android_Properties
  imports Android_Contract
begin

text \<open>
  The properties of the Android backend and the reference bridge in which they are applied:
  an association list of items, each with its biometric flag, and whether the user accepts
  the prompt.
\<close>

section \<open>The reference bridge\<close>

type_synonym ref_java = "(string \<times> (bytes \<times> bool)) list \<times> bool"

definition ref_bridge :: "ref_java keystore_bridge" where
  "ref_bridge =
     \<lparr>kb_attach = (\<lambda>b. (Inr (), b)),
      kb_instance = (\<lambda>b. (Inr (), b)),
      kb_ensure_master_key = (\<lambda>_ _ b. (Inr True, b)),
      kb_initialise = (\<lambda>_ _ b. (Inr (), b)),
      kb_store = (\<lambda>k d sb bio b. (Inr True, (AList.update k (d, bio) (fst b), snd b))),
      kb_retrieve = (\<lambda>k bio b. (case map_of (fst b) k of
           None \<Rightarrow> (Inr None, b)
         | Some (d, locked) \<Rightarrow>
             (if locked \<and> \<not> bio then Inl (PStorage ''JNI exception: UserNotAuthenticatedException'')
              else Inr (Some d), b))),
      kb_delete = (\<lambda>k b. (Inr (map_of (fst b) k \<noteq> None), (AList.delete k (fst b), snd b))),
      kb_list = (\<lambda>b. (Inr (Some (map fst (fst b))), b)),
      kb_authenticate = (\<lambda>_ _ b. (Inr (snd b), b)),
      kb_rotate = (\<lambda>b. (Inr True, ([], snd b))),
      kb_api_level = (\<lambda>b. (Inr 34, b)),
      kb_hardware_keystore = (\<lambda>b. (Inr True, b)),
      kb_has_strongbox = (\<lambda>b. (Inr False, b)),
      kb_can_authenticate = (\<lambda>_ b. (Inr 0, b)),
      kb_patch_level = (\<lambda>b. (Inr ''2026-01-05'', b))\<rparr>"

definition ref_readable :: "ref_java \<Rightarrow> string \<Rightarrow> bytes option" where
  "ref_readable b k = map_option fst (map_of (fst b) k)"

definition ref_java_inv :: "ref_java \<Rightarrow> bool" where
  "ref_java_inv b \<longleftrightarrow> distinct (map fst (fst b))"

lemma ref_dom: "dom (ref_readable b) = fst ` set (fst b)"
proof -
  have "dom (ref_readable b) = dom (map_of (fst b))" by (auto simp: ref_readable_def dom_def)
  then show ?thesis by (simp add: dom_map_of_conv_image_fst)
qed

lemma ref_bridge_ok: "bridge_ok ref_bridge ref_readable ref_java_inv"
  unfolding bridge_ok_def
proof (intro conjI, goal_cases)
  case 1
  show ?case by (auto simp: ref_bridge_def ref_java_inv_def ref_readable_def distinct_update update_conv')
next
  case 2
  show ?case by (auto simp: ref_bridge_def ref_java_inv_def ref_readable_def split: option.splits if_splits)
next
  case 3
  show ?case by (auto simp: ref_bridge_def ref_java_inv_def ref_readable_def distinct_delete delete_conv')
next
  case 4
  show ?case
    by (auto simp: ref_bridge_def ref_java_inv_def ref_dom)
next
  case 5
  show ?case by (auto simp: ref_bridge_def ref_java_inv_def ref_readable_def)
qed (auto simp: ref_bridge_def quiet_def)

definition sample_android_env :: "ref_java android_env" where
  "sample_android_env = \<lparr>ae_bridge = ref_bridge, ae_clock = (\<lambda>n. word_of_nat (1000 + n))\<rparr>"

lemma sample_android_env_simps [simp]:
  "ae_bridge sample_android_env = ref_bridge" "ae_clock sample_android_env n = word_of_nat (1000 + n)"
  by (simp_all add: sample_android_env_def)

definition sample_android :: "ref_java \<Rightarrow> ref_java android" where
  "sample_android = and_new \<lparr>as_total_operations = 0, as_successful_operations = 0, as_failed_operations = 0,
     as_biometric_authentications = 0, as_hardware_operations = 0, as_last_operation_time = 0\<rparr>"

section \<open>The storage contract\<close>

definition android_view :: "('b \<Rightarrow> string \<Rightarrow> bytes option) \<Rightarrow> 'b android \<Rightarrow> string \<Rightarrow> bytes option" where
  "android_view v s = v (and_java s)"

lemma and_at_now: "I (and_java s) \<Longrightarrow> and_at v I (android_view v s) (and_cache s) s"
  by (simp add: and_at_def android_view_def)

lemma android_storage_backend:
  assumes "bridge_ok (ae_bridge E) v I" "\<not> ac_enable_caching C"
  shows "storage_backend (android_backend E C) (android_view v) (\<lambda>s. I (and_java s))"
proof (standard, goal_cases)
  case (1 s k d bio r s')
  then have "and_store_secure E C k d (requires_bio bio) s = (r, s')" by (simp add: android_backend_def)
  from endsD[OF and_store_law[OF assms(1)] and_at_now[of I s v, OF 1(1)] this] show ?case
    by (auto simp: and_at_def android_view_def split: sum.splits)
next
  case (2 s k bio r s')
  then have "and_retrieve_secure E C k (requires_bio bio) s = (r, s')" by (simp add: android_backend_def)
  from endsD[OF and_retrieve_law[OF assms] and_at_now[of I s v, OF 2(1)] this] show ?case
    by (auto simp: and_at_def android_view_def split: sum.splits)
next
  case (3 s k r s')
  then have "and_delete_secure E C k s = (r, s')" by (simp add: android_backend_def)
  from endsD[OF and_delete_law[OF assms] and_at_now[of I s v, OF 3(1)] this] show ?case
    by (auto simp: and_at_def android_view_def split: sum.splits)
next
  case (4 s k r s')
  then have "and_exists E C k s = (r, s')" by (simp add: android_backend_def)
  from endsD[OF and_exists_law[OF assms(1)] and_at_now[of I s v, OF 4(1)] this] show ?case
    by (auto simp: and_at_def android_view_def split: sum.splits)
next
  case (5 s r s')
  then have "and_list_keys E C s = (r, s')" by (simp add: android_backend_def)
  from endsD[OF and_list_law[OF assms(1)] and_at_now[of I s v, OF 5(1)] this] show ?case
    by (auto simp: and_at_def android_view_def split: sum.splits)
qed

interpretation android: storage_backend "android_backend sample_android_env android_production_config"
  "android_view ref_readable" "\<lambda>s. ref_java_inv (and_java s)"
  by (rule android_storage_backend) (simp_all add: ref_bridge_ok android_production_config_def)



section \<open>Rotation of the master key\<close>

lemma and_read_loop_law:
  assumes "bridge_ok (ae_bridge E) v I" "\<not> ac_enable_caching C" "and_at v I m c s"
    "and_read_loop E C bio ks s = ((b, f), s')"
  shows "and_at v I m c s' \<and> (\<forall>(k, d, x) \<in> set b. m k = Some d) \<and> fst ` set b \<union> set f = set ks
    \<and> (distinct ks \<longrightarrow> distinct f \<and> fst ` set b \<inter> set f = {})"
  using assms(3,4)
proof (induction ks arbitrary: s b f)
  case (Cons k ks)
  obtain r s1 where r: "and_retrieve_secure E C k bio s = (r, s1)" by fastforce
  obtain b1 f1 where l: "and_read_loop E C bio ks s1 = ((b1, f1), s')"
    using Cons.prems(2) r by (auto split: prod.splits)
  note law = endsD[OF and_retrieve_law[OF assms(1,2)] Cons.prems(1) r]
  then have "and_at v I m c s1" by (auto split: sum.splits)
  note ih = Cons.IH[OF this l]
  define K where "K = fst ` set b1"
  show ?case
  proof (cases r)
    case (Inl e)
    with Cons.prems(2) r l have bf: "b = b1" "f = k # f1" by simp_all
    have "fst ` set b = K" "set f = insert k (set f1)" by (simp_all add: bf K_def)
    moreover have "K \<union> set f1 = set ks" "distinct ks \<Longrightarrow> distinct f1 \<and> K \<inter> set f1 = {}" using ih by (auto simp: K_def)
    ultimately show ?thesis using ih bf by auto
  next
    case (Inr d)
    with Cons.prems(2) r l have bf: "b = (k, d, bio) # b1" "f = f1" by simp_all
    have "fst ` set b = insert k K" by (simp add: bf K_def)
    moreover have "K \<union> set f1 = set ks" "distinct ks \<Longrightarrow> distinct f1 \<and> K \<inter> set f1 = {}" using ih by (auto simp: K_def)
    moreover have "m k = Some d" using law Inr by simp
    ultimately show ?thesis using ih bf by auto
  qed
qed simp

lemma and_backup_law:
  assumes "bridge_ok (ae_bridge E) v I" "\<not> ac_enable_caching C" "and_at v I m c s" "distinct keys"
    "and_backup E C keys s = ((b, sk), s')"
  shows "and_at v I m c s' \<and> (\<forall>(k, d, x) \<in> set b. m k = Some d)
    \<and> fst ` set b \<union> set sk = set keys \<and> fst ` set b \<inter> set sk = {}"
proof -
  obtain b1 f1 s1 where r1: "and_read_loop E C False keys s = ((b1, f1), s1)" by (metis prod.collapse)
  obtain b2 f2 s2 where r2: "and_read_loop E C True f1 s1 = ((b2, f2), s2)" by (metis prod.collapse)
  from assms(5) r1 r2 have e: "b = b1 @ b2" "sk = f2" "s' = s2" by (simp_all add: and_backup_def)
  from and_read_loop_law[OF assms(1-3) r1] assms(4) have at1: "and_at v I m c s1" and l1: "\<forall>(k, d, x) \<in> set b1. m k = Some d"
    "fst ` set b1 \<union> set f1 = set keys" "distinct f1" "fst ` set b1 \<inter> set f1 = {}" by auto
  define K1 K2 where "K1 = fst ` set b1" and "K2 = fst ` set b2"
  have "fst ` set b = K1 \<union> K2" by (simp add: e K1_def K2_def image_Un)
  moreover have "K1 \<union> set f1 = set keys" "K1 \<inter> set f1 = {}" using l1 by (simp_all add: K1_def)
  moreover from and_read_loop_law[OF assms(1,2) at1 r2] l1(3)
  have "and_at v I m c s2" "\<forall>(k, d, x) \<in> set b2. m k = Some d" "K2 \<union> set f2 = set f1" "K2 \<inter> set f2 = {}"
    by (simp_all add: K2_def)
  ultimately show ?thesis using l1(1) unfolding e by auto
qed

lemma and_restore_loop_law:
  assumes "bridge_ok (ae_bridge E) v I" "and_at v I m c s" "and_restore_loop E C b s = (0, s')"
  shows "and_at v I (fold (\<lambda>(k, d, x) m. m(k \<mapsto> d)) b m) c s'"
  using assms(2,3)
proof (induction b arbitrary: s m)
  case (Cons e b)
  obtain k d bio where e: "e = (k, d, bio)" by (cases e)
  obtain r s1 where r: "and_store_secure E C k d bio s = (r, s1)" by fastforce
  obtain n s2 where l: "and_restore_loop E C b s1 = (n, s2)" by fastforce
  from Cons.prems(2) e r l have "is_ok r" "n = 0" "s2 = s'" by (auto split: if_splits)
  with endsD[OF and_store_law[OF assms(1)] Cons.prems(1) r] have "and_at v I (m(k \<mapsto> d)) c s1"
    by (cases r) auto
  from Cons.IH[OF this] l \<open>n = 0\<close> \<open>s2 = s'\<close> show ?case by (simp add: e)
qed simp

lemma fold_restore:
  assumes "\<forall>(k, d, x) \<in> set b. m0 k = Some d"
  shows "fold (\<lambda>(k, d, x) m. m(k \<mapsto> d)) b m = (\<lambda>k. if k \<in> fst ` set b then m0 k else m k)"
  using assms
proof (induction b arbitrary: m)
  case (Cons e b)
  then show ?case by (cases e) (auto simp: fun_eq_iff)
qed simp


lemmas android_eval = bindS_def on_java_def ref_bridge_def sample_android_def and_new_def and_timed_def
  and_now_def and_list_keys_def get_keystore_bridge_def and_retrieve_secure_def and_retrieve_cached_def
  and_retrieve_uncached_def and_finish_retrieve_def and_gate_def authenticate_biometric_def and_log_event_def
  and_update_metrics_def and_record_operation_def and_validate_key_def and_validate_data_def key_char_def
  and_max_item_size_def and_store_secure_def and_commit_store_def and_uses_strongbox_def Let_def ok_or_def pureS_def


section \<open>The cache\<close>

definition cache_is :: "item_cache \<Rightarrow> 'b android \<Rightarrow> bool" where
  "cache_is c s \<longleftrightarrow> and_cache s = c"

lemma still_java: "still (cache_is c) (on_java f)"
  by (auto simp: still_def cache_is_def on_java_def split: prod.splits)

lemma still_bridge_cache: "still (cache_is c) (get_keystore_bridge E C)"
proof -
  have "still (cache_is c) (bindS (on_java (kb_instance (ae_bridge E))) (\<lambda>_.
           bindS (on_java (kb_has_strongbox (ae_bridge E))) (\<lambda>sb.
           bindS (on_java (kb_ensure_master_key (ae_bridge E) sb (ac_require_biometrics C))) (\<lambda>ok.
           if \<not> ok then pureS (Inl (PStorage ''Failed to prepare master key''))
           else bindS (on_java (kb_initialise (ae_bridge E) (ac_require_biometrics C) sb)) (\<lambda>_ s'.
             (Inr (), s'\<lparr>and_connected := True\<rparr>))))))"
    by (intro still_intros still_java) (auto simp: still_def cache_is_def)
  then show ?thesis
    by (auto simp: still_def get_keystore_bridge_def split: if_splits)
qed

lemma still_store_cache: "still (cache_is c) (and_store_secure E C key d bio)"
proof -
  have commit: "still (cache_is c) (and_commit_store E C key d bio used start)" for used start
  proof (rule stillI)
    fix s r s' assume "cache_is c s" "and_commit_store E C key d bio used start s = (r, s')"
    moreover have "still (cache_is c) (bindS (on_java (kb_store (ae_bridge E) key d sb bio)) (\<lambda>ok s'.
           if \<not> ok
           then (Inl (PStorage ''Keystore error''), and_log_event E C AndFailedOperation ''storeSecure failed'' 1 s')
           else case and_now E s' of (t, s'') \<Rightarrow> (Inr (), and_update_metrics E True used sb (t - start) s'')))" for sb
      by (intro still_intros still_java) (auto simp: still_def cache_is_def and_now_def split: if_splits)
    ultimately show "cache_is c s'"
      unfolding and_commit_store_def Let_def by (blast dest: stillD)
  qed
  have gate: "still (cache_is c) (and_gate E C bio t)" for t
    unfolding and_gate_def authenticate_biometric_def
    by (intro still_intros still_java still_bridge_cache) (auto simp: still_def cache_is_def)
  have body: "still (cache_is c) (bindS (on_java (kb_attach (ae_bridge E))) (\<lambda>_.
      bindS (pureS (and_validate_key key)) (\<lambda>_.
      bindS (pureS (and_validate_data d)) (\<lambda>_.
      bindS (and_gate E C bio ''Authenticate to store credentials'') (\<lambda>used_bio.
      bindS (get_keystore_bridge E C) (\<lambda>_.
        and_commit_store E C key d bio used_bio start))))))" for start
    by (intro still_intros still_java still_bridge_cache gate commit)
  show ?thesis
    unfolding and_store_secure_def and_timed_def
    by (rule stillI, rule stillD[OF body]) (auto simp: and_now_def cache_is_def)
qed

text \<open>A store on Android neither updates nor drops the cache entry of its key, so with the cache
  on, as in the development configuration, a read while the entry is fresh returns the value
  from before the store, although the new one has been written.\<close>

theorem android_store_leaves_cache:
  assumes "ac_enable_caching C" "and_store_secure E C key d bio s = (Inr (), s1)"
    "map_of (and_cache s) key = Some it" "still_fresh (ae_clock E (and_ticks s1 + 1)) it"
    "kb_attach (ae_bridge E) (and_java s1) = (Inr (), b)"
  shows "\<exists>s2. and_retrieve_secure E C key False s1 = (Inr (ci_data it), s2)"
proof -
  have "and_cache s1 = and_cache s"
    using stillD[OF still_store_cache[of "and_cache s"] _ assms(2)] by (simp add: cache_is_def)
  moreover have at: "on_java (kb_attach (ae_bridge E)) s' = (Inr (), s'\<lparr>and_java := b\<rparr>)"
    if "and_java s' = and_java s1" for s' using assms(5) that by (simp add: on_java_def)
  ultimately show ?thesis using assms(1,3,4)
    by (simp add: and_retrieve_secure_def and_timed_def and_now_def bindS_Inr[OF at]
        and_retrieve_cached_def and_get_from_cache_def)
qed


theorem android_store_leaves_cache_witness:
  "\<exists>sa sb sc. and_retrieve_secure sample_android_env android_development_config ''k'' False
         (sample_android ([(''k'', ([1], False))], True)) = (Inr [1], sa)
     \<and> and_store_secure sample_android_env android_development_config ''k'' [2] False sa = (Inr (), sb)
     \<and> android_view ref_readable sb ''k'' = Some [2]
     \<and> and_retrieve_secure sample_android_env android_development_config ''k'' False sb = (Inr [1], sc)"
proof -
  let ?E = sample_android_env and ?C = android_development_config
  let ?it = "\<lparr>ci_data = [1], ci_cached_at = 1001, ci_ttl = 300\<rparr>"
  obtain sa where a: "and_retrieve_secure ?E ?C ''k'' False (sample_android ([(''k'', ([1], False))], True)) = (Inr [1], sa)"
      and sa: "and_java sa = ([(''k'', ([1], False))], True)" "and_cache sa = [(''k'', ?it)]" "and_connected sa"
        "and_ticks sa = 4" "and_profile sa = None"
    by (simp add: android_eval android_development_config_def and_get_from_cache_def and_update_cache_metrics_def
        and_add_to_cache_def del: bindS_pure)
  obtain sb where b: "and_store_secure ?E ?C ''k'' [2] False sa = (Inr (), sb)"
      and sb: "and_java sb = ([(''k'', ([2], False))], True)" "and_ticks sb = 7"
    by (simp add: sa android_eval android_development_config_def del: bindS_pure)
  have "\<exists>sc. and_retrieve_secure ?E ?C ''k'' False sb = (Inr (ci_data ?it), sc)"
    by (rule android_store_leaves_cache[OF _ b])
      (auto simp: sa sb android_development_config_def ref_bridge_def still_fresh_def sat_sub_def sat_mul_def)
  with a b show ?thesis by (auto simp: android_view_def ref_readable_def sb)
qed

end
