(* ===== verification/File_Transfer.thy ===== *)
theory File_Transfer
  imports Ffi_Errors Backend_Support
begin

text \<open>
  The device the download of the proving key runs on, and the HTTP/2 leg of it
  (\<open>ffi/src/net.rs\<close>). Files are a map from paths to their bytes. Every call of the file
  system may fail: \<open>wd_io\<close> says which ones do, by their number, and a failing write leaves
  the prefix \<open>wd_written\<close> gives. The network is a parameter that answers each request with
  the events of its response, in order; the clock and the random numbers are sequences of
  readings. Sizes and offsets are natural numbers, since no file reaches 2 ^ 64 bytes.
\<close>

section \<open>The device\<close>

text \<open>
  An answer over HTTP/3 is a failure up to the status line, with its text, or a response: the
  status code with its display text, the chunks of the body, and the read error that ends it.
\<close>

datatype h3_answer = H3Failed string | H3Response nat string "bytes list" "string option"

text \<open>
  An answer over HTTP/2 is a failure, the overall time limit, or a response: protocol version,
  status code with its display text, content length if the server sent one, chunks, and how the
  body ends. A time limit that strikes inside a write is taken to strike after it.
\<close>

datatype body_end = BodyEnd | ReadError string | DeadlineElapsed

datatype h2_answer = H2Failed string | H2Late | H2Response string nat string "nat option" "bytes list" body_end

text \<open>A request has a number and an offset, which is 0 when it has no range header.\<close>

record world =
  wd_io :: "nat \<Rightarrow> string option"
  wd_written :: "nat \<Rightarrow> nat"
  wd_h3 :: "nat \<Rightarrow> nat \<Rightarrow> h3_answer"
  wd_h2 :: "nat \<Rightarrow> nat \<Rightarrow> h2_answer"
  wd_clock :: "nat \<Rightarrow> nat"
  wd_random :: "nat \<Rightarrow> u64"
  wd_blake2s_hex :: "bytes \<Rightarrow> string"
  wd_android :: bool
  wd_free_space :: "(string + nat) option"
  wd_percent :: "nat \<Rightarrow> nat \<Rightarrow> nat"

record download_progress =
  pr_bytes_downloaded :: nat
  pr_total_bytes :: nat
  pr_percentage :: nat

text \<open>
  The counters number the calls, requests, clock readings and random numbers used so far;
  the attempts are the global retry state, the sleeps are in milliseconds.
\<close>

record device =
  dev_files :: "string \<Rightarrow> bytes option"
  dev_io :: nat
  dev_requests :: nat
  dev_time :: nat
  dev_randoms :: nat
  dev_poisoned :: bool
  dev_attempts :: "u32 \<Rightarrow> nat list"
  dev_progress :: "download_progress list"
  dev_sleeps :: "u64 list"

section \<open>Reading the state of the device\<close>

definition or_else :: "'a \<Rightarrow> 'e + 'a \<Rightarrow> 'a" where
  "or_else y r = (case r of Inl _ \<Rightarrow> y | Inr x \<Rightarrow> x)"

definition read_clock :: "world \<Rightarrow> (device, 'e, nat) op" where
  "read_clock W d = (Inr (wd_clock W (dev_time d)), d\<lparr>dev_time := dev_time d + 1\<rparr>)"

definition next_random :: "world \<Rightarrow> (device, 'e, u64) op" where
  "next_random W d = (Inr (wd_random W (dev_randoms d)), d\<lparr>dev_randoms := dev_randoms d + 1\<rparr>)"

definition next_request :: "(device, 'e, nat) op" where
  "next_request d = (Inr (dev_requests d), d\<lparr>dev_requests := dev_requests d + 1\<rparr>)"

definition report :: "nat \<Rightarrow> nat \<Rightarrow> nat \<Rightarrow> (device, 'e, unit) op" where
  "report n tot pct d = (Inr (), d\<lparr>dev_progress := dev_progress d @
     [\<lparr>pr_bytes_downloaded = n, pr_total_bytes = tot, pr_percentage = pct\<rparr>]\<rparr>)"

definition sleep_ms :: "u64 \<Rightarrow> (device, 'e, unit) op" where
  "sleep_ms t d = (Inr (), d\<lparr>dev_sleeps := dev_sleeps d @ [t]\<rparr>)"

section \<open>File system calls\<close>

definition io_call :: "world \<Rightarrow> (device, string, unit) op" where
  "io_call W d = (case wd_io W (dev_io d) of None \<Rightarrow> Inr () | Some m \<Rightarrow> Inl m, d\<lparr>dev_io := dev_io d + 1\<rparr>)"

definition no_such_file :: string where "no_such_file = ''No such file or directory (os error 2)''"

definition file_content :: "string \<Rightarrow> (device, string, bytes) op" where
  "file_content p d = (ok_or no_such_file (dev_files d p), d)"

definition set_file :: "string \<Rightarrow> bytes option \<Rightarrow> (device, 'e, unit) op" where
  "set_file p c d = (Inr (), d\<lparr>dev_files := (dev_files d)(p := c)\<rparr>)"

text \<open>\<open>fs::metadata(p)\<close> as far as its length, \<open>File::open(p)\<close> and \<open>fs::read(p)\<close>.\<close>

definition file_len :: "world \<Rightarrow> string \<Rightarrow> (device, string, nat) op" where
  "file_len W p = bindS (io_call W) (\<lambda>_. bindS (file_content p) (\<lambda>c. pureS (Inr (length c))))"

definition read_file :: "world \<Rightarrow> string \<Rightarrow> (device, string, bytes) op" where
  "read_file W p = bindS (io_call W) (\<lambda>_. file_content p)"

text \<open>\<open>Path::exists\<close>, which is false when the question itself fails.\<close>

definition file_exists :: "world \<Rightarrow> string \<Rightarrow> (device, 'e, bool) op" where
  "file_exists W p = bindS (settleS (read_file W p)) (\<lambda>r. pureS (Inr (is_ok r)))"

definition remove_file :: "world \<Rightarrow> string \<Rightarrow> (device, string, unit) op" where
  "remove_file W p = bindS (read_file W p) (\<lambda>_. set_file p None)"

definition rename_file :: "world \<Rightarrow> string \<Rightarrow> string \<Rightarrow> (device, string, unit) op" where
  "rename_file W p q = bindS (read_file W p) (\<lambda>c. bindS (set_file p None) (\<lambda>_. set_file q (Some c)))"

text \<open>\<open>OpenOptions\<close> with \<open>create\<close>, and either \<open>append\<close> or \<open>truncate\<close>.\<close>

definition open_write :: "world \<Rightarrow> bool \<Rightarrow> string \<Rightarrow> (device, string, unit) op" where
  "open_write W appending p = bindS (io_call W) (\<lambda>_. bindS (settleS (file_content p)) (\<lambda>old.
     set_file p (Some (if appending then or_else [] old else []))))"

definition write_all :: "world \<Rightarrow> string \<Rightarrow> bytes \<Rightarrow> (device, string, unit) op" where
  "write_all W p c d =
     bindS (file_content p) (\<lambda>old. bindS (settleS (io_call W)) (\<lambda>r.
       bindS (set_file p (Some (old @ (if is_ok r then c else take (wd_written W (dev_io d)) c)))) (\<lambda>_.
         pureS r))) d"

section \<open>Chunks\<close>

text \<open>
  \<open>downloaded % 5 MiB == 0 || last_sync.elapsed().as_secs() > 10\<close>, then the sync and the new
  reading. The result is the time of the last sync.
\<close>

definition sync_now :: "world \<Rightarrow> (device, string, nat) op" where
  "sync_now W = bindS (io_call W) (\<lambda>_. read_clock W)"

definition sync_if_due :: "world \<Rightarrow> nat \<Rightarrow> nat \<Rightarrow> (device, string, nat) op" where
  "sync_if_due W downloaded synced =
     (if downloaded mod (5 * 1024 * 1024) = 0 then sync_now W
      else bindS (read_clock W) (\<lambda>now.
        if (now - synced) div 10 ^ 9 > 10 then sync_now W else pureS (Inr synced)))"

section \<open>The HTTP/2 leg\<close>

definition MAX_DOWNLOAD_BYTES :: nat where "MAX_DOWNLOAD_BYTES = 50 * 1024 * 1024"

definition DEFAULT_DOWNLOAD_TIMEOUT_SECS :: u64 where "DEFAULT_DOWNLOAD_TIMEOUT_SECS = 300"

definition is_success :: "nat \<Rightarrow> bool" where
  "is_success status \<longleftrightarrow> 200 \<le> status \<and> status < 300"

text \<open>\<open>pct\<close> maps the bytes so far and the total to the percentage that is reported.\<close>

fun h2_body ::
    "world \<Rightarrow> (nat \<Rightarrow> nat \<Rightarrow> nat) \<Rightarrow> string \<Rightarrow> nat \<Rightarrow> bytes list \<Rightarrow> body_end \<Rightarrow> nat \<Rightarrow> nat \<Rightarrow>
      (device, ffi_error, unit) op" where
  "h2_body W pct p tot [] fin downloaded synced =
     (case fin of
        ReadError m \<Rightarrow> pureS (Inl (FNetwork (''HTTP/2 read frame failed: '' @ m)))
      | DeadlineElapsed \<Rightarrow> pureS (Inl (FRequestTimeout DEFAULT_DOWNLOAD_TIMEOUT_SECS))
      | BodyEnd \<Rightarrow> map_errS (\<lambda>m. FStorage (''Failed to final sync file: '' @ m)) (io_call W))"
| "h2_body W pct p tot (c # cs) fin downloaded synced =
     bindS (map_errS (\<lambda>m. FStorage (''Failed to write to '' @ p @ '': '' @ m)) (write_all W p c)) (\<lambda>_.
       let n = downloaded + length c
       in if n > MAX_DOWNLOAD_BYTES
          then pureS (Inl (FNetwork (''Download exceeded size limit ('' @ show_nat n @ '' bytes received, '' @
                  show_nat MAX_DOWNLOAD_BYTES @ '' bytes max)'')))
          else bindS (report n tot (pct n tot)) (\<lambda>_.
               bindS (map_errS (\<lambda>m. FStorage (''Failed to sync file: '' @ m)) (sync_if_due W n synced))
                 (h2_body W pct p tot cs fin n)))"

definition h2_total :: "nat option \<Rightarrow> nat option \<Rightarrow> nat option \<Rightarrow> nat" where
  "h2_total resume_from expected content_len =
     (case resume_from of
        Some start \<Rightarrow> (case content_len of Some len \<Rightarrow> start + len | None \<Rightarrow> (case expected of Some e \<Rightarrow> e | None \<Rightarrow> 0))
      | None \<Rightarrow> (case content_len of Some len \<Rightarrow> len | None \<Rightarrow> (case expected of Some e \<Rightarrow> e | None \<Rightarrow> 0)))"

definition h2_exceeds :: "nat \<Rightarrow> nat option \<Rightarrow> bool" where
  "h2_exceeds start content_len \<longleftrightarrow> (case content_len of Some l \<Rightarrow> start + l > MAX_DOWNLOAD_BYTES | None \<Rightarrow> False)"

definition h2_receive ::
    "world \<Rightarrow> (nat \<Rightarrow> nat \<Rightarrow> nat) \<Rightarrow> string \<Rightarrow> nat option \<Rightarrow> nat option \<Rightarrow> nat \<Rightarrow> h2_answer \<Rightarrow>
      (device, ffi_error, unit) op" where
  "h2_receive W pct p resume_from expected start answer =
     (case answer of
        H2Failed m \<Rightarrow> pureS (Inl (FNetwork m))
      | H2Late \<Rightarrow> pureS (Inl (FRequestTimeout DEFAULT_DOWNLOAD_TIMEOUT_SECS))
      | H2Response version status shown len chunks fin \<Rightarrow>
          if version \<noteq> ''HTTP/2.0''
          then pureS (Inl (FNetwork (''Server did not negotiate HTTP/2, got '' @ version)))
          else if \<not> is_success status \<and> status \<noteq> 206
          then pureS (Inl (FNetwork (''Server returned unexpected status: '' @ shown)))
          else if h2_exceeds start len
          then pureS (Inl (FNetwork (''Content-Length ('' @ show_nat (start + the len) @
                  '' bytes) exceeds download limit ('' @ show_nat MAX_DOWNLOAD_BYTES @ '' bytes)'')))
          else bindS (map_errS (\<lambda>m. FStorage (''Failed to open file '' @ p @ '': '' @ m))
                       (open_write W (resume_from \<noteq> None) p)) (\<lambda>_.
               bindS (read_clock W) (h2_body W pct p (h2_total resume_from expected len) chunks fin start)))"

definition http2_download_to_file ::
    "world \<Rightarrow> (nat \<Rightarrow> nat \<Rightarrow> nat) \<Rightarrow> string \<Rightarrow> nat option \<Rightarrow> nat option \<Rightarrow> (device, ffi_error, unit) op" where
  "http2_download_to_file W pct p resume_from expected =
     (let start = (case resume_from of Some n \<Rightarrow> n | None \<Rightarrow> 0)
      in bindS (pureS (case expected of
             Some e \<Rightarrow> ensure (e \<le> MAX_DOWNLOAD_BYTES) (FNetwork (''Expected download size ('' @ show_nat e @
               '' bytes) exceeds limit ('' @ show_nat MAX_DOWNLOAD_BYTES @ '' bytes)''))
           | None \<Rightarrow> Inr ())) (\<lambda>_.
         bindS next_request (\<lambda>i. h2_receive W pct p resume_from expected start (wd_h2 W i start))))"

section \<open>What an operation leaves alone\<close>

text \<open>\<open>d\<close> agrees with \<open>d0\<close> on every path but those of \<open>S\<close>, and on the retry state.\<close>

definition frame :: "string set \<Rightarrow> device \<Rightarrow> device \<Rightarrow> bool" where
  "frame S d0 d \<longleftrightarrow> (\<forall>q. q \<notin> S \<longrightarrow> dev_files d q = dev_files d0 q) \<and>
     dev_attempts d = dev_attempts d0 \<and> dev_poisoned d = dev_poisoned d0"

lemma frame_refl [simp]: "frame S d d"
  by (simp add: frame_def)

lemma frame_basic [still_intros]:
  "still (frame S d0) (read_clock W)" "still (frame S d0) (next_random W)" "still (frame S d0) next_request"
  "still (frame S d0) (report n tot x)" "still (frame S d0) (sleep_ms t)" "still (frame S d0) (io_call W)"
  "still (frame S d0) (file_content p)"
  by (auto simp: still_def frame_def read_clock_def next_random_def next_request_def report_def sleep_ms_def
        io_call_def file_content_def)

lemma frame_set_file [still_intros]: "p \<in> S \<Longrightarrow> still (frame S d0) (set_file p c)"
  by (auto simp: still_def frame_def set_file_def)

lemma frame_read [still_intros]:
  "still (frame S d0) (file_len W p)" "still (frame S d0) (read_file W p)" "still (frame S d0) (file_exists W p)"
  unfolding file_len_def read_file_def file_exists_def by (intro still_intros)+

lemma frame_write [still_intros]:
  assumes "p \<in> S"
  shows "still (frame S d0) (remove_file W p)" "still (frame S d0) (open_write W b p)"
    "still (frame S d0) (write_all W p c)"
proof -
  show "still (frame S d0) (remove_file W p)" "still (frame S d0) (open_write W b p)"
    unfolding remove_file_def open_write_def by (auto intro!: still_intros assms)
  have "still (frame S d0) (bindS (file_content p) (\<lambda>old. bindS (settleS (io_call W)) (\<lambda>r.
       bindS (set_file p (Some (old @ (if is_ok r then c else take n c)))) (\<lambda>_. pureS r))))" for n
    using assms by (intro still_intros)
  then show "still (frame S d0) (write_all W p c)"
    by (simp add: still_def write_all_def)
qed

lemma frame_rename [still_intros]: "p \<in> S \<Longrightarrow> q \<in> S \<Longrightarrow> still (frame S d0) (rename_file W p q)"
  unfolding rename_file_def by (intro still_intros)

lemma frame_sync [still_intros]: "still (frame S d0) (sync_if_due W n t)"
  unfolding sync_if_due_def sync_now_def by (intro still_intros)

lemma frame_h2_body: "p \<in> S \<Longrightarrow> still (frame S d0) (h2_body W pct p tot cs fin n t)"
proof (induction cs arbitrary: n t)
  case Nil
  then show ?case by (cases fin) (auto intro!: still_intros)
next
  case (Cons c cs)
  then show ?case by (auto simp: Let_def intro!: still_intros)
qed

lemma frame_http2 [still_intros]: "p \<in> S \<Longrightarrow> still (frame S d0) (http2_download_to_file W pct p r e)"
proof -
  assume "p \<in> S"
  then have "still (frame S d0) (h2_receive W pct p r e start a)" for start a
    by (cases a) (auto simp: h2_receive_def intro!: still_intros frame_h2_body)
  then show ?thesis unfolding http2_download_to_file_def Let_def by (intro still_intros)
qed

end
