(* ===== verification/Proving_Key.thy ===== *)
theory Proving_Key
  imports File_Transfer
begin

text \<open>
  The life cycle of the Groth16 proving key (\<open>ffi/src/proving_key.rs\<close>): the retry budget of
  five attempts in a rolling window, the back-off, the integrity check, the download with its
  resumption over HTTP/3 and HTTP/2, and the exported functions. Sizes are natural numbers;
  the digest is computed by \<open>wd_blake2s_hex\<close> of what was read, since hashing block by block is
  hashing the concatenation. Log calls are left out.
\<close>

section \<open>The retry budget\<close>

definition MAX_RETRIES_PER_24H :: nat where "MAX_RETRIES_PER_24H = 5"

text \<open>Instants and durations are in nanoseconds.\<close>

definition RETRY_WINDOW :: nat where "RETRY_WINDOW = 24 * 60 * 60 * 10 ^ 9"

definition BASE_BACKOFF_MS :: u64 where "BASE_BACKOFF_MS = 2000"

definition MAX_BACKOFF_MS :: u64 where "MAX_BACKOFF_MS = 60000"

definition trim_stale_attempts :: "nat \<Rightarrow> nat list \<Rightarrow> nat list" where
  "trim_stale_attempts now attempts =
     (let cutoff = (if RETRY_WINDOW \<le> now then Some (now - RETRY_WINDOW) else None)
      in case cutoff of Some c \<Rightarrow> filter (\<lambda>t. t > c) attempts | None \<Rightarrow> attempts)"

text \<open>\<open>RETRY_STATE.lock()\<close>, and \<open>map.entry(vk_id).or_default()\<close> trimmed in place.\<close>

definition lock_retry_state :: "(device, ffi_error, unit) op" where
  "lock_retry_state d =
     (ensure (\<not> dev_poisoned d)
        (FGeneric ''Retry state lock poisoned: poisoned lock: another task failed inside''), d)"

definition get_attempts :: "u32 \<Rightarrow> (device, ffi_error, nat list) op" where
  "get_attempts vk d = (Inr (dev_attempts d vk), d)"

definition set_attempts :: "u32 \<Rightarrow> nat list \<Rightarrow> (device, ffi_error, unit) op" where
  "set_attempts vk ts d = (Inr (), d\<lparr>dev_attempts := (dev_attempts d)(vk := ts)\<rparr>)"

definition trimmed_attempts :: "world \<Rightarrow> u32 \<Rightarrow> (device, ffi_error, nat list) op" where
  "trimmed_attempts W vk =
     bindS lock_retry_state (\<lambda>_. bindS (read_clock W) (\<lambda>now. bindS (get_attempts vk) (\<lambda>ts.
     bindS (set_attempts vk (trim_stale_attempts now ts)) (\<lambda>_. get_attempts vk))))"

definition record_attempt :: "world \<Rightarrow> u32 \<Rightarrow> (device, ffi_error, nat) op" where
  "record_attempt W vk =
     bindS (trimmed_attempts W vk) (\<lambda>ts.
       if length ts \<ge> MAX_RETRIES_PER_24H
       then pureS (Inl (FRetryBudgetExceeded (show_nat MAX_RETRIES_PER_24H @ '' download attempts for vk_id '' @
              show_nat (unat vk) @ '' in the last 24 hours. '' @
              ''No further retries permitted until the window expires.'')))
       else bindS (read_clock W) (\<lambda>now.
            bindS (set_attempts vk (ts @ [now])) (\<lambda>_. pureS (Inr (length (ts @ [now]) - 1)))))"

definition attempts_consumed :: "world \<Rightarrow> u32 \<Rightarrow> (device, ffi_error, nat) op" where
  "attempts_consumed W vk = bindS (trimmed_attempts W vk) (\<lambda>ts. pureS (Inr (length ts)))"

text \<open>\<open>min(2000 * 2^attempt, 60000)\<close>; the shift is below 64, so \<open>checked_shl\<close> gives a value.\<close>

definition backoff_cap :: "nat \<Rightarrow> u64" where
  "backoff_cap attempt = min (sat_mul BASE_BACKOFF_MS (push_bit (min attempt 63) 1)) MAX_BACKOFF_MS"

definition compute_jittered_backoff :: "world \<Rightarrow> nat \<Rightarrow> (device, 'e, u64) op" where
  "compute_jittered_backoff W attempt =
     (let capped_ms = backoff_cap attempt
      in if capped_ms = 0 then pureS (Inr 0)
         else bindS (next_random W) (\<lambda>r. pureS (Inr (r mod capped_ms))))"

section \<open>The manager\<close>

record pk_manager =
  pkm_storage_dir :: string
  pkm_filename :: string
  pkm_vk_id :: u32

definition VK_ID :: u32 where "VK_ID = 914153247"

definition PK_SIZE :: nat where "PK_SIZE = 51945624"

definition PK_BLAKE2S :: string where
  "PK_BLAKE2S = ''8839a9f0e88175af6cdeeea09ab9e031a9f627c6e42de8001fd31e0fd0586895''"

definition MIN_FREE_SPACE :: nat where "MIN_FREE_SPACE = 65000000"

definition pk_manager_new :: "string \<Rightarrow> pk_manager" where
  "pk_manager_new app_files_dir =
     \<lparr>pkm_storage_dir = app_files_dir, pkm_filename = ''age_pk.'' @ show_nat (unat VK_ID) @ ''.bin'', pkm_vk_id = VK_ID\<rparr>"

text \<open>\<open>Path::join\<close> with a relative name.\<close>

definition join_path :: "string \<Rightarrow> string \<Rightarrow> string" where
  "join_path dir name = (if dir = [] \<or> last dir = CHR ''/'' then dir @ name else dir @ ''/'' @ name)"

definition get_path :: "pk_manager \<Rightarrow> string" where
  "get_path m = join_path (pkm_storage_dir m) (pkm_filename m)"

definition temp_path :: "pk_manager \<Rightarrow> string" where
  "temp_path m = join_path (pkm_storage_dir m) (pkm_filename m @ ''.tmp'')"

section \<open>Integrity\<close>

text \<open>The reads of a 1 MB buffer: each fills it or reaches the end of the file.\<close>

fun blocks :: "bytes \<Rightarrow> bytes list" where
  "blocks c = (if c = [] then [] else take (1024 * 1024) c # blocks (drop (1024 * 1024) c))"

declare blocks.simps [simp del]

fun read_blocks :: "world \<Rightarrow> bytes list \<Rightarrow> bytes \<Rightarrow> (device, string, bytes) op" where
  "read_blocks W [] acc = bindS (io_call W) (\<lambda>_. pureS (Inr acc))"
| "read_blocks W (b # bs) acc = bindS (io_call W) (\<lambda>_. read_blocks W bs (acc @ b))"

definition storage_err :: "string \<Rightarrow> string \<Rightarrow> ffi_error" where
  "storage_err prefix m = FStorage (prefix @ m)"

definition verify_pk_integrity :: "world \<Rightarrow> string \<Rightarrow> (device, ffi_error, bool) op" where
  "verify_pk_integrity W p =
     bindS (file_exists W p) (\<lambda>ex.
       if \<not> ex then pureS (Inr False)
       else bindS (map_errS (storage_err ''Failed to get metadata: '') (file_len W p)) (\<lambda>n.
            if n \<noteq> PK_SIZE then pureS (Inr False)
            else bindS (map_errS (storage_err ''Failed to open PK: '') (read_file W p)) (\<lambda>c.
                 bindS (map_errS (storage_err ''Failed to read PK: '') (read_blocks W (blocks c) [])) (\<lambda>c'.
                   pureS (Inr (wd_blake2s_hex W c' = PK_BLAKE2S))))))"

section \<open>Storage space\<close>

datatype storage_status = Available | InsufficientSpace nat nat

text \<open>
  The build decides where the number comes from: \<open>wd_free_space\<close> is \<open>None\<close> without the \<open>fs2\<close>
  feature, and an Android build never asks.
\<close>

definition get_free_space :: "world \<Rightarrow> ffi_error + nat" where
  "get_free_space W =
     (if wd_android W then Inr 200000000
      else case wd_free_space W of
        Some r \<Rightarrow> map_err (storage_err ''Failed to get free space: '') r
      | None \<Rightarrow> Inr 500000000)"

definition check_storage_available :: "world \<Rightarrow> ffi_error + storage_status" where
  "check_storage_available W = bindR (get_free_space W) (\<lambda>free_space.
     if free_space < MIN_FREE_SPACE
     then Inr (InsufficientSpace (free_space div 1000000) (MIN_FREE_SPACE div 1000000))
     else Inr Available)"

section \<open>One attempt\<close>

text \<open>The percentage of \<open>n\<close> bytes, a clamped single-precision quotient, is \<open>wd_percent\<close>.\<close>

fun h3_body :: "world \<Rightarrow> string \<Rightarrow> bytes list \<Rightarrow> string option \<Rightarrow> nat \<Rightarrow> nat \<Rightarrow> (device, ffi_error, unit) op" where
  "h3_body W p [] fin downloaded synced =
     (case fin of
        Some m \<Rightarrow> pureS (Inl (FNetwork (''Failed to read chunk: '' @ m)))
      | None \<Rightarrow> map_errS (storage_err ''Final sync error: '') (io_call W))"
| "h3_body W p (c # cs) fin downloaded synced =
     bindS (map_errS (storage_err ''Write error: '') (write_all W p c)) (\<lambda>_.
       let n = downloaded + length c
       in bindS (report n PK_SIZE (wd_percent W n PK_SIZE)) (\<lambda>_.
          bindS (map_errS (storage_err ''Sync error: '') (sync_if_due W n synced))
            (h3_body W p cs fin n)))"

definition download_with_http3 :: "world \<Rightarrow> string \<Rightarrow> nat \<Rightarrow> (device, ffi_error, unit) op" where
  "download_with_http3 W p resume_from =
     bindS next_request (\<lambda>i. case wd_h3 W i resume_from of
         H3Failed m \<Rightarrow> pureS (Inl (FNetwork m))
       | H3Response status shown chunks fin \<Rightarrow>
           if \<not> is_success status \<and> status \<noteq> 206
           then pureS (Inl (FNetwork (''Server returned status: '' @ shown)))
           else bindS (map_errS FStorage (open_write W (resume_from > 0) p)) (\<lambda>_.
                bindS (read_clock W) (h3_body W p chunks fin resume_from)))"

text \<open>Either the download is complete already (\<open>None\<close>), or the offset to resume from.\<close>

definition resume_offset :: "world \<Rightarrow> string \<Rightarrow> string \<Rightarrow> (device, ffi_error, nat option) op" where
  "resume_offset W tmp final =
     bindS (file_exists W tmp) (\<lambda>ex.
       if \<not> ex then pureS (Inr (Some 0))
       else bindS (map_errS FStorage (file_len W tmp)) (\<lambda>sz.
         if sz > 0 \<and> sz < PK_SIZE then pureS (Inr (Some sz))
         else if sz \<ge> PK_SIZE then
           bindS (settleS (verify_pk_integrity W tmp)) (\<lambda>ok.
             if or_else False ok
             then bindS (map_errS FStorage (rename_file W tmp final)) (\<lambda>_. pureS (Inr None))
             else bindS (settleS (remove_file W tmp)) (\<lambda>_. pureS (Inr (Some 0))))
         else pureS (Inr (Some 0))))"

definition pk_percentage :: "world \<Rightarrow> nat \<Rightarrow> nat \<Rightarrow> nat" where
  "pk_percentage W n tot = (if tot > 0 then wd_percent W n tot else 0)"

definition http2_fallback :: "world \<Rightarrow> string \<Rightarrow> (device, ffi_error, unit) op" where
  "http2_fallback W tmp =
     bindS (file_exists W tmp) (\<lambda>ex.
     bindS (if ex then bindS (settleS (file_len W tmp)) (\<lambda>r. pureS (Inr (or_else 0 r))) else pureS (Inr 0)) (\<lambda>n.
       http2_download_to_file W (pk_percentage W) tmp (Some n) (Some PK_SIZE)))"

definition integrity_error :: ffi_error where
  "integrity_error = FInvalidFormat ''Downloaded file failed integrity check. File may be corrupted.''"

definition finish_download :: "world \<Rightarrow> string \<Rightarrow> string \<Rightarrow> (device, ffi_error, unit) op" where
  "finish_download W tmp final =
     bindS (verify_pk_integrity W tmp) (\<lambda>ok.
       if \<not> ok then bindS (settleS (remove_file W tmp)) (\<lambda>_. pureS (Inl integrity_error))
       else map_errS (storage_err ''Failed to finalize file: '') (rename_file W tmp final))"

definition download_single_attempt :: "world \<Rightarrow> pk_manager \<Rightarrow> (device, ffi_error, unit) op" where
  "download_single_attempt W m =
     bindS (resume_offset W (temp_path m) (get_path m)) (\<lambda>off. case off of
         None \<Rightarrow> pureS (Inr ())
       | Some resume_from \<Rightarrow>
           bindS (settleS (download_with_http3 W (temp_path m) resume_from)) (\<lambda>r.
           bindS (if is_ok r then pureS (Inr ()) else http2_fallback W (temp_path m)) (\<lambda>_.
             finish_download W (temp_path m) (get_path m))))"

section \<open>The retry loop\<close>

text \<open>One round of the loop: true when the download is complete, false to go round again.\<close>

definition download_round :: "world \<Rightarrow> pk_manager \<Rightarrow> (device, ffi_error, bool) op" where
  "download_round W m =
     bindS (record_attempt W (pkm_vk_id m)) (\<lambda>attempt_idx.
     bindS (settleS (download_single_attempt W m)) (\<lambda>r. case r of
         Inr _ \<Rightarrow> pureS (Inr True)
       | Inl attempt_err \<Rightarrow>
           bindS (attempts_consumed W (pkm_vk_id m)) (\<lambda>consumed.
             if consumed \<ge> MAX_RETRIES_PER_24H
             then pureS (Inl (FRetryBudgetExceeded (''All '' @ show_nat MAX_RETRIES_PER_24H @
                    '' download attempts exhausted for vk_id '' @ show_nat (unat (pkm_vk_id m)) @
                    '' within the last 24 hours. Last failure: '' @ show_ffi_error attempt_err)))
             else bindS (compute_jittered_backoff W attempt_idx) (\<lambda>delay.
                  bindS (sleep_ms delay) (\<lambda>_. pureS (Inr False))))))"

text \<open>\<open>None\<close> when the fuel is used up.\<close>

fun download_loop :: "nat \<Rightarrow> world \<Rightarrow> pk_manager \<Rightarrow> device \<Rightarrow> ((ffi_error + unit) \<times> device) option" where
  "download_loop 0 W m d = None"
| "download_loop (Suc n) W m d =
     (case download_round W m d of
        (Inl e, d') \<Rightarrow> Some (Inl e, d')
      | (Inr done, d') \<Rightarrow> if done then Some (Inr (), d') else download_loop n W m d')"

text \<open>What comes before the loop: true when a valid key is in place.\<close>

definition download_preflight :: "world \<Rightarrow> pk_manager \<Rightarrow> (device, ffi_error, bool) op" where
  "download_preflight W m =
     bindS (pureS (check_storage_available W)) (\<lambda>st. case st of
         InsufficientSpace available_mb required_mb \<Rightarrow>
           pureS (Inl (FStorage (''Not enough storage. Need '' @ show_nat required_mb @ '' MB but only '' @
             show_nat available_mb @ '' MB available.'')))
       | Available \<Rightarrow>
           bindS (map_errS (storage_err ''Failed to create directory: '') (io_call W)) (\<lambda>_.
           bindS (settleS (verify_pk_integrity W (get_path m))) (\<lambda>r. pureS (Inr (or_else False r)))))"

definition download_with_progress :: "nat \<Rightarrow> world \<Rightarrow> pk_manager \<Rightarrow> device \<Rightarrow> ((ffi_error + unit) \<times> device) option" where
  "download_with_progress fuel W m d =
     (case download_preflight W m d of
        (Inl e, d') \<Rightarrow> Some (Inl e, d')
      | (Inr present, d') \<Rightarrow> if present then Some (Inr (), d') else download_loop fuel W m d')"


section \<open>The file in place\<close>

definition is_available :: "world \<Rightarrow> pk_manager \<Rightarrow> (device, 'e, bool) op" where
  "is_available W m = bindS (settleS (verify_pk_integrity W (get_path m))) (\<lambda>r. pureS (Inr (or_else False r)))"

definition remove_if_exists :: "world \<Rightarrow> string \<Rightarrow> (device, ffi_error, unit) op" where
  "remove_if_exists W p = bindS (file_exists W p) (\<lambda>ex.
     if ex then map_errS FStorage (remove_file W p) else pureS (Inr ()))"

definition delete_proving_key :: "world \<Rightarrow> pk_manager \<Rightarrow> (device, ffi_error, unit) op" where
  "delete_proving_key W m =
     bindS (remove_if_exists W (get_path m)) (\<lambda>_. remove_if_exists W (temp_path m))"

definition load_pk_to_memory :: "world \<Rightarrow> pk_manager \<Rightarrow> (device, ffi_error, bytes) op" where
  "load_pk_to_memory W m =
     bindS (verify_pk_integrity W (get_path m)) (\<lambda>ok.
       if \<not> ok then pureS (Inl (FInvalidFormat ''PK file failed integrity check''))
       else map_errS (storage_err ''Failed to read PK into memory: '') (read_file W (get_path m)))"

section \<open>The exported functions\<close>

datatype storage_check_result = Ready | Insufficient nat nat string | CheckError string

datatype proving_key_error =
    InsufficientStorage string
  | PkNetworkError string
  | InitializationError string
  | RetryBudgetExceeded string
  | UnknownError string

definition shortfall_text :: "nat \<Rightarrow> nat \<Rightarrow> string" where
  "shortfall_text required_mb available_mb =
     ''Need '' @ show_nat required_mb @ '' MB free space. Only '' @ show_nat available_mb @
     '' MB available. Please free up space.''"

definition proving_key_check_storage_with_bytes :: "nat \<Rightarrow> storage_check_result" where
  "proving_key_check_storage_with_bytes available_bytes =
     (if available_bytes < MIN_FREE_SPACE
      then Insufficient (available_bytes div 1000000) (MIN_FREE_SPACE div 1000000)
             (shortfall_text (MIN_FREE_SPACE div 1000000) (available_bytes div 1000000))
      else Ready)"

definition proving_key_check_storage :: "world \<Rightarrow> storage_check_result" where
  "proving_key_check_storage W =
     (case check_storage_available W of
        Inr Available \<Rightarrow> Ready
      | Inr (InsufficientSpace available_mb required_mb) \<Rightarrow>
          Insufficient available_mb required_mb (shortfall_text required_mb available_mb)
      | Inl e \<Rightarrow> CheckError (show_ffi_error e))"

definition proving_key_is_available :: "world \<Rightarrow> string \<Rightarrow> (device, 'e, bool) op" where
  "proving_key_is_available W app_files_dir = is_available W (pk_manager_new app_files_dir)"

definition of_download_error :: "ffi_error \<Rightarrow> proving_key_error" where
  "of_download_error e =
     (case e of
        FStorage msg \<Rightarrow> if contains_str ''Not enough storage'' msg then InsufficientStorage msg
                         else UnknownError (show_ffi_error e)
      | FNetwork msg \<Rightarrow> PkNetworkError msg
      | FRetryBudgetExceeded msg \<Rightarrow> RetryBudgetExceeded msg
      | _ \<Rightarrow> UnknownError (show_ffi_error e))"

text \<open>\<open>rt\<close> is the outcome of starting the Tokio runtime.\<close>

definition proving_key_download ::
    "ffi_error + unit \<Rightarrow> nat \<Rightarrow> world \<Rightarrow> string \<Rightarrow> device \<Rightarrow> ((proving_key_error + unit) \<times> device) option" where
  "proving_key_download rt fuel W app_files_dir d =
     (case rt of
        Inl e \<Rightarrow> Some (Inl (InitializationError (''Tokio runtime: '' @ show_ffi_error e)), d)
      | Inr _ \<Rightarrow>
          map_option (\<lambda>(r, d'). (map_err of_download_error r, d'))
            (download_with_progress fuel W (pk_manager_new app_files_dir) d))"

definition read_proving_key :: "world \<Rightarrow> string \<Rightarrow> (device, proving_key_error, bytes) op" where
  "read_proving_key W app_files_dir =
     (let m = pk_manager_new app_files_dir
      in bindS (is_available W m) (\<lambda>ok.
           if \<not> ok then pureS (Inl (InitializationError
                  ''Proving key file not found or invalid. Please download it first.''))
           else bindS (map_errS (\<lambda>e. InitializationError (''Failed to load PK: '' @ show_ffi_error e))
                        (load_pk_to_memory W m)) (\<lambda>pk.
                pureS (if length pk \<noteq> PK_SIZE
                  then Inl (InitializationError (''PK size mismatch: expected '' @ show_nat PK_SIZE @
                         '' bytes, got '' @ show_nat (length pk) @ '' bytes''))
                  else Inr pk))))"

definition proving_key_init ::
    "externals \<Rightarrow> 'p prover_ext \<Rightarrow> world \<Rightarrow> string \<Rightarrow> (device \<times> 'p prover_globals, proving_key_error, unit) op" where
  "proving_key_init X Q W app_files_dir s =
     (case s of (d, g) \<Rightarrow> case read_proving_key W app_files_dir d of
        (Inl e, d') \<Rightarrow> (Inl e, (d', g))
      | (Inr pk, d') \<Rightarrow> (case init_prover_with_pk_bytes X Q pk g of
          (r, g') \<Rightarrow> (map_err (\<lambda>e. InitializationError (''Prover initialization failed: '' @ show_prover_error e)) r,
                      (d', g'))))"

definition proving_key_delete :: "world \<Rightarrow> string \<Rightarrow> (device, proving_key_error, unit) op" where
  "proving_key_delete W app_files_dir =
     map_errS (\<lambda>e. UnknownError (show_ffi_error e)) (delete_proving_key W (pk_manager_new app_files_dir))"

text \<open>\<open>dbg\<close> is the standard library's \<open>Debug\<close> text of a path.\<close>

definition proving_key_get_info :: "(string \<Rightarrow> string) \<Rightarrow> world \<Rightarrow> string \<Rightarrow> (device, 'e, string) op" where
  "proving_key_get_info dbg W app_files_dir =
     (let p = get_path (pk_manager_new app_files_dir); nl = CHR 0x0A # ''  ''
      in bindS (file_exists W p) (\<lambda>ex.
           if \<not> ex then pureS (Inr (''PK not found at: '' @ dbg p))
           else bindS (settleS (file_len W p)) (\<lambda>meta. case meta of
               Inl e \<Rightarrow> pureS (Inr (''Failed to get PK info: '' @ e))
             | Inr sz \<Rightarrow>
                 bindS (settleS (verify_pk_integrity W p)) (\<lambda>ok.
                   pureS (Inr (''PK Info:'' @ nl @ ''Path: '' @ dbg p @ nl @ ''Size: '' @ show_nat sz @ '' bytes'' @
                     nl @ ''Expected: '' @ show_nat PK_SIZE @ '' bytes'' @ nl @ ''Valid: '' @
                     show_bool (or_else False ok) @ nl @ ''VK ID: '' @ show_nat (unat VK_ID)))))))"

end
