(* ===== verification/Proving_Key_Contract.thy ===== *)
theory Proving_Key_Contract
  imports Proving_Key
begin

text \<open>
  How the operations of the proving key act on the files and on the retry state: what each
  leaves alone, what the integrity check establishes, and what a run without faults of the
  file system computes.
\<close>

section \<open>Paths\<close>

lemma join_path_inj [simp]: "join_path d a = join_path d b \<longleftrightarrow> a = b"
  by (simp add: join_path_def)

lemma temp_not_final [simp]: "temp_path m \<noteq> get_path m" "get_path m \<noteq> temp_path m"
  by (simp_all add: temp_path_def get_path_def)

section \<open>The integrity check\<close>

definition pk_ok :: "world \<Rightarrow> bytes \<Rightarrow> bool" where
  "pk_ok W c \<longleftrightarrow> length c = PK_SIZE \<and> wd_blake2s_hex W c = PK_BLAKE2S"

lemma concat_blocks: "concat (blocks c) = c"
proof (induction c rule: blocks.induct)
  case (1 c)
  then show ?case by (subst blocks.simps) simp
qed

lemma frame_read_blocks [still_intros]: "still (frame S d0) (read_blocks W bs acc)"
  by (induction bs arbitrary: acc) (auto intro!: still_intros)

lemma frame_verify [still_intros]: "still (frame S d0) (verify_pk_integrity W p)"
  unfolding verify_pk_integrity_def by (intro still_intros)

text \<open>
  \<open>reads F f \<phi>\<close>: with the files \<open>F\<close> on the device, \<open>f\<close> leaves them as they are, and a result
  it returns has the property \<open>\<phi>\<close>.
\<close>

definition holds_files :: "(string \<Rightarrow> bytes option) \<Rightarrow> device \<Rightarrow> bool" where
  "holds_files F d \<longleftrightarrow> dev_files d = F"

definition reads :: "(string \<Rightarrow> bytes option) \<Rightarrow> (device, 'e, 'a) op \<Rightarrow> ('a \<Rightarrow> bool) \<Rightarrow> bool" where
  "reads F f \<phi> \<longleftrightarrow> ends (holds_files F) f (\<lambda>x d. holds_files F d \<and> \<phi> x) (holds_files F)"

named_theorems reads_intros \<open>the rules of the operations that only look\<close>

lemma holds_own [simp]: "holds_files (dev_files d) d"
  by (simp add: holds_files_def)

lemma ends_pre_and: "(\<phi> \<Longrightarrow> ends P f Q R) \<Longrightarrow> ends (\<lambda>s. P s \<and> \<phi>) f Q R"
  by (auto simp: ends_def)

lemma ends_map_errS:
  assumes "ends P f Q R"
  shows "ends P (map_errS h f) Q R"
proof (rule endsI)
  fix s r s' assume P: "P s" and "map_errS h f s = (r, s')"
  from this(2) show "case r of Inr x \<Rightarrow> Q x s' | Inl _ \<Rightarrow> R s'"
  proof (cases rule: map_errS_cases)
    case (1 r0)
    with endsD[OF assms P 1(1)] show ?thesis by (cases r0) simp_all
  qed
qed

lemma ends_settleS: "ends P f Q R \<Longrightarrow> ends P (settleS f) (\<lambda>r s. case r of Inr x \<Rightarrow> Q x s | Inl _ \<Rightarrow> R s) R'"
  unfolding ends_def settleS_def by (auto split: prod.splits)

lemma reads_bindS:
  assumes "reads F f \<phi>" "\<And>x. \<phi> x \<Longrightarrow> reads F (g x) \<psi>"
  shows "reads F (bindS f g) \<psi>"
  unfolding reads_def
  by (rule ends_bindS[OF assms(1)[unfolded reads_def]], rule ends_pre_and, rule assms(2)[unfolded reads_def])

lemma reads_map_errS [reads_intros]: "reads F f \<phi> \<Longrightarrow> reads F (map_errS h f) \<phi>"
  unfolding reads_def by (rule ends_map_errS)

lemma reads_weaken: "reads F f \<phi> \<Longrightarrow> (\<And>x. \<phi> x \<Longrightarrow> \<psi> x) \<Longrightarrow> reads F f \<psi>"
  unfolding reads_def by (erule ends_weaken) auto

lemma reads_settleS [reads_intros]: "reads F f \<phi> \<Longrightarrow> reads F (settleS f) (\<lambda>r. \<forall>x. r = Inr x \<longrightarrow> \<phi> x)"
  unfolding reads_def by (rule ends_weaken, erule ends_settleS) (auto split: sum.splits)

lemma reads_pureS [reads_intros]: "(\<And>x. r = Inr x \<Longrightarrow> \<phi> x) \<Longrightarrow> reads F (pureS r) \<phi>"
  unfolding reads_def by (rule ends_pureS) auto

lemma reads_if [reads_intros]: "(b \<Longrightarrow> reads F f \<phi>) \<Longrightarrow> (\<not> b \<Longrightarrow> reads F g \<phi>) \<Longrightarrow> reads F (if b then f else g) \<phi>"
  by simp

lemma reads_io_call [reads_intros]: "reads F (io_call W) (\<lambda>_. True)"
  by (auto simp: reads_def holds_files_def ends_def io_call_def split: option.splits)

lemma reads_file_content: "reads F (file_content p) (\<lambda>c. F p = Some c)"
  by (auto simp: reads_def holds_files_def ends_def file_content_def ok_or_def split: option.splits)

lemma reads_file [reads_intros]: "reads F (read_file W p) (\<lambda>c. F p = Some c)"
  unfolding read_file_def by (rule reads_bindS, rule reads_io_call, rule reads_file_content)

lemma reads_file_len [reads_intros]: "reads F (file_len W p) (\<lambda>n. \<exists>c. F p = Some c \<and> n = length c)"
  unfolding file_len_def
  by (rule reads_bindS, rule reads_io_call, rule reads_bindS, rule reads_file_content) (auto intro!: reads_intros)

lemma reads_exists [reads_intros]: "reads F (file_exists W p) (\<lambda>b. b \<longrightarrow> F p \<noteq> None)"
  unfolding file_exists_def
  by (rule reads_bindS, rule reads_settleS, rule reads_file) (auto simp: is_ok_iff intro!: reads_pureS)

lemma reads_blocks [reads_intros]: "reads F (read_blocks W bs acc) (\<lambda>x. x = acc @ concat bs)"
proof (induction bs arbitrary: acc)
  case Nil
  show ?case by (simp, rule reads_bindS, rule reads_io_call) (auto intro!: reads_pureS)
next
  case (Cons b bs)
  show ?case using Cons[of "acc @ b"] by (simp, intro reads_bindS[OF reads_io_call]) simp
qed

lemma reads_verify: "reads F (verify_pk_integrity W p) (\<lambda>b. b \<longrightarrow> (\<exists>c. F p = Some c \<and> pk_ok W c))"
  unfolding verify_pk_integrity_def
  apply (rule reads_bindS[OF reads_exists], intro reads_if)
   apply (auto intro!: reads_pureS)[1]
  apply (rule reads_bindS[OF reads_map_errS[OF reads_file_len]], intro reads_if)
   apply (auto intro!: reads_pureS)[1]
  apply (rule reads_bindS[OF reads_map_errS[OF reads_file]])
  apply (rule reads_bindS[OF reads_map_errS[OF reads_blocks]])
  apply (auto intro!: reads_pureS simp: concat_blocks pk_ok_def)
  done

lemma readsD:
  assumes "reads (dev_files d) f \<phi>" "f d = (r, d')"
  shows "dev_files d' = dev_files d" "r = Inr x \<Longrightarrow> \<phi> x"
  using endsD[OF assms(1)[unfolded reads_def] holds_own assms(2)]
  by (auto simp: holds_files_def split: sum.splits)

lemma verify_sound:
  assumes "verify_pk_integrity W p d = (Inr True, d')"
  shows "\<exists>c. dev_files d p = Some c \<and> pk_ok W c"
  using readsD(2)[OF reads_verify assms refl] by simp


section \<open>What the download leaves alone\<close>

lemma frame_h3_body: "p \<in> S \<Longrightarrow> still (frame S d0) (h3_body W p cs fin n t)"
proof (induction cs arbitrary: n t)
  case Nil
  then show ?case by (cases fin) (auto intro!: still_intros)
next
  case (Cons c cs)
  then show ?case by (auto simp: Let_def intro!: still_intros)
qed

lemma frame_http3 [still_intros]: "p \<in> S \<Longrightarrow> still (frame S d0) (download_with_http3 W p n)"
  unfolding download_with_http3_def
  by (auto intro!: still_intros frame_h3_body split: h3_answer.splits)

lemma frame_http2_fallback [still_intros]: "p \<in> S \<Longrightarrow> still (frame S d0) (http2_fallback W p)"
  unfolding http2_fallback_def by (auto intro!: still_intros)

lemma frame_resume_offset [still_intros]:
  "p \<in> S \<Longrightarrow> q \<in> S \<Longrightarrow> still (frame S d0) (resume_offset W p q)"
  unfolding resume_offset_def by (auto intro!: still_intros)

lemma frame_finish [still_intros]: "p \<in> S \<Longrightarrow> q \<in> S \<Longrightarrow> still (frame S d0) (finish_download W p q)"
  unfolding finish_download_def by (auto intro!: still_intros)

lemma frame_single_attempt:
  "temp_path m \<in> S \<Longrightarrow> get_path m \<in> S \<Longrightarrow> still (frame S d0) (download_single_attempt W m)"
  unfolding download_single_attempt_def by (auto intro!: still_intros split: option.splits)

section \<open>Only a verified file gets into place\<close>

text \<open>At most the temporary file differs from \<open>d0\<close>; and: the key is in place, and nothing else differs.\<close>

definition only_temp :: "string \<Rightarrow> device \<Rightarrow> device \<Rightarrow> bool" where
  "only_temp tmp d0 d \<longleftrightarrow> (\<forall>q. q \<noteq> tmp \<longrightarrow> dev_files d q = dev_files d0 q)"

definition has_valid :: "world \<Rightarrow> string \<Rightarrow> device \<Rightarrow> bool" where
  "has_valid W p d \<longleftrightarrow> (\<exists>c. dev_files d p = Some c \<and> pk_ok W c)"

definition completed :: "world \<Rightarrow> string \<Rightarrow> string \<Rightarrow> device \<Rightarrow> device \<Rightarrow> bool" where
  "completed W tmp final d0 d \<longleftrightarrow>
     has_valid W final d \<and> (\<forall>q. q \<noteq> tmp \<longrightarrow> q \<noteq> final \<longrightarrow> dev_files d q = dev_files d0 q)"

lemma only_temp_still:
  assumes "\<And>d1. still (frame {tmp} d1) f"
  shows "still (only_temp tmp d0) f"
proof (rule stillI)
  fix s r s' assume "only_temp tmp d0 s" "f s = (r, s')"
  then show "only_temp tmp d0 s'"
    using stillD[OF assms[of s] frame_refl] by (auto simp: only_temp_def frame_def)
qed

lemma verify_ends:
  "ends (only_temp tmp d0) (verify_pk_integrity W p)
     (\<lambda>b d. only_temp tmp d0 d \<and> (b \<longrightarrow> has_valid W p d)) (only_temp tmp d0)"
proof (rule endsI)
  fix s r s' assume s: "only_temp tmp d0 s" "verify_pk_integrity W p s = (r, s')"
  from readsD[OF reads_verify s(2)] s
  show "case r of Inr b \<Rightarrow> only_temp tmp d0 s' \<and> (b \<longrightarrow> has_valid W p s') | Inl _ \<Rightarrow> only_temp tmp d0 s'"
    by (cases r) (auto simp: has_valid_def only_temp_def)
qed

lemma rename_ends:
  assumes "tmp \<noteq> final"
  shows "ends (\<lambda>d. only_temp tmp d0 d \<and> has_valid W tmp d) (rename_file W tmp final)
     (\<lambda>_. completed W tmp final d0) (only_temp tmp d0)"
proof (rule endsI)
  fix s r s' assume s: "only_temp tmp d0 s \<and> has_valid W tmp s" "rename_file W tmp final s = (r, s')"
  then obtain c where c: "dev_files s tmp = Some c" "pk_ok W c" by (auto simp: has_valid_def)
  from s(2) show "case r of Inr _ \<Rightarrow> completed W tmp final d0 s' | Inl _ \<Rightarrow> only_temp tmp d0 s'"
    unfolding rename_file_def
  proof (cases rule: bindS_cases)
    case (err e)
    with readsD(1)[OF reads_file err(1)] s(1) show ?thesis by (simp add: only_temp_def)
  next
    case (ok x t)
    from readsD[OF reads_file ok(1)] c have "dev_files t = dev_files s" "x = c" by simp_all
    with ok(2) s(1) c(2) assms show ?thesis
      by (auto simp: bindS_def set_file_def completed_def has_valid_def only_temp_def)
  qed
qed

lemma ends_imp: "ends (\<lambda>s. P s \<and> (b \<longrightarrow> A s)) f Q R \<Longrightarrow> b \<Longrightarrow> ends (\<lambda>s. P s \<and> A s) f Q R"
  by (auto simp: ends_def)

lemma ends_pre: "ends P f Q R \<Longrightarrow> (\<And>s. P' s \<Longrightarrow> P s) \<Longrightarrow> ends P' f Q R"
  by (auto simp: ends_def)

lemma finish_ends:
  assumes "tmp \<noteq> final"
  shows "ends (only_temp tmp d0) (finish_download W tmp final) (\<lambda>_. completed W tmp final d0) (only_temp tmp d0)"
  unfolding finish_download_def
proof (rule ends_bindS[OF verify_ends], rule ends_if)
  fix ok :: bool
  assume "\<not> ok"
  have "still (only_temp tmp d0) (bindS (settleS (remove_file W tmp)) (\<lambda>_. pureS (Inl integrity_error :: ffi_error + unit)))"
    by (rule only_temp_still) (auto intro!: still_intros)
  then show "ends (\<lambda>d. only_temp tmp d0 d \<and> (ok \<longrightarrow> has_valid W tmp d))
      (bindS (settleS (remove_file W tmp)) (\<lambda>_. pureS (Inl integrity_error)))
      (\<lambda>_. completed W tmp final d0) (only_temp tmp d0)"
    unfolding ends_def still_def
    by (auto simp: bindS_def settleS_def pureS_def split: prod.splits sum.splits)
next
  fix ok :: bool
  assume "\<not> \<not> ok"
  then show "ends (\<lambda>d. only_temp tmp d0 d \<and> (ok \<longrightarrow> has_valid W tmp d))
      (map_errS (storage_err ''Failed to finalize file: '') (rename_file W tmp final))
      (\<lambda>_. completed W tmp final d0) (only_temp tmp d0)"
    by (intro ends_map_errS ends_pre[OF rename_ends[OF assms]]) auto
qed


definition progressed :: "world \<Rightarrow> string \<Rightarrow> string \<Rightarrow> device \<Rightarrow> bool \<Rightarrow> device \<Rightarrow> bool" where
  "progressed W tmp final d0 done d \<longleftrightarrow> (if done then completed W tmp final d0 d else only_temp tmp d0 d)"

lemma still_progress: "still (only_temp tmp d0) f \<Longrightarrow> ends (only_temp tmp d0) f (\<lambda>_. only_temp tmp d0) (only_temp tmp d0)"
  by (rule still_ends)

lemma resume_ends:
  assumes "tmp \<noteq> final"
  shows "ends (only_temp tmp d0) (resume_offset W tmp final)
     (\<lambda>off. progressed W tmp final d0 (off = None)) (only_temp tmp d0)"
proof -
  let ?P = "only_temp tmp d0" and ?Q = "\<lambda>off. progressed W tmp final d0 (off = None)"
  have offset: "ends ?P (pureS (Inr (Some n))) ?Q ?P" for n
    by (rule ends_pureS) (auto simp: progressed_def)
  have complete: "ends (\<lambda>d. ?P d \<and> has_valid W tmp d)
      (bindS (map_errS FStorage (rename_file W tmp final)) (\<lambda>_. pureS (Inr None))) ?Q ?P"
    by (rule ends_bindS[OF ends_map_errS[OF rename_ends[OF assms]]], rule ends_pureS) (auto simp: progressed_def)
  have discard: "ends ?P (bindS (settleS (remove_file W tmp)) (\<lambda>_. pureS (Inr (Some 0)))) ?Q ?P"
    by (rule ends_bindS[OF still_progress offset], rule only_temp_still) (auto intro!: still_intros)
  have check: "ends ?P (settleS (verify_pk_integrity W tmp))
      (\<lambda>ok d. ?P d \<and> (or_else False ok \<longrightarrow> has_valid W tmp d)) ?P"
    by (rule ends_weaken[OF ends_settleS[OF verify_ends]]) (auto simp: or_else_def split: sum.splits)
  have looking: "ends ?P (file_exists W tmp) (\<lambda>_. ?P) ?P" "ends ?P (map_errS FStorage (file_len W tmp)) (\<lambda>_. ?P) ?P"
    by (rule still_ends, rule only_temp_still, intro still_intros)+
  have known: "ends ?P (bindS (settleS (verify_pk_integrity W tmp)) (\<lambda>ok.
             if or_else False ok
             then bindS (map_errS FStorage (rename_file W tmp final)) (\<lambda>_. pureS (Inr None))
             else bindS (settleS (remove_file W tmp)) (\<lambda>_. pureS (Inr (Some 0))))) ?Q ?P"
  proof (rule ends_bindS[OF check], rule ends_if)
    fix ok :: "ffi_error + bool"
    assume "or_else False ok"
    then show "ends (\<lambda>d. ?P d \<and> (or_else False ok \<longrightarrow> has_valid W tmp d))
        (bindS (map_errS FStorage (rename_file W tmp final)) (\<lambda>_. pureS (Inr None))) ?Q ?P"
      by (intro ends_pre[OF complete]) auto
  qed (rule ends_pre[OF discard], simp)
  show ?thesis
    unfolding resume_offset_def
    by (rule ends_bindS[OF looking(1)], rule ends_if[OF offset], rule ends_bindS[OF looking(2)])
      (intro ends_if offset known)
qed

lemma single_attempt_ends:
  "ends (only_temp (temp_path m) d0) (download_single_attempt W m)
     (\<lambda>_. completed W (temp_path m) (get_path m) d0) (only_temp (temp_path m) d0)"
proof -
  let ?P = "only_temp (temp_path m) d0" and ?C = "completed W (temp_path m) (get_path m) d0"
  have transfer: "ends ?P (bindS (settleS (download_with_http3 W (temp_path m) n)) (\<lambda>r.
           bindS (if is_ok r then pureS (Inr ()) else http2_fallback W (temp_path m)) (\<lambda>_.
             finish_download W (temp_path m) (get_path m)))) (\<lambda>_. ?C) ?P" for n
  proof (rule ends_bindS[OF still_ends])
    show "still ?P (settleS (download_with_http3 W (temp_path m) n))"
      by (rule only_temp_still) (auto intro!: still_intros)
  next
    fix r :: "ffi_error + unit"
    have "still ?P (if is_ok r then pureS (Inr ()) else http2_fallback W (temp_path m))"
      by (rule only_temp_still) (auto intro!: still_intros)
    then show "ends ?P (bindS (if is_ok r then pureS (Inr ()) else http2_fallback W (temp_path m)) (\<lambda>_.
             finish_download W (temp_path m) (get_path m))) (\<lambda>_. ?C) ?P"
      by (intro ends_bindS[OF still_ends] finish_ends) simp_all
  qed
  show ?thesis
    unfolding download_single_attempt_def
  proof (rule ends_bindS[OF resume_ends])
    fix off :: "nat option"
    show "ends (progressed W (temp_path m) (get_path m) d0 (off = None))
        (case off of None \<Rightarrow> pureS (Inr ()) | Some n \<Rightarrow> bindS (settleS (download_with_http3 W (temp_path m) n)) (\<lambda>r.
           bindS (if is_ok r then pureS (Inr ()) else http2_fallback W (temp_path m)) (\<lambda>_.
             finish_download W (temp_path m) (get_path m)))) (\<lambda>_. ?C) ?P"
    proof (cases off)
      case None
      then show ?thesis by (auto intro!: ends_pureS simp: progressed_def)
    next
      case (Some n)
      then show ?thesis using transfer[of n] by (auto intro: ends_pre simp: progressed_def)
    qed
  qed simp
qed

lemma only_temp_attempts [still_intros]:
  "still (only_temp tmp d0) (set_attempts vk ts)" "still (only_temp tmp d0) (get_attempts vk)"
  "still (only_temp tmp d0) lock_retry_state" "still (only_temp tmp d0) (sleep_ms t)"
  "still (only_temp tmp d0) (read_clock W)" "still (only_temp tmp d0) (next_random W)"
  by (auto simp: still_def only_temp_def set_attempts_def get_attempts_def lock_retry_state_def sleep_ms_def
      read_clock_def next_random_def)

lemma only_temp_budget [still_intros]:
  "still (only_temp tmp d0) (record_attempt W vk)" "still (only_temp tmp d0) (attempts_consumed W vk)"
  "still (only_temp tmp d0) (compute_jittered_backoff W i)"
  unfolding record_attempt_def attempts_consumed_def trimmed_attempts_def compute_jittered_backoff_def Let_def
  by (auto intro!: still_intros)

lemma round_ends:
  "ends (only_temp (temp_path m) d0) (download_round W m)
     (progressed W (temp_path m) (get_path m) d0) (only_temp (temp_path m) d0)"
proof -
  let ?P = "only_temp (temp_path m) d0"
  let ?after = "\<lambda>i r. case r of Inr _ \<Rightarrow> pureS (Inr True) | Inl e \<Rightarrow>
           bindS (attempts_consumed W (pkm_vk_id m)) (\<lambda>consumed.
             if consumed \<ge> MAX_RETRIES_PER_24H
             then pureS (Inl (FRetryBudgetExceeded (''All '' @ show_nat MAX_RETRIES_PER_24H @
                    '' download attempts exhausted for vk_id '' @ show_nat (unat (pkm_vk_id m)) @
                    '' within the last 24 hours. Last failure: '' @ show_ffi_error e)))
             else bindS (compute_jittered_backoff W i) (\<lambda>delay.
                  bindS (sleep_ms delay) (\<lambda>_. pureS (Inr False))))"
  have failed: "ends ?P (?after i (Inl e)) (progressed W (temp_path m) (get_path m) d0) ?P" for i e
    by (auto intro!: ends_bindS[OF still_ends] ends_if ends_pureS still_intros simp: progressed_def)
  have after: "ends (\<lambda>d. case r of Inr _ \<Rightarrow> completed W (temp_path m) (get_path m) d0 d | Inl _ \<Rightarrow> ?P d)
      (?after i r) (progressed W (temp_path m) (get_path m) d0) ?P" for i and r :: "ffi_error + unit"
    using failed[of i] by (cases r) (auto intro!: ends_pureS simp: progressed_def)
  show ?thesis
    unfolding download_round_def
    by (rule ends_bindS[OF still_ends[OF only_temp_budget(1)]],
        rule ends_bindS[OF ends_settleS[OF single_attempt_ends] after])
qed

text \<open>Whatever the outcome: on success the key is in place, otherwise only the temporary file has changed.\<close>

definition settled :: "world \<Rightarrow> pk_manager \<Rightarrow> device \<Rightarrow> 'e + unit \<Rightarrow> device \<Rightarrow> bool" where
  "settled W m d0 r d \<longleftrightarrow>
     (if is_ok r then completed W (temp_path m) (get_path m) d0 d else only_temp (temp_path m) d0 d)"

lemma loop_settled:
  "only_temp (temp_path m) d0 d \<Longrightarrow> download_loop n W m d = Some (r, d') \<Longrightarrow> settled W m d0 r d'"
proof (induction n arbitrary: d)
  case (Suc n)
  obtain r1 d1 where round: "download_round W m d = (r1, d1)" by (cases "download_round W m d")
  note after = endsD[OF round_ends Suc.prems(1) round]
  show ?case
  proof (cases r1)
    case (Inl e)
    with after round Suc.prems show ?thesis by (auto simp: settled_def)
  next
    case (Inr b)
    with after round Suc show ?thesis by (cases b) (auto simp: settled_def progressed_def)
  qed
qed simp

lemma download_settled:
  assumes "download_with_progress fuel W m d = Some (r, d')"
  shows "settled W m d r d'"
proof -
  have same: "only_temp (temp_path m) d d" by (simp add: only_temp_def)
  have valid: "completed W (temp_path m) (get_path m) d x \<longleftrightarrow> has_valid W (get_path m) x"
    if "only_temp (temp_path m) d x" for x
    using that by (auto simp: completed_def only_temp_def)
  have check: "ends (only_temp (temp_path m) d) (settleS (verify_pk_integrity W (get_path m)))
      (\<lambda>ok x. only_temp (temp_path m) d x \<and> (or_else False ok \<longrightarrow> has_valid W (get_path m) x)) (only_temp (temp_path m) d)"
    by (rule ends_weaken[OF ends_settleS[OF verify_ends]]) (auto simp: or_else_def split: sum.splits)
  have io: "still (only_temp (temp_path m) d) (map_errS (storage_err ''Failed to create directory: '') (io_call W))"
    by (rule only_temp_still) (auto intro!: still_intros)
  have pre: "ends (only_temp (temp_path m) d) (download_preflight W m)
      (progressed W (temp_path m) (get_path m) d) (only_temp (temp_path m) d)"
    unfolding download_preflight_def
    by (rule ends_bindS[OF still_ends[OF still_pureS]], auto split: storage_status.splits intro!: ends_pureS
        ends_bindS[OF still_ends[OF io]] ends_bindS[OF check] simp: progressed_def valid)
  obtain r1 d1 where p: "download_preflight W m d = (r1, d1)" by (cases "download_preflight W m d")
  note after = endsD[OF pre same p]
  show ?thesis
  proof (cases r1)
    case (Inl e)
    with after p assms show ?thesis by (auto simp: settled_def download_with_progress_def)
  next
    case (Inr b)
    with after p assms loop_settled[of m d d1] show ?thesis
      by (cases b) (auto simp: settled_def progressed_def download_with_progress_def)
  qed
qed

end
