(* ===== verification/Proving_Key_Budget.thy ===== *)
theory Proving_Key_Budget
  imports Proving_Key_Contract
begin

text \<open>
  The retry budget: what the recorded attempts say about the attempts made, and why the
  download loop ends.
\<close>

section \<open>Runs of the budget operations\<close>

lemma trimmed_run:
  "trimmed_attempts W vk d =
     (if dev_poisoned d
      then (Inl (FGeneric ''Retry state lock poisoned: poisoned lock: another task failed inside''), d)
      else let ts = trim_stale_attempts (wd_clock W (dev_time d)) (dev_attempts d vk)
           in (Inr ts, d\<lparr>dev_time := dev_time d + 1, dev_attempts := (dev_attempts d)(vk := ts)\<rparr>))"
  by (simp add: trimmed_attempts_def lock_retry_state_def read_clock_def get_attempts_def set_attempts_def
      ensure_def bindS_def Let_def)

lemma record_run:
  assumes "\<not> dev_poisoned d" "ts = trim_stale_attempts (wd_clock W (dev_time d)) (dev_attempts d vk)"
  shows "length ts < 5 \<Longrightarrow> record_attempt W vk d =
      (Inr (length ts), d\<lparr>dev_time := dev_time d + 2,
        dev_attempts := (dev_attempts d)(vk := ts @ [wd_clock W (dev_time d + 1)])\<rparr>)"
    and "5 \<le> length ts \<Longrightarrow> \<exists>e. record_attempt W vk d =
      (Inl e, d\<lparr>dev_time := dev_time d + 1, dev_attempts := (dev_attempts d)(vk := ts)\<rparr>)"
  using assms
  by (simp_all add: record_attempt_def bindS_def trimmed_run Let_def MAX_RETRIES_PER_24H_def pureS_def
      read_clock_def set_attempts_def)

lemma consumed_run:
  assumes "\<not> dev_poisoned d" "ts = trim_stale_attempts (wd_clock W (dev_time d)) (dev_attempts d vk)"
  shows "attempts_consumed W vk d =
      (Inr (length ts), d\<lparr>dev_time := dev_time d + 1, dev_attempts := (dev_attempts d)(vk := ts)\<rparr>)"
  using assms by (simp add: attempts_consumed_def bindS_def trimmed_run Let_def pureS_def)

lemma poisoned_run:
  "dev_poisoned d \<Longrightarrow> \<exists>e. record_attempt W vk d = (Inl e, d)"
  "dev_poisoned d \<Longrightarrow> \<exists>e. attempts_consumed W vk d = (Inl e, d)"
  by (simp_all add: record_attempt_def attempts_consumed_def bindS_def trimmed_run)

section \<open>The rolling window\<close>

text \<open>
  A run of the two operations, in any order: \<open>True\<close> asks for an attempt, \<open>False\<close> for the count.
  The first component lists the instants of the attempts granted.
\<close>

fun budget_run :: "bool list \<Rightarrow> world \<Rightarrow> u32 \<Rightarrow> device \<Rightarrow> nat list \<times> device" where
  "budget_run [] W vk d = ([], d)"
| "budget_run (True # ops) W vk d =
     (case record_attempt W vk d of
        (Inl _, d') \<Rightarrow> budget_run ops W vk d'
      | (Inr _, d') \<Rightarrow> (case budget_run ops W vk d' of (ts, d'') \<Rightarrow> (last (dev_attempts d' vk) # ts, d'')))"
| "budget_run (False # ops) W vk d = budget_run ops W vk (snd (attempts_consumed W vk d))"

definition spaced :: "nat list \<Rightarrow> bool" where
  "spaced ts \<longleftrightarrow> (\<forall>i. i + 5 < length ts \<longrightarrow> ts ! i + RETRY_WINDOW \<le> ts ! (i + 5))"

text \<open>
  Of the attempts made so far, in order, the retry state has dropped an initial part, all of it
  at least a window ago.
\<close>

definition budget_inv :: "world \<Rightarrow> u32 \<Rightarrow> nat list \<Rightarrow> device \<Rightarrow> bool" where
  "budget_inv W vk made d \<longleftrightarrow>
     sorted made \<and> spaced made \<and> (\<forall>t \<in> set made. t \<le> wd_clock W (dev_time d)) \<and>
     (\<exists>old. made = old @ dev_attempts d vk \<and> (\<forall>t \<in> set old. t + RETRY_WINDOW \<le> wd_clock W (dev_time d)))"

lemma trim_suffix:
  assumes "sorted ts"
  obtains gone where "ts = gone @ trim_stale_attempts now ts" "\<forall>t \<in> set gone. t + RETRY_WINDOW \<le> now"
proof (cases "RETRY_WINDOW \<le> now")
  case True
  let ?keep = "\<lambda>t. t > now - RETRY_WINDOW"
  have "filter ?keep ts = dropWhile (\<lambda>t. \<not> ?keep t) ts"
    using assms
  proof (induction ts)
    case (Cons a ts)
    show ?case
    proof (cases "now - RETRY_WINDOW < a")
      case True
      with Cons.prems have "\<forall>x \<in> set ts. now - RETRY_WINDOW < x" by auto
      then have "filter ?keep ts = ts" by (rule filter_True)
      with True show ?thesis by simp
    next
      case False
      with Cons show ?thesis by simp
    qed
  qed simp
  then have "ts = takeWhile (\<lambda>t. \<not> ?keep t) ts @ trim_stale_attempts now ts"
    using True by (simp add: trim_stale_attempts_def)
  moreover have "\<forall>t \<in> set (takeWhile (\<lambda>t. \<not> ?keep t) ts). t + RETRY_WINDOW \<le> now"
    using True by (auto dest!: set_takeWhileD)
  ultimately show thesis by (rule that)
next
  case False
  then show thesis by (intro that[of "[]"]) (simp_all add: trim_stale_attempts_def)
qed

lemma budget_trim:
  assumes inv: "budget_inv W vk made d" and mono: "mono (wd_clock W)"
    and ts: "ts = trim_stale_attempts (wd_clock W (dev_time d)) (dev_attempts d vk)"
  obtains old where "made = old @ ts" "\<forall>t \<in> set old. t + RETRY_WINDOW \<le> wd_clock W (dev_time d)"
proof -
  from inv obtain old where old: "made = old @ dev_attempts d vk" "\<forall>t \<in> set old. t + RETRY_WINDOW \<le> wd_clock W (dev_time d)"
    by (auto simp: budget_inv_def)
  from inv old(1) have "sorted (dev_attempts d vk)" by (auto simp: budget_inv_def sorted_append)
  then obtain gone where "dev_attempts d vk = gone @ ts" "\<forall>t \<in> set gone. t + RETRY_WINDOW \<le> wd_clock W (dev_time d)"
    using trim_suffix ts by metis
  with old show thesis by (intro that[of "old @ gone"]) auto
qed

lemma later:
  assumes "mono (wd_clock W)" "i \<le> j" "t \<le> wd_clock W i"
  shows "t \<le> wd_clock W j"
  using assms monoD order.trans by metis

lemma spaced_snoc:
  assumes "spaced ts" "5 \<le> length ts \<Longrightarrow> ts ! (length ts - 5) + RETRY_WINDOW \<le> t"
  shows "spaced (ts @ [t])"
  unfolding spaced_def
proof (intro allI impI)
  fix i assume i: "i + 5 < length (ts @ [t])"
  show "(ts @ [t]) ! i + RETRY_WINDOW \<le> (ts @ [t]) ! (i + 5)"
  proof (cases "i + 5 < length ts")
    case True
    with assms(1) show ?thesis by (simp add: spaced_def nth_append)
  next
    case False
    with i have "i = length ts - 5" "5 \<le> length ts" "i < length ts" by simp_all
    then show ?thesis using assms(2) by (simp add: nth_append)
  qed
qed

lemma budget_consumed:
  assumes inv: "budget_inv W vk made d" and mono: "mono (wd_clock W)"
    and d': "d' = d\<lparr>dev_time := dev_time d + 1, dev_attempts := (dev_attempts d)(vk := ts)\<rparr>"
    and ts: "ts = trim_stale_attempts (wd_clock W (dev_time d)) (dev_attempts d vk)"
  shows "budget_inv W vk made d'"
proof -
  from budget_trim[OF inv mono ts] obtain old where
    "made = old @ ts" "\<forall>t \<in> set old. t + RETRY_WINDOW \<le> wd_clock W (dev_time d)" .
  moreover have "t \<le> wd_clock W (dev_time d')" if "t \<le> wd_clock W (dev_time d)" for t
    by (rule later[OF mono _ that]) (simp add: d')
  moreover have "dev_attempts d' vk = ts" by (simp add: d')
  ultimately show ?thesis using inv unfolding budget_inv_def by blast
qed

lemma budget_recorded:
  assumes inv: "budget_inv W vk made d" and mono: "mono (wd_clock W)"
    and d': "d' = d\<lparr>dev_time := dev_time d + 2, dev_attempts := (dev_attempts d)(vk := ts @ [now])\<rparr>"
    and ts: "ts = trim_stale_attempts (wd_clock W (dev_time d)) (dev_attempts d vk)"
    and room: "length ts < 5" and now: "now = wd_clock W (dev_time d + 1)"
  shows "budget_inv W vk (made @ [now]) d'"
proof -
  from budget_trim[OF inv mono ts] obtain old where
    old: "made = old @ ts" "\<forall>t \<in> set old. t + RETRY_WINDOW \<le> wd_clock W (dev_time d)" .
  have past: "t \<le> now" if "t \<le> wd_clock W (dev_time d)" for t
    unfolding now by (rule later[OF mono _ that]) simp
  have "made ! (length made - 5) + RETRY_WINDOW \<le> now" if "5 \<le> length made"
  proof -
    have "made ! (length made - 5) \<in> set old"
    proof -
      from that room old(1) have i: "length made - 5 < length old" by simp
      then have "made ! (length made - 5) = old ! (length made - 5)" unfolding old(1) by (simp add: nth_append)
      with nth_mem[OF i] show ?thesis by simp
    qed
    with old(2) past show ?thesis by blast
  qed
  then have "spaced (made @ [now])"
    using inv unfolding budget_inv_def by (intro spaced_snoc) blast+
  moreover have "sorted (made @ [now])"
    using inv past unfolding budget_inv_def sorted_append by simp
  moreover have "t \<le> wd_clock W (dev_time d')" if "t \<le> now" for t
    by (rule later[OF mono _ that[unfolded now]]) (simp add: d')
  moreover have "\<forall>t \<in> set (made @ [now]). t \<le> now"
    using inv past unfolding budget_inv_def by simp
  moreover have "\<forall>t \<in> set old. t + RETRY_WINDOW \<le> now"
    using old(2) past by blast
  moreover have "made @ [now] = old @ dev_attempts d' vk"
    unfolding old(1) d' by simp
  ultimately show ?thesis
    unfolding budget_inv_def by blast
qed

lemma budget_run_spaced:
  assumes "mono (wd_clock W)"
  shows "budget_inv W vk made d \<Longrightarrow> spaced (made @ fst (budget_run ops W vk d))"
proof (induction ops arbitrary: made d)
  case Nil
  then show ?case by (simp add: budget_inv_def)
next
  case (Cons b ops)
  define ts where "ts = trim_stale_attempts (wd_clock W (dev_time d)) (dev_attempts d vk)"
  note step = Cons.IH Cons.prems
  show ?case
  proof (cases "dev_poisoned d")
    case True
    then show ?thesis using step poisoned_run[of d W vk] by (cases b) fastforce+
  next
    case False
    note runs = record_run[OF False ts_def] consumed_run[OF False ts_def]
    note kept = budget_consumed[OF Cons.prems assms refl ts_def]
    consider "\<not> b" | "b" "length ts < 5" | "b" "5 \<le> length ts" by linarith
    then show ?thesis
    proof cases
      case 1
      then show ?thesis using Cons.IH[OF kept] runs(3) by simp
    next
      case 2
      let ?d = "d\<lparr>dev_time := dev_time d + 2, dev_attempts := (dev_attempts d)(vk := ts @ [wd_clock W (dev_time d + 1)])\<rparr>"
      obtain ps d' where "budget_run ops W vk ?d = (ps, d')" by (cases "budget_run ops W vk ?d")
      with 2 show ?thesis
        using Cons.IH[OF budget_recorded[OF Cons.prems assms refl ts_def 2(2) refl]] runs(1)
        by simp
    next
      case 3
      with runs(2) obtain e where "record_attempt W vk d =
        (Inl e, d\<lparr>dev_time := dev_time d + 1, dev_attempts := (dev_attempts d)(vk := ts)\<rparr>)" by blast
      then show ?thesis using 3 Cons.IH[OF kept] by simp
    qed
  qed
qed

lemma budget_inv_new: "dev_attempts d vk = [] \<Longrightarrow> budget_inv W vk [] d"
  by (simp add: budget_inv_def spaced_def)


section \<open>The end of the loop\<close>

definition within_window :: "nat \<Rightarrow> world \<Rightarrow> bool" where
  "within_window a W \<longleftrightarrow> (\<forall>n. a \<le> wd_clock W n \<and> wd_clock W n < a + RETRY_WINDOW)"

definition fresh :: "nat \<Rightarrow> u32 \<Rightarrow> device \<Rightarrow> nat" where
  "fresh a vk d = length (filter (\<lambda>t. a \<le> t) (dev_attempts d vk))"

lemma trim_keeps_fresh:
  "now < a + RETRY_WINDOW \<Longrightarrow> filter (\<lambda>t. a \<le> t) (trim_stale_attempts now ts) = filter (\<lambda>t. a \<le> t) ts"
  by (auto simp: trim_stale_attempts_def intro!: filter_cong)

lemma record_fresh:
  assumes "within_window a W" "record_attempt W vk d = (Inr i, d')"
  shows "fresh a vk d' = fresh a vk d + 1 \<and> \<not> dev_poisoned d'"
proof -
  from assms(2) poisoned_run(1)[of d W vk] have up: "\<not> dev_poisoned d" by auto
  define ts where "ts = trim_stale_attempts (wd_clock W (dev_time d)) (dev_attempts d vk)"
  have "length ts < 5" using record_run(2)[OF up ts_def] assms(2) by force
  from record_run(1)[OF up ts_def this] assms(2)
  have d': "d' = d\<lparr>dev_time := dev_time d + 2,
      dev_attempts := (dev_attempts d)(vk := ts @ [wd_clock W (dev_time d + 1)])\<rparr>" by simp
  from assms(1) have "a \<le> wd_clock W (dev_time d + 1)" "wd_clock W (dev_time d) < a + RETRY_WINDOW"
    unfolding within_window_def by blast+
  then show ?thesis
    using up unfolding fresh_def d' by (simp add: ts_def trim_keeps_fresh)
qed

lemma consumed_fresh:
  assumes "within_window a W" "attempts_consumed W vk d = (Inr n, d')"
  shows "fresh a vk d' = fresh a vk d" "fresh a vk d \<le> n"
proof -
  from assms(2) poisoned_run(2)[of d W vk] have up: "\<not> dev_poisoned d" by auto
  define ts where "ts = trim_stale_attempts (wd_clock W (dev_time d)) (dev_attempts d vk)"
  from consumed_run[OF up ts_def] assms(2)
  have d': "n = length ts" "d' = d\<lparr>dev_time := dev_time d + 1, dev_attempts := (dev_attempts d)(vk := ts)\<rparr>" by simp_all
  from assms(1) have "wd_clock W (dev_time d) < a + RETRY_WINDOW"
    unfolding within_window_def by blast
  then have same: "filter (\<lambda>t. a \<le> t) ts = filter (\<lambda>t. a \<le> t) (dev_attempts d vk)"
    by (simp add: ts_def trim_keeps_fresh)
  then show "fresh a vk d' = fresh a vk d" unfolding fresh_def d' by simp
  show "fresh a vk d \<le> n" unfolding fresh_def d' same[symmetric] by simp
qed

lemma attempt_fresh:
  assumes "download_single_attempt W m d = (r, d')"
  shows "fresh a vk d' = fresh a vk d"
  using stillD[OF frame_single_attempt[of m UNIV d W] frame_refl assms]
  by (simp add: frame_def fresh_def)

lemma backoff_fresh:
  assumes "bindS (compute_jittered_backoff W i) (\<lambda>t. bindS (sleep_ms t) (\<lambda>_. pureS (Inr False))) d = (r, d')"
  shows "fresh a vk d' = fresh a vk d" "r = Inr False"
  using assms
  by (auto simp: compute_jittered_backoff_def Let_def bindS_def next_random_def sleep_ms_def pureS_def fresh_def
      split: if_splits)

lemma round_fresh:
  assumes "within_window a W" "download_round W m d = (Inr False, d')"
  shows "fresh a (pkm_vk_id m) d' = fresh a (pkm_vk_id m) d + 1" "fresh a (pkm_vk_id m) d' < 5"
proof -
  from assms(2) obtain i d1 where 1: "record_attempt W (pkm_vk_id m) d = (Inr i, d1)"
    unfolding download_round_def by (auto elim: bindS_cases)
  obtain r d2 where 2: "download_single_attempt W m d1 = (r, d2)" by (cases "download_single_attempt W m d1")
  from assms(2) 1 2 obtain e where "r = Inl e"
    unfolding download_round_def by (cases r) (auto simp: bindS_def settleS_def pureS_def)
  with assms(2) 1 2 obtain n d3 where 3: "attempts_consumed W (pkm_vk_id m) d2 = (Inr n, d3)" "n < 5"
    "bindS (compute_jittered_backoff W i) (\<lambda>t. bindS (sleep_ms t) (\<lambda>_. pureS (Inr False))) d3 =
      (Inr False :: ffi_error + bool, d')"
    unfolding download_round_def
    by (auto simp: bindS_Inr settleS_def MAX_RETRIES_PER_24H_def pureS_def elim!: bindS_cases split: if_splits)
  show "fresh a (pkm_vk_id m) d' = fresh a (pkm_vk_id m) d + 1"
    using record_fresh[OF assms(1) 1] attempt_fresh[OF 2] consumed_fresh(1)[OF assms(1) 3(1)] backoff_fresh(1)[OF 3(3)]
    by simp
  with record_fresh[OF assms(1) 1] attempt_fresh[OF 2, of a "pkm_vk_id m"] consumed_fresh(2)[OF assms(1) 3(1)] 3(2)
  show "fresh a (pkm_vk_id m) d' < 5" by simp
qed

lemma loop_returns:
  assumes "within_window a W"
  shows "0 < n \<Longrightarrow> 5 \<le> fresh a (pkm_vk_id m) d + n \<Longrightarrow> download_loop n W m d \<noteq> None"
proof (induction n arbitrary: d)
  case (Suc n)
  obtain r d' where round: "download_round W m d = (r, d')" by (cases "download_round W m d")
  show ?case
  proof (cases "r = Inr False")
    case True
    with round round_fresh[OF assms, of m d d'] Suc.prems have "0 < n" "5 \<le> fresh a (pkm_vk_id m) d' + n" by simp_all
    with Suc.IH round True show ?thesis by simp
  next
    case False
    with round show ?thesis by (cases r) auto
  qed
qed simp

lemma download_returns_within:
  "within_window a W \<Longrightarrow> 5 \<le> fuel \<Longrightarrow> download_with_progress fuel W m d \<noteq> None"
  using loop_returns[of a W fuel m]
  by (auto simp: download_with_progress_def split: prod.splits sum.splits)

section \<open>What a failed download reports\<close>

lemma consumed_error: "attempts_consumed W vk s = (Inl e, s') \<Longrightarrow> \<exists>x. e = FGeneric x"
  unfolding attempts_consumed_def
  by (erule bindS_cases) (auto simp: trimmed_run Let_def pureS_def split: if_splits)

lemma record_error:
  "record_attempt W vk s = (Inl e, s') \<Longrightarrow> \<exists>x. e = FRetryBudgetExceeded x \<or> e = FGeneric x"
  unfolding record_attempt_def
  by (erule bindS_cases)
    (auto simp: trimmed_run Let_def pureS_def bindS_def read_clock_def set_attempts_def split: if_splits)

lemma round_error:
  assumes "download_round W m d = (Inl e, d')"
  shows "\<exists>x. e = FRetryBudgetExceeded x \<or> e = FGeneric x"
  using assms unfolding download_round_def
proof (cases rule: bindS_cases)
  case (err e')
  with record_error show ?thesis by blast
next
  case (ok i t)
  obtain r t1 where 1: "download_single_attempt W m t = (r, t1)" by (cases "download_single_attempt W m t")
  with ok(2) obtain e1 where "r = Inl e1" by (cases r) (auto simp: bindS_def settleS_def pureS_def)
  with ok(2) 1 obtain r2 t2 where 2: "attempts_consumed W (pkm_vk_id m) t1 = (r2, t2)"
    "case r2 of Inl e2 \<Rightarrow> e = e2 | Inr n \<Rightarrow> n < 5 \<longrightarrow>
       bindS (compute_jittered_backoff W i) (\<lambda>t. bindS (sleep_ms t) (\<lambda>_. pureS (Inr False))) t2 = (Inl e, d')"
    "\<forall>n. r2 = Inr n \<longrightarrow> 5 \<le> n \<longrightarrow> (\<exists>x. e = FRetryBudgetExceeded x)"
    by (cases "attempts_consumed W (pkm_vk_id m) t1")
      (auto simp: bindS_Inr settleS_def MAX_RETRIES_PER_24H_def pureS_def bindS_def split: sum.splits if_splits)
  show ?thesis
  proof (cases r2)
    case (Inl e2)
    with 2(1) have "\<exists>x. e2 = FGeneric x" by (intro consumed_error) simp
    with Inl 2(2) show ?thesis by auto
  next
    case (Inr n)
    with 2 backoff_fresh(2)[of W i t2 "Inl e" d'] show ?thesis by (cases "n < 5") auto
  qed
qed

lemma storage_check_error: "check_storage_available W = Inl e \<Longrightarrow> \<exists>x. e = FStorage x"
  by (auto simp: check_storage_available_def get_free_space_def bindR_Inl_iff map_err_Inl_iff storage_err_def
      split: option.splits if_splits)

lemma preflight_error:
  assumes "download_preflight W m d = (Inl e, d')"
  shows "\<exists>x. e = FStorage x"
proof (cases "check_storage_available W")
  case (Inl e')
  with assms storage_check_error show ?thesis by (auto simp: download_preflight_def)
next
  case (Inr st)
  with assms show ?thesis
    by (cases st) (auto simp: download_preflight_def pureS_def settleS_def storage_err_def map_err_Inl_iff
        dest!: sym[of "Inl e"] split: prod.splits elim!: bindS_cases map_errS_cases)
qed

lemma download_error:
  assumes "download_with_progress fuel W m d = Some (Inl e, d')"
  shows "\<exists>x. e = FStorage x \<or> e = FRetryBudgetExceeded x \<or> e = FGeneric x"
proof -
  have loop: "\<exists>x. e' = FRetryBudgetExceeded x \<or> e' = FGeneric x"
    if "download_loop n W m s = Some (Inl e', s')" for n s e' s'
    using that by (induction n arbitrary: s) (auto dest: round_error split: prod.splits sum.splits if_splits)
  show ?thesis
    using assms preflight_error loop
    by (fastforce simp: download_with_progress_def split: prod.splits sum.splits if_splits)
qed

end
