(* ===== verification/Proving_Key_Transfer.thy ===== *)
theory Proving_Key_Transfer
  imports Proving_Key_Budget
begin

text \<open>
  Runs of the transfer without faults of the file system: which files an attempt leaves, given
  what the servers answer. \<open>gives F f r F'\<close> says that with the files \<open>F\<close> the operation \<open>f\<close> has the
  outcome \<open>r\<close> and leaves the files \<open>F'\<close>, whatever the clock, the counters and the retry state are.
\<close>

definition faultless :: "world \<Rightarrow> bool" where
  "faultless W \<longleftrightarrow> wd_io W = (\<lambda>_. None)"

type_synonym files = "string \<Rightarrow> bytes option"

definition gives :: "files \<Rightarrow> (device, 'e, 'a) op \<Rightarrow> 'e + 'a \<Rightarrow> files \<Rightarrow> bool" where
  "gives F f r F' \<longleftrightarrow> (\<forall>d. holds_files F d \<longrightarrow> fst (f d) = r \<and> holds_files F' (snd (f d)))"

lemma givesI:
  "(\<And>d. holds_files F d \<Longrightarrow> fst (f d) = r \<and> holds_files F' (snd (f d))) \<Longrightarrow> gives F f r F'"
  by (simp add: gives_def)

lemma givesD: "gives F f r F' \<Longrightarrow> holds_files F d \<Longrightarrow> f d = (r, snd (f d)) \<and> holds_files F' (snd (f d))"
  by (auto simp: gives_def prod_eq_iff)

lemma gives_bindS:
  assumes "gives F f (Inr x) G" "gives G (g x) r F2"
  shows "gives F (bindS f g) r F2"
proof (rule givesI)
  fix d assume "holds_files F d"
  note 1 = givesD[OF assms(1) this]
  from 1 have "bindS f g d = g x (snd (f d))" by (intro bindS_Inr) simp
  with givesD[OF assms(2)] 1 show "fst (bindS f g d) = r \<and> holds_files F2 (snd (bindS f g d))"
    by (simp add: gives_def) (metis fst_conv)
qed

lemma gives_bindS_err: "gives F f (Inl e) F1 \<Longrightarrow> gives F (bindS f g) (Inl e) F1"
proof (rule givesI)
  fix d assume "gives F f (Inl e) F1" "holds_files F d"
  note 1 = givesD[OF this]
  then have "bindS f g d = (Inl e, snd (f d))" by (intro bindS_Inl) simp
  with 1 show "fst (bindS f g d) = Inl e \<and> holds_files F1 (snd (bindS f g d))" by simp
qed

lemma gives_map_errS: "gives F f r F' \<Longrightarrow> gives F (map_errS h f) (map_err h r) F'"
  by (auto simp: gives_def map_errS_def split: prod.split)

lemma gives_map_ok: "gives F f (Inr x) F' \<Longrightarrow> gives F (map_errS h f) (Inr x) F'"
  using gives_map_errS[of F f "Inr x"] by simp

lemma gives_settleS: "gives F f r F' \<Longrightarrow> gives F (settleS f) (Inr r) F'"
  by (auto simp: gives_def settleS_def split: prod.split)

lemma gives_pureS: "gives F (pureS r) r F"
  by (simp add: gives_def pureS_def)

lemma gives_if: "b \<Longrightarrow> gives F f r F' \<Longrightarrow> gives F (if b then f else g) r F'"
  "\<not> b \<Longrightarrow> gives F g r F' \<Longrightarrow> gives F (if b then f else g) r F'"
  by simp_all

text \<open>Readings whose value does not matter.\<close>

lemma gives_clock: "(\<And>t. gives F (g t) r F') \<Longrightarrow> gives F (bindS (read_clock W) g) r F'"
  by (auto simp: gives_def bindS_def read_clock_def holds_files_def)

lemma gives_request: "(\<And>i. gives F (g i) r F') \<Longrightarrow> gives F (bindS next_request g) r F'"
  by (auto simp: gives_def bindS_def next_request_def holds_files_def)

lemma gives_report: "gives F g r F' \<Longrightarrow> gives F (bindS (report n tot x) (\<lambda>_. g)) r F'"
  by (auto simp: gives_def bindS_def report_def holds_files_def)

lemma gives_io: "faultless W \<Longrightarrow> gives F (io_call W) (Inr ()) F"
  by (simp add: gives_def io_call_def faultless_def holds_files_def)

lemma gives_content: "gives F (file_content p) (ok_or no_such_file (F p)) F"
  by (simp add: gives_def file_content_def holds_files_def)

lemma gives_set: "gives F (set_file p c) (Inr ()) (F(p := c))"
  by (simp add: gives_def set_file_def holds_files_def)

lemma gives_read: "faultless W \<Longrightarrow> gives F (read_file W p) (ok_or no_such_file (F p)) F"
  unfolding read_file_def by (rule gives_bindS[OF gives_io gives_content])

lemma gives_read_some: "faultless W \<Longrightarrow> F p = Some c \<Longrightarrow> gives F (read_file W p) (Inr c) F"
  using gives_read[of W F p] by (simp add: ok_or_def)

lemma gives_content_some: "F p = Some c \<Longrightarrow> gives F (file_content p) (Inr c) F"
  using gives_content[of F p] by (simp add: ok_or_def)

lemma gives_len: "faultless W \<Longrightarrow> F p = Some c \<Longrightarrow> gives F (file_len W p) (Inr (length c)) F"
  unfolding file_len_def
  by (rule gives_bindS[OF gives_io], assumption, rule gives_bindS[OF gives_content_some], assumption, rule gives_pureS)

lemma gives_exists: "faultless W \<Longrightarrow> gives F (file_exists W p) (Inr (F p \<noteq> None)) F"
  using gives_bindS[OF gives_settleS[OF gives_read] gives_pureS, of W F p "\<lambda>r. Inr (is_ok r)"]
  unfolding file_exists_def by (cases "F p") (simp_all add: ok_or_def)

lemma gives_remove: "faultless W \<Longrightarrow> F p = Some c \<Longrightarrow> gives F (remove_file W p) (Inr ()) (F(p := None))"
  unfolding remove_file_def by (rule gives_bindS[OF gives_read_some gives_set])

lemma gives_rename:
  "faultless W \<Longrightarrow> F p = Some c \<Longrightarrow> gives F (rename_file W p q) (Inr ()) (F(p := None, q \<mapsto> c))"
  unfolding rename_file_def by (rule gives_bindS[OF gives_read_some gives_bindS[OF gives_set gives_set]])

definition content_or_empty :: "files \<Rightarrow> string \<Rightarrow> bytes" where
  "content_or_empty F p = (case F p of Some c \<Rightarrow> c | None \<Rightarrow> [])"

lemma or_else_ok_or [simp]: "or_else y (ok_or e x) = (case x of None \<Rightarrow> y | Some z \<Rightarrow> z)"
  by (simp add: or_else_def ok_or_def split: option.split)

lemma gives_open:
  "faultless W \<Longrightarrow> gives F (open_write W appending p) (Inr ())
     (F(p \<mapsto> (if appending then content_or_empty F p else [])))"
  unfolding open_write_def
  apply (rule gives_bindS[OF gives_io], assumption)
  apply (rule gives_bindS[OF gives_settleS[OF gives_content]])
  apply (simp add: content_or_empty_def gives_set)
  done

lemma gives_write:
  assumes "faultless W" "F p = Some old"
  shows "gives F (write_all W p c) (Inr ()) (F(p \<mapsto> old @ c))"
proof -
  have "gives F (bindS (file_content p) (\<lambda>old. bindS (settleS (io_call W)) (\<lambda>r.
       bindS (set_file p (Some (old @ (if is_ok r then c else take n c)))) (\<lambda>_. pureS r))))
      (Inr ()) (F(p \<mapsto> old @ (if is_ok (Inr () :: string + unit) then c else take n c)))" for n
    by (rule gives_bindS[OF gives_content_some[of F, OF assms(2)]], rule gives_bindS[OF gives_settleS[OF gives_io]],
        rule assms(1), rule gives_bindS[OF gives_set gives_pureS])
  then show ?thesis unfolding gives_def write_all_def by simp
qed

lemma gives_sync:
  assumes "faultless W" "\<And>t. gives F (g t) r F'"
  shows "gives F (bindS (map_errS h (sync_if_due W n s)) g) r F'"
proof (rule givesI)
  fix d assume d: "holds_files F d"
  have now: "\<exists>t d1. sync_now W x = (Inr t, d1) \<and> holds_files F d1" if "holds_files F x" for x
    using assms(1) that
    by (simp add: sync_now_def bindS_def io_call_def faultless_def read_clock_def holds_files_def)
  obtain t d1 where run: "sync_if_due W n s d = (Inr t, d1)" "holds_files F d1"
  proof (cases "n mod (5 * 1024 * 1024) = 0")
    case True
    with now[OF d] that show thesis unfolding sync_if_due_def by auto
  next
    case False
    let ?d = "d\<lparr>dev_time := dev_time d + 1\<rparr>"
    have "holds_files F ?d" using d by (simp add: holds_files_def)
    with False now[of ?d] that show thesis
      by (cases "(wd_clock W (dev_time d) - s) div 10 ^ 9 > 10")
        (auto simp: sync_if_due_def bindS_def read_clock_def pureS_def)
  qed
  have "bindS (map_errS h (sync_if_due W n s)) g d = g t d1"
    by (rule bindS_Inr, rule map_errS_Inr, rule run(1))
  then show "fst (bindS (map_errS h (sync_if_due W n s)) g d) = r \<and>
      holds_files F' (snd (bindS (map_errS h (sync_if_due W n s)) g d))"
    using assms(2)[of t] run(2) by (simp add: gives_def)
qed

lemma gives_blocks: "faultless W \<Longrightarrow> gives F (read_blocks W bs acc) (Inr (acc @ concat bs)) F"
proof (induction bs arbitrary: acc)
  case Nil
  then show ?case by (simp, intro gives_bindS[OF gives_io gives_pureS])
next
  case (Cons b bs)
  show ?case
    using gives_bindS[OF gives_io[OF Cons.prems] Cons.IH[OF Cons.prems, of "acc @ b"]] by simp
qed

text \<open>Without faults the integrity check decides.\<close>

lemma gives_verify:
  assumes W: "faultless W"
  shows "gives F (verify_pk_integrity W p) (Inr (case F p of None \<Rightarrow> False | Some c \<Rightarrow> pk_ok W c)) F"
proof (cases "F p")
  case None
  then show ?thesis
    unfolding verify_pk_integrity_def
    by (intro gives_bindS[OF gives_exists[OF W]]) (simp add: gives_pureS)
next
  case (Some c)
  have check: "gives F (bindS (map_errS (storage_err ''Failed to read PK: '') (read_blocks W (blocks c) [])) (\<lambda>c'.
      pureS (Inr (wd_blake2s_hex W c' = PK_BLAKE2S)))) (Inr (wd_blake2s_hex W c = PK_BLAKE2S)) F"
    apply (rule gives_bindS[OF gives_map_ok[OF gives_blocks[OF W]]])
    apply (simp add: concat_blocks gives_pureS)
    done
  show ?thesis
  proof (cases "length c = PK_SIZE")
    case True
    have "gives F (verify_pk_integrity W p) (Inr (wd_blake2s_hex W c = PK_BLAKE2S)) F"
      unfolding verify_pk_integrity_def
      apply (rule gives_bindS[OF gives_exists[OF W]])
      apply (rule gives_if(2), simp add: Some)
      apply (rule gives_bindS[OF gives_map_ok[OF gives_len[of W F, OF W Some]]])
      apply (rule gives_if(2), simp add: True)
      apply (rule gives_bindS[OF gives_map_ok[OF gives_read_some[of W F, OF W Some]]])
      apply (rule check)
      done
    with Some True show ?thesis by (simp add: pk_ok_def)
  next
    case False
    have "gives F (verify_pk_integrity W p) (Inr False) F"
      unfolding verify_pk_integrity_def
      apply (rule gives_bindS[OF gives_exists[OF W]])
      apply (rule gives_if(2), simp add: Some)
      apply (rule gives_bindS[OF gives_map_ok[OF gives_len[of W F, OF W Some]]])
      apply (rule gives_if(1), rule False, rule gives_pureS)
      done
    with Some False show ?thesis by (simp add: pk_ok_def)
  qed
qed


section \<open>The bodies of the responses\<close>

lemma gives_h3_body:
  assumes W: "faultless W"
  shows "F p = Some old \<Longrightarrow> gives F (h3_body W p cs fin n t)
    (case fin of None \<Rightarrow> Inr () | Some m \<Rightarrow> Inl (FNetwork (''Failed to read chunk: '' @ m))) (F(p \<mapsto> old @ concat cs))"
proof (induction cs arbitrary: F old n t)
  case Nil
  then have F: "F(p \<mapsto> old @ concat []) = F" by auto
  show ?case
  proof (cases fin)
    case None
    with gives_map_ok[OF gives_io[OF W]] F show ?thesis by simp
  next
    case (Some m)
    with gives_pureS F show ?thesis by simp
  qed
next
  case (Cons c cs)
  have tail: "gives (F(p \<mapsto> old @ c)) (h3_body W p cs fin (n + length c) s)
      (case fin of None \<Rightarrow> Inr () | Some m \<Rightarrow> Inl (FNetwork (''Failed to read chunk: '' @ m)))
      (F(p \<mapsto> old @ concat (c # cs)))" for s
    using Cons.IH[of "F(p \<mapsto> old @ c)" "old @ c" "n + length c" s] by (simp del: fun_upd_apply add: fun_upd_same)
  show ?case
    unfolding h3_body.simps Let_def
    by (rule gives_bindS[OF gives_map_ok[OF gives_write[of W F p old, OF W Cons.prems]]], rule gives_report, rule gives_sync[OF W tail])
qed

lemma gives_h2_body:
  assumes W: "faultless W"
  shows "F p = Some old \<Longrightarrow> n + length (concat cs) \<le> MAX_DOWNLOAD_BYTES \<Longrightarrow>
    gives F (h2_body W pct p tot cs BodyEnd n t) (Inr ()) (F(p \<mapsto> old @ concat cs))"
proof (induction cs arbitrary: F old n t)
  case Nil
  then have "F(p \<mapsto> old @ concat []) = F" by auto
  with gives_map_ok[OF gives_io[OF W]] show ?case by simp
next
  case (Cons c cs)
  have tail: "gives (F(p \<mapsto> old @ c)) (h2_body W pct p tot cs BodyEnd (n + length c) s) (Inr ())
      (F(p \<mapsto> old @ concat (c # cs)))" for s
    using Cons.IH[of "F(p \<mapsto> old @ c)" "old @ c" "n + length c" s] Cons.prems
    by (simp del: fun_upd_apply add: fun_upd_same)
  have small: "\<not> n + length c > MAX_DOWNLOAD_BYTES" using Cons.prems by simp
  show ?case
    unfolding h2_body.simps Let_def
    by (rule gives_bindS[OF gives_map_ok[OF gives_write[of W F p old, OF W Cons.prems(1)]]], rule gives_if(2)[OF small],
        rule gives_report, rule gives_sync[OF W tail])
qed

section \<open>Servers that hold the key\<close>

text \<open>
  An answer over HTTP/3 to a request from offset \<open>start\<close> that sends the rest of \<open>pk\<close>, or fails
  before the end of it; and one over HTTP/2 that sends the rest.
\<close>

definition good_status :: "nat \<Rightarrow> bool" where
  "good_status s \<longleftrightarrow> is_success s \<or> s = 206"

fun h3_honest :: "bytes \<Rightarrow> nat \<Rightarrow> h3_answer \<Rightarrow> bool" where
  "h3_honest pk start (H3Failed m) = True"
| "h3_honest pk start (H3Response status shown cs fin) =
     (\<not> good_status status \<or>
      (if fin = None then concat cs = drop start pk
       else length (concat cs) < length pk - start \<and> concat cs = take (length (concat cs)) (drop start pk)))"

fun h2_serves :: "bytes \<Rightarrow> nat \<Rightarrow> h2_answer \<Rightarrow> bool" where
  "h2_serves pk start (H2Response version status shown len cs fin) =
     (version = ''HTTP/2.0'' \<and> good_status status \<and> fin = BodyEnd \<and> concat cs = drop start pk \<and>
      (len = None \<or> len = Some (length pk - start)))"
| "h2_serves pk start a = False"

text \<open>Every outcome of \<open>f\<close> from the files \<open>F\<close>, with the files it leaves, is in \<open>\<Phi>\<close>.\<close>

definition yields :: "files \<Rightarrow> (device, 'e, 'a) op \<Rightarrow> ('e + 'a \<Rightarrow> files \<Rightarrow> bool) \<Rightarrow> bool" where
  "yields F f \<Phi> \<longleftrightarrow> (\<forall>d. holds_files F d \<longrightarrow> (\<exists>F'. holds_files F' (snd (f d)) \<and> \<Phi> (fst (f d)) F'))"

lemma gives_yields: "gives F f r F' \<Longrightarrow> \<Phi> r F' \<Longrightarrow> yields F f \<Phi>"
  by (auto simp: yields_def gives_def)

lemma yields_gives: "yields F f (\<lambda>r' F1. r' = r \<and> F1 = F') \<Longrightarrow> gives F f r F'"
  by (auto simp: yields_def gives_def)

lemma yields_settle_bind:
  assumes "yields F f \<Psi>" "\<And>r F'. \<Psi> r F' \<Longrightarrow> gives F' (g r) r1 F1"
  shows "gives F (bindS (settleS f) g) r1 F1"
proof (rule givesI)
  fix d assume "holds_files F d"
  with assms(1) obtain F' where "holds_files F' (snd (f d))" "\<Psi> (fst (f d)) F'" by (auto simp: yields_def)
  moreover have "bindS (settleS f) g d = g (fst (f d)) (snd (f d))"
    by (simp add: bindS_def settleS_def split: prod.split)
  ultimately show "fst (bindS (settleS f) g d) = r1 \<and> holds_files F1 (snd (bindS (settleS f) g d))"
    using assms(2) by (simp add: gives_def)
qed

lemma yields_request: "(\<And>i. yields F (g i) \<Phi>) \<Longrightarrow> yields F (bindS next_request g) \<Phi>"
  by (auto simp: yields_def bindS_def next_request_def holds_files_def)

text \<open>What an honest HTTP/3 leg leaves: the key, or a proper part of it.\<close>

definition partly :: "bytes \<Rightarrow> string \<Rightarrow> files \<Rightarrow> ffi_error + unit \<Rightarrow> files \<Rightarrow> bool" where
  "partly pk p F r F' \<longleftrightarrow> (\<forall>q. q \<noteq> p \<longrightarrow> F' q = F q) \<and>
     (if is_ok r then F' p = Some pk else \<exists>k < length pk. content_or_empty F' p = take k pk)"

lemma yields_http3:
  assumes W: "faultless W" and part: "content_or_empty F p = take n pk" "n < length pk"
    and honest: "\<And>i. h3_honest pk n (wd_h3 W i n)"
  shows "yields F (download_with_http3 W p n) (partly pk p F)"
  unfolding download_with_http3_def
proof (rule yields_request)
  fix i
  have same: "partly pk p F (Inl e) F" for e
    using part by (auto simp: partly_def)
  have failed: "yields F (pureS (Inl e)) (partly pk p F)" for e
    by (rule gives_yields, rule gives_pureS, rule same)
  show "yields F (case wd_h3 W i n of
         H3Failed m \<Rightarrow> pureS (Inl (FNetwork m))
       | H3Response status shown chunks fin \<Rightarrow>
           if \<not> is_success status \<and> status \<noteq> 206
           then pureS (Inl (FNetwork (''Server returned status: '' @ shown)))
           else bindS (map_errS FStorage (open_write W (n > 0) p)) (\<lambda>_.
                bindS (read_clock W) (h3_body W p chunks fin n))) (partly pk p F)"
  proof (cases "wd_h3 W i n")
    case (H3Failed m)
    then show ?thesis using failed by simp
  next
    case (H3Response status shown cs fin)
    show ?thesis
    proof (cases "good_status status")
      case False
      then show ?thesis using H3Response failed by (simp add: good_status_def)
    next
      case True
      let ?old = "if n > 0 then content_or_empty F p else []"
      have old: "?old = take n pk" using part by simp
      have body: "gives (F(p \<mapsto> ?old)) (h3_body W p cs fin n t)
          (case fin of None \<Rightarrow> Inr () | Some m \<Rightarrow> Inl (FNetwork (''Failed to read chunk: '' @ m)))
          (F(p \<mapsto> take n pk @ concat cs))" for t
        using gives_h3_body[OF W, of "F(p \<mapsto> ?old)" p ?old cs fin n t] old by simp
      have run: "gives F (bindS (map_errS FStorage (open_write W (n > 0) p)) (\<lambda>_.
                bindS (read_clock W) (h3_body W p cs fin n)))
          (case fin of None \<Rightarrow> Inr () | Some m \<Rightarrow> Inl (FNetwork (''Failed to read chunk: '' @ m)))
          (F(p \<mapsto> take n pk @ concat cs))"
        by (rule gives_bindS[OF gives_map_ok[OF gives_open[OF W]]], rule gives_clock, rule body)
      have "partly pk p F (case fin of None \<Rightarrow> Inr () | Some m \<Rightarrow> Inl (FNetwork (''Failed to read chunk: '' @ m)))
          (F(p \<mapsto> take n pk @ concat cs))"
      proof (cases fin)
        case None
        with honest[of i] H3Response True show ?thesis by (simp add: partly_def)
      next
        case (Some m)
        with honest[of i] H3Response True part(2)
        have len: "length (concat cs) < length pk - n" "concat cs = take (length (concat cs)) (drop n pk)" by simp_all
        then have "take n pk @ concat cs = take (n + length (concat cs)) pk"
          by (metis take_add)
        with len part(2) Some show ?thesis
          by (auto simp: partly_def content_or_empty_def intro!: exI[of _ "n + length (concat cs)"])
      qed
      then have "yields F (bindS (map_errS FStorage (open_write W (n > 0) p)) (\<lambda>_.
                bindS (read_clock W) (h3_body W p cs fin n))) (partly pk p F)"
        by (rule gives_yields[OF run])
      with True H3Response show ?thesis by (auto simp: good_status_def)
    qed
  qed
qed


section \<open>An attempt\<close>

lemma gives_resume:
  assumes W: "faultless W" and small: "length (content_or_empty F p) < PK_SIZE"
  shows "gives F (resume_offset W p q) (Inr (Some (length (content_or_empty F p)))) F"
proof (cases "F p")
  case None
  then show ?thesis
    unfolding resume_offset_def
    by (intro gives_bindS[OF gives_exists[OF W]] gives_if(1)) (simp_all add: content_or_empty_def gives_pureS)
next
  case (Some c)
  with small have c: "length c < PK_SIZE" "content_or_empty F p = c" by (simp_all add: content_or_empty_def)
  show ?thesis
    unfolding resume_offset_def
    apply (rule gives_bindS[OF gives_exists[OF W]])
    apply (rule gives_if(2), simp add: Some)
    apply (rule gives_bindS[OF gives_map_ok[OF gives_len[of W F p c, OF W Some]]])
    apply (cases "0 < length c")
     apply (rule gives_if(1), simp add: c, simp add: c gives_pureS)
    using c apply (auto intro: gives_pureS)
    done
qed

lemma gives_http2:
  assumes W: "faultless W" and r: "\<And>i. h2_serves pk n (wd_h2 W i n)"
    and n: "n < length pk" "length pk \<le> MAX_DOWNLOAD_BYTES" "e \<le> MAX_DOWNLOAD_BYTES"
    and part: "content_or_empty F p = take n pk"
  shows "gives F (http2_download_to_file W pct p (Some n) (Some e)) (Inr ()) (F(p \<mapsto> pk))"
proof -
  have receive: "gives F (h2_receive W pct p (Some n) (Some e) n (wd_h2 W i n)) (Inr ()) (F(p \<mapsto> pk))" for i
  proof -
    from r[of i] obtain status shown len cs where a:
      "wd_h2 W i n = H2Response ''HTTP/2.0'' status shown len cs BodyEnd"
      "good_status status" "concat cs = drop n pk" "len = None \<or> len = Some (length pk - n)"
      by (cases "wd_h2 W i n") auto
    have fits: "\<not> h2_exceeds n len" using a(4) n by (auto simp: h2_exceeds_def)
    have "n + length (concat cs) \<le> MAX_DOWNLOAD_BYTES" using a(3) n by simp
    from gives_h2_body[OF W _ this, of "F(p \<mapsto> take n pk)" p "take n pk" pct]
    have body: "gives (F(p \<mapsto> take n pk)) (h2_body W pct p tot cs BodyEnd n t) (Inr ()) (F(p \<mapsto> pk))" for tot t
      by (simp add: a(3))
    have "gives F (bindS (map_errS g (open_write W True p)) (\<lambda>_.
               bindS (read_clock W) (h2_body W pct p tot cs BodyEnd n))) (Inr ()) (F(p \<mapsto> pk))" for g tot
    proof (rule gives_bindS)
      show "gives F (map_errS g (open_write W True p)) (Inr ()) (F(p \<mapsto> take n pk))"
        using gives_map_ok[OF gives_open[OF W, of F True p]] part by simp
      show "gives (F(p \<mapsto> take n pk)) (bindS (read_clock W) (h2_body W pct p tot cs BodyEnd n)) (Inr ()) (F(p \<mapsto> pk))"
        by (rule gives_clock, rule body)
    qed
    with a(2) fits show ?thesis by (auto simp: h2_receive_def a(1) good_status_def)
  qed
  show ?thesis
    unfolding http2_download_to_file_def Let_def
  proof (rule gives_bindS[where x = "()" and G = F])
    show "gives F (pureS (case Some e of
             Some e \<Rightarrow> ensure (e \<le> MAX_DOWNLOAD_BYTES) (FNetwork (''Expected download size ('' @ show_nat e @
               '' bytes) exceeds limit ('' @ show_nat MAX_DOWNLOAD_BYTES @ '' bytes)''))
           | None \<Rightarrow> Inr ())) (Inr ()) F"
      using n(3) by (simp add: ensure_def gives_pureS)
    show "gives F (bindS next_request (\<lambda>i. h2_receive W pct p (Some n) (Some e)
        (case Some n of None \<Rightarrow> 0 | Some k \<Rightarrow> k) (wd_h2 W i (case Some n of None \<Rightarrow> 0 | Some k \<Rightarrow> k))))
      (Inr ()) (F(p \<mapsto> pk))"
      by (rule gives_request) (use receive in simp)
  qed
qed

lemma gives_fallback_offset:
  assumes W: "faultless W" and g: "gives F (g (length (content_or_empty F p))) r F'"
  shows "gives F (bindS (file_exists W p) (\<lambda>ex.
     bindS (if ex then bindS (settleS (file_len W p)) (\<lambda>r. pureS (Inr (or_else 0 r))) else pureS (Inr 0)) g)) r F'"
proof (rule gives_bindS[OF gives_exists[OF W]], rule gives_bindS[where x = "length (content_or_empty F p)" and G = F])
  show "gives F (g (length (content_or_empty F p))) r F'" by (rule g)
  show "gives F (if F p \<noteq> None then bindS (settleS (file_len W p)) (\<lambda>r. pureS (Inr (or_else 0 r))) else pureS (Inr 0))
      (Inr (length (content_or_empty F p))) F"
  proof (cases "F p")
    case None
    then show ?thesis by (simp add: content_or_empty_def gives_pureS)
  next
    case (Some c)
    have "gives F (bindS (settleS (file_len W p)) (\<lambda>r. pureS (Inr (or_else 0 r)))) (Inr (length c)) F"
      by (rule gives_bindS[OF gives_settleS[OF gives_len[of W F p c, OF W Some]]])
        (simp add: or_else_def gives_pureS)
    with Some show ?thesis by (simp add: content_or_empty_def)
  qed
qed

lemma gives_finish:
  assumes W: "faultless W" and ok: "F p = Some c" "pk_ok W c"
  shows "gives F (finish_download W p q) (Inr ()) (F(p := None, q \<mapsto> c))"
  unfolding finish_download_def
  apply (rule gives_bindS[OF gives_verify[OF W]])
  apply (rule gives_if(2), simp add: ok)
  apply (rule gives_map_ok[OF gives_rename[of W F p c, OF W ok(1)]])
  done

definition h3_servers_honest :: "world \<Rightarrow> bytes \<Rightarrow> bool" where
  "h3_servers_honest W pk \<longleftrightarrow> (\<forall>i n. n < length pk \<longrightarrow> h3_honest pk n (wd_h3 W i n))"

definition h2_servers_serve :: "world \<Rightarrow> bytes \<Rightarrow> bool" where
  "h2_servers_serve W pk \<longleftrightarrow> (\<forall>i n. n < length pk \<longrightarrow> h2_serves pk n (wd_h2 W i n))"

lemma PK_SIZE_fits: "PK_SIZE \<le> MAX_DOWNLOAD_BYTES"
  by (simp add: PK_SIZE_def MAX_DOWNLOAD_BYTES_def)

lemma honest_attempt:
  assumes W: "faultless W" and pk: "pk_ok W pk"
    and h3: "h3_servers_honest W pk" and h2: "h2_servers_serve W pk"
    and part: "content_or_empty F (temp_path m) = take n pk" "n < length pk"
  shows "gives F (download_single_attempt W m) (Inr ()) (F(temp_path m := None, get_path m \<mapsto> pk))"
proof -
  let ?t = "temp_path m" and ?f = "get_path m"
  from pk have len: "length pk = PK_SIZE" by (simp add: pk_ok_def)
  from part have n: "length (content_or_empty F ?t) = n" by simp
  have resume: "gives F (resume_offset W ?t ?f) (Inr (Some n)) F"
    using gives_resume[OF W, of F ?t ?f] part len n by simp
  have leg3: "yields F (download_with_http3 W ?t n) (partly pk ?t F)"
    by (rule yields_http3[OF W part]) (use h3 part(2) in \<open>auto simp: h3_servers_honest_def\<close>)
  have rest: "gives F' (bindS (if is_ok r then pureS (Inr ()) else http2_fallback W ?t) (\<lambda>_. finish_download W ?t ?f))
      (Inr ()) (F(?t := None, ?f \<mapsto> pk))" if F': "partly pk ?t F r F'" for r F'
  proof -
    have loaded: "gives F' (if is_ok r then pureS (Inr ()) else http2_fallback W ?t) (Inr ()) (F'(?t \<mapsto> pk))"
    proof (cases "is_ok r")
      case True
      with F' have "F'(?t \<mapsto> pk) = F'" by (auto simp: partly_def)
      with True gives_pureS show ?thesis by simp
    next
      case False
      with F' obtain k where k: "k < length pk" "content_or_empty F' ?t = take k pk" by (auto simp: partly_def)
      have fetched: "gives F' (http2_download_to_file W (pk_percentage W) ?t (Some k) (Some PK_SIZE)) (Inr ()) (F'(?t \<mapsto> pk))"
        using h2 k len PK_SIZE_fits by (intro gives_http2[OF W]) (auto simp: h2_servers_serve_def)
      have "length (content_or_empty F' ?t) = k" using k by simp
      then have "gives F' (http2_fallback W ?t) (Inr ()) (F'(?t \<mapsto> pk))"
        unfolding http2_fallback_def by (intro gives_fallback_offset[OF W]) (simp add: fetched)
      with False show ?thesis by simp
    qed
    have "gives (F'(?t \<mapsto> pk)) (finish_download W ?t ?f) (Inr ()) ((F'(?t \<mapsto> pk))(?t := None, ?f \<mapsto> pk))"
      by (rule gives_finish[OF W _ pk]) simp
    moreover have "(F'(?t \<mapsto> pk))(?t := None, ?f \<mapsto> pk) = F(?t := None, ?f \<mapsto> pk)"
      using F' by (auto simp: partly_def fun_eq_iff)
    ultimately have "gives (F'(?t \<mapsto> pk)) (finish_download W ?t ?f) (Inr ()) (F(?t := None, ?f \<mapsto> pk))" by metis
    then show ?thesis by (rule gives_bindS[OF loaded])
  qed
  show ?thesis
    unfolding download_single_attempt_def
    by (rule gives_bindS[OF resume]) (simp, rule yields_settle_bind[OF leg3 rest])
qed

section \<open>A server that ignores the range\<close>

definition h3_unreachable :: "world \<Rightarrow> bool" where
  "h3_unreachable W \<longleftrightarrow> (\<forall>i n. \<exists>m. wd_h3 W i n = H3Failed m)"

text \<open>Every HTTP/2 answer has status 200 and announces the whole key.\<close>

definition h2_ignores_range :: "world \<Rightarrow> bool" where
  "h2_ignores_range W \<longleftrightarrow>
     (\<forall>i n. \<exists>shown cs fin. wd_h2 W i n = H2Response ''HTTP/2.0'' 200 shown (Some PK_SIZE) cs fin)"

lemma ignored_range_attempt:
  assumes W: "faultless W" and h3: "h3_unreachable W" and h2: "h2_ignores_range W"
    and part: "F (temp_path m) = Some c" "length c < PK_SIZE" "MAX_DOWNLOAD_BYTES < length c + PK_SIZE"
  shows "\<exists>e. gives F (download_single_attempt W m) (Inl e) F"
proof -
  let ?t = "temp_path m" and ?n = "length c"
  have n: "content_or_empty F ?t = c" using part by (simp add: content_or_empty_def)
  have resume: "gives F (resume_offset W ?t (get_path m)) (Inr (Some ?n)) F"
    using gives_resume[OF W, of F ?t "get_path m"] part n by simp
  have leg3: "yields F (download_with_http3 W ?t ?n) (\<lambda>r F'. \<not> is_ok r \<and> F' = F)"
    unfolding download_with_http3_def
  proof (rule yields_request)
    fix i
    from h3 obtain msg where "wd_h3 W i ?n = H3Failed msg" unfolding h3_unreachable_def by blast
    moreover have "yields F (pureS (Inl (FNetwork msg)) :: (device, ffi_error, unit) op) (\<lambda>r F'. \<not> is_ok r \<and> F' = F)"
      by (rule gives_yields, rule gives_pureS) simp
    ultimately show "yields F (case wd_h3 W i ?n of
         H3Failed m \<Rightarrow> pureS (Inl (FNetwork m))
       | H3Response status shown chunks fin \<Rightarrow>
           if \<not> is_success status \<and> status \<noteq> 206
           then pureS (Inl (FNetwork (''Server returned status: '' @ shown)))
           else bindS (map_errS FStorage (open_write W (?n > 0) ?t)) (\<lambda>_.
                bindS (read_clock W) (h3_body W ?t chunks fin ?n))) (\<lambda>r F'. \<not> is_ok r \<and> F' = F)"
      by simp
  qed
  let ?e = "FNetwork (''Content-Length ('' @ show_nat (?n + PK_SIZE) @
                  '' bytes) exceeds download limit ('' @ show_nat MAX_DOWNLOAD_BYTES @ '' bytes)'')"
  have fetched: "gives F (http2_download_to_file W (pk_percentage W) ?t (Some ?n) (Some PK_SIZE)) (Inl ?e) F"
    unfolding http2_download_to_file_def Let_def
  proof (rule gives_bindS[where x = "()" and G = F], simp add: ensure_def PK_SIZE_fits gives_pureS,
      rule gives_request)
    fix i
    from h2 obtain shown cs fin where
      "wd_h2 W i ?n = H2Response ''HTTP/2.0'' 200 shown (Some PK_SIZE) cs fin"
      unfolding h2_ignores_range_def by blast
    with part(3) show "gives F (h2_receive W (pk_percentage W) ?t (Some ?n) (Some PK_SIZE)
        (case Some ?n of None \<Rightarrow> 0 | Some n \<Rightarrow> n) (wd_h2 W i (case Some ?n of None \<Rightarrow> 0 | Some n \<Rightarrow> n))) (Inl ?e) F"
      by (simp add: h2_receive_def is_success_def h2_exceeds_def gives_pureS)
  qed
  have fallback: "gives F (http2_fallback W ?t) (Inl ?e) F"
    unfolding http2_fallback_def by (rule gives_fallback_offset[OF W], unfold n, rule fetched)
  have "gives F (download_single_attempt W m) (Inl ?e) F"
    unfolding download_single_attempt_def
  proof (rule gives_bindS[OF resume], simp del: append.simps, rule yields_settle_bind[OF leg3])
    fix r :: "ffi_error + unit" and F' assume "\<not> is_ok r \<and> F' = F"
    then show "gives F' (bindS (if is_ok r then pureS (Inr ()) else http2_fallback W ?t)
        (\<lambda>_. finish_download W ?t (get_path m))) (Inl ?e) F"
      using gives_bindS_err[OF fallback] by simp
  qed
  then show ?thesis by blast
qed

end
