(* ===== verification/Proving_Key_Properties.thy ===== *)
theory Proving_Key_Properties
  imports Proving_Key_Transfer
begin

text \<open>
  The properties of the proving key's life cycle, with a sample world: a file system without
  faults, a server reachable over HTTP/2 only, and a digest that recognises one key.
\<close>

section \<open>A sample world\<close>

definition sample_key :: bytes where
  "sample_key = replicate PK_SIZE 7"

definition sample_world :: world where
  "sample_world = \<lparr>wd_io = (\<lambda>_. None), wd_written = (\<lambda>_. 0),
     wd_h3 = (\<lambda>_ _. H3Failed ''QUIC handshake failed: timed out''),
     wd_h2 = (\<lambda>_ n. H2Response ''HTTP/2.0'' 206 ''206 Partial Content'' (Some (PK_SIZE - n)) [drop n sample_key] BodyEnd),
     wd_clock = (\<lambda>n. n), wd_random = (\<lambda>n. of_nat (n * 977)),
     wd_blake2s_hex = (\<lambda>c. if c = sample_key then PK_BLAKE2S else []),
     wd_android = False, wd_free_space = Some (Inr 70000000), wd_percent = (\<lambda>n t. n * 100 div t)\<rparr>"

definition sample_device :: "(string \<Rightarrow> bytes option) \<Rightarrow> device" where
  "sample_device F = \<lparr>dev_files = F, dev_io = 0, dev_requests = 0, dev_time = 0, dev_randoms = 0,
     dev_poisoned = False, dev_attempts = (\<lambda>_. []), dev_progress = [], dev_sleeps = []\<rparr>"

definition sample_manager :: pk_manager where
  "sample_manager = pk_manager_new ''/data''"

text \<open>The same server, ignoring the range header.\<close>

definition deaf_world :: world where
  "deaf_world = sample_world\<lparr>wd_h2 := (\<lambda>_ _. H2Response ''HTTP/2.0'' 200 ''200 OK'' (Some PK_SIZE) [sample_key] BodyEnd)\<rparr>"

lemma sample_facts:
  "faultless sample_world" "pk_ok sample_world sample_key" "h3_servers_honest sample_world sample_key"
  "h2_servers_serve sample_world sample_key" "check_storage_available sample_world = Inr Available"
  by (simp_all add: faultless_def pk_ok_def sample_world_def sample_key_def h3_servers_honest_def
      h2_servers_serve_def good_status_def check_storage_available_def get_free_space_def MIN_FREE_SPACE_def)

section \<open>Downloads\<close>

text \<open>C11: Whatever the servers answer and whichever file operations fail: a download that succeeds
  leaves a key of the right size and digest at its final path, and changes no other file but the
  temporary one; a download that fails changes nothing but the temporary file, so an unverified
  file never takes the place of the key.\<close>

theorem pk_download_verified:
  "case download_with_progress fuel W m d of
     None \<Rightarrow> True
   | Some (r, d') \<Rightarrow>
       if is_ok r
       then has_valid W (get_path m) d' \<and>
            (\<forall>q. q = temp_path m \<or> q = get_path m \<or> dev_files d' q = dev_files d q)
       else (\<forall>q. q = temp_path m \<or> dev_files d' q = dev_files d q)"
proof (cases "download_with_progress fuel W m d")
  case (Some x)
  obtain r d' where x: "x = (r, d')" by (cases x)
  from download_settled[OF Some[unfolded x]] show ?thesis
    unfolding Some x settled_def completed_def only_temp_def by auto
qed simp



text \<open>C13: The retry budget: in any sequence of attempts and queries of one process under a clock that
  does not run backwards, the sixth of any six consecutive attempts is made at least 24 hours
  after the first of them.\<close>

theorem pk_attempts_spaced:
  assumes "mono (wd_clock W)" "dev_attempts d vk = []"
  shows "spaced (fst (budget_run ops W vk d))"
  using budget_run_spaced[OF assms(1) budget_inv_new[OF assms(2)], of ops] by simp

lemma pk_attempts_spaced_witness:
  "spaced (fst (budget_run [True, True, False, True, True, True, True] sample_world VK_ID (sample_device Map.empty)))"
  by (rule pk_attempts_spaced) (simp_all add: sample_world_def sample_device_def mono_def)

lemma gives_run: "gives (dev_files d) f r F' \<Longrightarrow> \<exists>d'. f d = (r, d') \<and> dev_files d' = F'"
  using givesD[of "dev_files d" f r F' d] by (auto simp: holds_files_def)

lemma preflight_runs:
  assumes W: "faultless W" and space: "check_storage_available W = Inr Available"
    and absent: "dev_files d (get_path m) = None"
  shows "\<exists>d'. download_preflight W m d = (Inr False, d') \<and> frame {} d d'"
proof -
  have "gives (dev_files d) (download_preflight W m) (Inr False) (dev_files d)"
    unfolding download_preflight_def space
    apply (rule gives_bindS[OF gives_pureS], simp)
    apply (rule gives_bindS[OF gives_map_ok[OF gives_io[OF W]]])
    apply (rule gives_bindS[OF gives_settleS[OF gives_verify[OF W]]])
    apply (simp add: absent or_else_def gives_pureS)
    done
  from gives_run[OF this] obtain d' where d': "download_preflight W m d = (Inr False, d')" by blast
  have "still (frame {} d) (download_preflight W m)"
    unfolding download_preflight_def by (auto intro!: still_intros split: storage_status.splits)
  from stillD[OF this frame_refl d'] d' show ?thesis by blast
qed

text \<open>C14: A download that was interrupted is resumed and completes: when the temporary file holds a
  proper prefix of the key (or is missing), the servers hold the key, HTTP/2 delivers it from the
  requested offset whatever part HTTP/3 delivers, no file operation fails, there is space, and the
  budget is not used up, the first round puts the key in place and removes the temporary file.\<close>

theorem pk_resume_completes:
  assumes "faultless W" "pk_ok W pk" "h3_servers_honest W pk" "h2_servers_serve W pk"
    and "check_storage_available W = Inr Available"
    and "dev_files d (get_path m) = None"
    and "content_or_empty (dev_files d) (temp_path m) = take n pk" "n < length pk"
    and "\<not> dev_poisoned d" "length (dev_attempts d (pkm_vk_id m)) < 5"
  shows "\<exists>d'. download_with_progress (Suc k) W m d = Some (Inr (), d') \<and>
    dev_files d' = (dev_files d)(temp_path m := None, get_path m \<mapsto> pk)"
proof -
  from preflight_runs[OF assms(1,5,6)] obtain d1 where
    d1: "download_preflight W m d = (Inr False, d1)" "frame {} d d1" by blast
  define ts where "ts = trim_stale_attempts (wd_clock W (dev_time d1)) (dev_attempts d1 (pkm_vk_id m))"
  have "length ts \<le> length (dev_attempts d (pkm_vk_id m))"
    using d1(2) by (auto simp: ts_def trim_stale_attempts_def frame_def)
  with assms(10) have room: "length ts < 5" by simp
  have up: "\<not> dev_poisoned d1" using d1(2) assms(9) by (simp add: frame_def)
  obtain d2 where d2: "record_attempt W (pkm_vk_id m) d1 = (Inr (length ts), d2)" "dev_files d2 = dev_files d"
    using record_run(1)[OF up ts_def room] d1(2) by (auto simp: frame_def)
  have "gives (dev_files d2) (download_single_attempt W m) (Inr ()) ((dev_files d)(temp_path m := None, get_path m \<mapsto> pk))"
    using honest_attempt[OF assms(1-4)] assms(7,8) d2(2) by simp
  from gives_run[OF this] obtain d3 where
    d3: "download_single_attempt W m d2 = (Inr (), d3)" "dev_files d3 = (dev_files d)(temp_path m := None, get_path m \<mapsto> pk)" by blast
  have "download_round W m d1 = (Inr True, d3)"
    unfolding download_round_def using d2(1) d3(1) by (simp add: bindS_def settleS_def pureS_def)
  with d1(1) d3(2) show ?thesis by (simp add: download_with_progress_def)
qed

lemma pk_resume_completes_witness:
  "\<exists>d'. download_with_progress 5 sample_world sample_manager (sample_device [temp_path sample_manager \<mapsto> take 100 sample_key]) = Some (Inr (), d') \<and>
    dev_files d' = [temp_path sample_manager \<mapsto> take 100 sample_key](temp_path sample_manager := None, get_path sample_manager \<mapsto> sample_key)"
  using pk_resume_completes[OF sample_facts, of "sample_device [temp_path sample_manager \<mapsto> take 100 sample_key]" sample_manager 100 4]
  by (simp add: sample_device_def content_or_empty_def sample_key_def PK_SIZE_def)


lemma budget_files [still_intros]:
  "still (holds_files F) (record_attempt W vk)" "still (holds_files F) (attempts_consumed W vk)"
  "still (holds_files F) (compute_jittered_backoff W i)" "still (holds_files F) (sleep_ms t)"
proof -
  have basic: "still (holds_files F) (set_attempts vk ts)" "still (holds_files F) (get_attempts vk)"
    "still (holds_files F) lock_retry_state" "still (holds_files F) (sleep_ms t)"
    "still (holds_files F) (read_clock W)" "still (holds_files F) (next_random W)" for ts t
    by (auto simp: still_def holds_files_def set_attempts_def get_attempts_def lock_retry_state_def sleep_ms_def
        read_clock_def next_random_def)
  then show "still (holds_files F) (sleep_ms t)" by blast
  show "still (holds_files F) (record_attempt W vk)" "still (holds_files F) (attempts_consumed W vk)"
    "still (holds_files F) (compute_jittered_backoff W i)"
    unfolding record_attempt_def attempts_consumed_def trimmed_attempts_def compute_jittered_backoff_def Let_def
    by (auto intro!: still_intros basic)
qed

lemma failing_round:
  assumes "\<exists>e. gives F (download_single_attempt W m) (Inl e) F"
  shows "ends (holds_files F) (download_round W m) (\<lambda>done d. \<not> done \<and> holds_files F d) (holds_files F)"
proof -
  from assms obtain e0 where fails: "gives F (download_single_attempt W m) (Inl e0) F" by blast
  have attempt: "ends (holds_files F) (settleS (download_single_attempt W m))
      (\<lambda>r d. holds_files F d \<and> r = Inl e0) (holds_files F)"
  proof (rule endsI)
    fix s r s' assume s: "holds_files F s" "settleS (download_single_attempt W m) s = (r, s')"
    note run = givesD[OF fails s(1)]
    have "r = Inr (Inl e0)" "s' = snd (download_single_attempt W m s)"
      using s(2) unfolding settleS_def by (subst (asm) run[THEN conjunct1], simp)+
    with run show "case r of Inr x \<Rightarrow> holds_files F s' \<and> x = Inl e0 | Inl _ \<Rightarrow> holds_files F s'" by simp
  qed
  show ?thesis
    unfolding download_round_def
    by (rule ends_bindS[OF still_ends[OF budget_files(1)]], rule ends_bindS[OF attempt], rule ends_pre_and)
      (auto intro!: ends_bindS[OF still_ends] ends_if ends_pureS still_intros)
qed

lemma failing_loop:
  assumes "\<exists>e. gives F (download_single_attempt W m) (Inl e) F"
  shows "holds_files F d \<Longrightarrow> download_loop n W m d = Some (r, d') \<Longrightarrow> \<not> is_ok r \<and> holds_files F d'"
proof (induction n arbitrary: d)
  case (Suc n)
  obtain r1 d1 where round: "download_round W m d = (r1, d1)" by (cases "download_round W m d")
  note after = endsD[OF failing_round[OF assms] Suc.prems(1) round]
  show ?case
  proof (cases r1)
    case (Inl e)
    with after round Suc.prems(2) show ?thesis by auto
  next
    case (Inr b)
    with after round Suc show ?thesis by auto
  qed
qed simp

text \<open>A server that answers a range request with the whole file blocks the download for good: when
  HTTP/3 is not reachable, the HTTP/2 server sends status 200 with the full length, and more than
  the 483,176 bytes between the key's size and the size limit have been downloaded before, all
  attempts of the budget fail and leave the partial file as it is, so the next download starts
  from the same state.\<close>

theorem pk_range_ignored_blocks:
  assumes "faultless W" "h3_unreachable W" "h2_ignores_range W" "within_window a W"
    and "check_storage_available W = Inr Available"
    and "dev_files d (get_path m) = None"
    and "dev_files d (temp_path m) = Some c" "length c < PK_SIZE" "483176 < length c"
  shows "\<exists>e d'. download_with_progress 5 W m d = Some (Inl e, d') \<and> dev_files d' = dev_files d"
proof -
  from preflight_runs[OF assms(1,5,6)] obtain d1 where
    d1: "download_preflight W m d = (Inr False, d1)" "frame {} d d1" by blast
  from d1(2) have F: "holds_files (dev_files d) d1" by (auto simp: frame_def holds_files_def)
  from download_returns_within[OF assms(4), of 5 m d] d1(1)
  obtain r d' where r: "download_loop 5 W m d1 = Some (r, d')" by (auto simp: download_with_progress_def)
  have "MAX_DOWNLOAD_BYTES < length c + PK_SIZE"
    using assms(9) by (simp add: MAX_DOWNLOAD_BYTES_def PK_SIZE_def)
  from failing_loop[OF ignored_range_attempt[OF assms(1-3), of "dev_files d" m c, OF assms(7,8) this] F r]
  have "\<not> is_ok r" "dev_files d' = dev_files d" by (simp_all add: holds_files_def)
  with r d1(1) show ?thesis by (cases r) (auto simp: download_with_progress_def)
qed

lemma pk_range_ignored_blocks_witness:
  "\<exists>e d'. download_with_progress 5 (deaf_world\<lparr>wd_clock := (\<lambda>n. n mod 100)\<rparr>) sample_manager
      (sample_device [temp_path sample_manager \<mapsto> take 500000 sample_key]) = Some (Inl e, d') \<and>
    dev_files d' = [temp_path sample_manager \<mapsto> take 500000 sample_key]"
proof -
  let ?W = "deaf_world\<lparr>wd_clock := (\<lambda>n. n mod 100)\<rparr>"
  have "faultless ?W" "h3_unreachable ?W" "h2_ignores_range ?W" "check_storage_available ?W = Inr Available"
    by (simp_all add: faultless_def h3_unreachable_def h2_ignores_range_def deaf_world_def sample_world_def
        check_storage_available_def get_free_space_def MIN_FREE_SPACE_def)
  moreover have "within_window 0 ?W"
  proof (simp add: within_window_def, intro allI)
    fix n :: nat
    have "n mod 100 < 100" by simp
    then show "n mod 100 < RETRY_WINDOW" by (simp add: RETRY_WINDOW_def)
  qed
  moreover have "length (take 500000 sample_key) < PK_SIZE" "483176 < length (take 500000 sample_key)"
    by (simp_all add: sample_key_def PK_SIZE_def)
  ultimately show ?thesis
    using pk_range_ignored_blocks[of ?W 0 "sample_device [temp_path sample_manager \<mapsto> take 500000 sample_key]"
        sample_manager "take 500000 sample_key"]
    by (simp add: sample_device_def)
qed

text \<open>The exported download never reports a network error, although its error type has a variant
  for one: a failed attempt is retried, and what the caller sees in the end is the exhausted
  budget, whose text repeats the last failure, or a failure before the first attempt.\<close>

theorem pk_no_network_error:
  "case proving_key_download rt fuel W dir d of
     Some (Inl (PkNetworkError x), d') \<Rightarrow> False
   | Some (Inl (InsufficientStorage x), d') \<Rightarrow> contains_str ''Not enough storage'' x
   | _ \<Rightarrow> True"
proof (cases "\<exists>e d'. is_ok rt \<and> download_with_progress fuel W (pk_manager_new dir) d = Some (Inl e, d')")
  case True
  then obtain e d' where run: "is_ok rt" "download_with_progress fuel W (pk_manager_new dir) d = Some (Inl e, d')" by blast
  from download_error[OF run(2)] run show ?thesis
    by (cases rt) (auto simp: proving_key_download_def of_download_error_def)
next
  case False
  then show ?thesis
    by (auto simp: proving_key_download_def split: sum.splits option.splits proving_key_error.splits)
      (metis Inl_Inr_False map_err_Inl_iff old.sum.exhaust)+
qed

section \<open>Initialisation\<close>

lemma reads_read_proving_key:
  "reads F (read_proving_key W dir) (\<lambda>pk. F (get_path (pk_manager_new dir)) = Some pk \<and> pk_ok W pk)"
proof -
  let ?m = "pk_manager_new dir"
  have available: "reads F (is_available W ?m) (\<lambda>_. True)"
    unfolding is_available_def
    by (rule reads_bindS[OF reads_settleS[OF reads_verify]]) (simp add: reads_pureS)
  have load: "reads F (load_pk_to_memory W ?m) (\<lambda>pk. F (get_path ?m) = Some pk \<and> pk_ok W pk)"
    unfolding load_pk_to_memory_def
    apply (rule reads_bindS[OF reads_verify], intro reads_if)
     apply (auto intro!: reads_pureS)[1]
    apply (rule reads_weaken[OF reads_map_errS[OF reads_file]], auto)
    done
  show ?thesis
    unfolding read_proving_key_def Let_def
    apply (rule reads_bindS[OF available], intro reads_if)
     apply (auto intro!: reads_pureS)[1]
    apply (rule reads_bindS[OF reads_map_errS[OF load]])
    apply (auto intro!: reads_pureS split: if_splits)
    done
qed

text \<open>C12: The prover is only ever initialised with verified bytes: initialisation changes no file, and
  when it changes the prover or reports success, the file at the final path has the key's size and
  digest and its bytes are what the prover was given.\<close>

theorem pk_init_verified:
  "case proving_key_init X Q W dir (d, g) of
     (r, d', g') \<Rightarrow> dev_files d' = dev_files d \<and>
       (let given = (\<exists>pk. dev_files d (get_path (pk_manager_new dir)) = Some pk \<and> pk_ok W pk \<and>
                       g' = snd (init_prover_with_pk_bytes X Q pk g))
        in if is_ok r then given else g' = g \<or> given)"
proof -
  obtain r d' where run: "read_proving_key W dir d = (r, d')" by (cases "read_proving_key W dir d")
  note read = readsD[OF reads_read_proving_key run]
  show ?thesis
  proof (cases r)
    case (Inl e)
    with read(1) run show ?thesis by (simp add: proving_key_init_def)
  next
    case (Inr pk)
    from read(2)[OF Inr] have "dev_files d (get_path (pk_manager_new dir)) = Some pk" "pk_ok W pk" by simp_all
    with Inr read(1) run show ?thesis
      by (auto simp: proving_key_init_def split: prod.split)
  qed
qed

section \<open>Back-off and removal\<close>

lemma unat_sat_mul: "unat (sat_mul a b) = min (unat a * unat b) (2 ^ 64 - 1)"
proof (cases "unat a * unat b < 2 ^ 64")
  case True
  then have "unat (a * b) = unat a * unat b" by (simp add: unat_word_ariths)
  with True show ?thesis by (simp add: sat_mul_def)
next
  case False
  then show ?thesis by (simp add: sat_mul_def unat_all_ones)
qed

lemma unat_min: "unat (min a b) = min (unat a) (unat b)"
  by (simp add: min_def word_le_nat_alt)

lemma backoff_bounds: "unat (backoff_cap i) = min (2000 * 2 ^ i) 60000"
proof -
  have p: "unat (push_bit (min i 63) (1 :: u64)) = 2 ^ min i 63"
    by (simp only: unsigned_push_bit_eq) (simp add: push_bit_eq_mult take_bit_of_1)
  have "unat (backoff_cap i) = min (min (2000 * 2 ^ min i 63) (2 ^ 64 - 1)) 60000"
    unfolding backoff_cap_def unat_min unat_sat_mul p by (simp add: BASE_BACKOFF_MS_def MAX_BACKOFF_MS_def)
  also have "\<dots> = min (2000 * 2 ^ i) 60000"
  proof (cases "i < 6")
    case True
    then have "(2 :: nat) ^ i \<le> 2 ^ 5" by (intro power_increasing) simp_all
    with True show ?thesis by simp
  next
    case False
    then have "(2 :: nat) ^ 6 \<le> 2 ^ i" "(2 :: nat) ^ 6 \<le> 2 ^ min i 63" using False
      by (intro power_increasing; simp)+
    then show ?thesis by simp
  qed
  finally show ?thesis .
qed

text \<open>Full jitter: the delay lies below the doubling cap, whatever the random number is.\<close>

lemma jittered_delay_bounded:
  "\<exists>t d'. compute_jittered_backoff W i d = (Inr t, d') \<and> unat t < min (2000 * 2 ^ i) 60000"
proof -
  have pos: "0 < unat (backoff_cap i)" by (simp add: backoff_bounds)
  then have "backoff_cap i \<noteq> 0" by auto
  moreover have "unat (r mod backoff_cap i) < unat (backoff_cap i)" for r
    using pos by (simp add: unat_mod)
  ultimately show ?thesis
    by (simp add: compute_jittered_backoff_def bindS_def next_random_def pureS_def backoff_bounds)
qed

lemma delete_removes_key:
  assumes "faultless W"
  shows "gives F (delete_proving_key W m) (Inr ()) (F(get_path m := None, temp_path m := None))"
proof -
  have one: "gives G (remove_if_exists W p) (Inr ()) (G(p := None))" for G p
  proof (cases "G p")
    case None
    then have "G(p := None) = G" by auto
    with None show ?thesis
      unfolding remove_if_exists_def
      by (intro gives_bindS[OF gives_exists[OF assms]]) (simp add: gives_pureS)
  next
    case (Some c)
    show ?thesis
      unfolding remove_if_exists_def
      by (rule gives_bindS[OF gives_exists[OF assms]], rule gives_if(1), simp add: Some,
          rule gives_map_ok[OF gives_remove[of W G p c, OF assms Some]])
  qed
  show ?thesis unfolding delete_proving_key_def by (rule gives_bindS[OF one one])
qed

end
