(* ===== verification/Http_Client.thy ===== *)
theory Http_Client
  imports File_Transfer
begin

text \<open>
  Requests over HTTP/3 (\<open>ffi/src/net.rs\<close>): the URL that is accepted, the connection, the
  headers, the body with its size limit, and the time limit around it all. The network stack
  below (name resolution, QUIC, the \<open>h3\<close> client, the \<open>url\<close> and \<open>http\<close> crates) is a parameter
  that says how each of its calls ends; what the client sends is recorded on the state, so that
  \<open>http_get_confined\<close> and \<open>http_post_confined\<close> can say where a request, and an API key in it,
  can go.
\<close>

section \<open>The network stack\<close>

text \<open>An awaited call ends with a value or an error, or the time limit strikes first.\<close>

datatype 'a reply = Done 'a | Failed string | Late

record url_parts =
  up_scheme :: string
  up_host :: "string option"
  up_port :: "u16 option"
  up_path :: string
  up_query :: "string option"
  up_text :: string

record http_request =
  rq_method :: string
  rq_path :: string
  rq_headers :: "(string \<times> string) list"

text \<open>
  A received chunk is a \<open>Buf\<close>, the list of its contiguous parts: \<open>chunk()\<close> returns the first of
  them. The body ends, or breaks off with an error or at the time limit.
\<close>

record h3_response =
  rs_status :: nat
  rs_shown :: string
  rs_chunks :: "bytes list list"
  rs_end :: "unit reply"

record h3_stack =
  st_url :: "string \<Rightarrow> string + url_parts"
  st_resolve :: "string \<Rightarrow> string list reply"
  st_endpoint :: "string + unit"
  st_connect :: "string \<Rightarrow> string \<Rightarrow> string + unit"
  st_handshake :: "string \<Rightarrow> string \<Rightarrow> unit reply"
  st_setup :: "string \<Rightarrow> string \<Rightarrow> unit reply"
  st_build :: "http_request \<Rightarrow> string + unit"
  st_send :: "http_request \<Rightarrow> unit reply"
  st_send_body :: "bytes \<Rightarrow> unit reply"
  st_finish :: "unit reply"
  st_response :: "http_request \<Rightarrow> bytes option \<Rightarrow> h3_response reply"
  st_utf8_msg :: "bytes \<Rightarrow> string"

text \<open>What the client hands to the network, in order, beside the global user agent.\<close>

datatype wire = Resolve string | Connect string string | SendHead http_request | SendBody bytes | SendEnd | CloseConn string

record http_state =
  hs_user_agent :: string
  hs_wire :: "wire list"

section \<open>Settings\<close>

definition MAX_RESPONSE_BYTES :: nat where "MAX_RESPONSE_BYTES = 2 * 1024 * 1024"

definition DEFAULT_POST_TIMEOUT_SECS :: u64 where "DEFAULT_POST_TIMEOUT_SECS = 30"

definition USER_AGENT :: string where "USER_AGENT = ''ProviiWallet/0.1.0 (Rust SDK)''"

definition current_user_agent :: "(http_state, 'e, string) op" where
  "current_user_agent s = (Inr (hs_user_agent s), s)"

definition set_user_agent :: "string \<Rightarrow> http_state \<Rightarrow> http_state" where
  "set_user_agent ua s = s\<lparr>hs_user_agent := ua\<rparr>"

section \<open>One request\<close>

text \<open>A request stops with an error of its own, or because the time limit strikes.\<close>

datatype halted = Refused ffi_error | Elapsed

definition sends :: "wire \<Rightarrow> (http_state, 'e, unit) op" where
  "sends e s = (Inr (), s\<lparr>hs_wire := hs_wire s @ [e]\<rparr>)"

definition attempt :: "string \<Rightarrow> string + 'a \<Rightarrow> (http_state, halted, 'a) op" where
  "attempt what r = pureS (map_err (\<lambda>e. Refused (FNetwork (what @ e))) r)"

definition awaits :: "string \<Rightarrow> 'a reply \<Rightarrow> (http_state, halted, 'a) op" where
  "awaits what r = pureS (case r of Done x \<Rightarrow> Inr x | Failed e \<Rightarrow> Inl (Refused (FNetwork (what @ e))) | Late \<Rightarrow> Inl Elapsed)"

definition parse_url_for_h3 :: "h3_stack \<Rightarrow> string \<Rightarrow> ffi_error + string \<times> u16 \<times> string" where
  "parse_url_for_h3 N url =
     bindR (map_err FInvalidFormat (st_url N url)) (\<lambda>u.
     if up_scheme u \<noteq> ''https'' then Inl (FInvalidFormat ''Only HTTPS URLs are supported'')
     else bindR (ok_or (FInvalidFormat ''No host in URL'') (up_host u)) (\<lambda>host.
     if host = [] then Inl (FInvalidFormat ''Empty host in URL'')
     else Inr (host, (case up_port u of Some p \<Rightarrow> p | None \<Rightarrow> 443),
            up_path u @ (case up_query u of Some q \<Rightarrow> CHR ''?'' # q | None \<Rightarrow> []))))"

definition host_port :: "string \<Rightarrow> u16 \<Rightarrow> string" where
  "host_port host port = host @ '':'' @ show_nat (unat port)"

text \<open>From the URL to an open HTTP/3 connection; the host and the request path remain.\<close>

definition h3_open :: "h3_stack \<Rightarrow> string \<Rightarrow> (http_state, halted, string \<times> string) op" where
  "h3_open N url =
     bindS (pureS (map_err Refused (parse_url_for_h3 N url))) (\<lambda>(host, port, path).
     bindS (sends (Resolve (host_port host port))) (\<lambda>_.
     bindS (awaits ''DNS resolution failed: '' (st_resolve N (host_port host port))) (\<lambda>addrs.
     bindS (pureS (case addrs of a # _ \<Rightarrow> Inr a | [] \<Rightarrow> Inl (Refused (FNetwork ''No address found'')))) (\<lambda>addr.
     bindS (attempt ''Failed to create endpoint: '' (st_endpoint N)) (\<lambda>_.
     bindS (attempt ''QUIC connection failed: '' (st_connect N addr host)) (\<lambda>_.
     bindS (sends (Connect addr host)) (\<lambda>_.
     bindS (awaits ''QUIC handshake failed: '' (st_handshake N addr host)) (\<lambda>_.
     bindS (awaits ''HTTP/3 setup failed: '' (st_setup N addr host)) (\<lambda>_.
     pureS (Inr (host, path)))))))))))"

definition slice_of :: "bytes list \<Rightarrow> bytes" where
  "slice_of chunk = (case chunk of [] \<Rightarrow> [] | part # _ \<Rightarrow> part)"

definition body_too_large :: ffi_error where
  "body_too_large = FNetwork (''Response body exceeded '' @ show_nat MAX_RESPONSE_BYTES @ '' byte limit'')"

text \<open>Lengths are natural numbers: two lengths of vectors never reach the saturation of their sum.\<close>

fun read_body :: "bytes list list \<Rightarrow> unit reply \<Rightarrow> bytes \<Rightarrow> (http_state, halted, bytes) op" where
  "read_body [] fin body = bindS (awaits ''Failed to read body: '' fin) (\<lambda>_. pureS (Inr body))"
| "read_body (chunk # chunks) fin body =
     (let slice = slice_of chunk
      in if length body + length slice > MAX_RESPONSE_BYTES
         then bindS (sends (CloseConn ''response too large'')) (\<lambda>_. pureS (Inl (Refused body_too_large)))
         else read_body chunks fin (body @ slice))"

definition response_text :: "h3_stack \<Rightarrow> h3_response \<Rightarrow> bytes \<Rightarrow> ffi_error + string" where
  "response_text N resp body =
     (if \<not> utf8_ok (map unat body) then Inl (FInvalidFormat (st_utf8_msg N body))
      else if \<not> is_success (rs_status resp) then Inl (FNetwork (''Server returned status: '' @ rs_shown resp))
      else Inr (string_of_bytes body))"

text \<open>The request and, in a POST, its body go out; the response comes back.\<close>

definition h3_send :: "h3_stack \<Rightarrow> http_request \<Rightarrow> bytes option \<Rightarrow> (http_state, halted, h3_response) op" where
  "h3_send N req content =
     bindS (pureS (map_err (\<lambda>e. Refused (FNetwork e)) (st_build N req))) (\<lambda>_.
     bindS (sends (SendHead req)) (\<lambda>_.
     bindS (awaits ''HTTP/3 request failed: '' (st_send N req)) (\<lambda>_.
     bindS (case content of
              Some b \<Rightarrow> bindS (sends (SendBody b)) (\<lambda>_. awaits ''Failed to send body: '' (st_send_body N b))
            | None \<Rightarrow> pureS (Inr ())) (\<lambda>_.
     bindS (sends SendEnd) (\<lambda>_.
     bindS (awaits ''Failed to finish stream: '' (st_finish N)) (\<lambda>_.
     awaits ''Failed to receive response: '' (st_response N req content)))))))"

definition h3_receive :: "h3_stack \<Rightarrow> h3_response \<Rightarrow> (http_state, halted, string) op" where
  "h3_receive N resp =
     bindS (read_body (rs_chunks resp) (rs_end resp) []) (\<lambda>body.
     bindS (sends (CloseConn ''done'')) (\<lambda>_.
     pureS (map_err Refused (response_text N resp body))))"

definition h3_exchange :: "h3_stack \<Rightarrow> http_request \<Rightarrow> bytes option \<Rightarrow> (http_state, halted, string) op" where
  "h3_exchange N req content = bindS (h3_send N req content) (h3_receive N)"

definition tokio_timeout :: "u64 \<Rightarrow> (http_state, halted, 'a) op \<Rightarrow> (http_state, ffi_error, 'a) op" where
  "tokio_timeout secs f = map_errS (\<lambda>h. case h of Refused e \<Rightarrow> e | Elapsed \<Rightarrow> FRequestTimeout secs) f"

definition key_header :: "string option \<Rightarrow> (string \<times> string) list" where
  "key_header api_key = (case api_key of Some key \<Rightarrow> [(''x-api-key'', key)] | None \<Rightarrow> [])"

section \<open>POST\<close>

definition post_request :: "string \<Rightarrow> string \<Rightarrow> string \<Rightarrow> string \<Rightarrow> string option \<Rightarrow> http_request" where
  "post_request ua host path json_body api_key =
     \<lparr>rq_method = ''POST'', rq_path = path,
      rq_headers = [(''host'', host), (''user-agent'', ua), (''content-type'', ''application/json''),
                    (''accept'', ''application/json''), (''content-length'', show_nat (length json_body))]
                   @ key_header api_key\<rparr>"

definition post_json_with_api_key_inner ::
    "h3_stack \<Rightarrow> string \<Rightarrow> string \<Rightarrow> string option \<Rightarrow> (http_state, halted, string) op" where
  "post_json_with_api_key_inner N url json_body api_key =
     bindS (h3_open N url) (\<lambda>(host, path).
     bindS current_user_agent (\<lambda>ua.
     h3_exchange N (post_request ua host path json_body api_key) (Some (bytes_of_string json_body))))"

definition post_json_with_api_key ::
    "h3_stack \<Rightarrow> string \<Rightarrow> string \<Rightarrow> string option \<Rightarrow> u64 \<Rightarrow> (http_state, ffi_error, string) op" where
  "post_json_with_api_key N url json_body api_key timeout_secs =
     tokio_timeout timeout_secs (post_json_with_api_key_inner N url json_body api_key)"

definition post_json :: "h3_stack \<Rightarrow> string \<Rightarrow> string \<Rightarrow> (http_state, ffi_error, string) op" where
  "post_json N url json_body = post_json_with_api_key N url json_body None DEFAULT_POST_TIMEOUT_SECS"

section \<open>GET\<close>

definition get_request :: "string \<Rightarrow> string \<Rightarrow> string \<Rightarrow> string option \<Rightarrow> string option \<Rightarrow> http_request" where
  "get_request ua host path api_key origin =
     \<lparr>rq_method = ''GET'', rq_path = path,
      rq_headers = [(''host'', host), (''user-agent'', ua), (''accept'', ''application/json'')]
                   @ key_header api_key @ (case origin of Some v \<Rightarrow> [(''origin'', v)] | None \<Rightarrow> [])\<rparr>"

definition get_with_headers_inner ::
    "h3_stack \<Rightarrow> string \<Rightarrow> string option \<Rightarrow> string option \<Rightarrow> (http_state, halted, string) op" where
  "get_with_headers_inner N url api_key origin =
     bindS (h3_open N url) (\<lambda>(host, path).
     bindS current_user_agent (\<lambda>ua.
     h3_exchange N (get_request ua host path api_key origin) None))"

definition get_with_headers ::
    "h3_stack \<Rightarrow> string \<Rightarrow> u64 \<Rightarrow> string option \<Rightarrow> string option \<Rightarrow> (http_state, ffi_error, string) op" where
  "get_with_headers N url timeout_secs api_key origin =
     tokio_timeout timeout_secs (get_with_headers_inner N url api_key origin)"

definition get_with_api_key ::
    "h3_stack \<Rightarrow> string \<Rightarrow> u64 \<Rightarrow> string option \<Rightarrow> (http_state, ffi_error, string) op" where
  "get_with_api_key N url timeout_secs api_key = get_with_headers N url timeout_secs api_key None"

definition get_with_timeout :: "h3_stack \<Rightarrow> string \<Rightarrow> u64 \<Rightarrow> (http_state, ffi_error, string) op" where
  "get_with_timeout N url timeout_secs = get_with_api_key N url timeout_secs None"

section \<open>What goes out\<close>

text \<open>
  \<open>plays L f\<close>: a run of \<open>f\<close> that succeeds sends exactly \<open>L\<close>, one that fails a part of it from
  the front, and the user agent stays.
\<close>

definition plays :: "wire list \<Rightarrow> (http_state, 'e, 'a) op \<Rightarrow> bool" where
  "plays L f \<longleftrightarrow> (\<forall>s. hs_user_agent (snd (f s)) = hs_user_agent s \<and>
     (\<exists>n. hs_wire (snd (f s)) = hs_wire s @ take n L \<and> (is_ok (fst (f s)) \<longrightarrow> length L \<le> n)))"

named_theorems plays_intros \<open>what each step of a request sends\<close>

lemma plays_pureS [plays_intros]: "plays [] (pureS r)"
  by (simp add: plays_def pureS_def)

lemma plays_awaits [plays_intros]: "plays [] (awaits what r)"
  by (simp add: awaits_def plays_pureS)

lemma plays_attempt [plays_intros]: "plays [] (attempt what r)"
  by (simp add: attempt_def plays_pureS)

lemma plays_current_user_agent [plays_intros]: "plays [] current_user_agent"
  by (simp add: plays_def current_user_agent_def)

lemma plays_sends [plays_intros]: "plays [e] (sends e)"
  by (auto simp: plays_def sends_def intro: exI[of _ 1])

lemma playsE:
  assumes "plays L f" "f s = (r, t)"
  obtains n where "hs_user_agent t = hs_user_agent s" "hs_wire t = hs_wire s @ take n L"
    "is_ok r \<longrightarrow> length L \<le> n"
proof -
  from assms obtain n where "hs_user_agent t = hs_user_agent s" "hs_wire t = hs_wire s @ take n L"
      "is_ok r \<longrightarrow> length L \<le> n"
    unfolding plays_def by (metis fst_conv snd_conv)
  then show thesis by (intro that[of n]) simp_all
qed

lemma plays_bindS:
  assumes f: "plays L f" and g: "\<And>x s t. f s = (Inr x, t) \<Longrightarrow> plays M (g x)"
  shows "plays (L @ M) (bindS f g)"
  unfolding plays_def
proof (intro allI)
  fix s
  obtain r t where fs: "f s = (r, t)" by fastforce
  from f fs obtain n where n: "hs_user_agent t = hs_user_agent s" "hs_wire t = hs_wire s @ take n L"
    "is_ok r \<longrightarrow> length L \<le> n" by (rule playsE)
  show "hs_user_agent (snd (bindS f g s)) = hs_user_agent s \<and>
    (\<exists>n. hs_wire (snd (bindS f g s)) = hs_wire s @ take n (L @ M) \<and>
      (is_ok (fst (bindS f g s)) \<longrightarrow> length (L @ M) \<le> n))"
  proof (cases r)
    case (Inl e)
    with n fs show ?thesis
      by (auto simp: bindS_def min_def intro!: exI[of _ "min n (length L)"])
  next
    case (Inr x)
    obtain r' u where gx: "g x t = (r', u)" by fastforce
    from fs Inr have "f s = (Inr x, t)" by simp
    from g[OF this] gx obtain m where m: "hs_user_agent u = hs_user_agent t" "hs_wire u = hs_wire t @ take m M"
      "is_ok r' \<longrightarrow> length M \<le> m" by (rule playsE)
    from n(3) Inr have "length L \<le> n" by simp
    with n m fs Inr gx show ?thesis
      by (auto simp: bindS_def intro!: exI[of _ "length L + m"])
  qed
qed

text \<open>The rule for a step that sends nothing, and for one that sends the next event.\<close>

lemma plays_quiet: "plays [] f \<Longrightarrow> (\<And>x s t. f s = (Inr x, t) \<Longrightarrow> plays M (g x)) \<Longrightarrow> plays M (bindS f g)"
  using plays_bindS[of "[]" f M g] by simp

lemma plays_next: "(\<And>x. plays M (g x)) \<Longrightarrow> plays (e # M) (bindS (sends e) g)"
  using plays_bindS[OF plays_sends[of e], where M = M and g = g] by simp

definition resolved :: "h3_stack \<Rightarrow> string \<Rightarrow> string" where
  "resolved N hp = (case st_resolve N hp of Done (a # _) \<Rightarrow> a | _ \<Rightarrow> [])"

text \<open>All a request to \<open>url\<close> may send, when the connection is closed for \<open>reason\<close>.\<close>

definition prologue :: "h3_stack \<Rightarrow> string \<Rightarrow> wire list" where
  "prologue N url =
     (case parse_url_for_h3 N url of
        Inr (host, port, path) \<Rightarrow> [Resolve (host_port host port), Connect (resolved N (host_port host port)) host]
      | Inl _ \<Rightarrow> [])"

definition message :: "http_request \<Rightarrow> bytes option \<Rightarrow> wire list" where
  "message req content = SendHead req # (case content of Some b \<Rightarrow> [SendBody b] | None \<Rightarrow> []) @ [SendEnd]"

definition transcript ::
    "h3_stack \<Rightarrow> string \<Rightarrow> (string \<Rightarrow> string \<Rightarrow> http_request) \<Rightarrow> bytes option \<Rightarrow> string \<Rightarrow> wire list" where
  "transcript N url req content reason =
     (case parse_url_for_h3 N url of
        Inr (host, port, path) \<Rightarrow> prologue N url @ message (req host path) content @ [CloseConn reason]
      | Inl _ \<Rightarrow> [])"

lemma bindS_pureS [simp]: "bindS (pureS (Inl e)) f = pureS (Inl e)" "bindS (pureS (Inr x)) f = f x"
  by (simp_all add: fun_eq_iff) (simp add: pureS_def)

lemma bindS_assoc: "bindS (bindS f g) h = bindS f (\<lambda>x. bindS (g x) h)"
  by (simp add: fun_eq_iff bindS_def split: prod.split sum.split)

lemma awaits_simps [simp]:
  "awaits what (Done x) = pureS (Inr x)" "awaits what (Failed e) = pureS (Inl (Refused (FNetwork (what @ e))))"
  "awaits what Late = pureS (Inl Elapsed)"
  by (simp_all add: awaits_def)

lemma plays_failed: "plays L (pureS (Inl e))"
  by (auto simp: plays_def pureS_def intro: exI[of _ 0])

lemma plays_open: "plays (prologue N url) (h3_open N url)"
proof (cases "parse_url_for_h3 N url")
  case (Inl e)
  then show ?thesis by (simp add: h3_open_def plays_failed)
next
  case (Inr a)
  obtain host port path where a: "a = (host, port, path)" by (cases a)
  let ?hp = "host_port host port"
  have "plays [Connect (resolved N ?hp) host]
     (bindS (awaits w (st_resolve N ?hp)) (\<lambda>addrs.
      bindS (pureS (case addrs of a # _ \<Rightarrow> Inr a | [] \<Rightarrow> Inl f)) (\<lambda>addr.
      bindS (attempt w1 (st_endpoint N)) (\<lambda>_. bindS (attempt w2 (st_connect N addr host)) (\<lambda>_.
      bindS (sends (Connect addr host)) (\<lambda>_. bindS (awaits w3 (st_handshake N addr host)) (\<lambda>_.
      bindS (awaits w4 (st_setup N addr host)) (\<lambda>_. pureS (Inr (host, path))))))))))" for w f w1 w2 w3 w4
  proof (cases "st_resolve N ?hp")
    case (Done addrs)
    show ?thesis
      by (cases addrs)
        (auto simp: Done resolved_def plays_failed intro!: plays_quiet plays_next plays_intros)
  qed (simp_all add: plays_failed)
  then show ?thesis
    unfolding h3_open_def prologue_def by (simp add: Inr a plays_next)
qed

lemma plays_send: "plays (message req content) (h3_send N req content)"
proof (cases "st_build N req")
  case (Inl e)
  then show ?thesis by (simp add: h3_send_def plays_failed)
next
  case (Inr u)
  show ?thesis
    by (cases content)
      (auto simp: h3_send_def message_def Inr bindS_assoc intro!: plays_next plays_quiet plays_awaits)
qed

lemma read_body_wire:
  "read_body cs fin body s = (r, t) \<Longrightarrow> hs_user_agent t = hs_user_agent s \<and>
     (hs_wire t = hs_wire s \<or> hs_wire t = hs_wire s @ [CloseConn ''response too large''] \<and> \<not> is_ok r)"
proof (induction cs arbitrary: body)
  case Nil
  then show ?case by (cases fin) (auto simp: pureS_def)
next
  case (Cons c cs)
  then show ?case
    by (auto simp: Let_def bindS_def sends_def pureS_def split: if_splits)
qed

lemma h3_receive_wire:
  "hs_user_agent (snd (h3_receive N resp s)) = hs_user_agent s \<and>
   (\<exists>n reason. hs_wire (snd (h3_receive N resp s)) = hs_wire s @ take n [CloseConn reason])"
proof -
  obtain r t where rt: "read_body (rs_chunks resp) (rs_end resp) [] s = (r, t)" by fastforce
  note w = read_body_wire[OF rt]
  have nothing: "\<exists>n reason. hs_wire s = hs_wire s @ take n [CloseConn reason]" by (auto intro: exI[of _ 0])
  have closed: "\<exists>n reason. hs_wire s @ [CloseConn m] = hs_wire s @ take n [CloseConn reason]" for m
    by (auto intro: exI[of _ 1])
  from w nothing closed show ?thesis
    by (cases r) (auto simp: h3_receive_def bindS_def rt sends_def pureS_def)
qed

lemma transcript_parts:
  assumes "parse_url_for_h3 N url = Inr (host, port, path)"
  shows "transcript N url req content reason
    = prologue N url @ message (req host path) content @ [CloseConn reason]"
  using assms by (simp add: transcript_def)

text \<open>The host and the path a request is sent with are those of its URL.\<close>

lemma h3_open_value:
  "h3_open N url s = (Inr (host, path), t) \<Longrightarrow> \<exists>port. parse_url_for_h3 N url = Inr (host, port, path)"
  unfolding h3_open_def by (auto elim!: bindS_cases simp: pureS_def bindS_def split: prod.splits sum.splits)

definition h3_request ::
    "h3_stack \<Rightarrow> string \<Rightarrow> (string \<Rightarrow> string \<Rightarrow> string \<Rightarrow> http_request) \<Rightarrow> bytes option \<Rightarrow>
      (http_state, halted, string) op" where
  "h3_request N url mk content =
     bindS (h3_open N url) (\<lambda>(host, path). bindS current_user_agent (\<lambda>ua. h3_exchange N (mk ua host path) content))"

lemma inner_requests:
  "post_json_with_api_key_inner N url b key
    = h3_request N url (\<lambda>ua host path. post_request ua host path b key) (Some (bytes_of_string b))"
  "get_with_headers_inner N url key origin
    = h3_request N url (\<lambda>ua host path. get_request ua host path key origin) None"
  by (simp_all add: post_json_with_api_key_inner_def get_with_headers_inner_def h3_request_def)

lemma exchange_wire:
  assumes "hs_wire s = w @ P"
  shows "\<exists>n reason. hs_wire (snd (h3_exchange N req content s)) = w @ take n (P @ message req content @ [CloseConn reason])"
proof -
  obtain r t where rt: "h3_send N req content s = (r, t)" by fastforce
  obtain n where n: "hs_wire t = hs_wire s @ take n (message req content)"
      "is_ok r \<longrightarrow> length (message req content) \<le> n"
    using plays_send rt by (rule playsE)
  show ?thesis
  proof (cases r)
    case (Inl e)
    let ?m = "min n (length (message req content))"
    have "hs_wire t = w @ take (length P + ?m) (P @ message req content @ [CloseConn []])"
      using n assms by (simp add: min_def)
    moreover have "snd (h3_exchange N req content s) = t" using Inl rt by (simp add: h3_exchange_def bindS_def)
    ultimately show ?thesis by metis
  next
    case (Inr resp)
    obtain m reason where m: "hs_wire (snd (h3_receive N resp t)) = hs_wire t @ take m [CloseConn reason]"
      using h3_receive_wire[of N resp t] by blast
    from m n assms Inr
    have "hs_wire (snd (h3_receive N resp t))
        = w @ take (length P + length (message req content) + m) (P @ message req content @ [CloseConn reason])"
      by simp
    moreover have "snd (h3_exchange N req content s) = snd (h3_receive N resp t)"
      using Inr rt by (simp add: h3_exchange_def bindS_def)
    ultimately show ?thesis by metis
  qed
qed

lemma request_wire:
  "\<exists>n reason. hs_wire (snd (h3_request N url mk content s))
     = hs_wire s @ take n (transcript N url (mk (hs_user_agent s)) content reason)"
proof -
  obtain r t where rt: "h3_open N url s = (r, t)" by fastforce
  obtain n where ua: "hs_user_agent t = hs_user_agent s" and n: "hs_wire t = hs_wire s @ take n (prologue N url)"
      "is_ok r \<longrightarrow> length (prologue N url) \<le> n"
    using plays_open rt by (rule playsE)
  show ?thesis
  proof (cases r)
    case (Inl e)
    let ?m = "min n (length (prologue N url))"
    obtain rest where "transcript N url (mk (hs_user_agent s)) content [] = prologue N url @ rest"
      by (cases "parse_url_for_h3 N url") (auto simp: transcript_def prologue_def)
    then have "take n (prologue N url) = take ?m (transcript N url (mk (hs_user_agent s)) content [])"
      by (simp add: min_def)
    moreover have "snd (h3_request N url mk content s) = t" using Inl rt by (simp add: h3_request_def bindS_def)
    ultimately show ?thesis using n by metis
  next
    case (Inr hp)
    obtain host path where hp: "hp = (host, path)" by (cases hp)
    with Inr rt obtain port where "parse_url_for_h3 N url = Inr (host, port, path)"
      using h3_open_value by blast
    moreover have "hs_wire t = hs_wire s @ prologue N url" using n Inr by simp
    ultimately show ?thesis
      using exchange_wire[of t "hs_wire s" "prologue N url" N "mk (hs_user_agent s) host path" content]
      by (simp add: h3_request_def bindS_def rt Inr hp current_user_agent_def ua transcript_parts)
  qed
qed

lemma tokio_timeout_wire: "snd (tokio_timeout t f s) = snd (f s)"
  by (simp add: tokio_timeout_def map_errS_def split: prod.split)

section \<open>The response\<close>

text \<open>What the collection of the body comes to.\<close>

definition body_of :: "bytes list list \<Rightarrow> bytes" where
  "body_of chunks = concat (map slice_of chunks)"

lemma read_body_exact:
  "length body \<le> MAX_RESPONSE_BYTES \<Longrightarrow> fst (read_body cs fin body s) =
     (if length body + length (body_of cs) > MAX_RESPONSE_BYTES then Inl (Refused body_too_large)
      else case fin of Done _ \<Rightarrow> Inr (body @ body_of cs)
         | Failed e \<Rightarrow> Inl (Refused (FNetwork (''Failed to read body: '' @ e))) | Late \<Rightarrow> Inl Elapsed)"
proof (induction cs arbitrary: body)
  case Nil
  then show ?case by (cases fin) (simp_all add: body_of_def pureS_def)
next
  case (Cons c cs)
  then show ?case by (cases fin) (auto simp: Let_def bindS_def sends_def pureS_def body_of_def)
qed

lemma fst_bindS: "fst (bindS m f s) = Inr y \<longleftrightarrow> (\<exists>x. fst (m s) = Inr x \<and> fst (f x (snd (m s))) = Inr y)"
  by (auto simp: bindS_def split: prod.split sum.split)

lemma fst_steps [simp]:
  "fst (sends e s) = Inr u" "fst (awaits what r s) = Inr x \<longleftrightarrow> r = Done x"
  "fst (attempt what q s) = Inr z \<longleftrightarrow> q = Inr z"
  by (auto simp: sends_def awaits_def attempt_def pureS_def split: reply.split)

lemma fst_pureS [simp]: "fst (pureS r s) = r"
  by (simp add: pureS_def)

text \<open>The connection to the host of \<open>url\<close> comes up, and the request is answered with \<open>resp\<close>.\<close>

definition connects :: "h3_stack \<Rightarrow> string \<Rightarrow> string \<Rightarrow> string \<Rightarrow> bool" where
  "connects N url host path \<longleftrightarrow>
     (\<exists>port addr more. parse_url_for_h3 N url = Inr (host, port, path)
        \<and> st_resolve N (host_port host port) = Done (addr # more) \<and> st_endpoint N = Inr ()
        \<and> st_connect N addr host = Inr () \<and> st_handshake N addr host = Done () \<and> st_setup N addr host = Done ())"

definition answered :: "h3_stack \<Rightarrow> http_request \<Rightarrow> bytes option \<Rightarrow> h3_response \<Rightarrow> bool" where
  "answered N req content resp \<longleftrightarrow>
     st_build N req = Inr () \<and> st_send N req = Done () \<and> (case content of Some b \<Rightarrow> st_send_body N b = Done () | None \<Rightarrow> True)
     \<and> st_finish N = Done () \<and> st_response N req content = Done resp"

lemma connects_iff: "fst (h3_open N url s) = Inr (host, path) \<longleftrightarrow> connects N url host path"
proof (cases "parse_url_for_h3 N url")
  case (Inr a)
  obtain h port p where a: "a = (h, port, p)" by (cases a)
  show ?thesis
  proof (cases "st_resolve N (host_port h port)")
    case (Done addrs)
    show ?thesis
      using Done by (cases addrs) (auto simp: h3_open_def connects_def Inr a fst_bindS simp del: bindS_pure)
  qed (auto simp: h3_open_def connects_def Inr a fst_bindS simp del: bindS_pure)
qed (simp add: h3_open_def connects_def)

lemma answered_iff: "fst (h3_send N req content s) = Inr resp \<longleftrightarrow> answered N req content resp"
  by (cases content) (auto simp: h3_send_def answered_def fst_bindS simp del: bindS_pure)

lemma delivered_iff:
  "fst (h3_receive N resp s) = Inr txt \<longleftrightarrow> rs_end resp = Done ()
     \<and> length (body_of (rs_chunks resp)) \<le> MAX_RESPONSE_BYTES \<and> utf8_ok (map unat (body_of (rs_chunks resp)))
     \<and> is_success (rs_status resp) \<and> txt = string_of_bytes (body_of (rs_chunks resp))"
proof -
  let ?all = "body_of (rs_chunks resp)"
  have "fst (h3_receive N resp s) = Inr txt \<longleftrightarrow>
      (\<exists>b. fst (read_body (rs_chunks resp) (rs_end resp) [] s) = Inr b \<and> response_text N resp b = Inr txt)"
    by (simp add: h3_receive_def fst_bindS)
  also have "\<dots> \<longleftrightarrow> rs_end resp = Done () \<and> length ?all \<le> MAX_RESPONSE_BYTES \<and> response_text N resp ?all = Inr txt"
    by (cases "rs_end resp") (auto simp: read_body_exact)
  finally show ?thesis by (auto simp: response_text_def)
qed

lemma request_iff:
  "fst (h3_request N url mk content s) = Inr txt \<longleftrightarrow>
     (\<exists>host path resp. connects N url host path \<and> answered N (mk (hs_user_agent s) host path) content resp
        \<and> fst (h3_receive N resp s) = Inr txt)"
proof -
  have "hs_user_agent (snd (h3_open N url s)) = hs_user_agent s"
    using plays_open[of N url] by (simp add: plays_def)
  then have "fst (h3_exchange N (mk (hs_user_agent (snd (h3_open N url s))) host path) content t) = Inr txt
      \<longleftrightarrow> (\<exists>resp. answered N (mk (hs_user_agent s) host path) content resp \<and> fst (h3_receive N resp s) = Inr txt)"
    for host path t
    by (simp add: h3_exchange_def fst_bindS answered_iff delivered_iff)
  then show ?thesis
    by (auto simp: h3_request_def fst_bindS connects_iff current_user_agent_def)
qed

lemma tokio_timeout_ok: "fst (tokio_timeout t f s) = Inr x \<longleftrightarrow> fst (f s) = Inr x"
  by (simp add: tokio_timeout_def map_errS_def split: prod.split)

section \<open>Properties\<close>

text \<open>A request leaves the device only towards the host of its own URL, and only when the
  URL is an https one with a host: whatever the network answers and whenever the time limit
  strikes, what a POST or a GET sends is, in order and from the front, the lookup of the
  host with its port, the connection to the first address found under the name of that host,
  one request for the path of the URL with the given headers, the body of a POST, and the
  closing of the connection. The API key is in the header of that request and nowhere else,
  and no request is ever sent twice.\<close>

theorem http_confined:
  "(\<exists>n reason. hs_wire (snd (post_json_with_api_key N url b key t s)) = hs_wire s @ take n
      (transcript N url (\<lambda>host path. post_request (hs_user_agent s) host path b key) (Some (bytes_of_string b)) reason))
   \<and> (\<exists>n reason. hs_wire (snd (get_with_headers N url t key origin s)) = hs_wire s @ take n
      (transcript N url (\<lambda>host path. get_request (hs_user_agent s) host path key origin) None reason))
   \<and> (parse_url_for_h3 N url = Inr (host, port, path) \<longleftrightarrow>
      (\<exists>u. st_url N url = Inr u \<and> up_scheme u = ''https'' \<and> up_host u = Some host \<and> host \<noteq> []
        \<and> port = (case up_port u of Some p \<Rightarrow> p | None \<Rightarrow> 443)
        \<and> path = up_path u @ (case up_query u of Some q \<Rightarrow> CHR ''?'' # q | None \<Rightarrow> [])))"
  using request_wire[of N url "\<lambda>ua host path. post_request ua host path b key" "Some (bytes_of_string b)" s]
    request_wire[of N url "\<lambda>ua host path. get_request ua host path key origin" None s]
  by (auto simp: post_json_with_api_key_def get_with_headers_def tokio_timeout_wire inner_requests
      parse_url_for_h3_def bindR_Inr_iff split: if_splits)

text \<open>C28: A POST and a GET return a text exactly when the connection to the host of the URL comes
  up, the request is answered with a status from 200 to 299, the body ends in time with at
  most 2 MiB in valid UTF-8, and the text is that body, taken as the first contiguous part
  of each chunk that arrives.\<close>

theorem http_success_exact:
  "(fst (post_json_with_api_key N url b key t s) = Inr txt \<longleftrightarrow>
     (\<exists>host path resp. connects N url host path
        \<and> answered N (post_request (hs_user_agent s) host path b key) (Some (bytes_of_string b)) resp
        \<and> rs_end resp = Done () \<and> length (body_of (rs_chunks resp)) \<le> 2 * 1024 * 1024
        \<and> utf8_ok (map unat (body_of (rs_chunks resp))) \<and> 200 \<le> rs_status resp \<and> rs_status resp < 300
        \<and> txt = string_of_bytes (body_of (rs_chunks resp))))
   \<and> (fst (get_with_headers N url t key origin s) = Inr txt \<longleftrightarrow>
     (\<exists>host path resp. connects N url host path
        \<and> answered N (get_request (hs_user_agent s) host path key origin) None resp
        \<and> rs_end resp = Done () \<and> length (body_of (rs_chunks resp)) \<le> 2 * 1024 * 1024
        \<and> utf8_ok (map unat (body_of (rs_chunks resp))) \<and> 200 \<le> rs_status resp \<and> rs_status resp < 300
        \<and> txt = string_of_bytes (body_of (rs_chunks resp))))"
  by (simp add: post_json_with_api_key_def get_with_headers_def tokio_timeout_ok inner_requests request_iff
      delivered_iff MAX_RESPONSE_BYTES_def is_success_def)

end
