(* ===== verification/Dates.thy ===== *)
theory Dates
  imports Credential
begin

text \<open>
  The date helpers (\<open>core/src/utils.rs\<close> and the date functions of \<open>core/src/issuance.rs\<close>): day
  numbers, the cutoff day of an age (the age check itself is
  \<open>validate_age\<close> of \<open>Credential\<close>). The calendar is the \<open>chrono\<close> crate, a
  parameter with the laws its documentation states; the proleptic Gregorian calendar is the
  instance the witnesses use. Dates are ordered by year, month and day, as \<open>NaiveDate\<close> is.
\<close>

section \<open>Dates\<close>

datatype date = Date (year: int) (month: nat) (day: nat)

lemma date_eq_iff: "a = b \<longleftrightarrow> year a = year b \<and> month a = month b \<and> day a = day b"
  by (cases a; cases b) auto

instantiation date :: linorder
begin

definition less_date :: "date \<Rightarrow> date \<Rightarrow> bool" where
  "less_date a b \<longleftrightarrow> year a < year b \<or> year a = year b \<and> (month a < month b \<or> month a = month b \<and> day a < day b)"

definition less_eq_date :: "date \<Rightarrow> date \<Rightarrow> bool" where
  "less_eq_date a b \<longleftrightarrow> a = b \<or> a < (b :: date)"

instance
  by standard (auto simp: less_eq_date_def less_date_def date_eq_iff)

end

lemma less_Date [simp]:
  "Date y m d < Date y' m' d' \<longleftrightarrow> y < y' \<or> y = y' \<and> (m < m' \<or> m = m' \<and> d < d')"
  by (simp add: less_date_def)

lemma less_eq_Date [simp]:
  "Date y m d \<le> Date y' m' d' \<longleftrightarrow> y < y' \<or> y = y' \<and> (m < m' \<or> m = m' \<and> d \<le> d')"
  by (auto simp: less_eq_date_def)

section \<open>The calendar\<close>

text \<open>
  \<open>num_days_from_ce\<close>, \<open>from_num_days_from_ce_opt\<close>, \<open>with_year\<close>, \<open>from_ymd_opt\<close>, \<open>parse_from_str\<close> and
  \<open>format\<close> with the pattern \<open>%Y-%m-%d\<close>.
\<close>

record calendar =
  cal_days :: "date \<Rightarrow> int"
  cal_of_days :: "int \<Rightarrow> date option"
  cal_with_year :: "date \<Rightarrow> int \<Rightarrow> date option"
  cal_of_ymd :: "int \<Rightarrow> nat \<Rightarrow> nat \<Rightarrow> date option"
  cal_parse :: "string \<Rightarrow> string + date"
  cal_format :: "date \<Rightarrow> string"

section \<open>Day numbers\<close>

definition UNIX_EPOCH_OFFSET_DAYS :: int where "UNIX_EPOCH_OFFSET_DAYS = 719163"

definition days_since_epoch :: "calendar \<Rightarrow> date \<Rightarrow> u64" where
  "days_since_epoch C d = of_int (max (cal_days C d - UNIX_EPOCH_OFFSET_DAYS) 0)"

definition fits :: "nat \<Rightarrow> int \<Rightarrow> bool" where
  "fits w i \<longleftrightarrow> - (2 ^ (w - 1)) \<le> i \<and> i < 2 ^ (w - 1)"

definition date_from_days :: "calendar \<Rightarrow> u64 \<Rightarrow> date option" where
  "date_from_days C days =
     (if \<not> fits 64 (uint days) then None
      else let days_from_ce = UNIX_EPOCH_OFFSET_DAYS + uint days
           in if \<not> fits 64 days_from_ce then None
              else if \<not> fits 32 days_from_ce then None
              else cal_of_days C days_from_ce)"

definition to_i32 :: "int \<Rightarrow> i32 option" where
  "to_i32 i = (if fits 32 i then Some (of_int i) else None)"

section \<open>The cutoff of an age\<close>

definition range_error :: wallet_error where
  "range_error = InvalidInput ''cutoff year out of representable range''"

text \<open>\<open>today\<close> is the reading of the clock. \<open>with_year\<close>, or February 28 where it has no such day.\<close>

definition cutoff_date :: "calendar \<Rightarrow> date \<Rightarrow> int \<Rightarrow> wallet_error + date" where
  "cutoff_date C today target_year =
     (case cal_with_year C today target_year of
        Some d \<Rightarrow> Inr d
      | None \<Rightarrow> ok_or range_error (cal_of_ymd C target_year 2 28))"

definition calculate_cutoff_days :: "calendar \<Rightarrow> date \<Rightarrow> u32 \<Rightarrow> wallet_error + i32" where
  "calculate_cutoff_days C today min_age_years =
     (if min_age_years > 200 then Inl (InvalidInput ''min_age_years exceeds maximum of 200'')
      else bindR (ok_or (InvalidInput ''min_age_years exceeds i32 range'') (to_i32 (uint min_age_years))) (\<lambda>age_i32.
           bindR (ok_or range_error (to_i32 (year today - sint age_i32))) (\<lambda>target_year.
           bindR (cutoff_date C today (sint target_year)) (\<lambda>d.
             ok_or (InvalidInput ''cutoff days exceeds i32 range'')
               (to_i32 (cal_days C d - UNIX_EPOCH_OFFSET_DAYS))))))"

definition is_expired :: "u64 \<Rightarrow> u64 \<Rightarrow> bool" where
  "is_expired now exp_timestamp \<longleftrightarrow> now > exp_timestamp"

section \<open>Dates of birth as text\<close>

definition epoch_error :: wallet_error where
  "epoch_error = InvalidInput ''Failed to create epoch date''"

definition parse_dob_iso :: "calendar \<Rightarrow> string \<Rightarrow> wallet_error + i32" where
  "parse_dob_iso C dob_iso =
     bindR (map_err (\<lambda>e. InvalidInput (''Invalid date format (expected YYYY-MM-DD): '' @ e)) (cal_parse C dob_iso)) (\<lambda>dob.
     bindR (ok_or epoch_error (cal_of_ymd C 1970 1 1)) (\<lambda>epoch.
       let days = cal_days C dob - cal_days C epoch
       in ok_or (InvalidInput (''DOB days ('' @ show_int days @
            '') exceeds i32 range'')) (to_i32 days)))"

text \<open>\<open>checked_add_signed\<close> moves by the number of days.\<close>

definition days_to_iso :: "calendar \<Rightarrow> i32 \<Rightarrow> wallet_error + string" where
  "days_to_iso C days =
     bindR (ok_or epoch_error (cal_of_ymd C 1970 1 1)) (\<lambda>epoch.
     bindR (ok_or (InvalidInput (''Days value ('' @ show_int (sint days) @
              '') out of calendar range'')) (cal_of_days C (cal_days C epoch + sint days))) (\<lambda>d.
       Inr (cal_format C d)))"

section \<open>What the calendar promises\<close>

text \<open>
  \<open>cal_of_ymd\<close> gives exactly the dates that exist; a year is in range when it has a February 28;
  the day numbers follow the order of dates, start with 1970-01-01 at 719163 and stay within
  100 million days; only February 29 can be missing in another year.
\<close>

definition exists_date :: "calendar \<Rightarrow> date \<Rightarrow> bool" where
  "exists_date C d \<longleftrightarrow> cal_of_ymd C (year d) (month d) (day d) = Some d"

definition has_year :: "calendar \<Rightarrow> int \<Rightarrow> bool" where
  "has_year C y \<longleftrightarrow> exists_date C (Date y 2 28)"

definition calendar_ok :: "calendar \<Rightarrow> bool" where
  "calendar_ok C \<longleftrightarrow>
     (\<forall>y m d e. cal_of_ymd C y m d = Some e \<longrightarrow> e = Date y m d) \<and>
     (\<forall>d y. exists_date C d \<longrightarrow> cal_with_year C d y = cal_of_ymd C y (month d) (day d)) \<and>
     (\<forall>a b. exists_date C a \<longrightarrow> exists_date C b \<longrightarrow> a < b \<longrightarrow> cal_days C a < cal_days C b) \<and>
     (\<forall>d. exists_date C d \<longrightarrow> \<bar>cal_days C d\<bar> < 100000000 \<and> \<bar>year d\<bar> < 300000 \<and> has_year C (year d)) \<and>
     (\<forall>d y. exists_date C d \<longrightarrow> has_year C y \<longrightarrow> \<not> (month d = 2 \<and> day d = 29) \<longrightarrow> exists_date C (Date y (month d) (day d))) \<and>
     (\<forall>y k. exists_date C (Date y 2 k) \<longrightarrow> k \<le> 29) \<and>
     (\<forall>n d. cal_of_days C n = Some d \<longleftrightarrow> exists_date C d \<and> cal_days C d = n) \<and>
     exists_date C (Date 1970 1 1) \<and> cal_days C (Date 1970 1 1) = UNIX_EPOCH_OFFSET_DAYS"

lemmas calendar_law =
  calendar_ok_def[THEN iffD1, THEN conjunct1, rule_format]
  calendar_ok_def[THEN iffD1, THEN conjunct2, THEN conjunct1, rule_format]
  calendar_ok_def[THEN iffD1, THEN conjunct2, THEN conjunct2, THEN conjunct1, rule_format]

lemma calendar_facts:
  assumes "calendar_ok C"
  shows cal_of_ymd_date: "cal_of_ymd C y m k = Some e \<Longrightarrow> e = Date y m k"
    and cal_with_year_same: "exists_date C d \<Longrightarrow> cal_with_year C d y = cal_of_ymd C y (month d) (day d)"
    and cal_days_mono: "exists_date C a \<Longrightarrow> exists_date C b \<Longrightarrow> a < b \<Longrightarrow> cal_days C a < cal_days C b"
    and cal_range: "exists_date C d \<Longrightarrow> \<bar>cal_days C d\<bar> < 100000000 \<and> \<bar>year d\<bar> < 300000 \<and> has_year C (year d)"
    and cal_leap_only: "exists_date C d \<Longrightarrow> has_year C y \<Longrightarrow> \<not> (month d = 2 \<and> day d = 29) \<Longrightarrow>
      exists_date C (Date y (month d) (day d))"
    and cal_february: "exists_date C (Date y 2 k) \<Longrightarrow> k \<le> 29"
    and cal_of_days_iff: "cal_of_days C n = Some d \<longleftrightarrow> exists_date C d \<and> cal_days C d = n"
    and cal_epoch: "exists_date C (Date 1970 1 1)" "cal_days C (Date 1970 1 1) = UNIX_EPOCH_OFFSET_DAYS"
  using assms unfolding calendar_ok_def by blast+

lemma exists_Date: "exists_date C (Date y m k) \<longleftrightarrow> cal_of_ymd C y m k = Some (Date y m k)"
  by (simp add: exists_date_def)

lemma cal_days_le:
  assumes "calendar_ok C" "exists_date C a" "exists_date C b"
  shows "cal_days C a \<le> cal_days C b \<longleftrightarrow> a \<le> b"
  using cal_days_mono[OF assms(1) assms(2,3)] cal_days_mono[OF assms(1) assms(3,2)]
  by (cases a b rule: linorder_cases) auto

lemma to_i32_fits: "- (2 ^ 31) \<le> i \<Longrightarrow> i < 2 ^ 31 \<Longrightarrow> to_i32 i = Some (of_int i) \<and> sint (of_int i :: i32) = i"
  by (simp add: to_i32_def fits_def signed_of_int signed_take_bit_int_eq_self)

text \<open>The day number of a date, as the credential carries it.\<close>

definition dob_day :: "calendar \<Rightarrow> date \<Rightarrow> i32" where
  "dob_day C d = of_int (cal_days C d - UNIX_EPOCH_OFFSET_DAYS)"

lemma dob_day_sint:
  assumes "calendar_ok C" "exists_date C d"
  shows "to_i32 (cal_days C d - UNIX_EPOCH_OFFSET_DAYS) = Some (dob_day C d)"
    and "sint (dob_day C d) = cal_days C d - UNIX_EPOCH_OFFSET_DAYS"
  using cal_range[OF assms] to_i32_fits[of "cal_days C d - UNIX_EPOCH_OFFSET_DAYS"]
  by (auto simp: dob_day_def UNIX_EPOCH_OFFSET_DAYS_def)

lemma validate_age_days:
  assumes "calendar_ok C" "exists_date C a" "exists_date C b"
  shows "validate_age (dob_day C a) (dob_day C b) False \<longleftrightarrow> a \<le> b"
    and "validate_age (dob_day C a) (dob_day C b) True \<longleftrightarrow> b \<le> a"
  using cal_days_le[OF assms] cal_days_le[OF assms(1,3,2)]
  by (simp_all add: validate_age_def word_sle_eq dob_day_sint[OF assms(1,2)] dob_day_sint[OF assms(1,3)])

section \<open>The cutoff day\<close>

text \<open>The anniversary of \<open>today\<close> in the year \<open>y\<close>, or the February 28 that stands in for it.\<close>

definition stands_in :: "calendar \<Rightarrow> date \<Rightarrow> int \<Rightarrow> date" where
  "stands_in C today y =
     (let d = Date y (month today) (day today) in if exists_date C d then d else Date y 2 28)"

lemma cutoff_date_value:
  assumes "calendar_ok C" "exists_date C today" "has_year C y"
  shows "cutoff_date C today y = Inr (stands_in C today y) \<and> exists_date C (stands_in C today y)"
proof (cases "exists_date C (Date y (month today) (day today))")
  case True
  then show ?thesis
    using cal_with_year_same[OF assms(1,2), of y] by (simp add: cutoff_date_def stands_in_def exists_Date)
next
  case False
  have "cal_with_year C today y = None"
    using False cal_with_year_same[OF assms(1,2), of y] cal_of_ymd_date[OF assms(1), of y "month today" "day today"]
    by (cases "cal_of_ymd C y (month today) (day today)") (auto simp: exists_Date)
  with False assms(3) show ?thesis
    by (simp add: cutoff_date_def stands_in_def has_year_def exists_Date)
qed

lemma cutoff_value:
  assumes "calendar_ok C" "exists_date C today" "age \<le> 200" "has_year C (year today - uint age)"
  shows "calculate_cutoff_days C today age = Inr (dob_day C (stands_in C today (year today - uint age)))"
proof -
  have a: "0 \<le> uint age" "uint age \<le> 200" using assms(3) by (simp_all add: word_le_def)
  have y: "\<bar>year today\<bar> < 300000" using cal_range[OF assms(1,2)] by simp
  note cut = cutoff_date_value[OF assms(1,2,4)]
  define ty where "ty = year today - uint age"
  have 1: "to_i32 (uint age) = Some age" "sint age = uint age"
    using to_i32_fits[of "uint age"] a by simp_all
  have 2: "to_i32 ty = Some (of_int ty)" "sint (of_int ty :: i32) = ty"
  proof -
    have "- 2147483648 \<le> ty" "ty < 2147483648" using a y unfolding ty_def by linarith+
    with to_i32_fits[of ty] show "to_i32 ty = Some (of_int ty)" "sint (of_int ty :: i32) = ty" by simp_all
  qed
  note 3 = dob_day_sint(1)[OF assms(1) cut[THEN conjunct2], folded ty_def]
  show ?thesis
    using assms(3) 1 2 3 cut[THEN conjunct1] unfolding calculate_cutoff_days_def ty_def[symmetric]
    by (simp add: ok_or_def not_less flip: ty_def)
qed

end
