(* ===== verification/Entry_Points.thy ===== *)
theory Entry_Points
  imports Http_Client Wallet_Session Dates
begin

text \<open>
  The functions the library exports beside the wallet object (\<open>ffi/src/lib.rs\<close>,
  \<open>ffi/src/verify.rs\<close>): the client's side of issuance, the prover, deep links, the user agent,
  and the runtime they block on. \<open>issuer_requests_confined\<close> says where the requests of the issuance
  functions go and that none leaves before the authoriser is validated.
\<close>

section \<open>Messages\<close>

record start_request =
  sr_actor :: string
  sr_authorizer :: authorizer
  sr_schema :: "string option"
  sr_validity_days :: "u32 option"
  sr_kid :: "string option"

record start_response =
  so_session_id :: string
  so_kid :: string
  so_schema :: string
  so_iat :: u64
  so_exp :: u64
  so_expires_at :: "64 word"

record challenge_response =
  co_challenge_id :: string
  co_challenge :: string
  co_expires_at :: "64 word"

text \<open>A member that is left out when its value is absent (\<open>skip_serializing_if\<close>).\<close>

definition member_opt :: "string \<Rightarrow> ('a \<Rightarrow> json) \<Rightarrow> 'a option \<Rightarrow> (string \<times> json) list" where
  "member_opt k f v = (case v of Some x \<Rightarrow> [(k, f x)] | None \<Rightarrow> [])"

definition authorizer_json :: "authorizer \<Rightarrow> json" where
  "authorizer_json a =
     JObject ([(''format'', JString (au_format a)), (''keyId'', JString (au_key_id a))]
       @ member_opt ''challengeId'' JString (au_challenge_id a)
       @ [(''timestamp'', JNumber (uint (au_timestamp a))), (''hmac'', JString (au_hmac a)),
          (''nonce'', JString (au_nonce a))])"

definition start_request_json :: "start_request \<Rightarrow> json" where
  "start_request_json r =
     JObject ([(''actor'', JString (sr_actor r)), (''authorizer'', authorizer_json (sr_authorizer r))]
       @ member_opt ''schema'' JString (sr_schema r)
       @ member_opt ''validity_days'' (\<lambda>n. JNumber (uint n)) (sr_validity_days r)
       @ member_opt ''kid'' JString (sr_kid r))"

definition start_response_json :: "start_response \<Rightarrow> json" where
  "start_response_json r =
     JObject [(''session_id'', JString (so_session_id r)), (''kid'', JString (so_kid r)),
       (''schema'', JString (so_schema r)), (''iat'', JNumber (uint (so_iat r))),
       (''exp'', JNumber (uint (so_exp r))), (''expires_at'', JNumber (sint (so_expires_at r)))]"

definition challenge_response_json :: "challenge_response \<Rightarrow> json" where
  "challenge_response_json r =
     JObject [(''challenge_id'', JString (co_challenge_id r)), (''challenge'', JString (co_challenge r)),
       (''expires_at'', JNumber (sint (co_expires_at r)))]"

record app_info =
  ai_version :: string
  ai_build_number :: string
  ai_platform :: string
  ai_device_model :: "string option"
  ai_os_version :: "string option"

section \<open>Surroundings\<close>

text \<open>
  \<open>ee_show\<close> and \<open>ee_print\<close> are the display of a JSON value and \<open>serde_json::to_string\<close>; the
  parsers are serde at the types of the answers. \<open>ee_mobile\<close> tells Android and iOS from a
  desktop, \<open>ee_hw_threads\<close> is the parallelism the system reports.
\<close>

record entry_env =
  ee_wallet :: wallet_env
  ee_stack :: h3_stack
  ee_link :: link_ext
  ee_calendar :: calendar
  ee_show :: "json \<Rightarrow> string"
  ee_print :: "json \<Rightarrow> string + string"
  ee_print_header :: "header \<Rightarrow> string + string"
  ee_parse_anchor :: "string \<Rightarrow> string + trust_anchor"
  ee_parse_authorizer :: "string \<Rightarrow> string + authorizer"
  ee_parse_challenge :: "string \<Rightarrow> string + challenge_response"
  ee_parse_start :: "string \<Rightarrow> string + start_response"
  ee_parse_signed :: "string \<Rightarrow> string + header"
  ee_parse_blind :: "string \<Rightarrow> string + header"
  ee_mobile :: bool
  ee_hw_threads :: "nat option"
  ee_build_runtime :: "nat \<Rightarrow> string + unit"

record entry_state =
  es_runtime :: "nat option"
  es_http :: http_state

section \<open>Runtime\<close>

definition max_blocking_threads :: "entry_env \<Rightarrow> nat" where
  "max_blocking_threads E =
     min (if ee_mobile E then 2 else 4) (case ee_hw_threads E of Some n \<Rightarrow> n | None \<Rightarrow> 2)"

text \<open>\<open>get_or_try_init\<close>: the runtime is built once, and a failed build is tried again.\<close>

definition tokio_rt :: "entry_env \<Rightarrow> (entry_state, ffi_error, nat) op" where
  "tokio_rt E s =
     (case es_runtime s of
        Some n \<Rightarrow> (Inr n, s)
      | None \<Rightarrow>
          (case ee_build_runtime E (max_blocking_threads E) of
             Inl e \<Rightarrow> (Inl (FGeneric (''Failed to initialise Tokio runtime: '' @ e)), s)
           | Inr _ \<Rightarrow> (Inr (max_blocking_threads E), s\<lparr>es_runtime := Some (max_blocking_threads E)\<rparr>)))"

definition on_http :: "(http_state, ffi_error, 'a) op \<Rightarrow> (entry_state, ffi_error, 'a) op" where
  "on_http f s = (case f (es_http s) of (r, h) \<Rightarrow> (r, s\<lparr>es_http := h\<rparr>))"

definition network_error :: "ffi_error \<Rightarrow> ffi_error" where
  "network_error e = FNetwork (show_ffi_error e)"

definition validate_base_url :: "entry_env \<Rightarrow> string \<Rightarrow> ffi_error + string" where
  "validate_base_url E base_url =
     bindR (map_err (\<lambda>e. FInvalidFormat (''Invalid base URL: '' @ e)) (st_url (ee_stack E) base_url)) (\<lambda>u.
     if up_scheme u \<noteq> ''https'' then Inl (FInvalidFormat ''Base URL must use HTTPS'')
     else if (case up_host u of None \<Rightarrow> True | Some h \<Rightarrow> h = []) then Inl (FInvalidFormat ''Base URL has no host'')
     else Inr (trim_end_slashes (up_text u)))"

section \<open>Commitment and finalisation\<close>

text \<open>\<open>str::parse::<i32>\<close>: an optional sign, at least one digit, no overflow.\<close>

definition parse_i32 :: "string \<Rightarrow> i32 option" where
  "parse_i32 s =
     (let d = (case s of c # cs \<Rightarrow> if c = CHR ''+'' \<or> c = CHR ''-'' then cs else s | [] \<Rightarrow> s);
          n = (if s \<noteq> [] \<and> hd s = CHR ''-'' then - int (read_nat d) else int (read_nat d))
      in if d \<noteq> [] \<and> list_all is_digit d then to_i32 n else None)"

definition parse_dob :: "entry_env \<Rightarrow> string \<Rightarrow> ffi_error + i32" where
  "parse_dob E dob =
     (if CHR ''-'' \<in> set dob
      then map_err (\<lambda>e. FInvalidFormat (show_wallet_error e)) (parse_dob_iso (ee_calendar E) dob)
      else ok_or (FInvalidFormat ''Invalid DOB format - expected YYYY-MM-DD or numeric days'') (parse_i32 dob))"

definition commitment_json :: "externals \<Rightarrow> commitment_parts \<Rightarrow> json" where
  "commitment_json X p =
     JObject [(''dob_days'', JNumber (sint (cp_dob_days p))),
       (''r_bits'', JString (x_b64_encode X (pack_bits (cp_r_bits p)))),
       (''commitment'', JString (x_b64_encode X (cp_c_bytes p)))]"

definition sdk_issue_compute_commitment :: "entry_env \<Rightarrow> (nat \<Rightarrow> bool list) \<Rightarrow> string \<Rightarrow> ffi_error + string" where
  "sdk_issue_compute_commitment E rng dob =
     (let X = we_x (ee_wallet E)
      in bindR (parse_dob E dob) (\<lambda>dob_days.
         bindR (map_err (\<lambda>e. FGeneric (show_wallet_error e)) (compute_commitment X rng dob_days)) (\<lambda>parts.
         Inr (ee_show E (commitment_json X parts)))))"

definition sdk_issue_finalize_credential ::
    "entry_env \<Rightarrow> string \<Rightarrow> i32 \<Rightarrow> string \<Rightarrow> string option \<Rightarrow> ffi_error + string" where
  "sdk_issue_finalize_credential E header_json dob_days r_bits_b64 anchor_json =
     (let W = ee_wallet E; X = we_x W
      in bindR (map_err FInvalidFormat (we_parse_header W header_json)) (\<lambda>h.
         bindR (ok_or (FInvalidFormat ''issuer_trust_anchor_json is required for credential finalisation'') anchor_json) (\<lambda>aj.
         bindR (map_err FInvalidFormat (ee_parse_anchor E aj)) (\<lambda>anchor.
         bindR (map_err (\<lambda>e. FInvalidFormat (show_wallet_error e)) (validate_issuer_vk h anchor)) (\<lambda>_.
         bindR (map_err FInvalidFormat (x_b64_decode X r_bits_b64)) (\<lambda>r.
         bindR (map_err (\<lambda>e. FGeneric (show_wallet_error e))
                  (finalize_credential X h dob_days (unpack_bits r R_BITS_LEN))) (\<lambda>c.
         map_err FInvalidFormat (we_print_credential W c))))))))"

text \<open>A wallet made for the call, without a storage backend; \<open>now\<close> is the reading of the clock.\<close>

definition sdk_store_finalized_credential :: "entry_env \<Rightarrow> u64 \<Rightarrow> string \<Rightarrow> ffi_error + string" where
  "sdk_store_finalized_credential E now credential_json =
     bindR (map_err FInvalidFormat (we_parse_credential (ee_wallet E) credential_json)) (\<lambda>_.
     fst (import_credential (ee_wallet E) now credential_json (wallet_new ())))"

section \<open>Calls of the issuer\<close>

definition checked_authorizer :: "entry_env \<Rightarrow> string \<Rightarrow> ffi_error + authorizer" where
  "checked_authorizer E json =
     bindR (map_err FInvalidFormat (ee_parse_authorizer E json)) (\<lambda>a.
     bindR (map_err FInvalidFormat (authorizer_validate a)) (\<lambda>_. Inr a))"

text \<open>Inside \<open>block_on\<close>: the request as text, the POST, its error as a network error.\<close>

definition post_body :: "entry_env \<Rightarrow> string \<Rightarrow> json \<Rightarrow> string option \<Rightarrow> (entry_state, ffi_error, string) op" where
  "post_body E url body api_key =
     bindS (pureS (map_err FInvalidFormat (ee_print E body))) (\<lambda>txt.
     on_http (map_errS network_error (post_json_with_api_key (ee_stack E) url txt api_key 30)))"

definition sdk_issue_get_yubikey_challenge :: "entry_env \<Rightarrow> string \<Rightarrow> string \<Rightarrow> (entry_state, ffi_error, string) op" where
  "sdk_issue_get_yubikey_challenge E base_url officer_id =
     bindS (pureS (validate_base_url E base_url)) (\<lambda>base.
     bindS (tokio_rt E) (\<lambda>_.
     bindS (post_body E (base @ ''/v1/challenge'') (JObject [(''officer_id'', JString officer_id)]) None) (\<lambda>response.
     bindS (pureS (map_err FInvalidFormat (ee_parse_challenge E response))) (\<lambda>r.
     pureS (map_err FInvalidFormat (ee_print E (challenge_response_json r)))))))"

definition sdk_issue_start_session ::
    "entry_env \<Rightarrow> string \<Rightarrow> string \<Rightarrow> string \<Rightarrow> string option \<Rightarrow> u32 option \<Rightarrow> string option \<Rightarrow> string option \<Rightarrow>
      (entry_state, ffi_error, string) op" where
  "sdk_issue_start_session E base_url actor authorizer_txt schema validity_days kid api_key =
     bindS (pureS (validate_base_url E base_url)) (\<lambda>base.
     bindS (pureS (checked_authorizer E authorizer_txt)) (\<lambda>a.
     bindS (tokio_rt E) (\<lambda>_.
     bindS (post_body E (base @ ''/v1/issuance/start'')
              (start_request_json \<lparr>sr_actor = actor, sr_authorizer = a, sr_schema = schema,
                 sr_validity_days = validity_days, sr_kid = kid\<rparr>) api_key) (\<lambda>response.
     bindS (pureS (map_err FInvalidFormat (ee_parse_start E response))) (\<lambda>r.
     pureS (map_err FInvalidFormat (ee_print E (start_response_json r))))))))"

definition sdk_issue_sign_commitment ::
    "entry_env \<Rightarrow> string \<Rightarrow> string \<Rightarrow> string \<Rightarrow> string \<Rightarrow> string option \<Rightarrow> (entry_state, ffi_error, string) op" where
  "sdk_issue_sign_commitment E base_url session_id commitment_b64 authorizer_txt api_key =
     bindS (pureS (validate_base_url E base_url)) (\<lambda>base.
     bindS (pureS (checked_authorizer E authorizer_txt)) (\<lambda>a.
     bindS (tokio_rt E) (\<lambda>_.
     bindS (post_body E (base @ ''/v1/issuance/blind'')
              (JObject [(''session_id'', JString session_id), (''commitment'', JString commitment_b64),
                 (''authorizer'', authorizer_json a)]) api_key) (\<lambda>response.
     bindS (pureS (map_err FInvalidFormat (ee_parse_signed E response))) (\<lambda>h.
     pureS (map_err FInvalidFormat (ee_print_header E h)))))))"

definition sdk_issue_blind :: "entry_env \<Rightarrow> string \<Rightarrow> string \<Rightarrow> string \<Rightarrow> (entry_state, ffi_error, string) op" where
  "sdk_issue_blind E base_url attestation_b64 r_bits_b64 =
     bindS (pureS (validate_base_url E base_url)) (\<lambda>base.
     bindS (tokio_rt E) (\<lambda>_.
     bindS (post_body E (base @ ''/v1/issuance/blind'')
              (JObject [(''attestation'', JString attestation_b64), (''r_bits'', JString r_bits_b64)]) None) (\<lambda>response.
     bindS (pureS (map_err FInvalidFormat (ee_parse_blind E response))) (\<lambda>h.
     pureS (map_err FInvalidFormat (ee_print_header E h))))))"

definition sdk_create_attestation :: "entry_env \<Rightarrow> string \<Rightarrow> i32 \<Rightarrow> string \<Rightarrow> (entry_state, ffi_error, string) op" where
  "sdk_create_attestation E base_url dob_days authorizer_txt =
     bindS (pureS (validate_base_url E base_url)) (\<lambda>base.
     bindS (pureS (checked_authorizer E authorizer_txt)) (\<lambda>a.
     bindS (tokio_rt E) (\<lambda>_.
     bindS (post_body E (base @ ''/v1/attestation/create'')
              (JObject [(''dob_days'', JNumber (sint dob_days)), (''authorizer'', authorizer_json a)]) None) (\<lambda>response.
     bindS (pureS (map_err FInvalidFormat (x_json (we_x (ee_wallet E)) response))) (\<lambda>v.
     pureS (if json_get ''attestation'' v = None then Inl (FInvalidFormat (''Response missing '' @ [CHR 0x27] @ ''attestation'' @ [CHR 0x27] @ '' field''))
            else Inr response))))))"

section \<open>User agent, prover, verification, deep links\<close>

definition sdk_set_user_agent :: "app_info \<Rightarrow> entry_state \<Rightarrow> entry_state" where
  "sdk_set_user_agent ai s =
     (let platform_info = (case ai_os_version ai of Some v \<Rightarrow> ai_platform ai @ '' '' @ v | None \<Rightarrow> ai_platform ai);
          device_info = (case ai_device_model ai of Some m \<Rightarrow> ''; '' @ m | None \<Rightarrow> [])
      in s\<lparr>es_http := set_user_agent (''ProviiWallet/'' @ ai_version ai @ '' ('' @ platform_info @ device_info @ '')'')
             (es_http s)\<rparr>)"

definition get_sdk_version :: string where "get_sdk_version = ''0.1.0''"

definition sdk_init_prover ::
    "externals \<Rightarrow> 'p prover_ext \<Rightarrow> bytes \<Rightarrow> ('p prover_globals, ffi_error, unit) op" where
  "sdk_init_prover X Q pk_bytes = map_errS (\<lambda>e. FProver (show_prover_error e)) (init_prover_with_pk_bytes X Q pk_bytes)"

definition sdk_init_prover_mmap ::
    "externals \<Rightarrow> 'p prover_ext \<Rightarrow> (string \<Rightarrow> bytes option) \<Rightarrow> string \<Rightarrow> ('p prover_globals, ffi_error, unit) op" where
  "sdk_init_prover_mmap X Q open_map pk_path =
     map_errS (\<lambda>e. FProver (show_prover_error e)) (init_prover_with_pk_mmap X Q open_map pk_path)"

definition sdk_build_verify_request ::
    "entry_env \<Rightarrow> 'p prover_run \<Rightarrow> string \<Rightarrow> string \<Rightarrow> ffi_error + string" where
  "sdk_build_verify_request E R credential_json qr_payload_json =
     (let W = ee_wallet E
      in map_err of_anyhow
          (bindR (we_parse_credential W credential_json) (\<lambda>c.
           bindR (qx_parse (we_qr W) qr_payload_json) (\<lambda>q.
           bindR (validate_field_lengths (qx_url_scheme (we_qr W)) q) (\<lambda>_.
           bindR (map_err show_prover_error (run_prover W R c q)) (\<lambda>req.
           we_print_request W req))))))"

definition sdk_parse_deeplink :: "entry_env \<Rightarrow> string \<Rightarrow> ffi_error + deeplink_action" where
  "sdk_parse_deeplink E url = map_err of_anyhow (parse_deeplink (ee_link E) url)"

end
