(* ===== verification/Entry_Properties.thy ===== *)
theory Entry_Properties
  imports Entry_Points Sample_Wallet
begin

text \<open>
  What the exported functions promise: where the requests of the issuance functions go, that a
  commitment computed on the device is finalised against the issuer's answer to it, that only a
  trusted key finalises, and that the free function that stores a credential never does.
\<close>

section \<open>Requests\<close>

text \<open>The wire after \<open>post_body\<close>: nothing new, or the front of one POST with the printed body.\<close>

definition request_sent :: "entry_env \<Rightarrow> string \<Rightarrow> json \<Rightarrow> string option \<Rightarrow> entry_state \<Rightarrow> entry_state \<Rightarrow> bool" where
  "request_sent E url body api_key s s' \<longleftrightarrow>
     (\<exists>str n reason. (ee_print E body = Inr str \<or> n = 0) \<and> hs_wire (es_http s') = hs_wire (es_http s) @ take n
        (transcript (ee_stack E) url (\<lambda>host path. post_request (hs_user_agent (es_http s)) host path str api_key)
          (Some (bytes_of_string str)) reason))"

definition quiet_http :: "(entry_state, ffi_error, 'a) op \<Rightarrow> bool" where
  "quiet_http f \<longleftrightarrow> (\<forall>s. es_http (snd (f s)) = es_http s)"

lemma quiet_pureS [simp]: "quiet_http (pureS r)"
  by (simp add: quiet_http_def pureS_def)

lemma quiet_bindS: "quiet_http f \<Longrightarrow> (\<And>x. quiet_http (g x)) \<Longrightarrow> quiet_http (bindS f g)"
  by (auto simp: quiet_http_def bindS_def split: prod.split sum.split) (metis snd_conv)+

lemma quiet_tokio_rt [simp]: "quiet_http (tokio_rt E)"
  by (simp add: quiet_http_def tokio_rt_def split: option.split sum.split)

lemma nothing_sent: "es_http s' = es_http s \<Longrightarrow> request_sent E url body key s s'"
  by (auto simp: request_sent_def intro: exI[of _ 0])

lemma post_body_sent: "request_sent E url body key s (snd (post_body E url body key s))"
proof (cases "ee_print E body")
  case (Inl e)
  then show ?thesis by (simp add: post_body_def nothing_sent pureS_def)
next
  case (Inr str)
  have "snd (post_body E url body key s)
      = s\<lparr>es_http := snd (post_json_with_api_key (ee_stack E) url str key 30 (es_http s))\<rparr>"
    by (simp add: post_body_def Inr on_http_def map_errS_def split: prod.split)
  moreover obtain n reason where
    "hs_wire (snd (post_json_with_api_key (ee_stack E) url str key 30 (es_http s))) = hs_wire (es_http s) @ take n
      (transcript (ee_stack E) url (\<lambda>host path. post_request (hs_user_agent (es_http s)) host path str key)
        (Some (bytes_of_string str)) reason)"
    using request_wire[of "ee_stack E" url "\<lambda>ua host path. post_request ua host path str key"
        "Some (bytes_of_string str)" "es_http s"]
    by (auto simp: post_json_with_api_key_def tokio_timeout_wire inner_requests)
  ultimately show ?thesis using Inr by (auto simp: request_sent_def)
qed

lemma then_quiet:
  assumes "\<And>x. quiet_http (g x)"
  shows "es_http (snd (bindS f g s)) = es_http (snd (f s))"
proof -
  obtain r t where "f s = (r, t)" by fastforce
  then show ?thesis using assms by (cases r) (simp_all add: bindS_def quiet_http_def)
qed

lemma call_sent:
  assumes "\<And>x. quiet_http (g x)"
  shows "request_sent E url body key s (snd (bindS (tokio_rt E) (\<lambda>_. bindS (post_body E url body key) g) s))"
proof -
  obtain r t where rt: "tokio_rt E s = (r, t)" by fastforce
  then have t: "es_http t = es_http s" using quiet_tokio_rt[of E] by (metis quiet_http_def snd_conv)
  show ?thesis
  proof (cases r)
    case (Inl e)
    with rt t show ?thesis by (simp add: bindS_def nothing_sent)
  next
    case (Inr n)
    have "request_sent E url body key t (snd (bindS (post_body E url body key) g t))"
      using post_body_sent[of E url body key t] then_quiet[of g "post_body E url body key" t, OF assms]
      by (simp add: request_sent_def)
    with rt t Inr show ?thesis by (simp add: bindS_def request_sent_def)
  qed
qed

lemma checked_authorizer_iff:
  "checked_authorizer E json = Inr a \<longleftrightarrow> ee_parse_authorizer E json = Inr a \<and> authorizer_validate a = Inr ()"
  by (auto simp: checked_authorizer_def bindR_Inr_iff)

text \<open>A call that first validates the base URL, and one that then validates the authoriser.\<close>

definition sent_to_base :: "entry_env \<Rightarrow> string \<Rightarrow> string \<Rightarrow> json \<Rightarrow> string option \<Rightarrow> entry_state \<Rightarrow> entry_state \<Rightarrow> bool" where
  "sent_to_base E base_url path body key s s' \<longleftrightarrow> es_http s' = es_http s \<or>
     (\<exists>b. validate_base_url E base_url = Inr b \<and> request_sent E (b @ path) body key s s')"

definition sent_authorised ::
    "entry_env \<Rightarrow> string \<Rightarrow> string \<Rightarrow> string \<Rightarrow> (authorizer \<Rightarrow> json) \<Rightarrow> string option \<Rightarrow> entry_state \<Rightarrow> entry_state \<Rightarrow> bool" where
  "sent_authorised E base_url aj path body key s s' \<longleftrightarrow> es_http s' = es_http s \<or>
     (\<exists>b a. validate_base_url E base_url = Inr b \<and> ee_parse_authorizer E aj = Inr a
        \<and> authorizer_validate a = Inr () \<and> request_sent E (b @ path) (body a) key s s')"

lemma based_call:
  assumes "\<And>b x. quiet_http (g b x)"
    and call: "call = bindS (pureS (validate_base_url E base_url)) (\<lambda>b. bindS (tokio_rt E) (\<lambda>_.
        bindS (post_body E (b @ path) body key) (g b)))"
  shows "sent_to_base E base_url path body key s (snd (call s))"
proof (cases "validate_base_url E base_url")
  case (Inr b)
  with call_sent[of "g b" E "b @ path" body key s, OF assms(1)] show ?thesis
    by (simp add: call sent_to_base_def)
qed (simp add: call pureS_def sent_to_base_def)

lemma authorised_call:
  assumes "\<And>b a x. quiet_http (g b a x)"
    and call: "call = bindS (pureS (validate_base_url E base_url)) (\<lambda>b.
      bindS (pureS (checked_authorizer E aj)) (\<lambda>a. bindS (tokio_rt E) (\<lambda>_.
        bindS (post_body E (b @ path) (body a) key) (g b a))))"
  shows "sent_authorised E base_url aj path body key s (snd (call s))"
proof (cases "validate_base_url E base_url")
  case (Inr b)
  show ?thesis
  proof (cases "checked_authorizer E aj")
    case (Inr a)
    with \<open>validate_base_url E base_url = Inr b\<close>
    have run: "call s = bindS (tokio_rt E) (\<lambda>_. bindS (post_body E (b @ path) (body a) key) (g b a)) s"
      by (simp add: call)
    from Inr have "ee_parse_authorizer E aj = Inr a" "authorizer_validate a = Inr ()"
      by (simp_all add: checked_authorizer_iff)
    with \<open>validate_base_url E base_url = Inr b\<close> call_sent[of "g b a" E "b @ path" "body a" key s, OF assms(1)]
    show ?thesis unfolding sent_authorised_def run by blast
  qed (simp add: call Inr pureS_def sent_authorised_def)
qed (simp add: call pureS_def sent_authorised_def)

section \<open>A device\<close>

definition sample_stack :: h3_stack where
  "sample_stack =
     \<lparr>st_url = (\<lambda>u. if starts_with ''https://'' u then Inr \<lparr>up_scheme = ''https'', up_host = Some ''h'', up_port = None,
         up_path = ''/'', up_query = None, up_text = u\<rparr> else Inl ''relative URL''),
      st_resolve = (\<lambda>_. Done [''1.2.3.4'']), st_endpoint = Inr (), st_connect = (\<lambda>_ _. Inr ()),
      st_handshake = (\<lambda>_ _. Done ()), st_setup = (\<lambda>_ _. Done ()), st_build = (\<lambda>_. Inr ()), st_send = (\<lambda>_. Done ()),
      st_send_body = (\<lambda>_. Done ()), st_finish = Done (), st_response = (\<lambda>_ _. Late), st_utf8_msg = (\<lambda>_. ''utf8'')\<rparr>"

definition no_calendar :: calendar where
  "no_calendar = \<lparr>cal_days = (\<lambda>_. 0), cal_of_days = (\<lambda>_. None), cal_with_year = (\<lambda>_ _. None),
     cal_of_ymd = (\<lambda>_ _ _. None), cal_parse = (\<lambda>_. Inl ''no date''), cal_format = (\<lambda>_. [])\<rparr>"

definition sample_entry :: entry_env where
  "sample_entry =
     \<lparr>ee_wallet = sample_env, ee_stack = sample_stack,
      ee_link = \<lparr>dx_url = (\<lambda>_. Inl ''no link''), dx_b64_decode = (\<lambda>s. Inr (bytes_of_string s)), dx_utf8_msg = (\<lambda>_. []),
        dx_parse_verify = (\<lambda>_. Inl []), dx_lower = (\<lambda>s. s)\<rparr>,
      ee_calendar = no_calendar, ee_show = (\<lambda>_. ''json''), ee_print = (\<lambda>_. Inr ''json''),
      ee_print_header = (\<lambda>_. Inr ''h''), ee_parse_anchor = (\<lambda>s. if s = ''a'' then Inr sample_anchor else Inl ''no anchor''),
      ee_parse_authorizer = (\<lambda>_. Inl ''no authorizer''), ee_parse_challenge = (\<lambda>_. Inl ''no challenge''),
      ee_parse_start = (\<lambda>_. Inl ''no session''), ee_parse_signed = (\<lambda>_. Inl ''no header''),
      ee_parse_blind = (\<lambda>_. Inl ''no header''), ee_mobile = True, ee_hw_threads = Some 8,
      ee_build_runtime = (\<lambda>_. Inr ())\<rparr>"

section \<open>Properties\<close>

text \<open>C9: The issuance functions send nothing but one POST each, to the given path under the base
  URL, and only after the base URL is validated as an https one with a host. The three that
  carry an officer's credentials send nothing before the authoriser parses and passes its
  checks, and what they send is the request with exactly that authoriser; the API key goes in
  the header of that one request only. Either the wire is left as it was, or it holds the
  front part of that request.\<close>

theorem issuer_requests_confined:
  "sent_to_base E base ''/v1/challenge'' (JObject [(''officer_id'', JString officer)]) None s
     (snd (sdk_issue_get_yubikey_challenge E base officer s))
   \<and> sent_authorised E base aj ''/v1/issuance/start'' (\<lambda>a. start_request_json \<lparr>sr_actor = actor, sr_authorizer = a,
       sr_schema = schema, sr_validity_days = days, sr_kid = kid\<rparr>) key s
     (snd (sdk_issue_start_session E base actor aj schema days kid key s))
   \<and> sent_authorised E base aj ''/v1/issuance/blind'' (\<lambda>a. JObject [(''session_id'', JString sid),
       (''commitment'', JString c), (''authorizer'', authorizer_json a)]) key s
     (snd (sdk_issue_sign_commitment E base sid c aj key s))
   \<and> sent_to_base E base ''/v1/issuance/blind'' (JObject [(''attestation'', JString att), (''r_bits'', JString r)]) None s
     (snd (sdk_issue_blind E base att r s))
   \<and> sent_authorised E base aj ''/v1/attestation/create'' (\<lambda>a. JObject [(''dob_days'', JNumber (sint dob)),
       (''authorizer'', authorizer_json a)]) None s
     (snd (sdk_create_attestation E base dob aj s))"
  by (intro conjI based_call authorised_call)
    (auto simp: fun_eq_iff sdk_issue_get_yubikey_challenge_def sdk_issue_start_session_def
      sdk_issue_sign_commitment_def sdk_issue_blind_def sdk_create_attestation_def intro!: quiet_bindS)

lemma unpack_packed: "length bs = n \<Longrightarrow> unpack_bits (pack_bits bs) n = bs"
proof -
  obtain pad where "concat (map byte_bits (pack_bits bs)) = bs @ pad" using concat_bits_pack by blast
  then show "length bs = n \<Longrightarrow> unpack_bits (pack_bits bs) n = bs" by (simp add: unpack_bits_concat)
qed

text \<open>C8: Issuance completes across the exported functions: the text for a date of birth yields a
  commitment whose JSON carries the packed blinding bits, and when the issuer answers with a
  header over that commitment, of version 2, with a proper validity interval, signed by a
  key of the trust anchor, then finalising that header with the date of birth and the
  blinding bits of the JSON succeeds and prints the credential with both secrets attached.\<close>

theorem sdk_issuance_completes:
  assumes "b64_roundtrip (we_x (ee_wallet E))"
    and "parse_dob E dob = Inr d" "length (rng 128) = 128"
    and "compute_commitment (we_x (ee_wallet E)) rng d = Inr p"
    and "we_parse_header (ee_wallet E) hj = Inr h" "ee_parse_anchor E aj = Inr anchor"
    and "hdr_c_bytes h = cp_c_bytes p" "hdr_v h = 2" "hdr_iat h \<noteq> 0" "hdr_iat h \<le> hdr_exp h"
    and "hdr_issuer_vk h \<in> tk_vk ` set (ta_keys anchor)"
    and "x_verify_cred (we_x (ee_wallet E)) (header_msg h) (hdr_sig_rj h) (hdr_issuer_vk h) = Inr ()"
  shows "\<exists>r. sdk_issue_compute_commitment E rng dob = Inr (ee_show E (commitment_json (we_x (ee_wallet E)) p))
    \<and> json_get ''r_bits'' (commitment_json (we_x (ee_wallet E)) p) = Some (JString r)
    \<and> json_get ''dob_days'' (commitment_json (we_x (ee_wallet E)) p) = Some (JNumber (sint d))
    \<and> sdk_issue_finalize_credential E hj d r (Some aj)
      = map_err FInvalidFormat (we_print_credential (ee_wallet E) (attach_secrets h d (rng 128)))"
proof -
  let ?X = "we_x (ee_wallet E)"
  have p: "cp_dob_days p = d" "cp_r_bits p = rng 128" "x_pedersen ?X d (rng 128) = Inr (cp_c_bytes p)"
    using assms(4) by (auto simp: compute_commitment_def Let_def R_BITS_LEN_def bindR_Inr_iff)
  have anchor: "validate_issuer_vk h anchor = Inr ()"
    using assms(11) by (auto simp: validate_issuer_vk_def list_ex_iff)
  have "finalize_credential ?X h d (rng 128) = Inr (attach_secrets h d (rng 128))"
    using assms p by (simp add: finalize_ok)
  then have "sdk_issue_finalize_credential E hj d (x_b64_encode ?X (pack_bits (rng 128))) (Some aj)
      = map_err FInvalidFormat (we_print_credential (ee_wallet E) (attach_secrets h d (rng 128)))"
    using assms(1,3,5,6) anchor
    by (simp add: sdk_issue_finalize_credential_def b64_roundtripD ok_or_def unpack_packed R_BITS_LEN_def)
  then show ?thesis
    using assms(2,4) by (simp add: sdk_issue_compute_commitment_def commitment_json_def Let_def p)
qed

lemma sdk_issuance_completes_witness:
  "\<exists>r. sdk_issue_finalize_credential sample_entry ''h'' 7 r (Some ''a'') = Inr ''c''"
proof -
  let ?E = sample_entry and ?rng = "\<lambda>n. replicate n True"
  let ?p = "\<lparr>cp_dob_days = 7, cp_r_bits = ?rng 128, cp_c_bytes = [7, 128]\<rparr>"
  note s = sample_entry_def sample_env_def toy_externals_def
  have days: "parse_dob ?E ''7'' = Inr 7"
  proof -
    have "read_nat ''7'' = 7" "list_all is_digit ''7''" by (simp_all add: read_nat_def digit_val_def is_digit_def)
    then show ?thesis by (simp add: parse_dob_def parse_i32_def to_i32_def fits_def)
  qed
  have "b64_roundtrip (we_x (ee_wallet ?E))" by (simp add: s b64_roundtrip_def)
  moreover note days
  moreover have "length (?rng 128) = 128" by simp
  moreover have "compute_commitment (we_x (ee_wallet ?E)) ?rng 7 = Inr ?p"
    by (simp add: s compute_commitment_def R_BITS_LEN_def)
  moreover have "we_parse_header (ee_wallet ?E) ''h'' = Inr sample_header" by (simp add: s)
  moreover have "ee_parse_anchor ?E ''a'' = Inr sample_anchor" by (simp add: s)
  moreover have "hdr_c_bytes sample_header = cp_c_bytes ?p" "hdr_v sample_header = 2"
    "hdr_iat sample_header \<noteq> 0" "hdr_iat sample_header \<le> hdr_exp sample_header"
    by (simp_all add: sample_header_def)
  moreover have "hdr_issuer_vk sample_header \<in> tk_vk ` set (ta_keys sample_anchor)"
    by (simp add: sample_header_def sample_anchor_def)
  moreover have "x_verify_cred (we_x (ee_wallet ?E)) (header_msg sample_header) (hdr_sig_rj sample_header)
      (hdr_issuer_vk sample_header) = Inr ()" by (simp add: s sample_header_def)
  ultimately have "\<exists>r. sdk_issue_compute_commitment ?E ?rng ''7'' = Inr (ee_show ?E (commitment_json (we_x (ee_wallet ?E)) ?p))
    \<and> json_get ''r_bits'' (commitment_json (we_x (ee_wallet ?E)) ?p) = Some (JString r)
    \<and> json_get ''dob_days'' (commitment_json (we_x (ee_wallet ?E)) ?p) = Some (JNumber (sint (7 :: i32)))
    \<and> sdk_issue_finalize_credential ?E ''h'' 7 r (Some ''a'')
      = map_err FInvalidFormat (we_print_credential (ee_wallet ?E) (attach_secrets sample_header 7 (?rng 128)))"
    by (rule sdk_issuance_completes)
  then obtain r where "sdk_issue_finalize_credential ?E ''h'' 7 r (Some ''a'')
      = map_err FInvalidFormat (we_print_credential (ee_wallet ?E) (attach_secrets sample_header 7 (?rng 128)))"
    by blast
  then show ?thesis by (simp add: s) blast
qed

text \<open>The exported finalisation accepts a header exactly when a trust anchor is given and holds
  the header's verification key, the header has version 2 and a proper validity interval,
  the blinding bits decode to at least 16 bytes of which the first 128 bits and the date of
  birth give the signed commitment, and the issuer's signature verifies; no anchor, no
  credential.\<close>

theorem sdk_finalize_exact:
  "sdk_issue_finalize_credential E hj d r aj = Inr out \<longleftrightarrow>
     (\<exists>h a anchor rb. we_parse_header (ee_wallet E) hj = Inr h \<and> aj = Some a \<and> ee_parse_anchor E a = Inr anchor
        \<and> hdr_issuer_vk h \<in> tk_vk ` set (ta_keys anchor)
        \<and> x_b64_decode (we_x (ee_wallet E)) r = Inr rb \<and> 16 \<le> length rb
        \<and> hdr_v h = 2 \<and> hdr_iat h \<noteq> 0 \<and> hdr_iat h \<le> hdr_exp h
        \<and> x_pedersen (we_x (ee_wallet E)) d (unpack_bits rb 128) = Inr (hdr_c_bytes h)
        \<and> x_verify_cred (we_x (ee_wallet E)) (header_msg h) (hdr_sig_rj h) (hdr_issuer_vk h) = Inr ()
        \<and> we_print_credential (ee_wallet E) (attach_secrets h d (unpack_bits rb 128)) = Inr out)"
proof -
  have len: "length (unpack_bits rb 128) = 128 \<longleftrightarrow> 16 \<le> length rb" for rb
    by (auto simp: unpack_bits_concat length_concat_bits)
  have vk: "validate_issuer_vk h a = Inr u \<longleftrightarrow> hdr_issuer_vk h \<in> tk_vk ` set (ta_keys a)" for h a u
    by (auto simp: validate_issuer_vk_def list_ex_iff)
  show ?thesis
    by (auto simp: sdk_issue_finalize_credential_def Let_def bindR_Inr_iff finalize_ok vk len R_BITS_LEN_def)
qed

text \<open>The exported function that stores a finalised credential never stores one: the wallet it
  makes has no storage backend, so a well-formed credential is answered with that error.\<close>

lemma throwaway_wallet_never_stores:
  "sdk_store_finalized_credential E now json =
     (case we_parse_credential (ee_wallet E) json of
        Inl e \<Rightarrow> Inl (FInvalidFormat e) | Inr _ \<Rightarrow> Inl (FStorage ''Storage not initialised''))"
  by (auto simp: sdk_store_finalized_credential_def import_credential_def import_credential_internal_def
      on_storage_def store_credential_with_slot_def wallet_new_def bindS_def pureS_def Let_def split: sum.split)

text \<open>A negative day number is not read as one: any text with a minus sign must be a date.\<close>

lemma signed_days_refused:
  "CHR ''-'' \<in> set dob \<Longrightarrow> cal_parse (ee_calendar E) dob = Inl e \<Longrightarrow>
   \<exists>m. sdk_issue_compute_commitment E rng dob = Inl (FInvalidFormat m)"
  by (simp add: sdk_issue_compute_commitment_def parse_dob_def parse_dob_iso_def)

text \<open>The runtime is built once, with at most 2 blocking threads on a phone and 4 elsewhere.\<close>

lemma runtime_built_once:
  assumes "tokio_rt E s = (Inr n, t)"
  shows "tokio_rt E' t = (Inr n, t)" "es_runtime s = None \<longrightarrow> n \<le> (if ee_mobile E then 2 else 4)"
  using assms by (auto simp: tokio_rt_def max_blocking_threads_def split: option.splits sum.splits)

end
