(* ===== verification/Diagnostics.thy ===== *)
theory Diagnostics
  imports Entry_Points
begin

text \<open>
  The operations of the wallet that report on its state (\<open>ffi/src/wallet/proof.rs\<close>,
  \<open>credentials.rs\<close>, \<open>setup.rs\<close>), the biometric stub (\<open>ffi/src/biometric.rs\<close>), the functions that
  classify parsed QR payloads (\<open>ffi/src/qr.rs\<close>) and the requests the wallet makes, run on the
  HTTP client. What a diagnosis can reveal of the secrets is stated in
  \<open>diagnosis_hides_secrets\<close>, where the verifier's API key goes in \<open>verifier_key_confined\<close>.
\<close>

section \<open>Reports\<close>

definition tick :: string where "tick = [CHR 0xE2, CHR 0x9C, CHR 0x93]"
definition cross :: string where "cross = [CHR 0xE2, CHR 0x9C, CHR 0x97]"

text \<open>\<open>join("\n")\<close>.\<close>

fun join_lines :: "string list \<Rightarrow> string" where
  "join_lines [] = []"
| "join_lines [l] = l"
| "join_lines (l # ls) = l @ CHR 0x0A # join_lines ls"

definition commitment_lines :: "externals \<Rightarrow> credential \<Rightarrow> i32 \<Rightarrow> bool list \<Rightarrow> string list" where
  "commitment_lines X c dob_days r_bits =
     (case x_pedersen X dob_days r_bits of
        Inr recomputed \<Rightarrow>
          (if recomputed \<noteq> cred_c_bytes c
           then [cross @ '' Commitment mismatch!'', ''  Original: '' @ hex_encode (cred_c_bytes c),
                 ''  Recomputed: '' @ hex_encode recomputed]
           else [tick @ '' Commitment matches''])
      | Inl e \<Rightarrow> [cross @ '' Commitment validation failed: '' @ e])"

definition age_line :: "i32 \<Rightarrow> qr_payload \<Rightarrow> string" where
  "age_line dob_days q =
     (let young = wants_under_age q; ok = validate_age dob_days (qr_cutoff_days q) young
      in (if ok then tick else cross) @ '' Age check: [REDACTED] '' @ (if young then ''>='' else ''<='') @ '' '' @
         show_i32 (qr_cutoff_days q) @ '' = '' @ show_bool ok)"

definition prover_lines :: "'p prover_globals \<Rightarrow> string list" where
  "prover_lines g =
     (if is_prover_initialized g
      then (tick @ '' Prover initialised'') # (case get_proving_key_fingerprint g of Some fp \<Rightarrow> [''  Fingerprint: '' @ fp] | None \<Rightarrow> [])
      else [cross @ '' Prover NOT initialised!''])"

text \<open>From the loaded secrets on: the lines of the report, or the end of it.\<close>

definition diagnose_loaded ::
    "externals \<Rightarrow> 'p prover_globals \<Rightarrow> string list \<Rightarrow> credential \<Rightarrow> cached_challenge option \<Rightarrow> ffi_error + string" where
  "diagnose_loaded X g lines c challenge =
     bindR (ok_or (FGeneric ''Challenge not found'') challenge) (\<lambda>ch.
     bindR (ok_or (FGeneric ''r_bits not loaded into credential'') (cred_r_bits c)) (\<lambda>r_bits.
     bindR (ok_or (FGeneric ''dob_days not loaded into credential'') (cred_dob_days c)) (\<lambda>dob_days.
     Inr (join_lines (lines @ commitment_lines X c dob_days r_bits @ [age_line dob_days (cc_payload ch)] @ prover_lines g)))))"

definition secrets_line :: "nat \<Rightarrow> string" where
  "secrets_line n = tick @ '' Loaded secrets: dob_days=REDACTED, r_bits_len='' @ show_nat n"

definition diagnose_secrets ::
    "externals \<Rightarrow> 'p prover_globals \<Rightarrow> credential \<Rightarrow> credential_secrets option \<Rightarrow> cached_challenge option \<Rightarrow> ffi_error + string" where
  "diagnose_secrets X g c secrets challenge =
     (case secrets of
        Some s \<Rightarrow>
          (let n = length (sec_r_bits s)
           in if n \<noteq> 128
              then Inr (join_lines [secrets_line n,
                     cross @ '' ERROR: r_bits length is '' @ show_nat n @ '', expected 128!''])
              else diagnose_loaded X g [secrets_line n]
                     (c\<lparr>cred_dob_days := Some (sec_dob_days s), cred_r_bits := Some (sec_r_bits s)\<rparr>) challenge)
      | None \<Rightarrow> diagnose_loaded X g [] c challenge)"

definition diagnose_proof_failure ::
    "wallet_env \<Rightarrow> 'p prover_globals \<Rightarrow> string \<Rightarrow> string \<Rightarrow> ('s wallet, ffi_error, string) op" where
  "diagnose_proof_failure W g cred_id challenge_id =
     bindS (on_storage of_anyhow (\<lambda>B. get_credential (we_codec W) B cred_id)) (\<lambda>oc.
     bindS (pureS (ok_or (FGeneric ''Credential not found'') oc)) (\<lambda>c.
     bindS (on_storage of_anyhow (\<lambda>B. load_credential_secrets (we_codec W) B cred_id)) (\<lambda>os w.
     (diagnose_secrets (we_x W) g c os (map_of (w_challenges w) challenge_id), w))))"

record challenge_diagnostics =
  cd_challenge_id :: string
  cd_cutoff_days :: i32
  cd_verifying_key_id :: u32
  cd_rp_challenge :: string
  cd_expires_in_seconds :: int

text \<open>\<open>duration_since\<close> is an error when the time has passed, and the whole seconds otherwise.\<close>

definition expires_in :: "nat \<Rightarrow> nat \<Rightarrow> int" where
  "expires_in now expires_at =
     (if now \<le> expires_at then min (int ((expires_at - now) div 10 ^ 9)) (2 ^ 63 - 1) else - 1)"

definition get_challenge_diagnostics ::
    "(challenge_diagnostics \<Rightarrow> string + string) \<Rightarrow> nat \<Rightarrow> string \<Rightarrow> ('s wallet, ffi_error, string) op" where
  "get_challenge_diagnostics print now challenge_id w =
     (bindR (ok_or (FGeneric ''Challenge not found'') (map_of (w_challenges w) challenge_id)) (\<lambda>ch.
      let q = cc_payload ch
      in map_err FInvalidFormat (print
           \<lparr>cd_challenge_id = qr_challenge_id q, cd_cutoff_days = qr_cutoff_days q,
            cd_verifying_key_id = qr_verifying_key_id q, cd_rp_challenge = qr_rp_challenge q,
            cd_expires_in_seconds = expires_in now (cc_expires_at ch)\<rparr>)), w)"

record diagnostic_info =
  di_sdk_version :: string
  di_app_version :: string
  di_platform :: string
  di_prover_initialized :: bool
  di_credential_count :: u32
  di_storage_available :: bool
  di_config_environment :: string
  di_last_proof_generated :: "u64 option"

text \<open>A failed listing counts as an empty one.\<close>

definition get_diagnostic_info ::
    "wallet_env \<Rightarrow> 'p prover_globals \<Rightarrow> string \<Rightarrow> string \<Rightarrow> u64 \<Rightarrow> 's wallet \<Rightarrow> diagnostic_info \<times> 's wallet" where
  "get_diagnostic_info W g app_version platform now w =
     (case on_storage FStorage (\<lambda>B. list_credentials (we_codec W) B now) w of
        (r, w') \<Rightarrow>
          (let n = length (or_else [] r)
           in (\<lparr>di_sdk_version = ''0.1.0'', di_app_version = app_version, di_platform = platform,
                di_prover_initialized = is_prover_initialized g,
                di_credential_count = (if n < 2 ^ 32 then word_of_nat n else - 1),
                di_storage_available = storage_is_available (w_backend w),
                di_config_environment = wc_environment (w_config w), di_last_proof_generated = None\<rparr>, w')))"

definition get_config :: "'s wallet \<Rightarrow> wallet_config" where
  "get_config w = w_config w"

definition wallet_verification_status :: "'s wallet \<Rightarrow> verification_status" where
  "wallet_verification_status w = sm_verification_status (w_state w)"

definition initialize_prover ::
    "externals \<Rightarrow> 'p prover_ext \<Rightarrow> bytes \<Rightarrow> ('p prover_globals, ffi_error, unit) op" where
  "initialize_prover X Q pk_bytes = map_errS (\<lambda>e. FProver (show_prover_error e)) (init_prover_with_pk_bytes X Q pk_bytes)"

text \<open>Whole years of 365 days; \<open>today\<close> is the reading of the clock.\<close>

definition calculate_age_from_dob :: "calendar \<Rightarrow> date \<Rightarrow> string \<Rightarrow> ffi_error + u32" where
  "calculate_age_from_dob C today dob_iso =
     bindR (map_err FInvalidFormat (cal_parse C dob_iso)) (\<lambda>dob.
     let age = max (cal_days C today - cal_days C dob) 0 div 365
     in if age < 2 ^ 32 then Inr (of_int age) else Inl (FInvalidFormat ''age out of representable range''))"

section \<open>Biometrics\<close>

datatype biometric_result = BioSuccess | BioCancelled | BioFailed | BioNotAvailable | BioNotEnrolled

record biometric_config_ffi =
  bc_timeout_seconds :: u32
  bc_title :: string
  bc_subtitle :: "string option"
  bc_description :: "string option"

definition biometric_config_ffi_default :: biometric_config_ffi where
  "biometric_config_ffi_default =
     \<lparr>bc_timeout_seconds = 30, bc_title = ''Authenticate'', bc_subtitle = None,
      bc_description = Some ''Please authenticate to continue''\<rparr>"

definition biometric_authenticator_new :: "biometric_config_ffi \<Rightarrow> biometric_config_ffi" where
  "biometric_authenticator_new c =
     (if bc_timeout_seconds c = 0 then c\<lparr>bc_timeout_seconds := 30\<rparr>
      else if bc_timeout_seconds c > 300 then c\<lparr>bc_timeout_seconds := 300\<rparr> else c)"

definition biometric_authenticate :: "biometric_config_ffi \<Rightarrow> ffi_error + biometric_result" where
  "biometric_authenticate c = Inr BioNotAvailable"

definition biometric_is_available :: "biometric_config_ffi \<Rightarrow> bool" where
  "biometric_is_available c = False"

definition is_biometric_available :: "'s wallet \<Rightarrow> bool" where
  "is_biometric_available w = biometric_is_available (biometric_authenticator_new biometric_config_ffi_default)"

section \<open>Parsed QR payloads\<close>

definition json_u64 :: "json \<Rightarrow> nat option" where
  "json_u64 v = (case v of JNumber n \<Rightarrow> if 0 \<le> n \<and> n < 2 ^ 64 then Some (nat n) else None | _ \<Rightarrow> None)"

definition attestation_value :: "json \<Rightarrow> bool" where
  "attestation_value data \<longleftrightarrow> json_get ''type'' data = Some (JString ''attestation'')"

text \<open>\<open>alnum\<close> is \<open>char::is_alphanumeric\<close> on the UTF-8 bytes of a character; \<open>now\<close> in seconds.\<close>

definition validate_qr_payload :: "externals \<Rightarrow> (string \<Rightarrow> bool) \<Rightarrow> nat \<Rightarrow> string \<Rightarrow> bool" where
  "validate_qr_payload X alnum now qr_json =
     (case x_json X qr_json of
        Inl _ \<Rightarrow> False
      | Inr data \<Rightarrow>
          (case (if attestation_value data then Option.bind (json_get ''data'' data) json_str else None) of
             Some d \<Rightarrow> d \<noteq> [] \<and> list_all (\<lambda>ch. alnum ch \<or> ch = ''-'' \<or> ch = ''_'') (chars d)
           | None \<Rightarrow>
               (if json_get ''challenge_id'' data = None then False
                else case Option.bind (json_get ''expires_at'' data) json_u64 of
                    Some e \<Rightarrow> now \<le> e
                  | None \<Rightarrow> True)))"

definition is_attestation_qr :: "externals \<Rightarrow> string \<Rightarrow> bool" where
  "is_attestation_qr X qr_json = (case x_json X qr_json of Inl _ \<Rightarrow> False | Inr data \<Rightarrow> attestation_value data)"

definition is_verification_qr :: "externals \<Rightarrow> string \<Rightarrow> bool" where
  "is_verification_qr X qr_json = (case x_json X qr_json of Inl _ \<Rightarrow> False | Inr data \<Rightarrow> json_get ''challenge_id'' data \<noteq> None)"

definition get_attestation_data :: "externals \<Rightarrow> string \<Rightarrow> ffi_error + string" where
  "get_attestation_data X qr_json =
     bindR (map_err FInvalidFormat (x_json X qr_json)) (\<lambda>data.
     if \<not> attestation_value data then Inl (FInvalidFormat ''Not an attestation QR'')
     else ok_or (FInvalidFormat ''Missing attestation data'') (Option.bind (json_get ''data'' data) json_str))"

definition parse_challenge_id :: "qr_ext \<Rightarrow> string \<Rightarrow> ffi_error + string" where
  "parse_challenge_id Z qr_json = map_err FInvalidFormat (qx_parse_id Z qr_json)"

text \<open>\<open>utils::parse_deep_link\<close>: the query as a map, the last of a name counting.\<close>

definition parse_deep_link :: "(string \<Rightarrow> string + parsed_url) \<Rightarrow> string \<Rightarrow> wallet_error + (string \<Rightarrow> string option)" where
  "parse_deep_link url_parse url =
     bindR (map_err (\<lambda>e. InvalidInput (''Invalid URL: '' @ e)) (url_parse url)) (\<lambda>u. Inr (map_of (rev (pu_query u))))"

section \<open>The wallet's requests\<close>

text \<open>
  The URLs and headers of \<open>Wallet_Session\<close>, sent by \<open>Http_Client\<close> inside the runtime of
  \<open>Entry_Points\<close>; the wallet is only read.
\<close>

definition http_challenge_details :: "entry_env \<Rightarrow> string \<Rightarrow> 's wallet \<Rightarrow> (entry_state, ffi_error, string) op" where
  "http_challenge_details E challenge_id w =
     bindS (pureS (validate_challenge_id_format challenge_id)) (\<lambda>_.
     bindS (tokio_rt E) (\<lambda>_.
     on_http (get_with_headers (ee_stack E)
       (trim_end_slashes (wc_verifier_api_url (w_config w)) @ ''/v1/challenge/'' @ challenge_id @ ''/details'') 10
       (wc_verifier_api_key (w_config w)) (wc_verifier_origin (w_config w)))))"

definition http_challenge_by_code :: "entry_env \<Rightarrow> string \<Rightarrow> 's wallet \<Rightarrow> (entry_state, ffi_error, string) op" where
  "http_challenge_by_code E short_code w =
     (let normalized = strip_whitespace short_code
      in if \<not> is_short_code normalized
         then pureS (Inl (FInvalidFormat ''Invalid short code format (must be 12 digits)''))
         else bindS (tokio_rt E) (\<lambda>_.
           on_http (get_with_timeout (ee_stack E)
             (trim_end_slashes (wc_verifier_api_url (w_config w)) @ ''/v1/challenge/by-code/'' @ normalized) 10)))"

definition check_network_status :: "entry_env \<Rightarrow> 's wallet \<Rightarrow> entry_state \<Rightarrow> bool \<times> entry_state" where
  "check_network_status E w s =
     (case bindS (tokio_rt E) (\<lambda>_. on_http (get_with_timeout (ee_stack E)
             (wc_verifier_api_url (w_config w) @ ''/health'') 5)) s of
        (r, s') \<Rightarrow> (is_ok r, s'))"

text \<open>The submission changes the wallet and the network: the two states side by side.\<close>

definition on_entry :: "(entry_state, ffi_error, 'a) op \<Rightarrow> ('s wallet \<times> entry_state, ffi_error, 'a) op" where
  "on_entry f ws = (case f (snd ws) of (r, s') \<Rightarrow> (r, (fst ws, s')))"

definition record_outcome :: "submit_proof_request \<Rightarrow> verify_response \<Rightarrow> ('s wallet \<times> entry_state, ffi_error, bool) op" where
  "record_outcome proof resp ws =
     (let success = (vr_result resp = ''OK'')
      in (Inr success, ((fst ws)\<lparr>w_state := complete_verification (spr_challenge_id proof) success (w_state (fst ws))\<rparr>,
            snd ws)))"

definition http_submit_proof :: "entry_env \<Rightarrow> string \<Rightarrow> ('s wallet \<times> entry_state, ffi_error, bool) op" where
  "http_submit_proof E proof_json =
     bindS (on_entry (tokio_rt E)) (\<lambda>_.
     bindS (pureS (map_err FInvalidFormat (we_parse_request (ee_wallet E) proof_json))) (\<lambda>proof.
     bindS (\<lambda>ws. on_entry (on_http (post_json (ee_stack E)
              (wc_verifier_api_url (w_config (fst ws)) @ ''/v1/verify'') proof_json)) ws) (\<lambda>body.
     bindS (pureS (map_err FInvalidFormat (we_parse_response (ee_wallet E) body))) (\<lambda>resp.
     record_outcome proof resp))))"

end
