(* ===== verification/Dates_Properties.thy ===== *)
theory Dates_Properties
  imports Dates
begin

text \<open>
  What the date helpers compute, for every calendar that keeps the laws, and the proleptic
  Gregorian calendar as one that does.
\<close>

section \<open>The Gregorian calendar\<close>

definition leap :: "int \<Rightarrow> bool" where
  "leap y \<longleftrightarrow> y mod 4 = 0 \<and> (y mod 100 \<noteq> 0 \<or> y mod 400 = 0)"

definition month_length :: "bool \<Rightarrow> nat \<Rightarrow> nat" where
  "month_length lp m =
     (if m = 2 then (if lp then 29 else 28)
      else if m = 4 \<or> m = 6 \<or> m = 9 \<or> m = 11 then 30
      else if 1 \<le> m \<and> m \<le> 12 then 31 else 0)"

primrec month_start :: "bool \<Rightarrow> nat \<Rightarrow> nat" where
  "month_start lp 0 = 0"
| "month_start lp (Suc m) = month_start lp m + month_length lp m"

definition year_start :: "int \<Rightarrow> int" where
  "year_start y = 365 * (y - 1) + (y - 1) div 4 - (y - 1) div 100 + (y - 1) div 400"

definition greg_days :: "date \<Rightarrow> int" where
  "greg_days d = year_start (year d) + int (month_start (leap (year d)) (month d)) + int (day d)"

definition greg_exists :: "date \<Rightarrow> bool" where
  "greg_exists d \<longleftrightarrow> -262143 \<le> year d \<and> year d \<le> 262142 \<and> 1 \<le> month d \<and> month d \<le> 12 \<and>
     1 \<le> day d \<and> day d \<le> month_length (leap (year d)) (month d)"

definition greg_of_ymd :: "int \<Rightarrow> nat \<Rightarrow> nat \<Rightarrow> date option" where
  "greg_of_ymd y m d = (if greg_exists (Date y m d) then Some (Date y m d) else None)"

definition dates_around :: "int \<Rightarrow> date list" where
  "dates_around y = [Date y' m d. y' \<leftarrow> [y - 1, y, y + 1], m \<leftarrow> [1..<13], d \<leftarrow> [1..<32]]"

definition greg_of_days :: "int \<Rightarrow> date option" where
  "greg_of_days n =
     List.find (\<lambda>d. greg_exists d \<and> greg_days d = n) (dates_around (n * 400 div 146097 + 1))"

definition two_digits :: "nat \<Rightarrow> string" where
  "two_digits n = (if n < 10 then ''0'' @ show_nat n else show_nat n)"

definition gregorian :: calendar where
  "gregorian = \<lparr>cal_days = greg_days, cal_of_days = greg_of_days,
     cal_with_year = (\<lambda>d y. greg_of_ymd y (month d) (day d)), cal_of_ymd = greg_of_ymd,
     cal_parse = (\<lambda>s. ok_or ''input contains invalid characters''
        (greg_of_ymd (int (read_nat (take 4 s))) (read_nat (take 2 (drop 5 s))) (read_nat (drop 8 s)))),
     cal_format = (\<lambda>d. show_nat (nat (year d)) @ ''-'' @ two_digits (month d) @ ''-'' @ two_digits (day d))\<rparr>"

lemma month_start_mono: "m \<le> m' \<Longrightarrow> month_start lp m \<le> month_start lp m'"
  by (rule lift_Suc_mono_le) simp_all

lemma month_start_13: "month_start lp 13 = (if lp then 366 else 365)"
  by (simp add: eval_nat_numeral month_length_def)

lemma div_step:
  fixes k :: int
  assumes "0 < k"
  shows "y div k = (y - 1) div k + (if y mod k = 0 then 1 else 0)"
proof -
  have y: "y = k * (y div k) + y mod k" by simp
  have b: "0 \<le> y mod k" "y mod k < k" using assms by simp_all
  show ?thesis
  proof (cases "y mod k = 0")
    case True
    have "(y - 1) div k = y div k - 1"
      by (rule int_div_pos_eq[where r = "k - 1"]) (use y True assms in \<open>simp_all add: algebra_simps\<close>)
    with True show ?thesis by simp
  next
    case False
    have "(y - 1) div k = y div k"
      by (rule int_div_pos_eq[where r = "y mod k - 1"]) (use y b False in \<open>simp_all add: algebra_simps\<close>)
    with False show ?thesis by simp
  qed
qed

lemma leap_count:
  fixes y a b c :: int
  assumes "r \<Longrightarrow> q" "q \<Longrightarrow> p"
  shows "365 * y + (a + (if p then 1 else 0)) - (b + (if q then 1 else 0)) + (c + (if r then 1 else 0)) =
    365 * (y - 1) + a - b + c + (if p \<and> (\<not> q \<or> r) then 366 else 365)"
  using assms by auto

lemma year_start_Suc: "year_start (y + 1) = year_start y + (if leap y then 366 else 365)"
proof -
  have "y mod 400 mod 100 = y mod 100" "y mod 100 mod 4 = y mod 4" by (simp_all add: mod_mod_cancel)
  then have imp: "y mod 400 = 0 \<Longrightarrow> y mod 100 = 0" "y mod 100 = 0 \<Longrightarrow> y mod 4 = 0" by simp_all
  have "year_start (y + 1) = 365 * y + y div 4 - y div 100 + y div 400" by (simp add: year_start_def)
  also have "\<dots> = 365 * y + ((y - 1) div 4 + (if y mod 4 = 0 then 1 else 0)) -
      ((y - 1) div 100 + (if y mod 100 = 0 then 1 else 0)) + ((y - 1) div 400 + (if y mod 400 = 0 then 1 else 0))"
    unfolding div_step[of 4 y, OF zero_less_numeral] div_step[of 100 y, OF zero_less_numeral]
      div_step[of 400 y, OF zero_less_numeral] by (rule refl)
  also have "\<dots> = year_start y + (if leap y then 366 else 365)"
    unfolding year_start_def leap_def by (rule leap_count, erule imp(1), erule imp(2))
  finally show ?thesis .
qed

lemma year_start_mono: "y \<le> y' \<Longrightarrow> year_start y \<le> year_start y'"
proof (induction y' rule: int_ge_induct)
  case (step y')
  then show ?case by (simp add: year_start_Suc)
qed simp

lemma day_of_year:
  assumes "greg_exists d"
  shows "int (month_start (leap (year d)) (month d)) + int (day d) \<le> (if leap (year d) then 366 else 365)"
proof -
  from assms have "day d \<le> month_length (leap (year d)) (month d)" "Suc (month d) \<le> 13"
    by (simp_all add: greg_exists_def)
  with month_start_mono[of "Suc (month d)" 13 "leap (year d)"] month_start_13[of "leap (year d)"]
  show ?thesis by (auto split: if_splits)
qed

lemma greg_days_mono:
  assumes "greg_exists a" "greg_exists b" "a < b"
  shows "greg_days a < greg_days b"
proof -
  have pos: "1 \<le> day b" using assms(2) by (simp add: greg_exists_def)
  from assms(3) consider (y) "year a < year b" | (m) "year a = year b" "month a < month b"
    | (d) "year a = year b" "month a = month b" "day a < day b"
    by (auto simp: less_date_def)
  then show ?thesis
  proof cases
    case y
    then have "year_start (year a + 1) \<le> year_start (year b)" by (intro year_start_mono) simp
    with day_of_year[OF assms(1)] pos show ?thesis by (simp add: greg_days_def year_start_Suc split: if_splits)
  next
    case m
    then have "month_start (leap (year a)) (Suc (month a)) \<le> month_start (leap (year a)) (month b)"
      by (intro month_start_mono) simp
    with m assms(1) pos show ?thesis by (simp add: greg_days_def greg_exists_def)
  next
    case d
    then show ?thesis by (simp add: greg_days_def)
  qed
qed

lemma year_bound:
  fixes Y a b c r s t :: int
  assumes "4 * a = Y - r" "100 * b = Y - s" "400 * c = Y - t"
    and "0 \<le> r" "r < 4" "0 \<le> s" "s < 100" "0 \<le> t" "t < 400"
  shows "400 * (365 * Y + a - b + c) \<le> 146097 * Y + 399" "146097 * Y - 699 \<le> 400 * (365 * Y + a - b + c)"
proof -
  have e: "400 * (365 * Y + a - b + c) = 146000 * Y + 100 * (4 * a) - 4 * (100 * b) + 400 * c" by simp
  show "400 * (365 * Y + a - b + c) \<le> 146097 * Y + 399" "146097 * Y - 699 \<le> 400 * (365 * Y + a - b + c)"
    unfolding e assms(1-3) using assms(4-9) by simp_all
qed

lemma year_estimate:
  assumes "greg_exists d"
  shows "\<bar>year d - (greg_days d * 400 div 146097 + 1)\<bar> \<le> 1"
proof -
  define Y where "Y = year d - 1"
  have doy: "1 \<le> greg_days d - year_start (year d)" "greg_days d - year_start (year d) \<le> 366"
    using day_of_year[OF assms] assms by (auto simp: greg_days_def greg_exists_def split: if_splits)
  have "400 * year_start (year d) \<le> 146097 * Y + 396 + 3" "146097 * Y - 699 \<le> 400 * year_start (year d)"
  proof -
    have r: "k * (Y div k) = Y - Y mod k" for k by (simp add: minus_mod_eq_mult_div)
    have b: "0 \<le> Y mod 4" "Y mod 4 < 4" "0 \<le> Y mod 100" "Y mod 100 < 100" "0 \<le> Y mod 400" "Y mod 400 < 400"
      by simp_all
    show "400 * year_start (year d) \<le> 146097 * Y + 396 + 3" "146097 * Y - 699 \<le> 400 * year_start (year d)"
      unfolding year_start_def Y_def[symmetric] using year_bound[OF r r r b] by simp_all
  qed
  with doy have "146097 * Y - 299 \<le> greg_days d * 400" "greg_days d * 400 \<le> 146097 * Y + 146799" by linarith+
  then have "Y - 1 \<le> greg_days d * 400 div 146097" "greg_days d * 400 div 146097 \<le> Y + 1" by linarith+
  then show ?thesis by (simp add: Y_def)
qed

lemma in_dates_around:
  assumes "greg_exists d" "\<bar>year d - y\<bar> \<le> 1"
  shows "d \<in> set (dates_around y)"
proof -
  obtain z m k where d: "d = Date z m k" by (cases d)
  have "month_length (leap z) m \<le> 31" by (simp add: month_length_def)
  with assms d have k: "m \<in> {1..<13}" "k \<in> {1..<32}" by (simp_all add: greg_exists_def)
  have "z = y - 1 \<or> z = y \<or> z = y + 1" using assms(2) d by auto
  with k show ?thesis unfolding d dates_around_def by (auto intro!: bexI[of _ m] imageI)
qed

lemma find_found: "x \<in> set xs \<Longrightarrow> P x \<Longrightarrow> \<exists>y. List.find P xs = Some y \<and> P y"
  by (induction xs) auto

lemma greg_of_days_iff: "greg_of_days n = Some d \<longleftrightarrow> greg_exists d \<and> greg_days d = n"
proof
  assume "greg_of_days n = Some d"
  then show "greg_exists d \<and> greg_days d = n"
    unfolding greg_of_days_def find_Some_iff by blast
next
  assume d: "greg_exists d \<and> greg_days d = n"
  with year_estimate[of d] have "d \<in> set (dates_around (n * 400 div 146097 + 1))"
    by (intro in_dates_around) simp_all
  from find_found[OF this, of "\<lambda>d. greg_exists d \<and> greg_days d = n"] d
  obtain e where e: "greg_of_days n = Some e" "greg_exists e" "greg_days e = n"
    unfolding greg_of_days_def by blast
  with d greg_days_mono[of d e] greg_days_mono[of e d] have "e = d" by (cases d e rule: linorder_cases) auto
  with e show "greg_of_days n = Some d" by simp
qed

lemma year_start_range: "\<bar>y\<bar> < 263000 \<Longrightarrow> \<bar>year_start y\<bar> < 99000000"
  by (simp add: year_start_def)

lemma greg_days_range:
  assumes "greg_exists d"
  shows "\<bar>greg_days d\<bar> < 100000000"
proof -
  have "\<bar>year_start (year d)\<bar> < 99000000"
    by (rule year_start_range) (use assms in \<open>auto simp: greg_exists_def\<close>)
  moreover have "int (month_start (leap (year d)) (month d)) + int (day d) \<le> 366"
    using day_of_year[OF assms] by (auto split: if_splits)
  ultimately show ?thesis unfolding greg_days_def by linarith
qed

lemma gregorian_sel [simp]:
  "cal_days gregorian = greg_days" "cal_of_days gregorian = greg_of_days" "cal_of_ymd gregorian = greg_of_ymd"
  "cal_with_year gregorian d y = greg_of_ymd y (month d) (day d)"
  by (simp_all add: gregorian_def)

lemma gregorian_exists [simp]: "exists_date gregorian d = greg_exists d"
  by (simp add: exists_date_def greg_of_ymd_def)

lemma gregorian_has_year: "has_year gregorian y \<longleftrightarrow> -262143 \<le> y \<and> y \<le> 262142"
  by (simp add: has_year_def greg_exists_def month_length_def)

lemma month_length_leap: "m \<noteq> 2 \<Longrightarrow> month_length lp m = month_length lp' m"
  by (simp add: month_length_def)

lemma greg_leap_only:
  assumes "greg_exists d" "-262143 \<le> y" "y \<le> 262142" "\<not> (month d = 2 \<and> day d = 29)"
  shows "greg_exists (Date y (month d) (day d))"
proof (cases "month d = 2")
  case True
  with assms show ?thesis by (auto simp: greg_exists_def month_length_def split: if_splits)
next
  case False
  with assms month_length_leap[OF False, of "leap y" "leap (year d)"] show ?thesis by (simp add: greg_exists_def)
qed

lemma gregorian_ok: "calendar_ok gregorian"
proof -
  have ymd: "cal_of_ymd gregorian y m d = Some e \<Longrightarrow> e = Date y m d" for y m d e
    by (auto simp: greg_of_ymd_def split: if_splits)
  have feb: "exists_date gregorian (Date y 2 k) \<Longrightarrow> k \<le> 29" for y k
    by (auto simp: greg_exists_def month_length_def split: if_splits)
  have range: "exists_date gregorian d \<Longrightarrow>
      \<bar>cal_days gregorian d\<bar> < 100000000 \<and> \<bar>year d\<bar> < 300000 \<and> has_year gregorian (year d)" for d
    using greg_days_range[of d] by (auto simp: gregorian_has_year greg_exists_def)
  have leap_only: "exists_date gregorian d \<Longrightarrow> has_year gregorian y \<Longrightarrow> \<not> (month d = 2 \<and> day d = 29) \<Longrightarrow>
      exists_date gregorian (Date y (month d) (day d))" for d y
    using greg_leap_only[of d y] by (auto simp: gregorian_has_year)
  have mono: "exists_date gregorian a \<Longrightarrow> exists_date gregorian b \<Longrightarrow> a < b \<Longrightarrow>
      cal_days gregorian a < cal_days gregorian b" for a b
    using greg_days_mono[of a b] by simp
  have epoch: "exists_date gregorian (Date 1970 1 1)" "cal_days gregorian (Date 1970 1 1) = UNIX_EPOCH_OFFSET_DAYS"
    by (simp_all add: greg_exists_def month_length_def greg_days_def year_start_def
        UNIX_EPOCH_OFFSET_DAYS_def)
  have days: "cal_of_days gregorian n = Some d \<longleftrightarrow> exists_date gregorian d \<and> cal_days gregorian d = n" for n d
    using greg_of_days_iff[of n d] by simp
  have with_year: "cal_with_year gregorian d y = cal_of_ymd gregorian y (month d) (day d)" for d y
    by simp
  show ?thesis
    unfolding calendar_ok_def
    apply (intro conjI)
            apply (intro allI impI, erule ymd)
           apply (intro allI impI, rule with_year)
          apply (intro allI impI, erule (2) mono)
         apply (intro allI impI, erule range)
        apply (intro allI impI, erule (2) leap_only)
       apply (intro allI impI, erule feb)
      apply (intro allI, rule days)
     apply (rule epoch)+
    done
qed

section \<open>The age check\<close>

lemma last_of_february:
  assumes "calendar_ok C" "exists_date C today" "has_year C y" "exists_date C d"
    and "\<not> exists_date C (Date y (month today) (day today))"
  shows "d \<le> Date y 2 28 \<longleftrightarrow> d \<le> Date y (month today) (day today)"
proof -
  from cal_leap_only[OF assms(1,2,3)] assms(5) have t: "month today = 2" "day today = 29" by auto
  obtain z m k where d: "d = Date z m k" by (cases d)
  have "k \<le> 28" if "z = y" "m = 2"
    using cal_february[OF assms(1), of y k] assms(4,5) that t d by (cases "k = 29") auto
  with t d show ?thesis by auto
qed

text \<open>C16: The age check is exact: for every calendar that keeps the laws, the cutoff day of an age
  of at most 200 years exists, and a date of birth passes the check exactly when the day and
  month of birth, in the year the age is reached, do not lie after today; the cutoff of a
  February 29 in a year without one, February 28, gives the same answer. For the opposite
  direction the stand-in is one day early: it admits those who reached the age on the day
  before.\<close>

theorem age_cutoff_exact:
  assumes "calendar_ok C" "exists_date C today" "exists_date C dob" "age \<le> 200" "has_year C (year today - uint age)"
  shows "\<exists>c. calculate_cutoff_days C today age = Inr c \<and>
    validate_age (dob_day C dob) c False = (Date (year dob + uint age) (month dob) (day dob) \<le> today) \<and>
    validate_age (dob_day C dob) c True =
      ((if exists_date C (Date (year today - uint age) (month today) (day today)) then today
        else Date (year today) 2 28) \<le> Date (year dob + uint age) (month dob) (day dob))"
proof -
  let ?y = "year today - uint age"
  note cut = cutoff_value[OF assms(1,2,4,5)]
  have k: "exists_date C (stands_in C today ?y)"
    using cutoff_date_value[OF assms(1,2,5)] by blast
  note check = validate_age_days[OF assms(1,3) k]
  have shift: "Date z m k \<le> Date ?y m' k' \<longleftrightarrow> Date (z + uint age) m k \<le> Date (year today) m' k'"
    "Date ?y m' k' \<le> Date z m k \<longleftrightarrow> Date (year today) m' k' \<le> Date (z + uint age) m k" for z m k m' k'
    by auto
  have today: "Date (year today) (month today) (day today) = today" by simp
  have "dob \<le> stands_in C today ?y \<longleftrightarrow> dob \<le> Date ?y (month today) (day today)"
    using last_of_february[OF assms(1,2,5,3)] by (auto simp: stands_in_def Let_def)
  then have over: "dob \<le> stands_in C today ?y \<longleftrightarrow> Date (year dob + uint age) (month dob) (day dob) \<le> today"
    using shift(1)[of "year dob" "month dob" "day dob" "month today" "day today"] by (simp add: today)
  have under: "stands_in C today ?y \<le> dob \<longleftrightarrow>
      (if exists_date C (Date ?y (month today) (day today)) then today else Date (year today) 2 28)
        \<le> Date (year dob + uint age) (month dob) (day dob)"
    using shift(2)[of "month today" "day today" "year dob" "month dob" "day dob"]
      shift(2)[of 2 28 "year dob" "month dob" "day dob"]
    by (simp add: stands_in_def Let_def today)
  show ?thesis using cut check over under by blast
qed

lemma age_cutoff_exact_witness:
  "\<exists>c. calculate_cutoff_days gregorian (Date 2024 2 29) 18 = Inr c \<and>
     validate_age (dob_day gregorian (Date 2006 2 28)) c False \<and> validate_age (dob_day gregorian (Date 2006 2 28)) c True \<and>
     \<not> validate_age (dob_day gregorian (Date 2006 3 1)) c False"
proof -
  have ok: "exists_date gregorian (Date 2024 2 29)" "exists_date gregorian (Date 2006 2 28)"
    "exists_date gregorian (Date 2006 3 1)" "has_year gregorian (year (Date 2024 2 29) - uint (18 :: u32))"
    "\<not> exists_date gregorian (Date 2006 2 29)"
    by (simp_all add: greg_exists_def month_length_def leap_def gregorian_has_year)
  note at = age_cutoff_exact[OF gregorian_ok ok(1), of _ 18]
  show ?thesis
    using at[OF ok(2) _ ok(4)] at[OF ok(3) _ ok(4)] ok(5) by auto
qed


section \<open>Round trips\<close>

text \<open>The text of a date of birth and its day number determine each other: a text the calendar
  reads as the date \<open>d\<close> gives the day number of \<open>d\<close>, also before 1970, and that number is written
  as the calendar writes \<open>d\<close>.\<close>

theorem dob_iso_roundtrip:
  assumes "calendar_ok C" "exists_date C d" "cal_parse C s = Inr d"
  shows "parse_dob_iso C s = Inr (dob_day C d) \<and> days_to_iso C (dob_day C d) = Inr (cal_format C d)"
proof -
  have epoch: "cal_of_ymd C 1970 1 1 = Some (Date 1970 1 1)"
    using cal_epoch(1)[OF assms(1)] by (simp add: exists_Date)
  have "cal_of_days C (cal_days C d) = Some d"
    using cal_of_days_iff[OF assms(1)] assms(2) by simp
  then show ?thesis
    using dob_day_sint[OF assms(1,2)] cal_epoch(2)[OF assms(1)] epoch assms(3)
    by (simp add: parse_dob_iso_def days_to_iso_def Let_def ok_or_def)
qed

lemma dob_iso_roundtrip_witness:
  "parse_dob_iso gregorian ''1961-03-07'' = Inr (dob_day gregorian (Date 1961 3 7)) \<and>
   days_to_iso gregorian (dob_day gregorian (Date 1961 3 7)) = Inr ''1961-03-07''"
proof -
  have read: "cal_parse gregorian ''1961-03-07'' = Inr (Date 1961 3 7)"
    by (simp add: gregorian_def greg_of_ymd_def greg_exists_def month_length_def read_nat_def digit_val_def ok_or_def)
  have printed: "cal_format gregorian (Date 1961 3 7) = ''1961-03-07''"
    by (simp add: gregorian_def two_digits_def show_nat.simps char_of_def bit_0)
  have "exists_date gregorian (Date 1961 3 7)" by (simp add: greg_exists_def month_length_def)
  from dob_iso_roundtrip[OF gregorian_ok this read] printed show ?thesis by simp
qed

text \<open>Day numbers since the epoch are exact from 1970 on, and clamp earlier dates to the epoch.\<close>

lemma days_since_epoch_roundtrip:
  assumes "calendar_ok C" "exists_date C d"
  shows "date_from_days C (days_since_epoch C d) = Some (max (Date 1970 1 1) d)"
proof -
  let ?e = "Date 1970 1 1"
  note epoch = cal_epoch[OF assms(1)]
  have clamped: "max ?e d = (if UNIX_EPOCH_OFFSET_DAYS \<le> cal_days C d then d else ?e)"
    using cal_days_le[OF assms(1) epoch(1) assms(2)] epoch(2) by (auto simp: max_def)
  have small: "\<bar>cal_days C d\<bar> < 100000000" using cal_range[OF assms] by simp
  let ?n = "max (cal_days C d - UNIX_EPOCH_OFFSET_DAYS) 0"
  have n: "0 \<le> ?n" "?n < 200000000" using small by (auto simp: UNIX_EPOCH_OFFSET_DAYS_def)
  then have u: "uint (of_int ?n :: u64) = ?n" by (simp add: uint_word_of_int_eq take_bit_int_eq_self)
  have "fits 64 ?n" "fits 64 (UNIX_EPOCH_OFFSET_DAYS + ?n)" "fits 32 (UNIX_EPOCH_OFFSET_DAYS + ?n)"
    using n by (simp_all add: fits_def UNIX_EPOCH_OFFSET_DAYS_def)
  then have run: "date_from_days C (days_since_epoch C d) = cal_of_days C (UNIX_EPOCH_OFFSET_DAYS + ?n)"
    unfolding date_from_days_def days_since_epoch_def u by (simp add: Let_def)
  show ?thesis
    unfolding run clamped
    using cal_of_days_iff[OF assms(1)] assms(2) epoch by (auto simp: max_def)
qed

end
