(* ===== verification/Diagnostics_Properties.thy ===== *)
theory Diagnostics_Properties
  imports Diagnostics Entry_Properties Dates_Properties
begin

text \<open>
  What the reports of the wallet give away, where its requests go, and how the age it shows
  relates to the age the proofs are about.
\<close>

section \<open>Requests\<close>

lemma uuid_chars: "uuid_loop i s = Inr () \<Longrightarrow> list_all (\<lambda>c. is_hex_digit c \<or> c = CHR ''-'') s"
  by (induction i s rule: uuid_loop.induct) (auto split: if_splits)

lemma uuid_format:
  "validate_challenge_id_format cid = Inr () \<Longrightarrow> length cid = 36 \<and> list_all (\<lambda>c. is_hex_digit c \<or> c = CHR ''-'') cid"
  by (auto simp: validate_challenge_id_format_def validate_uuid_format_def uuid_chars split: if_splits)

lemma get_wire:
  "\<exists>n reason. hs_wire (snd (get_with_headers N url t key origin s)) = hs_wire s @ take n
     (transcript N url (\<lambda>host path. get_request (hs_user_agent s) host path key origin) None reason)"
  using request_wire[of N url "\<lambda>ua host path. get_request ua host path key origin" None s]
  by (simp add: get_with_headers_def tokio_timeout_wire inner_requests)

lemma in_runtime:
  "es_http (snd (bindS (tokio_rt E) (\<lambda>_. on_http f) s)) = es_http s
   \<or> es_http (snd (bindS (tokio_rt E) (\<lambda>_. on_http f) s)) = snd (f (es_http s))"
proof -
  obtain r t where rt: "tokio_rt E s = (r, t)" by fastforce
  then have "es_http t = es_http s" using quiet_tokio_rt[of E] by (metis quiet_http_def snd_conv)
  with rt show ?thesis by (cases r) (simp_all add: bindS_def on_http_def split: prod.split)
qed

text \<open>What is fetched is what \<open>Wallet_Session\<close> says of the same answer of the network.\<close>

lemma http_runs:
  assumes "tokio_rt E s = (Inr n, t)"
  shows "fst (http_challenge_details E cid w s)
      = fetch_challenge_details (\<lambda>url key origin. fst (get_with_headers (ee_stack E) url 10 key origin (es_http t))) cid w"
    and "fst (http_challenge_by_code E code w s)
      = fetch_challenge_by_short_code (\<lambda>url. fst (get_with_timeout (ee_stack E) url 10 (es_http t))) code w"
proof -
  show "fst (http_challenge_details E cid w s)
      = fetch_challenge_details (\<lambda>url key origin. fst (get_with_headers (ee_stack E) url 10 key origin (es_http t))) cid w"
    using assms
    by (cases "validate_challenge_id_format cid")
      (simp_all add: http_challenge_details_def fetch_challenge_details_def bindS_def pureS_def on_http_def Let_def
        split: prod.split)
  show "fst (http_challenge_by_code E code w s)
      = fetch_challenge_by_short_code (\<lambda>url. fst (get_with_timeout (ee_stack E) url 10 (es_http t))) code w"
    using assms
    by (simp add: http_challenge_by_code_def fetch_challenge_by_short_code_def bindS_def pureS_def on_http_def Let_def
        split: prod.split)
qed

section \<open>Years\<close>

lemma year_start_growth: "year_start y + 365 * int n + (if leap y \<and> 0 < n then 1 else 0) \<le> year_start (y + int n)
   \<and> year_start (y + int n) \<le> year_start y + 366 * int n"
proof (induction n)
  case (Suc n)
  have "y + int (Suc n) = (y + int n) + 1" by simp
  then have "year_start (y + int (Suc n)) = year_start (y + int n) + (if leap (y + int n) then 366 else 365)"
    by (metis year_start_Suc)
  with Suc show ?case by (cases n) auto
qed simp

lemma month_start_leap: "int (month_start True m) \<le> int (month_start False m) + 1 \<and> month_start False m \<le> month_start True m"
proof (induction m)
  case (Suc m)
  show ?case
  proof (cases "m = 2")
    case True
    then show ?thesis by (simp add: numeral_2_eq_2 month_length_def)
  next
    case False
    with Suc month_length_leap[OF False, of True False] show ?thesis by simp
  qed
qed simp

lemma day_in_month: "greg_exists d \<Longrightarrow> 1 \<le> day d \<and> day d \<le> month_length (leap (year d)) (month d)"
  by (simp add: greg_exists_def)

lemma later_month: "m < m' \<Longrightarrow> month_start lp m + month_length lp m \<le> month_start lp m'"
  using month_start_mono[of "Suc m" m' lp] by simp

lemma days_reached:
  assumes "greg_exists b" "greg_exists t" "Date (year b + int n) (month b) (day b) \<le> t"
  shows "365 * int n \<le> greg_days t - greg_days b"
proof -
  let ?y = "year b"
  note b = day_in_month[OF assms(1)] and t = day_in_month[OF assms(2)]
  note grow = year_start_growth[of ?y n] year_start_growth[of ?y "Suc n"]
  have ml: "int (month_start (leap ?y) (Suc (month b))) \<le> int (month_start (leap (year t)) (Suc (month b))) + (if leap ?y then 1 else 0)"
    "int (month_start (leap ?y) (month b)) \<le> int (month_start (leap (year t)) (month b)) + (if leap ?y then 1 else 0)"
    using month_start_leap[of "Suc (month b)"] month_start_leap[of "month b"] by (cases "leap ?y"; cases "leap (year t)"; simp)+
  consider (year) "?y + int n < year t" | (month) "?y + int n = year t" "month b < month t"
    | (day) "?y + int n = year t" "month b = month t" "day b \<le> day t"
    using assms(3) by (auto simp: less_eq_date_def less_date_def le_less)
  then show ?thesis
  proof cases
    case year
    then have "year_start (?y + int (Suc n)) \<le> year_start (year t)" by (intro year_start_mono) simp
    with grow(2) day_of_year[OF assms(1)] t show ?thesis by (auto simp: greg_days_def split: if_splits)
  next
    case month
    from later_month[OF month(2), of "leap (year t)"] b t grow(1) ml month(1) show ?thesis
      by (cases n) (auto simp: greg_days_def split: if_splits)
  next
    case day
    with b t grow(1) ml show ?thesis by (cases n) (auto simp: greg_days_def split: if_splits)
  qed
qed

lemma days_not_reached:
  assumes "greg_exists b" "greg_exists t" "t < Date (year b + int (Suc n)) (month b) (day b)"
  shows "greg_days t - greg_days b \<le> 366 * int (Suc n)"
proof -
  let ?y = "year b"
  note b = day_in_month[OF assms(1)] and t = day_in_month[OF assms(2)]
  note grow = year_start_growth[of ?y "Suc n"]
  have ml: "int (month_start (leap (year t)) (month b)) \<le> int (month_start (leap ?y) (month b)) + 1"
    using month_start_leap[of "month b"] by (cases "leap ?y"; cases "leap (year t)"; simp)
  consider (year) "year t < ?y + int (Suc n)" | (month) "?y + int (Suc n) = year t" "month t < month b"
    | (day) "?y + int (Suc n) = year t" "month t = month b" "day t < day b"
    using assms(3) by (auto simp: less_date_def)
  then show ?thesis
  proof cases
    case year
    then have "year_start (year t + 1) \<le> year_start (?y + int (Suc n))" by (intro year_start_mono) simp
    with grow day_of_year[OF assms(2)] b show ?thesis by (auto simp: greg_days_def year_start_Suc split: if_splits)
  next
    case month
    from later_month[OF month(2), of "leap (year t)"] b t grow ml month(1) show ?thesis by (simp add: greg_days_def)
  next
    case day
    with b t grow ml show ?thesis by (simp add: greg_days_def)
  qed
qed

section \<open>Properties\<close>

text \<open>C25: Of the wallet's GET requests only the one for the details of a challenge carries the
  verifier's API key. It sends nothing unless the identifier is 36 hexadecimal digits and hyphens, and
  then at most the front of one GET, towards the host of the URL made of the configured
  verifier URL, the fixed path and that identifier, with the configured key and origin in
  its headers. Fetching a challenge by its short code and the health check send
  at most the front of one GET without a key and without an origin.\<close>

theorem verifier_key_confined:
  "(es_http (snd (http_challenge_details E cid w s)) = es_http s \<or>
     length cid = 36 \<and> list_all (\<lambda>c. is_hex_digit c \<or> c = CHR ''-'') cid \<and>
     (\<exists>n reason. hs_wire (es_http (snd (http_challenge_details E cid w s))) = hs_wire (es_http s) @ take n
       (transcript (ee_stack E) (trim_end_slashes (wc_verifier_api_url (w_config w)) @ ''/v1/challenge/'' @ cid @ ''/details'')
         (\<lambda>host path. get_request (hs_user_agent (es_http s)) host path (wc_verifier_api_key (w_config w))
            (wc_verifier_origin (w_config w))) None reason)))
   \<and> (es_http (snd (http_challenge_by_code E code w s)) = es_http s \<or>
     (\<exists>n reason url. hs_wire (es_http (snd (http_challenge_by_code E code w s))) = hs_wire (es_http s) @ take n
       (transcript (ee_stack E) url (\<lambda>host path. get_request (hs_user_agent (es_http s)) host path None None) None reason)))
   \<and> (es_http (snd (check_network_status E w s)) = es_http s \<or>
     (\<exists>n reason. hs_wire (es_http (snd (check_network_status E w s))) = hs_wire (es_http s) @ take n
       (transcript (ee_stack E) (wc_verifier_api_url (w_config w) @ ''/health'')
         (\<lambda>host path. get_request (hs_user_agent (es_http s)) host path None None) None reason)))"
    (is "?details \<and> ?code \<and> ?health")
proof (intro conjI)
  let ?url = "trim_end_slashes (wc_verifier_api_url (w_config w)) @ ''/v1/challenge/'' @ cid @ ''/details''"
  let ?get = "get_with_headers (ee_stack E) ?url 10 (wc_verifier_api_key (w_config w)) (wc_verifier_origin (w_config w))"
  show ?details
  proof (cases "validate_challenge_id_format cid")
    case (Inl e)
    then show ?thesis by (simp add: http_challenge_details_def pureS_def)
  next
    case (Inr u)
    then have run: "http_challenge_details E cid w s = bindS (tokio_rt E) (\<lambda>_. on_http ?get) s"
      by (simp add: http_challenge_details_def)
    show ?thesis
      using in_runtime[of E ?get s] get_wire[of "ee_stack E" ?url 10 "wc_verifier_api_key (w_config w)"
          "wc_verifier_origin (w_config w)" "es_http s"] uuid_format[of cid] Inr
      unfolding run by (elim disjE) simp_all
  qed
next
  show ?code
  proof (cases "is_short_code (strip_whitespace code)")
    case True
    let ?u = "trim_end_slashes (wc_verifier_api_url (w_config w)) @ ''/v1/challenge/by-code/'' @ strip_whitespace code"
    have run: "http_challenge_by_code E code w s
        = bindS (tokio_rt E) (\<lambda>_. on_http (get_with_headers (ee_stack E) ?u 10 None None)) s"
      using True by (simp add: http_challenge_by_code_def Let_def get_with_timeout_def get_with_api_key_def)
    show ?thesis
      using in_runtime[of E "get_with_headers (ee_stack E) ?u 10 None None" s]
        get_wire[of "ee_stack E" ?u 10 None None "es_http s"]
      unfolding run by (elim disjE) auto
  qed (simp add: http_challenge_by_code_def Let_def pureS_def)
next
  let ?u = "wc_verifier_api_url (w_config w) @ ''/health''"
  have run: "snd (check_network_status E w s)
      = snd (bindS (tokio_rt E) (\<lambda>_. on_http (get_with_headers (ee_stack E) ?u 5 None None)) s)"
    by (simp add: check_network_status_def get_with_timeout_def get_with_api_key_def split: prod.split)
  show ?health
    using in_runtime[of E "get_with_headers (ee_stack E) ?u 5 None None" s]
      get_wire[of "ee_stack E" ?u 5 None None "es_http s"]
    unfolding run by (elim disjE) simp_all
qed

text \<open>The server behind \<open>url\<close> answers a POST of \<open>body\<close> without a key with the text \<open>answer\<close>.\<close>

definition post_answered :: "h3_stack \<Rightarrow> string \<Rightarrow> string \<Rightarrow> string \<Rightarrow> string \<Rightarrow> bool" where
  "post_answered N ua url body answer \<longleftrightarrow>
     (\<exists>host path resp. connects N url host path
        \<and> answered N (post_request ua host path body None) (Some (bytes_of_string body)) resp
        \<and> rs_end resp = Done () \<and> length (body_of (rs_chunks resp)) \<le> 2 * 1024 * 1024
        \<and> utf8_ok (map unat (body_of (rs_chunks resp))) \<and> 200 \<le> rs_status resp \<and> rs_status resp < 300
        \<and> answer = string_of_bytes (body_of (rs_chunks resp)))"

lemma post_json_answered:
  "fst (post_json N url body h) = Inr answer \<longleftrightarrow> post_answered N (hs_user_agent h) url body answer"
  by (simp add: post_json_def post_json_with_api_key_def tokio_timeout_ok inner_requests request_iff delivered_iff
      MAX_RESPONSE_BYTES_def is_success_def post_answered_def)

lemma post_json_wire:
  "\<exists>n reason. hs_wire (snd (post_json N url body h)) = hs_wire h @ take n
     (transcript N url (\<lambda>host path. post_request (hs_user_agent h) host path body None) (Some (bytes_of_string body)) reason)"
  using request_wire[of N url "\<lambda>ua host path. post_request ua host path body None" "Some (bytes_of_string body)" h]
  by (simp add: post_json_def post_json_with_api_key_def tokio_timeout_wire inner_requests)

text \<open>C27: Submitting a proof succeeds exactly when the runtime is there, the text is a proof, and the
  verifier answers the POST of that very text, without a key, with a well-formed verdict; the
  result is whether the verdict is OK. Only then does the session change, and it records that
  result for the challenge the proof names: a submission that fails in any way leaves the
  wallet as it was, with the verification still open. At most the front of that one POST is
  sent.\<close>

theorem proof_submission_exact:
  "(fst (http_submit_proof E pj (w, s)) = Inr b \<longleftrightarrow>
      is_ok (fst (tokio_rt E s)) \<and> is_ok (we_parse_request (ee_wallet E) pj) \<and>
      (\<exists>answer r. post_answered (ee_stack E) (hs_user_agent (es_http s)) (wc_verifier_api_url (w_config w) @ ''/v1/verify'')
          pj answer \<and> we_parse_response (ee_wallet E) answer = Inr r \<and> b = (vr_result r = ''OK'')))
   \<and> fst (snd (http_submit_proof E pj (w, s))) =
      (case (fst (http_submit_proof E pj (w, s)), we_parse_request (ee_wallet E) pj) of
         (Inr b, Inr p) \<Rightarrow> w\<lparr>w_state := complete_verification (spr_challenge_id p) b (w_state w)\<rparr>
       | _ \<Rightarrow> w)
   \<and> (es_http (snd (snd (http_submit_proof E pj (w, s)))) = es_http s \<or>
      (\<exists>n reason. hs_wire (es_http (snd (snd (http_submit_proof E pj (w, s))))) = hs_wire (es_http s) @ take n
        (transcript (ee_stack E) (wc_verifier_api_url (w_config w) @ ''/v1/verify'')
          (\<lambda>host path. post_request (hs_user_agent (es_http s)) host path pj None) (Some (bytes_of_string pj)) reason)))"
proof -
  let ?url = "wc_verifier_api_url (w_config w) @ ''/v1/verify''"
  obtain r t where rt: "tokio_rt E s = (r, t)" by fastforce
  have quiet: "es_http t = es_http s" using quiet_tokio_rt[of E] rt by (metis quiet_http_def snd_conv)
  obtain q h where post: "post_json (ee_stack E) ?url pj (es_http s) = (q, h)" by fastforce
  have wire: "\<exists>n reason. hs_wire h = hs_wire (es_http s) @ take n (transcript (ee_stack E) ?url
      (\<lambda>host path. post_request (hs_user_agent (es_http s)) host path pj None) (Some (bytes_of_string pj)) reason)"
    using post_json_wire[of "ee_stack E" ?url pj "es_http s"] post by simp
  have answer: "q = Inr a \<longleftrightarrow> post_answered (ee_stack E) (hs_user_agent (es_http s)) ?url pj a" for a
    using post_json_answered[of "ee_stack E" ?url pj "es_http s" a] post by simp
  note run = http_submit_proof_def bindS_def on_entry_def on_http_def pureS_def record_outcome_def
  show ?thesis
  proof (cases r)
    case (Inl e)
    with rt quiet show ?thesis by (simp add: run)
  next
    case (Inr n)
    note r = Inr
    show ?thesis
    proof (cases "we_parse_request (ee_wallet E) pj")
      case (Inl e)
      with rt r quiet show ?thesis by (simp add: run)
    next
      case (Inr p)
      show ?thesis
      proof (cases q)
        case (Inl e)
        then have "\<not> post_answered (ee_stack E) (hs_user_agent (es_http s)) ?url pj a" for a using answer[of a] by simp
        with rt r Inr Inl quiet post wire show ?thesis by (simp add: run)
      next
        case body: (Inr a)
        then have "post_answered (ee_stack E) (hs_user_agent (es_http s)) ?url pj a' \<longleftrightarrow> a' = a" for a'
          using answer[of a'] by auto
        with rt r Inr body quiet post wire show ?thesis
          by (cases "we_parse_response (ee_wallet E) a") (auto simp: run Let_def)
      qed
    qed
  qed
qed

lemma commitment_lines_public [simp]:
  "commitment_lines X (c\<lparr>cred_dob_days := d, cred_r_bits := r\<rparr>) = commitment_lines X c"
  by (intro ext) (simp add: commitment_lines_def split: sum.split)

text \<open>C26: The reports on a failed proof reveal of the date of birth and the blinding bits no more
  than their length, the commitment they give and whether the age check passes: two pairs of
  secrets that agree in these three yield the same diagnosis, character for character, and
  the same preflight report, whatever the credential, the challenge and the state of the
  prover.\<close>

theorem diagnosis_hides_secrets:
  assumes "length (sec_r_bits s) = length (sec_r_bits s')"
    and "x_pedersen X (sec_dob_days s) (sec_r_bits s) = x_pedersen X (sec_dob_days s') (sec_r_bits s')"
    and "validate_age (sec_dob_days s) (qr_cutoff_days (cc_payload ch)) (wants_under_age (cc_payload ch))
      = validate_age (sec_dob_days s') (qr_cutoff_days (cc_payload ch)) (wants_under_age (cc_payload ch))"
  shows "diagnose_secrets X g c (Some s) (Some ch) = diagnose_secrets X g c (Some s') (Some ch)
    \<and> preflight_report X Q g (c\<lparr>cred_dob_days := Some (sec_dob_days s), cred_r_bits := Some (sec_r_bits s)\<rparr>) (cc_payload ch)
      = preflight_report X Q g (c\<lparr>cred_dob_days := Some (sec_dob_days s'), cred_r_bits := Some (sec_r_bits s')\<rparr>) (cc_payload ch)"
    (is "_ \<and> ?report s = ?report s'")
proof
  have "commitment_lines X c (sec_dob_days s) (sec_r_bits s) = commitment_lines X c (sec_dob_days s') (sec_r_bits s')"
    by (simp add: commitment_lines_def assms)
  moreover have "age_line (sec_dob_days s) (cc_payload ch) = age_line (sec_dob_days s') (cc_payload ch)"
    by (simp add: age_line_def assms Let_def)
  ultimately show "diagnose_secrets X g c (Some s) (Some ch) = diagnose_secrets X g c (Some s') (Some ch)"
    by (simp add: diagnose_secrets_def diagnose_loaded_def ok_or_def assms(1) Let_def)
  show "?report s = ?report s'"
    unfolding preflight_report_def by (simp add: assms ok_or_def cred_to_msg_def cong: if_cong sum.case_cong)
qed

lemma diagnosis_hides_secrets_witness:
  "diagnose_secrets toy_externals (prover_globals_new :: unit prover_globals) (sample_credential 5 7)
      (Some \<lparr>sec_dob_days = 7, sec_r_bits = False # replicate 127 True\<rparr>)
      (Some \<lparr>cc_payload = sample_challenge, cc_received_at = 0, cc_expires_at = 300\<rparr>)
   = diagnose_secrets toy_externals (prover_globals_new :: unit prover_globals) (sample_credential 5 7)
      (Some \<lparr>sec_dob_days = 7, sec_r_bits = replicate 127 True @ [False]\<rparr>)
      (Some \<lparr>cc_payload = sample_challenge, cc_received_at = 0, cc_expires_at = 300\<rparr>)"
  (is "diagnose_secrets _ _ _ (Some ?s) (Some ?ch) = diagnose_secrets _ _ _ (Some ?t) _")
proof -
  have bits: "length (sec_r_bits ?s) = length (sec_r_bits ?t)" by simp
  have commitment: "x_pedersen toy_externals (sec_dob_days ?s) (sec_r_bits ?s)
      = x_pedersen toy_externals (sec_dob_days ?t) (sec_r_bits ?t)"
    by (simp add: toy_externals_def)
  have age: "validate_age (sec_dob_days ?s) (qr_cutoff_days (cc_payload ?ch)) (wants_under_age (cc_payload ?ch))
      = validate_age (sec_dob_days ?t) (qr_cutoff_days (cc_payload ?ch)) (wants_under_age (cc_payload ?ch))"
    by simp
  show ?thesis
    using diagnosis_hides_secrets[OF bits commitment age, of prover_globals_new "sample_credential 5 7" "pr_ext sample_run"]
    by (rule conjunct1)
qed

lemma years_of_days:
  assumes "365 * int n \<le> d" "d \<le> 366 * int (Suc n)" "n \<le> 200"
  shows "max d 0 div 365 = int n \<or> max d 0 div 365 = int (Suc n)"
proof -
  have "365 * int n div 365 \<le> d div 365" using assms(1) by (intro zdiv_mono1) simp_all
  moreover have "d div 365 \<le> (365 * int (Suc n) + 364) div 365" using assms(2,3) by (intro zdiv_mono1) simp_all
  ultimately show ?thesis using assms(1) by auto
qed

text \<open>C30: The age the wallet shows is the age in completed calendar years or one year more: in the
  Gregorian calendar, a person whose last birthday made them n years old (n up to 200) is
  shown as n or n + 1, never as less.\<close>

theorem shown_age_off_by_one:
  assumes "cal_parse gregorian str = Inr b" "greg_exists b" "greg_exists t" "n \<le> 200"
    and "Date (year b + int n) (month b) (day b) \<le> t" "t < Date (year b + int (Suc n)) (month b) (day b)"
  shows "calculate_age_from_dob gregorian t str = Inr (of_nat n)
    \<or> calculate_age_from_dob gregorian t str = Inr (of_nat (Suc n))"
proof -
  let ?d = "greg_days t - greg_days b"
  have "max ?d 0 div 365 = int n \<or> max ?d 0 div 365 = int (Suc n)"
    using days_reached[OF assms(2,3,5)] days_not_reached[OF assms(2,3,6)] assms(4) by (rule years_of_days)
  then show ?thesis
    unfolding calculate_age_from_dob_def assms(1) Let_def gregorian_sel bindR.simps map_err.simps
    by (elim disjE) (simp_all only:, use assms(4) in simp_all)
qed

text \<open>A person born on January 5, 2008 is shown as 18 three days before the birthday that makes them so.\<close>

lemma shown_age_off_by_one_witness:
  "calculate_age_from_dob gregorian (Date 2026 1 2) ''2008-01-05'' = Inr 18"
proof -
  have read: "cal_parse gregorian ''2008-01-05'' = Inr (Date 2008 1 5)"
    by (simp add: gregorian_def greg_of_ymd_def greg_exists_def month_length_def read_nat_def digit_val_def ok_or_def)
  have "calculate_age_from_dob gregorian (Date 2026 1 2) ''2008-01-05'' \<noteq> Inr (of_nat 17)"
    using read by (simp add: calculate_age_from_dob_def Let_def greg_days_def year_start_def month_length_def leap_def)
  moreover have "greg_exists (Date 2008 1 5)" "greg_exists (Date 2026 1 2)" "(17 :: nat) \<le> 200"
    "Date (year (Date 2008 1 5) + int 17) (month (Date 2008 1 5)) (day (Date 2008 1 5)) \<le> Date 2026 1 2"
    "Date 2026 1 2 < Date (year (Date 2008 1 5) + int (Suc 17)) (month (Date 2008 1 5)) (day (Date 2008 1 5))"
    by (simp_all add: greg_exists_def month_length_def less_eq_date_def less_date_def)
  ultimately show ?thesis using shown_age_off_by_one[OF read, of "Date 2026 1 2" 17] by simp
qed

end
