(* ===== verification/Threads.thy ===== *)
theory Threads
  imports Prelude
begin

text \<open>
  The thread configuration of the prover (\<open>core/src/parallel.rs\<close>): the two global atomics, the
  choice of the thread count, and the entry points that run a closure in a pool. The number of
  hardware threads is a reading (\<open>None\<close> when the platform does not say), a closure is its
  outcome (\<open>None\<close> when it panics), and whether a thread or a pool can be created is an argument.
\<close>

type_synonym usize = nat

record parallel_config =
  pc_enabled :: bool
  pc_max_threads :: usize

definition parallel_config_default :: parallel_config where
  "parallel_config_default = \<lparr>pc_enabled = True, pc_max_threads = 0\<rparr>"

text \<open>\<open>ENABLED\<close>, \<open>MAX_THREADS\<close> and \<open>INIT_DONE\<close>.\<close>

record thread_globals =
  tg_enabled :: bool
  tg_max_threads :: usize
  tg_init_done :: bool

definition thread_globals_start :: thread_globals where
  "thread_globals_start = \<lparr>tg_enabled = True, tg_max_threads = 0, tg_init_done = False\<rparr>"

definition set_parallel_config :: "parallel_config \<Rightarrow> thread_globals \<Rightarrow> thread_globals" where
  "set_parallel_config cfg g = g\<lparr>tg_enabled := pc_enabled cfg, tg_max_threads := pc_max_threads cfg\<rparr>"

definition get_parallel_config :: "thread_globals \<Rightarrow> parallel_config" where
  "get_parallel_config g = \<lparr>pc_enabled = tg_enabled g, pc_max_threads = tg_max_threads g\<rparr>"

definition hw_threads :: "usize option \<Rightarrow> usize" where
  "hw_threads available = (case available of Some n \<Rightarrow> n | None \<Rightarrow> 1)"

definition determine_optimal_threads :: "usize option \<Rightarrow> usize" where
  "determine_optimal_threads available =
     (let n = hw_threads available in if 1 \<le> n \<and> n \<le> 2 then 1 else max (n - 2) 1)"

definition effective_threads :: "usize option \<Rightarrow> thread_globals \<Rightarrow> usize" where
  "effective_threads available g =
     (if \<not> tg_enabled g then 1
      else let configured_max = tg_max_threads g
           in if configured_max = 0 then determine_optimal_threads available
              else max (min configured_max (hw_threads available)) 1)"

definition clamp_threads :: "usize \<Rightarrow> usize" where
  "clamp_threads n = max 1 (min n 16)"

definition set_proof_threads :: "usize \<Rightarrow> thread_globals \<Rightarrow> thread_globals" where
  "set_proof_threads threads g = g\<lparr>tg_max_threads := clamp_threads threads\<rparr>"

definition parallel_initialize :: "thread_globals \<Rightarrow> thread_globals" where
  "parallel_initialize g =
     (if tg_init_done g then g
      else (if pc_max_threads (get_parallel_config g) = 0 then g\<lparr>tg_max_threads := 0\<rparr> else g)\<lparr>tg_init_done := True\<rparr>)"

text \<open>
  \<open>spawned\<close> says whether the single thread could be created. When the pool cannot be built the
  closure runs on the calling thread, so the outcome does not depend on the pool. The second
  component is the number of threads the closure has at its disposal.
\<close>

definition try_with_prover_pool ::
    "usize option \<Rightarrow> thread_globals \<Rightarrow> bool \<Rightarrow> bool \<Rightarrow> 'a option \<Rightarrow> 'a option \<times> usize" where
  "try_with_prover_pool available g spawned pool_built f =
     (let threads = effective_threads available g
      in if threads = 1 then (if spawned then f else None, 1)
         else if pool_built then (f, threads)
         else (f, 1))"

definition try_with_forced_threads :: "usize \<Rightarrow> bool \<Rightarrow> 'a option \<Rightarrow> 'a option \<times> usize" where
  "try_with_forced_threads threads pool_built f =
     (let clamped_threads = clamp_threads threads
      in if clamped_threads = 1 then (f, 1)
         else if pool_built then (f, clamped_threads)
         else (f, 1))"

definition get_thread_info :: "usize option \<Rightarrow> thread_globals \<Rightarrow> string" where
  "get_thread_info available g =
     ''Hardware cores: '' @ show_nat (hw_threads available) @ '', Effective threads: '' @
     show_nat (effective_threads available g) @ '', Configured max: '' @ show_nat (tg_max_threads g) @
     '', Enabled: '' @ show_bool (tg_enabled g)"

section \<open>Facts\<close>

text \<open>
  Whatever has been configured: at least one thread and never more than the hardware has, and
  without a configured maximum two cores stay free on a machine with more than two.
\<close>

lemma effective_threads_bounds:
  "1 \<le> effective_threads available g"
  "effective_threads available g \<le> max 1 (hw_threads available)"
  "tg_enabled g \<Longrightarrow> tg_max_threads g = 0 \<Longrightarrow> 2 < hw_threads available \<Longrightarrow>
     effective_threads available g + 2 = hw_threads available"
  by (auto simp: effective_threads_def determine_optimal_threads_def Let_def)

lemma config_roundtrip: "get_parallel_config (set_parallel_config cfg g) = cfg"
  by (simp add: get_parallel_config_def set_parallel_config_def)

lemma initialize_once:
  "parallel_initialize (parallel_initialize g) = parallel_initialize g"
  "get_parallel_config (parallel_initialize g) = get_parallel_config g"
  by (simp_all add: parallel_initialize_def get_parallel_config_def)

text \<open>A closure that returns is never lost to the lack of a pool, only to the lack of a thread.\<close>

lemma pool_outcome:
  "fst (try_with_prover_pool available g True pool_built f) = f"
  "fst (try_with_forced_threads n pool_built f) = f"
  by (simp_all add: try_with_prover_pool_def try_with_forced_threads_def Let_def)

end
