(* ===== verification/Android_Init.thy ===== *)
theory Android_Init
  imports Store_Android Threads
begin

text \<open>
  The start of the library on Android and its use of JNI: \<open>jni_safe_call\<close> and the context lookup
  (\<open>store-android/src/keystore_ops.rs\<close>), the probe of the hardware keystore call by call
  (\<open>hardware.rs\<close>), the process-wide cells that \<open>JNI_OnLoad\<close> (\<open>store-android/src/lib.rs\<close>) and the
  exported functions of \<open>ffi/src/android_init.rs\<close> fill, and the label of a key in the logs. The
  calls of the Java virtual machine are the parameter \<open>jvm\<close>; logging has no effect.
\<close>

section \<open>The virtual machine\<close>

text \<open>References are numbers, 0 the null reference; an error of the \<open>jni\<close> crate is its text.\<close>

datatype jvalue = JRef nat | JInt "32 word" | JBool bool | JVoid

datatype jmake = FindClass string | NewString string | NewObject nat string "jvalue list" | NewObjectArray int string nat

datatype jcall =
    CallMethod nat string string "jvalue list"
  | CallStaticMethod nat string string "jvalue list"
  | GetStaticField nat string string

record 'j jvm =
  jv_make :: "jmake \<Rightarrow> ('j, string, nat) op"
  jv_call :: "jcall \<Rightarrow> ('j, string, jvalue) op"
  jv_pending :: "('j, string, bool) op"
  jv_exception :: "('j, string, nat) op"
  jv_clear :: "('j, string, unit) op"
  jv_string :: "nat \<Rightarrow> ('j, string, string) op"
  jv_global_ref :: "nat \<Rightarrow> ('j, string, nat) op"
  jv_wrong :: "string \<Rightarrow> jvalue \<Rightarrow> string"

text \<open>\<open>l()\<close>, \<open>i()\<close> and \<open>z()\<close> of a value.\<close>

definition as_ref :: "'j jvm \<Rightarrow> jvalue \<Rightarrow> string + nat" where
  "as_ref J v = (case v of JRef r \<Rightarrow> Inr r | _ \<Rightarrow> Inl (jv_wrong J ''object'' v))"

definition as_int :: "'j jvm \<Rightarrow> jvalue \<Rightarrow> string + 32 word" where
  "as_int J v = (case v of JInt i \<Rightarrow> Inr i | _ \<Rightarrow> Inl (jv_wrong J ''int'' v))"

definition as_bool :: "'j jvm \<Rightarrow> jvalue \<Rightarrow> string + bool" where
  "as_bool J v = (case v of JBool b \<Rightarrow> Inr b | _ \<Rightarrow> Inl (jv_wrong J ''bool'' v))"

definition jni_to_wallet_error :: "string \<Rightarrow> platform_error" where
  "jni_to_wallet_error e = PStorage (''JNI error: '' @ e)"

text \<open>A call, and then the pending exception, which is cleared and becomes the error.\<close>

definition exception_text :: "'j jvm \<Rightarrow> nat \<Rightarrow> ('j, string, string) op" where
  "exception_text J exc =
     bindS (jv_call J (CallMethod exc ''toString'' ''()Ljava/lang/String;'' [])) (\<lambda>v.
     bindS (pureS (as_ref J v)) (jv_string J))"

definition jni_safe_call :: "'j jvm \<Rightarrow> ('j, string, 'a) op \<Rightarrow> ('j, platform_error, 'a) op" where
  "jni_safe_call J f =
     bindS (settleS f) (\<lambda>r.
     bindS (map_errS jni_to_wallet_error (jv_pending J)) (\<lambda>pending.
     if pending
     then bindS (map_errS jni_to_wallet_error (jv_exception J)) (\<lambda>exc.
          bindS (map_errS jni_to_wallet_error (jv_clear J)) (\<lambda>_.
          if exc \<noteq> 0
          then bindS (map_errS jni_to_wallet_error (exception_text J exc)) (\<lambda>msg.
               pureS (Inl (PStorage (''JNI exception: '' @ msg))))
          else pureS (Inl (PStorage ''JNI exception occurred''))))
     else pureS (map_err jni_to_wallet_error r)))"

definition safe_make :: "'j jvm \<Rightarrow> jmake \<Rightarrow> ('j, platform_error, nat) op" where
  "safe_make J m = jni_safe_call J (jv_make J m)"

definition safe_call :: "'j jvm \<Rightarrow> jcall \<Rightarrow> ('j, platform_error, jvalue) op" where
  "safe_call J c = jni_safe_call J (jv_call J c)"

definition safe_ref :: "'j jvm \<Rightarrow> jcall \<Rightarrow> ('j, platform_error, nat) op" where
  "safe_ref J c = jni_safe_call J (bindS (jv_call J c) (\<lambda>v. pureS (as_ref J v)))"

section \<open>The device\<close>

definition get_api_level :: "'j jvm \<Rightarrow> ('j, platform_error, 32 word) op" where
  "get_api_level J =
     bindS (safe_make J (FindClass ''android/os/Build$VERSION'')) (\<lambda>cls.
     bindS (safe_call J (GetStaticField cls ''SDK_INT'' ''I'')) (\<lambda>v.
     pureS (map_err jni_to_wallet_error (as_int J v))))"

text \<open>\<open>ctx\<close> is the context the app registered.\<close>

definition get_android_context :: "'j jvm \<Rightarrow> nat option \<Rightarrow> ('j, platform_error, nat) op" where
  "get_android_context J ctx =
     (case ctx of
        Some c \<Rightarrow> pureS (Inr c)
      | None \<Rightarrow>
          bindS (safe_make J (FindClass ''android/app/ActivityThread'')) (\<lambda>cls.
          bindS (safe_ref J (CallStaticMethod cls ''currentActivityThread'' ''()Landroid/app/ActivityThread;'' [])) (\<lambda>th.
          bindS (safe_ref J (CallMethod th ''getApplication'' ''()Landroid/app/Application;'' [])) (\<lambda>app.
          map_errS jni_to_wallet_error (jv_global_ref J app)))))"

definition get_package_manager :: "'j jvm \<Rightarrow> nat option \<Rightarrow> ('j, platform_error, nat) op" where
  "get_package_manager J ctx =
     bindS (get_android_context J ctx) (\<lambda>c.
     bindS (safe_ref J (CallMethod c ''getPackageManager'' ''()Landroid/content/pm/PackageManager;'' [])) (\<lambda>pm.
     map_errS jni_to_wallet_error (jv_global_ref J pm)))"

definition check_strongbox_availability :: "'j jvm \<Rightarrow> nat option \<Rightarrow> ('j, platform_error, bool) op" where
  "check_strongbox_availability J ctx =
     bindS (safe_make J (NewString ''android.hardware.strongbox_keystore'')) (\<lambda>feat.
     bindS (get_package_manager J ctx) (\<lambda>pm.
     bindS (safe_call J (CallMethod pm ''hasSystemFeature'' ''(Ljava/lang/String;)Z'' [JRef feat])) (\<lambda>v.
     pureS (map_err jni_to_wallet_error (as_bool J v)))))"

definition get_security_patch_level :: "'j jvm \<Rightarrow> ('j, platform_error, string) op" where
  "get_security_patch_level J =
     bindS (safe_make J (FindClass ''android/os/Build$VERSION'')) (\<lambda>cls.
     bindS (safe_ref J (GetStaticField cls ''SECURITY_PATCH'' ''Ljava/lang/String;'')) (\<lambda>r.
     jni_safe_call J (jv_string J r)))"

definition biometric_strength :: "32 word \<Rightarrow> string" where
  "biometric_strength api_level = (if 30 \<le>s api_level then ''BIOMETRIC_STRONG'' else ''BIOMETRIC_WEAK'')"

definition jni_check_biometric_hardware :: "'j jvm \<Rightarrow> nat option \<Rightarrow> ('j, platform_error, bool) op" where
  "jni_check_biometric_hardware J ctx =
     bindS (get_api_level J) (\<lambda>api.
     bindS (safe_make J (FindClass ''androidx/biometric/BiometricManager'')) (\<lambda>cls.
     bindS (get_android_context J ctx) (\<lambda>c.
     bindS (safe_ref J (CallStaticMethod cls ''from''
              ''(Landroid/content/Context;)Landroidx/biometric/BiometricManager;'' [JRef c])) (\<lambda>bm.
     bindS (safe_make J (FindClass ''androidx/biometric/BiometricManager$Authenticators'')) (\<lambda>auth.
     bindS (safe_call J (GetStaticField auth (biometric_strength api) ''I'')) (\<lambda>v.
     bindS (pureS (map_err jni_to_wallet_error (as_int J v))) (\<lambda>kind.
     bindS (jni_safe_call J (bindS (jv_call J (CallMethod bm ''canAuthenticate'' ''(I)I'' [JInt kind])) (\<lambda>a.
              pureS (as_int J a)))) (\<lambda>can_auth.
     pureS (Inr (can_auth = 0))))))))))"

section \<open>The probe of the hardware keystore\<close>

definition PROBE_ALIAS :: string where "PROBE_ALIAS = ''__provii_hw_probe''"

definition KEY_SPEC :: string where "KEY_SPEC = ''android/security/keystore/KeyGenParameterSpec''"

text \<open>One string in an array of its own, in one safe call.\<close>

definition string_array :: "'j jvm \<Rightarrow> string \<Rightarrow> ('j, platform_error, nat) op" where
  "string_array J s =
     jni_safe_call J (bindS (jv_make J (NewString s)) (\<lambda>x. jv_make J (NewObjectArray 1 ''java/lang/String'' x)))"

definition probe_spec :: "'j jvm \<Rightarrow> ('j, platform_error, nat) op" where
  "probe_spec J =
     bindS (safe_make J (NewString PROBE_ALIAS)) (\<lambda>alias.
     bindS (safe_make J (FindClass (KEY_SPEC @ ''$Builder''))) (\<lambda>cls.
     bindS (safe_make J (NewObject cls ''(Ljava/lang/String;I)V'' [JRef alias, JInt 3])) (\<lambda>b.
     bindS (string_array J ''GCM'') (\<lambda>modes.
     bindS (safe_ref J (CallMethod b ''setBlockModes''
              ''([Ljava/lang/String;)Landroid/security/keystore/KeyGenParameterSpec$Builder;'' [JRef modes])) (\<lambda>b.
     bindS (string_array J ''NoPadding'') (\<lambda>padding.
     bindS (safe_ref J (CallMethod b ''setEncryptionPaddings''
              ''([Ljava/lang/String;)Landroid/security/keystore/KeyGenParameterSpec$Builder;'' [JRef padding])) (\<lambda>b.
     safe_ref J (CallMethod b ''build'' ''()Landroid/security/keystore/KeyGenParameterSpec;'' []))))))))"

definition generate_key :: "nat \<Rightarrow> jcall" where
  "generate_key kg = CallMethod kg ''generateKey'' ''()Ljavax/crypto/SecretKey;'' []"

text \<open>The generated key and the provider's name, or \<open>None\<close> where the check returns \<open>false\<close>.\<close>

definition probe_key :: "'j jvm \<Rightarrow> ('j, platform_error, (nat \<times> nat) option) op" where
  "probe_key J =
     bindS (settleS (safe_make J (FindClass KEY_SPEC))) (\<lambda>api.
     if \<not> is_ok api then pureS (Inr None)
     else
     bindS (probe_spec J) (\<lambda>spec.
     bindS (safe_make J (FindClass ''javax/crypto/KeyGenerator'')) (\<lambda>cls.
     bindS (safe_make J (NewString ''AES'')) (\<lambda>aes.
     bindS (safe_make J (NewString ''AndroidKeyStore'')) (\<lambda>aks.
     bindS (safe_ref J (CallStaticMethod cls ''getInstance''
              ''(Ljava/lang/String;Ljava/lang/String;)Ljavax/crypto/KeyGenerator;'' [JRef aes, JRef aks])) (\<lambda>kg.
     bindS (settleS (safe_call J (CallMethod kg ''init'' ''(Ljava/security/spec/AlgorithmParameterSpec;)V'' [JRef spec]))) (\<lambda>i.
     if \<not> is_ok i then pureS (Inr None)
     else
     bindS (settleS (safe_ref J (generate_key kg))) (\<lambda>k.
     pureS (Inr (case k of Inl _ \<Rightarrow> None | Inr key \<Rightarrow> Some (key, aks)))))))))))"

text \<open>Up to the \<open>KeyInfo\<close> of the key, whose outcome is looked at after the clean-up.\<close>

definition probe_key_info :: "'j jvm \<Rightarrow> nat \<times> nat \<Rightarrow> ('j, platform_error, platform_error + nat) op" where
  "probe_key_info J = (\<lambda>(key, aks).
     bindS (safe_make J (FindClass ''javax/crypto/SecretKeyFactory'')) (\<lambda>cls.
     bindS (safe_ref J (CallMethod key ''getAlgorithm'' ''()Ljava/lang/String;'' [])) (\<lambda>algo.
     bindS (safe_ref J (CallStaticMethod cls ''getInstance''
              ''(Ljava/lang/String;Ljava/lang/String;)Ljavax/crypto/SecretKeyFactory;'' [JRef algo, JRef aks])) (\<lambda>skf.
     bindS (safe_make J (FindClass ''android/security/keystore/KeyInfo'')) (\<lambda>info.
     settleS (safe_ref J (CallMethod skf ''getKeySpec''
              ''(Ljava/security/Key;Ljava/lang/Class;)Ljava/security/spec/KeySpec;'' [JRef key, JRef info])))))))"

definition delete_entry :: "nat \<Rightarrow> nat \<Rightarrow> jcall" where
  "delete_entry ks alias = CallMethod ks ''deleteEntry'' ''(Ljava/lang/String;)V'' [JRef alias]"

definition probe_cleanup :: "'j jvm \<Rightarrow> ('j, platform_error, unit) op" where
  "probe_cleanup J =
     bindS (safe_make J (FindClass ''java/security/KeyStore'')) (\<lambda>cls.
     bindS (safe_make J (NewString ''AndroidKeyStore'')) (\<lambda>aks.
     bindS (safe_ref J (CallStaticMethod cls ''getInstance'' ''(Ljava/lang/String;)Ljava/security/KeyStore;'' [JRef aks])) (\<lambda>ks.
     bindS (safe_call J (CallMethod ks ''load'' ''(Ljava/security/KeyStore$LoadStoreParameter;)V'' [JRef 0])) (\<lambda>_.
     bindS (safe_make J (NewString PROBE_ALIAS)) (\<lambda>alias.
     bindS (safe_call J (delete_entry ks alias)) (\<lambda>_.
     pureS (Inr ())))))))"

definition probe_verdict :: "'j jvm \<Rightarrow> platform_error + nat \<Rightarrow> ('j, platform_error, bool) op" where
  "probe_verdict J spec =
     (case spec of
        Inl _ \<Rightarrow> pureS (Inr False)
      | Inr ks \<Rightarrow>
          bindS (settleS (jni_safe_call J (bindS (jv_call J (CallMethod ks ''isInsideSecureHardware'' ''()Z'' [])) (\<lambda>v.
             pureS (as_bool J v))))) (\<lambda>r.
          pureS (Inr (case r of Inr hw \<Rightarrow> hw | Inl _ \<Rightarrow> False))))"

definition check_hardware_keystore :: "'j jvm \<Rightarrow> ('j, platform_error, bool) op" where
  "check_hardware_keystore J =
     bindS (probe_key J) (\<lambda>key.
     case key of
       None \<Rightarrow> pureS (Inr False)
     | Some k \<Rightarrow>
         bindS (probe_key_info J k) (\<lambda>spec.
         bindS (settleS (probe_cleanup J)) (\<lambda>_ :: platform_error + unit.
         probe_verdict J spec)))"

text \<open>The whole assessment, as \<open>Store_Android\<close> asks for it through its bridge.\<close>

definition jni_assess_hardware_features :: "'j jvm \<Rightarrow> nat option \<Rightarrow> u64 \<Rightarrow> ('j, platform_error, device_profile) op" where
  "jni_assess_hardware_features J ctx now =
     bindS (get_api_level J) (\<lambda>api.
     bindS (check_hardware_keystore J) (\<lambda>hw.
     bindS (check_strongbox_availability J ctx) (\<lambda>sb.
     bindS (jni_check_biometric_hardware J ctx) (\<lambda>bio.
     bindS (get_security_patch_level J) (\<lambda>patch.
     pureS (Inr \<lparr>dp_has_strongbox = sb, dp_has_hardware_keystore = hw, dp_has_biometric_hardware = bio,
       dp_security_patch_level = patch, dp_api_level = sint api, dp_last_assessed = now\<rparr>))))))"

section \<open>Process-wide state\<close>

datatype panic_hook = DefaultHook | OnLoadHook | RuntimeHook

text \<open>\<open>JVM\<close>, \<open>APP_CONTEXT\<close>, \<open>INIT_ONCE\<close>, the global thread pool and the panic hook.\<close>

record process =
  pr_jvm :: bool
  pr_context :: "nat option"
  pr_runtime_done :: bool
  pr_pool :: "nat option"
  pr_hook :: panic_hook

definition process_start :: process where
  "process_start = \<lparr>pr_jvm = False, pr_context = None, pr_runtime_done = False, pr_pool = None, pr_hook = DefaultHook\<rparr>"

definition proof_threads :: "nat option \<Rightarrow> nat" where
  "proof_threads available = (let n = hw_threads available in if 1 \<le> n \<and> n \<le> 2 then 1 else max (n - 2) 1)"

text \<open>\<open>build_global\<close>: an error when the pool exists already or its threads cannot be created.\<close>

definition build_global :: "nat \<Rightarrow> bool \<Rightarrow> process \<Rightarrow> process" where
  "build_global threads can_spawn p = (if pr_pool p = None \<and> can_spawn then p\<lparr>pr_pool := Some threads\<rparr> else p)"

definition JNI_VERSION_1_6 :: int where "JNI_VERSION_1_6 = 0x00010006"

text \<open>A second load keeps the first virtual machine; both answer with the version.\<close>

definition JNI_OnLoad :: "nat option \<Rightarrow> bool \<Rightarrow> process \<Rightarrow> int \<times> process" where
  "JNI_OnLoad available can_spawn p =
     (let p1 = (build_global (proof_threads available) can_spawn p)\<lparr>pr_hook := OnLoadHook\<rparr>
      in if pr_jvm p1 then (JNI_VERSION_1_6, p1) else (JNI_VERSION_1_6, p1\<lparr>pr_jvm := True\<rparr>))"

definition initialize_android_runtime :: "nat option \<Rightarrow> bool \<Rightarrow> process \<Rightarrow> process" where
  "initialize_android_runtime available can_spawn p =
     (if pr_runtime_done p then p
      else (build_global (proof_threads available) can_spawn p)\<lparr>pr_hook := RuntimeHook, pr_runtime_done := True\<rparr>)"

datatype store_error = AlreadyInitialised | Jni string

text \<open>\<open>new_ref\<close> is the outcome of \<open>new_global_ref\<close>.\<close>

definition init_android_context :: "string + nat \<Rightarrow> (process, store_error, unit) op" where
  "init_android_context new_ref p =
     (case new_ref of
        Inl e \<Rightarrow> (Inl (Jni e), p)
      | Inr g \<Rightarrow> (case pr_context p of
          Some _ \<Rightarrow> (Inl AlreadyInitialised, p)
        | None \<Rightarrow> (Inr (), p\<lparr>pr_context := Some g\<rparr>)))"

definition RESULT_OK :: int where "RESULT_OK = 0"
definition RESULT_ALREADY_INITIALISED :: int where "RESULT_ALREADY_INITIALISED = 1"
definition RESULT_ERROR :: int where "RESULT_ERROR = - 1"

definition initAndroidContext :: "nat option \<Rightarrow> bool \<Rightarrow> string + nat \<Rightarrow> process \<Rightarrow> int \<times> process" where
  "initAndroidContext available can_spawn new_ref p =
     (case init_android_context new_ref (initialize_android_runtime available can_spawn p) of
        (r, p') \<Rightarrow> ((case r of Inr _ \<Rightarrow> RESULT_OK
                    | Inl AlreadyInitialised \<Rightarrow> RESULT_ALREADY_INITIALISED
                    | Inl (Jni _) \<Rightarrow> RESULT_ERROR), p'))"

definition verifyRayonPool :: "nat option \<Rightarrow> bool \<Rightarrow> process \<Rightarrow> int \<times> process" where
  "verifyRayonPool available can_spawn p = (RESULT_OK, initialize_android_runtime available can_spawn p)"

section \<open>Labels of keys\<close>

text \<open>
  \<open>safe_key_label\<close> with its slices checked: a slice of a text at a place inside a character
  panics, which is \<open>None\<close> here.
\<close>

definition char_boundary :: "string \<Rightarrow> nat \<Rightarrow> bool" where
  "char_boundary s i \<longleftrightarrow> i = length s \<or> i < length s \<and> \<not> (0x80 \<le> (of_char (s ! i) :: nat) \<and> (of_char (s ! i) :: nat) < 0xC0)"

definition slice_to :: "string \<Rightarrow> nat \<Rightarrow> string option" where
  "slice_to s i = (if char_boundary s i then Some (take i s) else None)"

definition key_label_checked :: "(string \<Rightarrow> u64) \<Rightarrow> string \<Rightarrow> string option" where
  "key_label_checked h key =
     Option.bind (slice_to key (min (length key) 20)) (\<lambda>head.
     let prefix_end = (case position_of (CHR ''.'') head of
           Some i \<Rightarrow> i + 1
         | None \<Rightarrow> (case position_of (CHR ''_'') head of Some i \<Rightarrow> i + 1 | None \<Rightarrow> min (length key) 8))
     in map_option (\<lambda>p. p @ ''..'' @ hex8 (h key)) (slice_to key prefix_end))"

end
