(* ===== verification/Android_Init_Properties.thy ===== *)
theory Android_Init_Properties
  imports Android_Init
begin

text \<open>
  What the probe of the hardware keystore leaves behind, what a safe call leaves pending, which
  calls fill the process-wide cells, and when the label of a key can be made.
\<close>

section \<open>Safe calls\<close>

text \<open>
  A virtual machine whose state says with \<open>has\<close> whether the probe's alias is in the keystore. A
  successful \<open>generateKey\<close> returns a key and enters it, a successful \<open>deleteEntry\<close> removes it (the
  probe passes no other alias), nothing else touches it, and a call that succeeds leaves no
  exception pending.
\<close>

definition probe_jvm :: "'j jvm \<Rightarrow> ('j \<Rightarrow> bool) \<Rightarrow> bool" where
  "probe_jvm J has \<longleftrightarrow>
     (\<forall>m b. still (\<lambda>j. has j = b) (jv_make J m))
     \<and> (\<forall>r b. still (\<lambda>j. has j = b) (jv_string J r)) \<and> (\<forall>r b. still (\<lambda>j. has j = b) (jv_global_ref J r))
     \<and> (\<forall>b. still (\<lambda>j. has j = b) (jv_pending J)) \<and> (\<forall>b. still (\<lambda>j. has j = b) (jv_exception J))
     \<and> (\<forall>b. still (\<lambda>j. has j = b) (jv_clear J))
     \<and> (\<forall>c b. (\<forall>x. c \<noteq> generate_key x) \<longrightarrow> (\<forall>x y. c \<noteq> delete_entry x y) \<longrightarrow> still (\<lambda>j. has j = b) (jv_call J c))
     \<and> (\<forall>x j r j'. jv_call J (generate_key x) j = (r, j') \<longrightarrow>
          (case r of Inr v \<Rightarrow> has j' \<and> (\<exists>k. v = JRef k) | Inl _ \<Rightarrow> has j' = has j))
     \<and> (\<forall>x y j r j'. jv_call J (delete_entry x y) j = (r, j') \<longrightarrow> has j' = (has j \<and> \<not> is_ok r))
     \<and> (\<forall>c j v j'. jv_call J c j = (Inr v, j') \<longrightarrow> jv_pending J j' = (Inr False, j'))"

lemma still_jvm:
  assumes "probe_jvm J has"
  shows "still (\<lambda>j. has j = b) (jv_make J m)" "still (\<lambda>j. has j = b) (jv_string J r)"
    "still (\<lambda>j. has j = b) (jv_global_ref J r)" "still (\<lambda>j. has j = b) (jv_pending J)"
    "still (\<lambda>j. has j = b) (jv_exception J)" "still (\<lambda>j. has j = b) (jv_clear J)"
  using assms by (simp_all add: probe_jvm_def)

lemma still_other_call:
  assumes "probe_jvm J has" "\<And>x. c \<noteq> generate_key x" "\<And>x y. c \<noteq> delete_entry x y"
  shows "still (\<lambda>j. has j = b) (jv_call J c)"
  using assms by (simp add: probe_jvm_def)

lemma still_safe:
  assumes "probe_jvm J has" "still (\<lambda>j. has j = b) f"
  shows "still (\<lambda>j. has j = b) (jni_safe_call J f)"
proof -
  have "still (\<lambda>j. has j = b) (exception_text J e)" for e
    unfolding exception_text_def
    by (intro still_intros still_jvm[OF assms(1)] still_other_call[OF assms(1)])
      (simp_all add: generate_key_def delete_entry_def)
  then show ?thesis
    unfolding jni_safe_call_def by (intro still_intros still_jvm[OF assms(1)] assms(2))
qed

lemma still_safe_make: "probe_jvm J has \<Longrightarrow> still (\<lambda>j. has j = b) (safe_make J m)"
  by (simp add: safe_make_def still_safe still_jvm)

lemma still_string_array: "probe_jvm J has \<Longrightarrow> still (\<lambda>j. has j = b) (string_array J s)"
  unfolding string_array_def by (intro still_safe still_bindS still_jvm)

lemma still_safe_call:
  assumes "probe_jvm J has" "\<And>x. c \<noteq> generate_key x" "\<And>x y. c \<noteq> delete_entry x y"
  shows "still (\<lambda>j. has j = b) (safe_call J c)" "still (\<lambda>j. has j = b) (safe_ref J c)"
    "still (\<lambda>j. has j = b) (jni_safe_call J (bindS (jv_call J c) (\<lambda>v. pureS (g v))))"
  unfolding safe_call_def safe_ref_def
  by (intro still_safe still_bindS still_pureS still_other_call assms)+

lemma other_calls [simp]:
  "name \<noteq> ''generateKey'' \<Longrightarrow> CallMethod r name sig as \<noteq> generate_key x"
  "name \<noteq> ''deleteEntry'' \<Longrightarrow> CallMethod r name sig as \<noteq> delete_entry x y"
  "CallStaticMethod r name sig as \<noteq> generate_key x" "CallStaticMethod r name sig as \<noteq> delete_entry x y"
  "delete_entry ks a \<noteq> generate_key x"
  by (simp_all add: generate_key_def delete_entry_def)

lemma ends_any: "ends (\<lambda>_. True) f (\<lambda>_ _. True) (\<lambda>_. True)"
  by (auto simp: ends_def split: sum.split)

lemma safe_fails:
  fixes f :: "('j, string, 'a) op"
  assumes "f j = (Inl e, j1)" "jni_safe_call J f j = (r, j2)"
  shows "\<not> is_ok r"
proof -
  have "ends (\<lambda>_. True)
    (bindS (map_errS jni_to_wallet_error (jv_pending J)) (\<lambda>pending.
     if pending
     then bindS (map_errS jni_to_wallet_error (jv_exception J)) (\<lambda>exc.
          bindS (map_errS jni_to_wallet_error (jv_clear J)) (\<lambda>_.
          if exc \<noteq> 0
          then bindS (map_errS jni_to_wallet_error (exception_text J exc)) (\<lambda>msg.
               pureS (Inl (PStorage (''JNI exception: '' @ msg))))
          else pureS (Inl (PStorage ''JNI exception occurred''))))
     else pureS (map_err jni_to_wallet_error (Inl e :: string + 'a))))
    (\<lambda>_ _. False) (\<lambda>_. True)"
    by (intro ends_bindS[OF ends_any] ends_if ends_pureS) simp_all
  from endsD[OF this, of j1 r j2] show ?thesis
    using assms by (cases r) (simp_all add: jni_safe_call_def settleS_def bindS_def)
qed

text \<open>A safe call whose call succeeds succeeds, and one whose call fails fails.\<close>

lemma safe_outcome:
  assumes "probe_jvm J has" "f j = (r, j1)" "is_ok r \<Longrightarrow> jv_pending J j1 = (Inr False, j1)"
    and "jni_safe_call J f j = (r', j2)"
  shows "is_ok r' = is_ok r \<and> has j2 = has j1"
proof (cases r)
  case (Inr x)
  then have quiet: "f j = (Inr x, j1)" "jv_pending J j1 = (Inr False, j1)" using assms(2,3) by simp_all
  have "jni_safe_call J f j = (Inr x, j1)"
    by (simp add: jni_safe_call_def bindS_def settleS_def map_errS_def pureS_def quiet)
  from trans[OF sym[OF this] assms(4)] have "r' = Inr x" "j2 = j1" by (blast elim: Pair_inject)+
  then show ?thesis by (simp add: Inr)
next
  case (Inl e)
  have "still (\<lambda>j. has j = has j1) (\<lambda>j. (r, j1))" by (simp add: still_def)
  note kept = still_safe[OF assms(1) this]
  have "jni_safe_call J (\<lambda>_. (r, j1)) j1 = jni_safe_call J f j"
    by (simp add: jni_safe_call_def settleS_def bindS_def assms(2))
  then have "has j2 = has j1" using stillD[OF kept refl] assms(4) by metis
  moreover have "\<not> is_ok r'"
    using safe_fails[OF _ assms(4)] assms(2) Inl by simp
  ultimately show ?thesis using Inl by simp
qed

section \<open>The probe\<close>

lemma probe_prepared:
  assumes "probe_jvm J has"
  shows "still (\<lambda>j. has j = b) (probe_spec J)"
  unfolding probe_spec_def
  by (intro still_bindS still_safe_make still_string_array still_safe_call assms) simp_all

lemma probe_generated:
  assumes "probe_jvm J has"
  shows "ends (\<lambda>j. \<not> has j) (settleS (safe_ref J (generate_key kg))) (\<lambda>r j. has j = is_ok r) (\<lambda>j. \<not> has j)"
proof (rule endsI)
  fix j r j' assume none: "\<not> has j" and run: "settleS (safe_ref J (generate_key kg)) j = (r, j')"
  let ?f = "bindS (jv_call J (generate_key kg)) (\<lambda>v. pureS (as_ref J v))"
  obtain q j1 where call: "jv_call J (generate_key kg) j = (q, j1)" by fastforce
  obtain r' where r': "jni_safe_call J ?f j = (r', j')" "r = Inr r'"
    using run by (auto simp: settleS_def safe_ref_def split: prod.splits)
  have q: "case q of Inr v \<Rightarrow> has j1 \<and> (\<exists>k. v = JRef k) | Inl _ \<Rightarrow> \<not> has j1"
    using assms call none by (fastforce simp: probe_jvm_def split: sum.splits)
  have quiet: "q = Inr v \<Longrightarrow> jv_pending J j1 = (Inr False, j1)" for v
    using assms call by (auto simp: probe_jvm_def)
  from q have "?f j = (case q of Inr (JRef k) \<Rightarrow> Inr k | Inl e \<Rightarrow> Inl e, j1)"
    using call by (auto simp: bindS_def pureS_def as_ref_def split: sum.splits)
  from safe_outcome[OF assms this _ r'(1)] q quiet r'(2)
  show "case r of Inr x \<Rightarrow> has j' = is_ok x | Inl _ \<Rightarrow> \<not> has j'"
    by (cases q) auto
qed

lemma probe_key_ends:
  assumes "probe_jvm J has"
  shows "ends (\<lambda>j. \<not> has j) (probe_key J) (\<lambda>k j. has j = (k \<noteq> None)) (\<lambda>j. \<not> has j)"
proof -
  have still: "still (\<lambda>j. has j = False) f \<Longrightarrow> ends (\<lambda>j. \<not> has j) f (\<lambda>_ j. \<not> has j) (\<lambda>j. \<not> has j)" for f
    using still_ends[of "\<lambda>j. has j = False" f] by simp
  show ?thesis
    unfolding probe_key_def
    by (intro ends_bindS[OF still] ends_bindS[OF probe_generated[OF assms]] ends_if ends_pureS still_settleS
        probe_prepared[OF assms] still_safe_make[OF assms] still_safe_call[OF assms])
      (auto split: sum.splits)
qed

lemma probe_key_info_still:
  assumes "probe_jvm J has"
  shows "still (\<lambda>j. has j = b) (probe_key_info J k)"
  unfolding probe_key_info_def
  by (cases k, simp only: prod.case)
    (intro still_bindS still_settleS still_safe_make still_safe_call assms; simp)

lemma probe_verdict_still:
  assumes "probe_jvm J has"
  shows "still (\<lambda>j. has j = b) (probe_verdict J spec)"
  unfolding probe_verdict_def
  by (cases spec; simp only: sum.case; intro still_bindS still_settleS still_pureS still_safe_call assms; simp)

lemma probe_deleted:
  assumes "probe_jvm J has"
  shows "ends has (safe_call J (delete_entry ks a)) (\<lambda>_ j. \<not> has j) has"
proof (rule endsI)
  fix j r j' assume has: "has j" and run: "safe_call J (delete_entry ks a) j = (r, j')"
  obtain q j1 where call: "jv_call J (delete_entry ks a) j = (q, j1)" by fastforce
  have "has j1 = (\<not> is_ok q)" using assms call has by (simp add: probe_jvm_def)
  moreover have "is_ok q \<Longrightarrow> jv_pending J j1 = (Inr False, j1)"
    using assms call by (cases q) (auto simp: probe_jvm_def)
  ultimately show "case r of Inr _ \<Rightarrow> \<not> has j' | Inl _ \<Rightarrow> has j'"
    using safe_outcome[OF assms call _ run[unfolded safe_call_def]] by (cases r; cases q) auto
qed

lemma probe_cleanup_ends:
  assumes "probe_jvm J has"
  shows "ends has (probe_cleanup J) (\<lambda>_ j. \<not> has j) has"
proof -
  have still: "still (\<lambda>j. has j = True) f \<Longrightarrow> ends has f (\<lambda>_. has) has" for f
    using still_ends[of "\<lambda>j. has j = True" f] by simp
  show ?thesis
    unfolding probe_cleanup_def
    by (intro ends_bindS[OF still] ends_bindS[OF probe_deleted[OF assms]] ends_pureS
        still_safe_make[OF assms] still_safe_call[OF assms]) simp_all
qed

text \<open>C29: Exactly two failures leave the probe key in the keystore of the device: after the key is
  generated, a step before the clean-up fails, so that the check returns an error without
  cleaning up, or a step of the clean-up itself fails. In every other case the keystore is left
  as it was, although the check may have stopped at any of its calls.\<close>

theorem probe_key_left_exactly:
  assumes "probe_jvm J has" "\<not> has j"
  shows "has (snd (check_hardware_keystore J j)) \<longleftrightarrow>
    (\<exists>k j1. probe_key J j = (Inr (Some k), j1) \<and>
       (case probe_key_info J k j1 of
          (Inl _, j2) \<Rightarrow> snd (check_hardware_keystore J j) = j2 \<and> \<not> is_ok (fst (check_hardware_keystore J j))
        | (Inr _, j2) \<Rightarrow> \<not> is_ok (fst (probe_cleanup J j2))))"
proof -
  obtain r j1 where key: "probe_key J j = (r, j1)" by fastforce
  note k = endsD[OF probe_key_ends[OF assms(1)] assms(2) key]
  show ?thesis
  proof (cases "\<exists>k. r = Inr (Some k)")
    case False
    then have "snd (check_hardware_keystore J j) = j1"
      using key by (cases r) (auto simp: check_hardware_keystore_def bindS_def pureS_def split: option.splits)
    with False k key show ?thesis by (cases r) auto
  next
    case True
    then obtain k where r: "r = Inr (Some k)" by blast
    with k have has1: "has j1" by simp
    obtain i j2 where info: "probe_key_info J k j1 = (i, j2)" by fastforce
    have has2: "has j2" using stillD[OF probe_key_info_still[OF assms(1), of True] _ info] has1 by simp
    show ?thesis
    proof (cases i)
      case (Inl e)
      with r key info has2 show ?thesis by (simp add: check_hardware_keystore_def bindS_def)
    next
      case (Inr spec)
      obtain c j3 where clean: "probe_cleanup J j2 = (c, j3)" by fastforce
      obtain v j4 where verdict: "probe_verdict J spec j3 = (v, j4)" by fastforce
      have "has j4 = has j3" using stillD[OF probe_verdict_still[OF assms(1), of "has j3"] _ verdict] by simp
      moreover have "has j3 = (\<not> is_ok c)"
        using endsD[OF probe_cleanup_ends[OF assms(1)] has2 clean] by (cases c) auto
      moreover have "check_hardware_keystore J j = (v, j4)"
        using r key info Inr clean verdict by (simp add: check_hardware_keystore_def bindS_def settleS_def)
      ultimately show ?thesis using r key info Inr clean by simp
    qed
  qed
qed

text \<open>A device that knows no \<open>SecretKeyFactory\<close>: the state says whether the key is there.\<close>

definition no_factory :: "bool jvm" where
  "no_factory =
     \<lparr>jv_make = (\<lambda>m j. (if m = FindClass ''javax/crypto/SecretKeyFactory'' then Inl ''ClassNotFound'' else Inr 1, j)),
      jv_call = (\<lambda>c j. (Inr (JRef 1), if \<exists>x. c = generate_key x then True else if \<exists>x y. c = delete_entry x y then False else j)),
      jv_pending = (\<lambda>j. (Inr False, j)), jv_exception = (\<lambda>j. (Inr 0, j)), jv_clear = (\<lambda>j. (Inr (), j)),
      jv_string = (\<lambda>_ j. (Inr [], j)), jv_global_ref = (\<lambda>r j. (Inr r, j)), jv_wrong = (\<lambda>_ _. [])\<rparr>"

lemma probe_key_left_exactly_witness:
  "snd (check_hardware_keystore no_factory False) \<and> \<not> is_ok (fst (check_hardware_keystore no_factory False))"
proof -
  have laws: "probe_jvm no_factory (\<lambda>j. j)"
    by (auto simp: probe_jvm_def no_factory_def still_def)
  note defs = safe_make_def safe_ref_def safe_call_def string_array_def jni_safe_call_def bindS_def settleS_def pureS_def
    map_errS_def as_ref_def no_factory_def
  have key: "probe_key no_factory False = (Inr (Some (Suc 0, Suc 0)), True)"
    by (simp add: probe_key_def probe_spec_def KEY_SPEC_def PROBE_ALIAS_def defs) blast
  have info: "probe_key_info no_factory (Suc 0, Suc 0) True = (Inl (PStorage ''JNI error: ClassNotFound''), True)"
    by (simp add: probe_key_info_def jni_to_wallet_error_def defs)
  have "check_hardware_keystore no_factory False = (Inl (PStorage ''JNI error: ClassNotFound''), True)"
    by (simp add: check_hardware_keystore_def bindS_def key info)
  then show ?thesis
    using probe_key_left_exactly[OF laws, of False] key info by auto
qed

section \<open>Starting the process\<close>

datatype boot = OnLoad "nat option" bool | InitContext "nat option" bool "string + nat" | VerifyPool "nat option" bool

text \<open>The return codes of the \<open>initAndroidContext\<close> calls, and the process at the end.\<close>

fun run_boots :: "boot list \<Rightarrow> process \<Rightarrow> int list \<times> process" where
  "run_boots [] p = ([], p)"
| "run_boots (OnLoad a c # bs) p = (case JNI_OnLoad a c p of (_, p1) \<Rightarrow> run_boots bs p1)"
| "run_boots (InitContext a c r # bs) p =
     (case initAndroidContext a c r p of (code, p1) \<Rightarrow> case run_boots bs p1 of (cs, p2) \<Rightarrow> (code # cs, p2))"
| "run_boots (VerifyPool a c # bs) p = (case verifyRayonPool a c p of (_, p1) \<Rightarrow> run_boots bs p1)"

text \<open>The contexts that the calls could hand over, in order.\<close>

fun contexts :: "boot list \<Rightarrow> nat list" where
  "contexts [] = []"
| "contexts (InitContext a c (Inr g) # bs) = g # contexts bs"
| "contexts (_ # bs) = contexts bs"

lemma proof_threads_optimal: "proof_threads available = determine_optimal_threads available"
  by (simp add: proof_threads_def determine_optimal_threads_def)

lemma boot_context [simp]:
  "pr_context (snd (JNI_OnLoad a c p)) = pr_context p" "pr_context (initialize_android_runtime a c p) = pr_context p"
  by (simp_all add: JNI_OnLoad_def initialize_android_runtime_def build_global_def Let_def)

lemma boot_pool:
  "pr_pool p = Some n \<Longrightarrow> pr_pool (snd (JNI_OnLoad a c p)) = Some n"
  "pr_pool p = Some n \<Longrightarrow> pr_pool (initialize_android_runtime a c p) = Some n"
  by (simp_all add: JNI_OnLoad_def initialize_android_runtime_def build_global_def Let_def)

text \<open>What one registration does to the context, with its return code.\<close>

lemma registration:
  "initAndroidContext a c r p = (case r of
     Inl e \<Rightarrow> (-1, initialize_android_runtime a c p)
   | Inr g \<Rightarrow> (case pr_context p of
       Some _ \<Rightarrow> (1, initialize_android_runtime a c p)
     | None \<Rightarrow> (0, (initialize_android_runtime a c p)\<lparr>pr_context := Some g\<rparr>)))"
  by (simp add: initAndroidContext_def init_android_context_def RESULT_OK_def RESULT_ALREADY_INITIALISED_def
      RESULT_ERROR_def split: sum.split option.split)

lemma run_boots_context:
  "run_boots bs p = (cs, p') \<Longrightarrow>
     pr_context p' = (case pr_context p of Some c \<Rightarrow> Some c | None \<Rightarrow> (case contexts bs of [] \<Rightarrow> None | g # _ \<Rightarrow> Some g))
     \<and> count_list cs RESULT_OK = (if pr_context p = None \<and> contexts bs \<noteq> [] then 1 else 0)
     \<and> count_list cs RESULT_OK + count_list cs RESULT_ALREADY_INITIALISED = length (contexts bs)"
proof (induction bs arbitrary: p cs)
  case (Cons b bs)
  show ?case
  proof (cases b)
    case (OnLoad a c)
    show ?thesis using Cons.prems Cons.IH[of "snd (JNI_OnLoad a c p)" cs] unfolding OnLoad
      by (cases "pr_context p") (simp_all add: case_prod_beta)
  next
    case (VerifyPool a c)
    show ?thesis using Cons.prems Cons.IH[of "initialize_android_runtime a c p" cs]
      unfolding VerifyPool
      by (cases "pr_context p") (simp_all add: verifyRayonPool_def)
  next
    case (InitContext a c r)
    obtain code p1 where one: "initAndroidContext a c r p = (code, p1)" by fastforce
    with Cons.prems InitContext obtain cs1 where rest: "run_boots bs p1 = (cs1, p')" "cs = code # cs1"
      by (auto split: prod.splits)
    show ?thesis
    proof (cases r)
      case (Inl e)
      with one have "code = -1" "p1 = initialize_android_runtime a c p" by (simp_all add: registration)
      with Cons.IH[OF rest(1)] rest(2) InitContext Inl show ?thesis
        by (cases "pr_context p") (simp_all add: RESULT_OK_def RESULT_ALREADY_INITIALISED_def)
    next
      case (Inr g)
      show ?thesis
      proof (cases "pr_context p")
        case None
        with one Inr have "code = 0" "pr_context p1 = Some g" by (auto simp: registration)
        with Cons.IH[OF rest(1)] rest(2) InitContext Inr None show ?thesis
          by (simp add: RESULT_OK_def RESULT_ALREADY_INITIALISED_def)
      next
        case (Some x)
        with one Inr have "code = 1" "pr_context p1 = Some x" by (auto simp: registration)
        with Cons.IH[OF rest(1)] rest(2) InitContext Inr Some show ?thesis
          by (simp add: RESULT_OK_def RESULT_ALREADY_INITIALISED_def)
      qed
    qed
  qed
qed (simp split: option.split)

lemma run_boots_pool:
  "run_boots bs p = (cs, p') \<Longrightarrow> pr_pool p = Some n \<Longrightarrow> pr_pool p' = Some n"
proof (induction bs arbitrary: p cs)
  case (Cons b bs)
  show ?case
  proof (cases b)
    case (InitContext a c r)
    obtain code p1 where one: "initAndroidContext a c r p = (code, p1)" by fastforce
    with Cons.prems InitContext obtain cs1 where rest: "run_boots bs p1 = (cs1, p')"
      by (auto split: prod.splits)
    have "pr_pool p1 = Some n"
      using one boot_pool(2)[OF Cons.prems(2), of a c] by (auto simp: registration split: sum.splits option.splits)
    then show ?thesis by (rule Cons.IH[OF rest])
  qed (use Cons boot_pool in \<open>auto simp: verifyRayonPool_def case_prod_beta\<close>)
qed simp

text \<open>Whatever sequence of \<open>JNI_OnLoad\<close>, context registrations and pool checks starts the
  process, the registered context is the first one that a registration could hand over and no
  later call replaces it: at most one registration returns 0, and every later one that could
  hand over a context returns 1. The thread pool keeps its size once it is built.\<close>

theorem android_context_set_once:
  assumes "run_boots bs process_start = (cs, p)"
  shows "pr_context p = (case contexts bs of [] \<Rightarrow> None | g # _ \<Rightarrow> Some g)
    \<and> count_list cs 0 = min 1 (length (contexts bs))
    \<and> count_list cs 1 = length (contexts bs) - 1
    \<and> (pr_pool p = Some n \<longrightarrow> pr_pool (snd (run_boots bs' p)) = Some n)"
proof -
  have ctx: "pr_context process_start = None" by (simp add: process_start_def)
  note c = run_boots_context[OF assms, unfolded ctx RESULT_OK_def RESULT_ALREADY_INITIALISED_def]
  moreover have "pr_pool p = Some n \<Longrightarrow> pr_pool (snd (run_boots bs' p)) = Some n"
    using run_boots_pool[of bs' p] by (metis prod.collapse)
  ultimately show ?thesis
    by (cases "contexts bs") (auto split: option.split)
qed

lemma android_context_set_once_witness:
  "pr_context (snd (run_boots [OnLoad (Some 8) True, InitContext (Some 8) True (Inl ''e''), InitContext (Some 8) True (Inr 5),
      InitContext (Some 8) True (Inr 6)] process_start)) = Some 5"
proof -
  let ?bs = "[OnLoad (Some 8) True, InitContext (Some 8) True (Inl ''e''), InitContext (Some 8) True (Inr 5),
      InitContext (Some 8) True (Inr 6)]"
  obtain cs p where "run_boots ?bs process_start = (cs, p)" by fastforce
  from android_context_set_once[OF this] this show ?thesis by simp
qed

section \<open>Labels\<close>

lemma position_bound: "position_of c s = Some i \<Longrightarrow> i < length s"
  by (induction s arbitrary: i) (auto simp: position_of_def split: if_splits)

lemma key_char_ascii: "key_char c \<Longrightarrow> (of_char c :: nat) < 0x80"
  by (auto simp: key_char_def Let_def)

text \<open>The label of a key in the logs can be made for every key the storage layer accepts, and it
  shows no more of the key than its first 20 bytes beside the hash. Without that check the
  slicing panics when the key has a multi-byte character across its twentieth byte, and the
  iOS backend makes the label for its debug log before it validates the key.\<close>

theorem key_label_of_valid:
  assumes "validate_key key = Inr ()"
  shows "key_label_checked h key = Some (safe_key_label h key)
    \<and> (\<exists>n. n \<le> 20 \<and> safe_key_label h key = take n key @ ''..'' @ hex8 (h key))"
proof -
  have ascii: "list_all key_char key" using assms by (auto simp: validate_key_def split: if_splits)
  have cut: "slice_to key i = Some (take i key)" if "i \<le> length key" for i
  proof -
    have "i < length key \<Longrightarrow> (of_char (key ! i) :: nat) < 0x80"
      using ascii key_char_ascii by (simp add: list_all_length)
    with that show ?thesis by (auto simp: slice_to_def char_boundary_def)
  qed
  let ?head = "take (min (length key) 20) key"
  define e where "e = (case position_of CHR ''.'' ?head of Some i \<Rightarrow> i + 1
    | None \<Rightarrow> (case position_of CHR ''_'' ?head of Some i \<Rightarrow> i + 1 | None \<Rightarrow> min (length key) 8))"
  have e: "e \<le> min (length key) 20"
    using position_bound[of _ ?head] by (auto simp: e_def min_def split: option.splits if_splits dest!: position_bound)
  have head: "take 20 key = ?head" by (simp add: min_def)
  have "safe_key_label h key = take e key @ ''..'' @ hex8 (h key)"
    unfolding safe_key_label_def Let_def head e_def ..
  moreover have "key_label_checked h key = Some (take e key @ ''..'' @ hex8 (h key))"
    using e by (simp add: key_label_checked_def cut Let_def flip: e_def)
  ultimately show ?thesis using e by auto
qed

lemma key_label_of_valid_witness:
  "key_label_checked (\<lambda>_. 0) ''provii.identity'' \<noteq> None
   \<and> key_label_checked (\<lambda>_. 0) (replicate 19 CHR ''a'' @ [CHR 0xC3, CHR 0xA9]) = None"
proof
  have "validate_key ''provii.identity'' = Inr ()" by (simp add: validate_key_def key_char_def)
  from key_label_of_valid[OF this] show "key_label_checked (\<lambda>_. 0) ''provii.identity'' \<noteq> None" by simp
  show "key_label_checked (\<lambda>_. 0) (replicate 19 CHR ''a'' @ [CHR 0xC3, CHR 0xA9]) = None"
    by (simp add: key_label_checked_def slice_to_def char_boundary_def nth_append)
qed

end
