(* ===== verification/Redaction.thy ===== *)
theory Redaction
  imports Entry_Points
begin

text \<open>
  What the types of the program print of themselves: the hand-written \<open>Debug\<close> texts that leave
  out secrets, the derived one that does not, and the conversions of errors into the core error
  (\<open>core/src/types.rs\<close>, \<open>issuance.rs\<close>, \<open>blind_issuance.rs\<close>, \<open>error.rs\<close>; \<open>ffi/src/types.rs\<close>,
  \<open>qr.rs\<close>, \<open>wallet/mod.rs\<close>). \<open>D\<close> is the standard library's \<open>Debug\<close> text of a string, with its
  quotes and escapes. \<open>debug_hides_secrets\<close> says which fields the texts do not depend on.
\<close>

section \<open>The formatter\<close>

fun joined :: "string list \<Rightarrow> string" where
  "joined [] = []"
| "joined [x] = x"
| "joined (x # xs) = x @ '', '' @ joined xs"

definition debug_struct :: "string \<Rightarrow> (string \<times> string) list \<Rightarrow> string" where
  "debug_struct name fs = name @ '' { '' @ joined (map (\<lambda>(k, v). k @ '': '' @ v) fs) @ '' }''"

definition debug_opt :: "('a \<Rightarrow> string) \<Rightarrow> 'a option \<Rightarrow> string" where
  "debug_opt f v = (case v of Some x \<Rightarrow> ''Some('' @ f x @ '')'' | None \<Rightarrow> ''None'')"

definition debug_word :: "'w::len word \<Rightarrow> string" where
  "debug_word w = show_nat (unat w)"

definition debug_bytes :: "bytes \<Rightarrow> string" where
  "debug_bytes bs = ''['' @ joined (map debug_word bs) @ '']''"

definition hidden :: "(string \<Rightarrow> string) \<Rightarrow> string" where
  "hidden D = D ''[REDACTED]''"

section \<open>Core types\<close>

definition debug_credential :: "(string \<Rightarrow> string) \<Rightarrow> credential \<Rightarrow> string" where
  "debug_credential D c = debug_struct ''CredentialV2''
     [(''v'', debug_word (cred_v c)), (''kid'', D (cred_kid c)), (''issuer_vk'', debug_bytes (cred_issuer_vk c)),
      (''sig_rj'', debug_bytes (cred_sig_rj c)), (''c_bytes'', debug_bytes (cred_c_bytes c)),
      (''iat'', debug_word (cred_iat c)), (''exp'', debug_word (cred_exp c)), (''schema'', D (cred_schema c)),
      (''dob_days'', hidden D), (''r_bits'', hidden D)]"

definition debug_start_response :: "(string \<Rightarrow> string) \<Rightarrow> start_response \<Rightarrow> string" where
  "debug_start_response D r = debug_struct ''StartResponse''
     [(''session_id'', hidden D), (''kid'', D (so_kid r)), (''schema'', D (so_schema r)),
      (''iat'', debug_word (so_iat r)), (''exp'', debug_word (so_exp r)), (''expires_at'', show_int (sint (so_expires_at r)))]"

definition debug_authorizer :: "(string \<Rightarrow> string) \<Rightarrow> authorizer \<Rightarrow> string" where
  "debug_authorizer D a = debug_struct ''Authorizer''
     [(''format'', D (au_format a)), (''key_id'', D (au_key_id a)), (''challenge_id'', debug_opt D (au_challenge_id a)),
      (''timestamp'', debug_word (au_timestamp a)), (''hmac'', hidden D), (''nonce'', D (au_nonce a))]"

text \<open>Derived, so the authoriser inside prints itself.\<close>

definition debug_start_request :: "(string \<Rightarrow> string) \<Rightarrow> start_request \<Rightarrow> string" where
  "debug_start_request D r = debug_struct ''StartRequest''
     [(''actor'', D (sr_actor r)), (''authorizer'', debug_authorizer D (sr_authorizer r)),
      (''schema'', debug_opt D (sr_schema r)), (''validity_days'', debug_opt debug_word (sr_validity_days r)),
      (''kid'', debug_opt D (sr_kid r))]"

definition debug_challenge_response :: "(string \<Rightarrow> string) \<Rightarrow> challenge_response \<Rightarrow> string" where
  "debug_challenge_response D r = debug_struct ''ChallengeResponse''
     [(''challenge_id'', D (co_challenge_id r)), (''challenge'', hidden D),
      (''expires_at'', show_int (sint (co_expires_at r)))]"

record sign_commitment_request =
  sc_session_id :: string
  sc_commitment :: bytes
  sc_authorizer :: authorizer

definition debug_sign_commitment_request :: "(string \<Rightarrow> string) \<Rightarrow> sign_commitment_request \<Rightarrow> string" where
  "debug_sign_commitment_request D r = debug_struct ''SignCommitmentRequest''
     [(''session_id'', hidden D), (''commitment'', debug_bytes (sc_commitment r)),
      (''authorizer'', debug_authorizer D (sc_authorizer r))]"

definition debug_payload :: "(string \<Rightarrow> string) \<Rightarrow> qr_payload \<Rightarrow> string" where
  "debug_payload D q = debug_struct ''QrChallengePayload''
     [(''challenge_id'', D (qr_challenge_id q)), (''rp_challenge'', hidden D),
      (''cutoff_days'', show_i32 (qr_cutoff_days q)), (''verifying_key_id'', debug_word (qr_verifying_key_id q)),
      (''submit_secret'', hidden D), (''expires_at'', debug_word (qr_expires_at q)),
      (''verify_url'', D (qr_verify_url q)), (''code_verifier'', hidden D),
      (''proof_direction'', debug_opt D (qr_proof_direction q))]"

definition debug_proof :: "(string \<Rightarrow> string) \<Rightarrow> age_proof_json \<Rightarrow> string" where
  "debug_proof D p = debug_struct ''AgeProofJson''
     [(''verifying_key_id'', debug_word (apj_verifying_key_id p)),
      (''public'', debug_struct ''AgePublicJson''
         [(''cutoff_days'', show_i32 (ap_cutoff_days (apj_public p))), (''rp_challenge'', D (ap_rp_challenge (apj_public p))),
          (''issuer'', debug_struct ''IssuerKeyJson'' [(''value'', D (ap_issuer_value (apj_public p)))]),
          (''cred_nullifier'', D (ap_cred_nullifier (apj_public p)))]),
      (''proof'', D (apj_proof p))]"

definition debug_submit_proof :: "(string \<Rightarrow> string) \<Rightarrow> submit_proof_request \<Rightarrow> string" where
  "debug_submit_proof D r = debug_struct ''SubmitProofRequest''
     [(''challenge_id'', D (spr_challenge_id r)), (''submit_secret'', hidden D), (''code_verifier'', hidden D),
      (''proof'', debug_proof D (spr_proof r))]"

definition debug_commitment_parts :: "(string \<Rightarrow> string) \<Rightarrow> commitment_parts \<Rightarrow> string" where
  "debug_commitment_parts D p = debug_struct ''CommitmentParts''
     [(''dob_days'', hidden D), (''r_bits'', hidden D), (''c_bytes'', debug_bytes (cp_c_bytes p))]"

definition debug_blind_request :: "(string \<Rightarrow> string) \<Rightarrow> blind_request \<Rightarrow> string" where
  "debug_blind_request D r = debug_struct ''BlindIssuanceRequest''
     [(''attestation'', D (br_attestation r)), (''r_bits'', hidden D)]"

definition debug_blind_flow :: "(string \<Rightarrow> string) \<Rightarrow> blind_flow \<Rightarrow> string" where
  "debug_blind_flow D f = debug_struct ''BlindIssuanceFlow''
     [(''issuer_id'', D (att_issuer_id (bf_attestation f))), (''dob_days'', hidden D),
      (''r_bits_len'', show_nat (length (bf_r_bits f)))]"

definition flow_issuer_id :: "blind_flow \<Rightarrow> string" where
  "flow_issuer_id f = att_issuer_id (bf_attestation f)"

definition attestation_timestamp :: "blind_flow \<Rightarrow> u64" where
  "attestation_timestamp f = att_timestamp (bf_attestation f)"

section \<open>FFI types\<close>

definition debug_wallet_config :: "(string \<Rightarrow> string) \<Rightarrow> wallet_config \<Rightarrow> string" where
  "debug_wallet_config D c = debug_struct ''WalletConfig''
     [(''auto_select'', show_bool (wc_auto_select c)), (''network_timeout'', debug_word (wc_network_timeout c)),
      (''cache_proving_keys'', show_bool (wc_cache_proving_keys c)), (''issuer_api_url'', D (wc_issuer_api_url c)),
      (''verifier_api_url'', D (wc_verifier_api_url c)),
      (''verifier_api_key'', debug_opt (\<lambda>_. hidden D) (wc_verifier_api_key c)),
      (''verifier_origin'', debug_opt D (wc_verifier_origin c)), (''environment'', D (wc_environment c)),
      (''enable_parallel_prover'', show_bool (wc_enable_parallel_prover c)),
      (''max_prover_threads'', debug_word (wc_max_prover_threads c))]"

definition debug_secrets :: "(string \<Rightarrow> string) \<Rightarrow> credential_secrets \<Rightarrow> string" where
  "debug_secrets D s = debug_struct ''CredentialSecrets''
     [(''dob_days'', hidden D), (''r_bits'', D (''[REDACTED; '' @ show_nat (length (sec_r_bits s)) @ '' bits]''))]"

text \<open>\<open>T\<close> is the \<open>Debug\<close> text of a \<open>SystemTime\<close>.\<close>

definition debug_cached_challenge :: "(string \<Rightarrow> string) \<Rightarrow> (nat \<Rightarrow> string) \<Rightarrow> cached_challenge \<Rightarrow> string" where
  "debug_cached_challenge D T c = debug_struct ''CachedChallenge''
     [(''challenge_id'', D (qr_challenge_id (cc_payload c))), (''cutoff_days'', show_i32 (qr_cutoff_days (cc_payload c))),
      (''submit_secret'', hidden D), (''received_at'', T (cc_received_at c)), (''expires_at'', T (cc_expires_at c))]"

definition debug_qr_envelope :: "(string \<Rightarrow> string) \<Rightarrow> qr_envelope \<Rightarrow> string" where
  "debug_qr_envelope D e = (case e of
       QrVerification q \<Rightarrow> debug_struct ''QrPayload::VerificationChallenge''
         [(''challenge_id'', D (qr_challenge_id q)), (''cutoff_days'', show_i32 (qr_cutoff_days q)),
          (''submit_secret'', hidden D), (''code_verifier'', hidden D)]
     | QrAttestation d \<Rightarrow> debug_struct ''QrPayload::Attestation'' [(''data'', hidden D)])"

text \<open>The payload inside derives its text.\<close>

definition debug_ffi_payload :: "(string \<Rightarrow> string) \<Rightarrow> qr_payload \<Rightarrow> string" where
  "debug_ffi_payload D q = debug_struct ''QrChallengePayload''
     [(''challenge_id'', D (qr_challenge_id q)), (''rp_challenge'', D (qr_rp_challenge q)),
      (''cutoff_days'', show_i32 (qr_cutoff_days q)), (''verifying_key_id'', debug_word (qr_verifying_key_id q)),
      (''submit_secret'', D (qr_submit_secret q)), (''expires_at'', debug_word (qr_expires_at q)),
      (''verify_url'', D (qr_verify_url q)), (''code_verifier'', debug_opt D (qr_code_verifier q)),
      (''proof_direction'', debug_opt D (qr_proof_direction q))]"

section \<open>Errors\<close>

fun show_credential_error :: "credential_error \<Rightarrow> string" where
  "show_credential_error (InvalidJson e) = ''invalid credential json: '' @ e"
| "show_credential_error MissingPrivateFields = ''credential missing required private fields''"
| "show_credential_error InvalidFormat = ''invalid credential format''"
| "show_credential_error Expired = ''credential expired''"
| "show_credential_error NotYetValid = ''credential not yet valid''"
| "show_credential_error (InvalidTimestampOrder iat exp) =
     ''credential iat ('' @ show_nat (unat iat) @ '') exceeds exp ('' @ show_nat (unat exp) @ '')''"
| "show_credential_error (UnsupportedVersion v) =
     ''unsupported credential version: expected 2, got '' @ show_nat (unat v)"

fun show_storage_error :: "storage_error \<Rightarrow> string" where
  "show_storage_error (StoreOperationFailed e) = ''storage operation failed: '' @ e"
| "show_storage_error StoreNotFound = ''credential not found''"
| "show_storage_error StoreAlreadyExists = ''credential already exists''"
| "show_storage_error StoreFull = ''storage is full''"
| "show_storage_error (StoreSerialization e) = ''serialisation error: '' @ e"

text \<open>The errors of serde, base64 and anyhow are their texts.\<close>

definition of_serde_error :: "string \<Rightarrow> wallet_error" where "of_serde_error e = SerializationError e"

definition of_base64_error :: "string \<Rightarrow> wallet_error" where "of_base64_error e = Base64Error e"

definition of_credential_error :: "credential_error \<Rightarrow> wallet_error" where
  "of_credential_error e = CredentialError (show_credential_error e)"

definition wallet_of_prover_error :: "prover_error \<Rightarrow> wallet_error" where
  "wallet_of_prover_error e = ProverErr (show_prover_error e)"

definition of_storage_error :: "storage_error \<Rightarrow> wallet_error" where
  "of_storage_error e = StorageErr (show_storage_error e)"

definition of_anyhow_error :: "string \<Rightarrow> wallet_error" where "of_anyhow_error e = Unknown e"

section \<open>The wallet's end\<close>

text \<open>\<open>Drop\<close>: each part is cleared if its lock can be taken.\<close>

definition drop_wallet :: "bool \<Rightarrow> bool \<Rightarrow> 's wallet \<Rightarrow> 's wallet" where
  "drop_wallet config_free challenges_free w =
     (let w1 = (if config_free then w\<lparr>w_config := zeroize_secrets (w_config w)\<rparr> else w)
      in if challenges_free then w1\<lparr>w_challenges := []\<rparr> else w1)"

section \<open>Lemmas\<close>

lemmas debug_defs = debug_credential_def debug_start_response_def debug_authorizer_def debug_start_request_def
  debug_challenge_response_def debug_sign_commitment_request_def debug_payload_def debug_submit_proof_def
  debug_commitment_parts_def debug_blind_request_def debug_blind_flow_def debug_wallet_config_def debug_secrets_def
  debug_cached_challenge_def

text \<open>The hand-written texts do not depend on the secrets, however deep they lie.\<close>

lemma debug_hides_secrets:
  "debug_credential D (c\<lparr>cred_dob_days := d, cred_r_bits := r\<rparr>) = debug_credential D c"
  "debug_start_response D (sr\<lparr>so_session_id := x\<rparr>) = debug_start_response D sr"
  "debug_start_request D (rq\<lparr>sr_authorizer := (sr_authorizer rq)\<lparr>au_hmac := x\<rparr>\<rparr>) = debug_start_request D rq"
  "debug_challenge_response D (cr\<lparr>co_challenge := x\<rparr>) = debug_challenge_response D cr"
  "debug_sign_commitment_request D (sc\<lparr>sc_session_id := x, sc_authorizer := (sc_authorizer sc)\<lparr>au_hmac := y\<rparr>\<rparr>)
     = debug_sign_commitment_request D sc"
  "debug_payload D (q\<lparr>qr_rp_challenge := x, qr_submit_secret := y, qr_code_verifier := z\<rparr>) = debug_payload D q"
  "debug_submit_proof D (sp\<lparr>spr_submit_secret := x, spr_code_verifier := z\<rparr>) = debug_submit_proof D sp"
  "debug_commitment_parts D (cp\<lparr>cp_dob_days := i, cp_r_bits := b\<rparr>) = debug_commitment_parts D cp"
  "debug_blind_request D (br\<lparr>br_r_bits := x\<rparr>) = debug_blind_request D br"
  "debug_wallet_config D (wc\<lparr>wc_verifier_api_key := Some x\<rparr>) = debug_wallet_config D (wc\<lparr>wc_verifier_api_key := Some y\<rparr>)"
  "length b = length b' \<Longrightarrow> debug_secrets D \<lparr>sec_dob_days = i, sec_r_bits = b\<rparr> = debug_secrets D \<lparr>sec_dob_days = j, sec_r_bits = b'\<rparr>"
  "debug_cached_challenge D T (cc\<lparr>cc_payload := (cc_payload cc)\<lparr>qr_submit_secret := x, qr_code_verifier := z\<rparr>\<rparr>)
     = debug_cached_challenge D T cc"
  by (simp_all add: debug_defs debug_opt_def)

text \<open>The derived text of the FFI payload shows its secrets.\<close>

lemma ffi_payload_prints_secret:
  "debug_ffi_payload (\<lambda>s. s) (q\<lparr>qr_submit_secret := ''s1''\<rparr>) \<noteq> debug_ffi_payload (\<lambda>s. s) (q\<lparr>qr_submit_secret := ''s2''\<rparr>)"
  by (simp add: debug_ffi_payload_def debug_struct_def)

lemma drop_clears:
  "w_challenges (drop_wallet b True w) = []" "wc_verifier_api_key (w_config (drop_wallet True b w)) = None"
  by (simp_all add: drop_wallet_def zeroize_secrets_def Let_def)

end
