(* ===== verification/Core_Utils.thy ===== *)
theory Core_Utils
  imports Dates
begin

text \<open>
  The rest of \<open>core/src/utils.rs\<close>, whose date functions are in \<open>Dates\<close>: the clock, the text of a time
  stamp, and the wrappers of library calls; and the data types of \<open>core/src/types.rs\<close> that only carry
  fields.
\<close>

section \<open>Clock and time stamps\<close>

text \<open>\<open>since\<close> is the time since the epoch in nanoseconds, negative on a clock set before 1970.\<close>

definition current_timestamp :: "int \<Rightarrow> u64" where
  "current_timestamp since = (if since < 0 then 0 else word_of_int (since div 1000000000))"

text \<open>\<open>rfc3339\<close> is \<open>timestamp_opt\<close> with \<open>to_rfc3339\<close>, which fails outside the range of the calendar.\<close>

definition format_timestamp :: "(int \<Rightarrow> string option) \<Rightarrow> u64 \<Rightarrow> string" where
  "format_timestamp rfc3339 timestamp =
     (if \<not> fits 64 (uint timestamp) then show_nat (unat timestamp)
      else case rfc3339 (uint timestamp) of Some t \<Rightarrow> t | None \<Rightarrow> show_nat (unat timestamp))"

section \<open>Library calls\<close>

text \<open>\<open>fill\<close> is the generator of the operating system: that many random bytes.\<close>

definition random_nonce :: "(nat \<Rightarrow> bytes) \<Rightarrow> bytes" where
  "random_nonce fill = fill 32"

definition sha256_hash :: "externals \<Rightarrow> bytes \<Rightarrow> bytes" where
  "sha256_hash X data = x_sha256 X data"

definition encode_base64url :: "externals \<Rightarrow> bytes \<Rightarrow> string" where
  "encode_base64url X data = x_b64_encode X data"

definition decode_base64url :: "externals \<Rightarrow> string \<Rightarrow> string + bytes" where
  "decode_base64url X s = x_b64_decode X s"

definition parse_qr_json :: "(string \<Rightarrow> string + 't) \<Rightarrow> string \<Rightarrow> string + 't" where
  "parse_qr_json from_str qr_data = from_str qr_data"

section \<open>Plain data\<close>

record challenge_request =
  cr_officer_id :: string

record sign_commitment_response =
  scr_credential :: header

record core_wallet_config =
  cwc_auto_select :: bool
  cwc_network_timeout :: u64
  cwc_cache_proving_keys :: bool

section \<open>Facts\<close>

text \<open>Time stamps from the year 292 billion on are shown as numbers, never as a date in the past, and a
  clock before 1970 reads as the epoch, at which nothing has expired.\<close>

lemma far_timestamp_shown: "2 ^ 63 \<le> uint t \<Longrightarrow> format_timestamp f t = show_nat (unat t)"
  by (simp add: format_timestamp_def fits_def)

lemma clock_before_epoch: "since < 0 \<Longrightarrow> \<not> is_expired (current_timestamp since) t"
  by (simp add: current_timestamp_def is_expired_def word_not_simps)

lemma expiry_monotone:
  assumes "0 \<le> a" "a \<le> b" "b < 2 ^ 64 * 1000000000" "is_expired (current_timestamp a) t"
  shows "is_expired (current_timestamp b) t"
proof -
  have "a div 1000000000 \<le> b div 1000000000" "0 \<le> a div 1000000000" "b div 1000000000 < 2 ^ 64"
    using assms by (auto intro: zdiv_mono1 simp: div_less_iff_less_mult)
  moreover from this have "uint (word_of_int (a div 1000000000) :: u64) = a div 1000000000"
    "uint (word_of_int (b div 1000000000) :: u64) = b div 1000000000" by (auto simp: uint_word_of_int_eq take_bit_int_eq_self)
  ultimately show ?thesis using assms(1,2,4)
    by (auto simp: is_expired_def current_timestamp_def word_less_def)
qed

lemma base64_roundtrip: "b64_roundtrip X \<Longrightarrow> decode_base64url X (encode_base64url X b) = Inr b"
  by (simp add: decode_base64url_def encode_base64url_def b64_roundtripD)

end
