(* ===== verification/Api_Client.thy ===== *)
theory Api_Client
  imports Protocol_Types
begin

text \<open>
  The HTTP client of the core crate (\<open>core/src/network.rs\<close>), which is compiled only when an app
  supplies the transport: \<open>crate::net\<close> is the parameter \<open>net_transport\<close>, serde the printing and parsing
  functions. Nothing else in the library calls it.
\<close>

section \<open>Operations\<close>

text \<open>The two functions of the transport, an error as its display text.\<close>

record net_transport =
  nt_post_json :: "string \<Rightarrow> string \<Rightarrow> string + string"
  nt_get_with_timeout :: "string \<Rightarrow> u64 \<Rightarrow> string + string"

record api_client =
  cl_base_url :: string
  cl_timeout :: u64

text \<open>\<open>while url.ends_with('/') { url.pop(); }\<close>\<close>

function pop_slashes :: "string \<Rightarrow> string" where
  "pop_slashes url = (if url \<noteq> [] \<and> last url = CHR ''/'' then pop_slashes (butlast url) else url)"
  by pat_completeness auto

termination by (relation "measure length") auto

declare pop_slashes.simps [simp del]

definition api_client_new :: "string \<Rightarrow> wallet_error + api_client" where
  "api_client_new url =
     (if url = [] then Inl (InvalidInput ''base URL must not be empty'')
      else if length url > 2048 then Inl (InvalidInput ''base URL exceeds 2048 characters'')
      else
        let is_https = starts_with ''https://'' url;
            is_localhost = starts_with ''http://localhost'' url \<or> starts_with ''http://127.0.0.1'' url
        in if \<not> is_https \<and> \<not> is_localhost
           then Inl (InvalidInput ''base URL must use https:// (or http://localhost for development)'')
           else Inr \<lparr>cl_base_url = pop_slashes url, cl_timeout = 30\<rparr>)"

definition api_with_timeout :: "u64 \<Rightarrow> api_client \<Rightarrow> api_client" where
  "api_with_timeout seconds c = c\<lparr>cl_timeout := seconds\<rparr>"

text \<open>\<open>post\<close> at any request and response type; \<open>submit_proof\<close> is the same call at the proof's path.\<close>

definition api_post ::
    "net_transport \<Rightarrow> ('t \<Rightarrow> string + string) \<Rightarrow> (string \<Rightarrow> string + 'r) \<Rightarrow> api_client \<Rightarrow> string \<Rightarrow> 't \<Rightarrow> wallet_error + 'r" where
  "api_post N to_json from_json c path body =
     (let url = cl_base_url c @ path
      in bindR (map_err SerializationError (to_json body)) (\<lambda>request_json.
         bindR (map_err NetworkError (nt_post_json N url request_json)) (\<lambda>response.
         map_err SerializationError (from_json response))))"

definition api_submit_proof ::
    "net_transport \<Rightarrow> (submit_proof_request \<Rightarrow> string + string) \<Rightarrow> (string \<Rightarrow> string + verify_response) \<Rightarrow>
     api_client \<Rightarrow> submit_proof_request \<Rightarrow> wallet_error + verify_response" where
  "api_submit_proof N to_json from_json c request =
     (let url = cl_base_url c @ ''/v1/verify''
      in bindR (map_err SerializationError (to_json request)) (\<lambda>request_json.
         bindR (map_err NetworkError (nt_post_json N url request_json)) (\<lambda>response.
         map_err SerializationError (from_json response))))"

definition api_get ::
    "net_transport \<Rightarrow> (string \<Rightarrow> string + 'r) \<Rightarrow> api_client \<Rightarrow> string \<Rightarrow> wallet_error + 'r" where
  "api_get N from_json c path =
     (let url = cl_base_url c @ path
      in bindR (map_err NetworkError (nt_get_with_timeout N url (cl_timeout c))) (\<lambda>response.
         map_err SerializationError (from_json response)))"

section \<open>Facts\<close>

lemma pop_slashes_snoc [simp]: "pop_slashes (s @ ''/'') = pop_slashes s"
  by (subst pop_slashes.simps) simp

lemma pop_slashes_prefix: "\<exists>n. s = pop_slashes s @ replicate n CHR ''/'' \<and> (pop_slashes s \<noteq> [] \<longrightarrow> last (pop_slashes s) \<noteq> CHR ''/'')"
proof (induction s rule: pop_slashes.induct)
  case (1 s)
  show ?case
  proof (cases "s \<noteq> [] \<and> last s = CHR ''/''")
    case True
    then have p: "pop_slashes s = pop_slashes (butlast s)" by (subst pop_slashes.simps) simp
    from 1[OF True] obtain n where "butlast s = pop_slashes (butlast s) @ replicate n CHR ''/''"
      and l: "pop_slashes (butlast s) \<noteq> [] \<longrightarrow> last (pop_slashes (butlast s)) \<noteq> CHR ''/''" by blast
    then have "s = pop_slashes s @ replicate (Suc n) CHR ''/''"
      using True p by (metis append_assoc append_butlast_last_id replicate_append_same replicate_Suc)
    with p l show ?thesis by metis
  next
    case False
    then have "pop_slashes s = s" by (subst pop_slashes.simps) auto
    with False show ?thesis by (intro exI[of _ 0]) auto
  qed
qed

text \<open>A client is made exactly for a text of at most 2048 bytes with one of the three prefixes, and
  its base has no slash at the end.\<close>

lemma client_made_iff:
  "api_client_new url = Inr c \<longleftrightarrow>
     length url \<le> 2048 \<and> (starts_with ''https://'' url \<or> starts_with ''http://localhost'' url \<or> starts_with ''http://127.0.0.1'' url)
     \<and> c = \<lparr>cl_base_url = pop_slashes url, cl_timeout = 30\<rparr>"
  by (auto simp: api_client_new_def Let_def starts_with_def)

text \<open>The exception for local development is a prefix of the text, not the host: the name of any host
  that starts with \<open>localhost\<close> is accepted without TLS, and the proof with its secret is posted
  there in the clear.\<close>

lemma localhost_by_prefix:
  assumes "length rest \<le> 2032" "rest \<noteq> []" "last rest \<noteq> CHR ''/''"
  shows "api_client_new (''http://localhost'' @ rest) = Inr \<lparr>cl_base_url = ''http://localhost'' @ rest, cl_timeout = 30\<rparr>"
  using assms unfolding client_made_iff by (subst pop_slashes.simps) (simp add: starts_with_def)

text \<open>The timeout of a client governs its GET requests only.\<close>

lemma posts_ignore_timeout:
  "api_post N to_json from_json (api_with_timeout t c) path body = api_post N to_json from_json c path body"
  "api_submit_proof N p q (api_with_timeout t c) req = api_submit_proof N p q c req"
  by (simp_all add: api_post_def api_submit_proof_def api_with_timeout_def)

lemma submit_is_post: "api_submit_proof N p q c req = api_post N p q c ''/v1/verify'' req"
  by (simp add: api_submit_proof_def api_post_def)

end
