(* ===== verification/Progress.thy ===== *)
theory Progress
  imports Prelude
begin

text \<open>
  The progress tracker (\<open>ffi/src/progress.rs\<close>): the stage of an operation, its bounded history,
  its clock, and the updates sent to the listeners. Every lock is taken for one access and a
  poisoned lock is recovered, so each method is one step; the readings of the wall clock are
  arguments. A listener is a name of type \<open>'l\<close>; what it is sent is recorded in \<open>pt_sent\<close>. A panic
  of a listener is caught per listener and changes nothing here. A listener runs under the lock
  of the listener list, so one that calls back into a method that takes this lock never returns;
  the model is of listeners that do not.
\<close>

section \<open>Data\<close>

datatype progress_stage =
    Started
  | IssuanceRequestCreated
  | IssuanceWaitingForOfficer
  | IssuanceDocumentVerified
  | IssuanceCompleted
  | VerificationChallengeReceived
  | VerificationProofGenerated
  | VerificationSubmitting
  | VerificationCompleted
  | StageFailed
  | StageCancelled

record progress_update =
  pu_stage :: progress_stage
  pu_message :: string
  pu_progress_percent :: "u8 option"
  pu_estimated_time_remaining_secs :: "u32 option"
  pu_timestamp :: u64

record 'l progress_tracker =
  pt_listeners :: "'l list"
  pt_current_stage :: progress_stage
  pt_stage_history :: "(progress_stage \<times> u64) list"
  pt_start_time :: "u64 option"
  pt_last_update_time :: u64
  pt_sent :: "('l \<times> progress_update) list"

definition progress_tracker_new :: "u64 \<Rightarrow> 'l progress_tracker" where
  "progress_tracker_new now =
     \<lparr>pt_listeners = [], pt_current_stage = Started, pt_stage_history = [], pt_start_time = Some now,
      pt_last_update_time = now, pt_sent = []\<rparr>"

text \<open>\<open>Default\<close> reads the clock twice.\<close>

definition progress_tracker_default :: "u64 \<Rightarrow> u64 \<Rightarrow> 'l progress_tracker" where
  "progress_tracker_default now1 now2 = (progress_tracker_new now1)\<lparr>pt_last_update_time := now2\<rparr>"

definition add_listener :: "'l \<Rightarrow> 'l progress_tracker \<Rightarrow> 'l progress_tracker" where
  "add_listener l t = t\<lparr>pt_listeners := pt_listeners t @ [l]\<rparr>"

definition remove_all_listeners :: "'l progress_tracker \<Rightarrow> 'l progress_tracker" where
  "remove_all_listeners t = t\<lparr>pt_listeners := []\<rparr>"

section \<open>Reports\<close>

definition calculate_progress :: "progress_stage \<Rightarrow> u8 option" where
  "calculate_progress stage =
     (case stage of
        Started \<Rightarrow> Some 0
      | IssuanceRequestCreated \<Rightarrow> Some 25
      | IssuanceWaitingForOfficer \<Rightarrow> Some 50
      | IssuanceDocumentVerified \<Rightarrow> Some 75
      | IssuanceCompleted \<Rightarrow> Some 100
      | VerificationChallengeReceived \<Rightarrow> Some 33
      | VerificationProofGenerated \<Rightarrow> Some 66
      | VerificationSubmitting \<Rightarrow> Some 90
      | VerificationCompleted \<Rightarrow> Some 100
      | StageFailed \<Rightarrow> Some 100
      | StageCancelled \<Rightarrow> Some 100)"

definition estimate_time :: "progress_stage \<Rightarrow> u32 \<Rightarrow> u32 option" where
  "estimate_time stage elapsed_secs =
     (case stage of
        IssuanceWaitingForOfficer \<Rightarrow> None
      | VerificationProofGenerated \<Rightarrow> if elapsed_secs < 3 then Some 5 else Some 2
      | VerificationSubmitting \<Rightarrow> Some 2
      | IssuanceCompleted \<Rightarrow> Some 0
      | VerificationCompleted \<Rightarrow> Some 0
      | _ \<Rightarrow> None)"

text \<open>\<open>u32::try_from(n).unwrap_or(u32::MAX)\<close>.\<close>

definition clamp_u32 :: "nat \<Rightarrow> u32" where
  "clamp_u32 n = (if n < 2 ^ 32 then of_nat n else - 1)"

definition elapsed_at :: "u64 option \<Rightarrow> u64 \<Rightarrow> u32" where
  "elapsed_at start now =
     (case start of Some start_time \<Rightarrow> clamp_u32 (unat (sat_sub now start_time div 1000)) | None \<Rightarrow> 0)"

definition push_stage :: "progress_stage \<times> u64 \<Rightarrow> (progress_stage \<times> u64) list \<Rightarrow> (progress_stage \<times> u64) list" where
  "push_stage e h = (let h' = h @ [e] in if length h' > 100 then tl h' else h')"

definition report_progress :: "u64 \<Rightarrow> progress_stage \<Rightarrow> string \<Rightarrow> 'l progress_tracker \<Rightarrow> 'l progress_tracker" where
  "report_progress now stage message t =
     (let t1 = t\<lparr>pt_current_stage := stage, pt_last_update_time := now\<rparr>;
          t2 = t1\<lparr>pt_stage_history := push_stage (stage, now) (pt_stage_history t1)\<rparr>;
          elapsed_secs = elapsed_at (pt_start_time t2) now;
          update = \<lparr>pu_stage = stage, pu_message = message, pu_progress_percent = calculate_progress stage,
                    pu_estimated_time_remaining_secs = estimate_time stage elapsed_secs, pu_timestamp = now\<rparr>
      in t2\<lparr>pt_sent := pt_sent t2 @ map (\<lambda>l. (l, update)) (pt_listeners t2)\<rparr>)"

definition get_elapsed_time_secs :: "u64 \<Rightarrow> 'l progress_tracker \<Rightarrow> u32" where
  "get_elapsed_time_secs now t = elapsed_at (pt_start_time t) now"

definition get_listener_count :: "'l progress_tracker \<Rightarrow> u32" where
  "get_listener_count t = clamp_u32 (length (pt_listeners t))"

definition tracker_reset :: "u64 \<Rightarrow> 'l progress_tracker \<Rightarrow> 'l progress_tracker" where
  "tracker_reset now t =
     t\<lparr>pt_current_stage := Started, pt_start_time := Some now, pt_last_update_time := now, pt_stage_history := []\<rparr>"

definition mark_failed :: "u64 \<Rightarrow> string \<Rightarrow> 'l progress_tracker \<Rightarrow> 'l progress_tracker" where
  "mark_failed now reason t = (report_progress now StageFailed reason t)\<lparr>pt_start_time := None\<rparr>"

text \<open>The stage and the text that \<open>mark_completed\<close> reports.\<close>

definition completion_of :: "progress_stage \<Rightarrow> progress_stage \<times> string" where
  "completion_of stage =
     (if stage = IssuanceWaitingForOfficer \<or> stage = IssuanceDocumentVerified
      then (IssuanceCompleted, ''Issuance completed successfully'')
      else if stage = VerificationProofGenerated \<or> stage = VerificationSubmitting
      then (VerificationCompleted, ''Verification completed successfully'')
      else (stage, ''Operation completed''))"

definition mark_completed :: "u64 \<Rightarrow> 'l progress_tracker \<Rightarrow> 'l progress_tracker" where
  "mark_completed now t =
     (case completion_of (pt_current_stage t) of
        (stage, message) \<Rightarrow> (report_progress now stage message t)\<lparr>pt_start_time := None\<rparr>)"

section \<open>Runs\<close>

text \<open>A call of a method, with the reading of the clock it makes.\<close>

datatype 'l tracker_call =
    AddListener 'l
  | RemoveAll
  | Report u64 progress_stage string
  | Reset u64
  | MarkFailed u64 string
  | MarkCompleted u64

fun tracker_step :: "'l tracker_call \<Rightarrow> 'l progress_tracker \<Rightarrow> 'l progress_tracker" where
  "tracker_step (AddListener l) t = add_listener l t"
| "tracker_step RemoveAll t = remove_all_listeners t"
| "tracker_step (Report now stage message) t = report_progress now stage message t"
| "tracker_step (Reset now) t = tracker_reset now t"
| "tracker_step (MarkFailed now reason) t = mark_failed now reason t"
| "tracker_step (MarkCompleted now) t = mark_completed now t"

definition tracker_run :: "'l tracker_call list \<Rightarrow> 'l progress_tracker \<Rightarrow> 'l progress_tracker" where
  "tracker_run cs t = fold tracker_step cs t"

fun_cases tracker_step_elims: "tracker_step c t = t'"

lemmas report_simps = report_progress_def mark_failed_def mark_completed_def tracker_reset_def add_listener_def
  remove_all_listeners_def Let_def split_beta

text \<open>The transitions since the last reset, latest stage included: what the history is a part of.\<close>

fun reported :: "(progress_stage \<times> u64) list \<Rightarrow> 'l tracker_call list \<Rightarrow> progress_stage \<Rightarrow> (progress_stage \<times> u64) list" where
  "reported acc [] cur = acc"
| "reported acc (AddListener l # cs) cur = reported acc cs cur"
| "reported acc (RemoveAll # cs) cur = reported acc cs cur"
| "reported acc (Report now stage m # cs) cur = reported (acc @ [(stage, now)]) cs stage"
| "reported acc (Reset now # cs) cur = reported [] cs Started"
| "reported acc (MarkFailed now m # cs) cur = reported (acc @ [(StageFailed, now)]) cs StageFailed"
| "reported acc (MarkCompleted now # cs) cur =
     reported (acc @ [(fst (completion_of cur), now)]) cs (fst (completion_of cur))"

definition last_100 :: "'a list \<Rightarrow> 'a list" where
  "last_100 xs = drop (length xs - 100) xs"

lemma push_last_100: "push_stage e (last_100 xs) = last_100 (xs @ [e])"
proof (cases "length xs < 100")
  case False
  then have "length xs - 99 = Suc (length xs - 100)" by simp
  with False show ?thesis by (auto simp: push_stage_def last_100_def Let_def drop_Suc tl_drop)
qed (simp add: push_stage_def last_100_def)

lemma last_100_nil [simp]: "last_100 [] = []"
  by (simp add: last_100_def)

text \<open>After any sequence of calls the history of a tracker is the last hundred of the stages
  reported since the last reset, each with its time, in order; the stage a completion reports is
  the one that completes the stage before it.\<close>

theorem progress_history_exact:
  "pt_stage_history (tracker_run cs (progress_tracker_new now)) = last_100 (reported [] cs Started)"
proof -
  have "pt_stage_history (tracker_run cs t) = last_100 (reported acc cs (pt_current_stage t))"
    if "pt_stage_history t = last_100 acc" for acc and t :: "'a progress_tracker"
    using that
  proof (induction cs arbitrary: acc t)
    case (Cons c cs)
    show ?case
      using Cons.prems Cons.IH[of "tracker_step c t"]
      by (cases c) (simp_all add: tracker_run_def report_simps push_last_100)
  qed (simp add: tracker_run_def)
  from this[of "progress_tracker_new now" "[]"] show ?thesis
    by (simp add: progress_tracker_new_def)
qed

text \<open>
  A completed or failed operation has a stopped clock: until the next reset it reports no
  elapsed time.
\<close>

lemma stopped_clock:
  "get_elapsed_time_secs later (mark_failed now reason t) = 0"
  "get_elapsed_time_secs later (mark_completed now t) = 0"
  by (simp_all add: get_elapsed_time_secs_def elapsed_at_def report_simps)

text \<open>Every report reaches every registered listener once, in the order of registration.\<close>

lemma report_reaches_all:
  "\<exists>u. pt_sent (report_progress now stage message t) = pt_sent t @ map (\<lambda>l. (l, u)) (pt_listeners t) \<and>
     pu_stage u = stage \<and> pu_message u = message \<and> pu_timestamp u = now"
  by (auto simp: report_simps)

text \<open>A clock set back does not wrap the elapsed time.\<close>

lemma elapsed_bound:
  "unat (elapsed_at (Some s) now) \<le> (unat now - unat s) div 1000"
  by (simp add: elapsed_at_def clamp_u32_def unat_sat_sub unat_div unat_of_nat unat_all_ones take_bit_nat_def)

end
