(* ===== verification/Wallet_Surface.thy ===== *)
theory Wallet_Surface
  imports Diagnostics Progress
begin

text \<open>
  The remaining methods of the wallet object: aliases, the validation of a scanned code, the progress
  tracker it hands out, and the default type of a credential record.
\<close>

section \<open>Operations\<close>

definition wallet_store_credential :: "wallet_env \<Rightarrow> u64 \<Rightarrow> string \<Rightarrow> ('s wallet, ffi_error, string) op" where
  "wallet_store_credential W now credential_json = import_credential W now credential_json"

definition handle_deeplink :: "link_ext \<Rightarrow> string \<Rightarrow> ffi_error + deeplink_action" where
  "handle_deeplink D url = map_err of_anyhow (parse_deeplink D url)"

definition parse_qr :: "wallet_env \<Rightarrow> (string \<Rightarrow> ffi_error + string) \<Rightarrow> string \<Rightarrow> 's wallet \<Rightarrow> ffi_error + string" where
  "parse_qr W get qr_content w =
     bindR (parse_qr_payload_internal W get qr_content w) (\<lambda>payload. map_err FInvalidFormat (qx_print (we_qr W) payload))"

text \<open>\<open>now\<close> is the clock in seconds when the payload has been parsed.\<close>

definition validate_qr ::
    "wallet_env \<Rightarrow> (string \<Rightarrow> bool) \<Rightarrow> nat \<Rightarrow> (string \<Rightarrow> ffi_error + string) \<Rightarrow> string \<Rightarrow> 's wallet \<Rightarrow> ffi_error + bool" where
  "validate_qr W alnum now get qr_content w =
     bindR (parse_qr_payload_internal W get qr_content w) (\<lambda>payload.
     bindR (map_err FInvalidFormat (qx_print (we_qr W) payload)) (\<lambda>payload_json.
     Inr (validate_qr_payload (we_x W) alnum now payload_json)))"

definition create_progress_tracker :: "u64 \<Rightarrow> 'l progress_tracker" where
  "create_progress_tracker now = progress_tracker_new now"

definition wallet_report_progress ::
    "u64 \<Rightarrow> progress_stage \<Rightarrow> string \<Rightarrow> 'l progress_tracker \<Rightarrow> 'l progress_tracker" where
  "wallet_report_progress now stage text tracker = report_progress now stage text tracker"

definition get_current_stage :: "'l progress_tracker \<Rightarrow> progress_stage" where
  "get_current_stage t = pt_current_stage t"

definition default_credential_type :: string where "default_credential_type = ''primary''"

section \<open>Facts\<close>

lemma stage_reported: "get_current_stage (wallet_report_progress now stage m t) = stage"
  by (simp add: get_current_stage_def wallet_report_progress_def report_progress_def Let_def)

text \<open>What the printed form of a challenge looks like to a reader of JSON.\<close>

definition prints_fields :: "wallet_env \<Rightarrow> qr_payload \<Rightarrow> bool" where
  "prints_fields W q \<longleftrightarrow> (\<exists>j data. qx_print (we_qr W) q = Inr j \<and> x_json (we_x W) j = Inr data
     \<and> json_get ''type'' data = None \<and> json_get ''challenge_id'' data = Some (JString (qr_challenge_id q))
     \<and> json_get ''expires_at'' data = Some (JNumber (uint (qr_expires_at q))))"

text \<open>The validation and the prover disagree on the last second: at the very time of its expiry a
  challenge is still reported as valid, and no proof is made for it.\<close>

lemma last_second_valid:
  assumes "parse_qr_payload_internal W get code w = Inr q" "prints_fields W q"
  shows "validate_qr W alnum now get code w = Inr (now \<le> unat (qr_expires_at q))"
    "pr_now R = qr_expires_at q \<Longrightarrow> \<not> is_ok (run_prover W R c q)"
proof -
  from assms(2) obtain j data where j: "qx_print (we_qr W) q = Inr j" "x_json (we_x W) j = Inr data"
    "json_get ''type'' data = None" "json_get ''challenge_id'' data = Some (JString (qr_challenge_id q))"
    "json_get ''expires_at'' data = Some (JNumber (uint (qr_expires_at q)))" by (auto simp: prints_fields_def)
  have "0 \<le> uint (qr_expires_at q)" "uint (qr_expires_at q) < 2 ^ 64"
    using uint_bounded[of "qr_expires_at q"] by simp_all
  then show "validate_qr W alnum now get code w = Inr (now \<le> unat (qr_expires_at q))"
    using assms(1) j by (simp add: validate_qr_def validate_qr_payload_def attestation_value_def json_u64_def)
  have "\<not> is_ok (build_verify_request_internal (we_x W) (pr_ext R) False (pr_globals R) (pr_now R) c q)"
    if "pr_now R = qr_expires_at q"
    using that by (auto simp: is_ok_iff build_ok)
  then show "pr_now R = qr_expires_at q \<Longrightarrow> \<not> is_ok (run_prover W R c q)"
    by (cases "pr_spawn R") (auto simp: run_prover_def build_verify_request_def)
qed

end
