(* ===== verification/Backend_Equivalence.thy ===== *)
theory Backend_Equivalence
  imports Wallet_Flows Backend_Support "HOL-Library.Multiset"
begin

text \<open>
  The storage a wallet runs on does not show in what it answers. A device backend that works,
  in the sense of the locale \<open>available_backend\<close> - it refuses malformed keys and empty or huge
  data, and asks for authentication where an item was stored behind it - is compared call by call
  with the in-memory backend of the desktop build: \<open>mimics\<close> relates two operations on two
  states, with one rule per combinator, and \<open>twin\<close> the two stores.
\<close>

section \<open>What every platform accepts\<close>

text \<open>The rule both platforms have for keys, and the smaller of their limits for data.\<close>

definition good_key :: "string \<Rightarrow> bool" where
  "good_key k \<longleftrightarrow> k \<noteq> [] \<and> length k \<le> 255 \<and> list_all key_char k"

definition good_data :: "bytes \<Rightarrow> bool" where
  "good_data d \<longleftrightarrow> d \<noteq> [] \<and> length d \<le> 1024 * 1024"

lemma good_key_validate: "good_key k \<longleftrightarrow> validate_key k = Inr ()"
  by (auto simp: good_key_def validate_key_def)

text \<open>\<open>locked s k\<close>: the item under \<open>k\<close> was stored behind biometry and is read only with it.\<close>

locale available_backend = storage_backend B view inv
  for B :: "'s backend" and view :: "'s \<Rightarrow> string \<Rightarrow> bytes option" and inv :: "'s \<Rightarrow> bool" +
  fixes locked :: "'s \<Rightarrow> string \<Rightarrow> bool"
  assumes store_done: "inv s \<Longrightarrow> good_key k \<Longrightarrow> good_data d \<Longrightarrow> be_store B k d bio s = (r, s') \<Longrightarrow>
      r = Inr () \<and> (\<forall>k'. locked s' k' \<longrightarrow> locked s k' \<or> k' = k \<and> bio \<noteq> BioNone)"
    and retrieve_done: "inv s \<Longrightarrow> good_key k \<Longrightarrow> bio \<noteq> BioNone \<or> \<not> locked s k \<Longrightarrow> be_retrieve B k bio s = (rb, s') \<Longrightarrow>
      rb = ok_or (PStorage ''NotFound'') (view s k) \<and> (\<forall>k'. locked s' k' \<longrightarrow> locked s k')"
    and delete_done: "inv s \<Longrightarrow> good_key k \<Longrightarrow> be_delete B k s = (r, s') \<Longrightarrow>
      r = Inr () \<and> (\<forall>k'. locked s' k' \<longrightarrow> locked s k')"
    and exists_done: "inv s \<Longrightarrow> good_key k \<Longrightarrow> be_exists B k s = (rx, s') \<Longrightarrow>
      rx = Inr (view s k \<noteq> None) \<and> (\<forall>k'. locked s' k' \<longrightarrow> locked s k')"
    and list_done: "inv s \<Longrightarrow> be_list_keys B s = (rl, s') \<Longrightarrow> is_ok rl \<and> (\<forall>k'. locked s' k' \<longrightarrow> locked s k')"
begin

lemma delete_matching_run:
  assumes "inv s" "\<forall>k \<in> set ks. good_key k"
  shows "\<exists>s'. delete_matching B P ks s = (Inr (), s') \<and> inv s' \<and> (\<forall>k. locked s' k \<longrightarrow> locked s k)
    \<and> view s' = (\<lambda>k. if P k \<and> k \<in> set ks then None else view s k)"
  using assms
proof (induction ks arbitrary: s)
  case (Cons k ks)
  show ?case
  proof (cases "P k")
    case True
    obtain r t where d: "be_delete B k s = (r, t)" by fastforce
    from delete_done[OF Cons.prems(1) _ d] delete_law[OF Cons.prems(1) d] Cons.prems(2)
    have t: "r = Inr ()" "inv t" "view t = (view s)(k := None)" "\<And>k'. locked t k' \<Longrightarrow> locked s k'" by auto
    from Cons.IH[OF t(2)] Cons.prems(2) obtain s' where
      "delete_matching B P ks t = (Inr (), s')" "inv s'" "\<forall>k. locked s' k \<longrightarrow> locked t k"
      "view s' = (\<lambda>k. if P k \<and> k \<in> set ks then None else view t k)" by auto
    with True d t show ?thesis by (auto simp: bindS_Inr ctx_Inr fun_eq_iff)
  next
    case False
    have set: "(P x \<and> x \<in> set (k # ks)) = (P x \<and> x \<in> set ks)" for x using False by auto
    from Cons.IH[OF Cons.prems(1)] Cons.prems(2) False show ?thesis unfolding set by simp
  qed
qed simp

lemma delete_count_run:
  assumes "inv s" "\<forall>k \<in> set ks. good_key k"
  shows "\<exists>s'. delete_count_loop B P ks n s = (n + length (filter P ks), s') \<and> inv s' \<and> (\<forall>k. locked s' k \<longrightarrow> locked s k)
    \<and> view s' = (\<lambda>k. if P k \<and> k \<in> set ks then None else view s k)"
  using assms
proof (induction ks arbitrary: n s)
  case (Cons k ks)
  show ?case
  proof (cases "P k")
    case True
    obtain r t where d: "be_delete B k s = (r, t)" by fastforce
    from delete_done[OF Cons.prems(1) _ d] delete_law[OF Cons.prems(1) d] Cons.prems(2)
    have t: "r = Inr ()" "inv t" "view t = (view s)(k := None)" "\<And>k'. locked t k' \<Longrightarrow> locked s k'" by auto
    from Cons.IH[OF t(2), of "n + 1"] Cons.prems(2) obtain s' where
      "delete_count_loop B P ks (n + 1) t = (n + 1 + length (filter P ks), s')" "inv s'"
      "\<forall>k. locked s' k \<longrightarrow> locked t k" "view s' = (\<lambda>k. if P k \<and> k \<in> set ks then None else view t k)" by auto
    with True d t show ?thesis by (auto simp: fun_eq_iff)
  next
    case False
    have set: "(P x \<and> x \<in> set (k # ks)) = (P x \<and> x \<in> set ks)" for x using False by auto
    from Cons.IH[OF Cons.prems(1), of n] Cons.prems(2) False show ?thesis unfolding set by simp
  qed
qed simp

text \<open>A listing reads every public record, none of which is locked.\<close>

lemma list_loop_run:
  assumes "inv s" "set ks \<subseteq> dom (view s)" "\<forall>k \<in> set ks. good_key k \<and> (is_credential_key k \<longrightarrow> good_key (secrets_key k))"
    "\<forall>k. locked s k \<longrightarrow> \<not> is_credential_key k"
  shows "\<exists>s'. list_loop X B now ks acc s = (acc @ List.map_filter (listed X now (view s)) ks, s')
    \<and> inv s' \<and> (\<forall>k. locked s' k \<longrightarrow> locked s k) \<and> view s' = view s"
  using assms
proof (induction ks arbitrary: acc s)
  case (Cons k ks)
  show ?case
  proof (cases "is_credential_key k")
    case False
    with Cons show ?thesis by (simp add: listed_def List.map_filter_simps)
  next
    case True
    from Cons.prems(2) obtain d where d: "view s k = Some d" by auto
    obtain r s1 where "be_retrieve B k BioNone s = (r, s1)" by fastforce
    with retrieve_done[OF Cons.prems(1) _ _ this] retrieve_law[OF Cons.prems(1) this] Cons.prems(3,4) True d
    have r: "be_retrieve B k BioNone s = (Inr d, s1)"
      and s1: "inv s1" "view s1 = view s" "\<And>k'. locked s1 k' \<Longrightarrow> locked s k'" by (auto simp: ok_or_def)
    have next1: "\<exists>s'. list_loop X B now ks a s1 = (a @ List.map_filter (listed X now (view s)) ks, s')
      \<and> inv s' \<and> (\<forall>k. locked s' k \<longrightarrow> locked s k) \<and> view s' = view s" for a
      using Cons.IH[OF s1(1), of a] Cons.prems s1 by auto
    show ?thesis
    proof (cases "decode_stored X d")
      case (Inl e)
      then have "listed X now (view s) k = None" using d by (simp add: listed_def)
      with True r Inl next1 show ?thesis by (simp add: List.map_filter_simps)
    next
      case (Inr st)
      obtain x s2 where x: "be_exists B (secrets_key k) s1 = (x, s2)" by fastforce
      from exists_done[OF s1(1) _ x] exists_law[OF s1(1) x] Cons.prems(3) True s1
      have s2: "x = Inr (view s (secrets_key k) \<noteq> None)" "inv s2" "view s2 = view s" "\<And>k'. locked s2 k' \<Longrightarrow> locked s k'"
        by auto
      let ?ci = "credential_info_of now k st (view s (secrets_key k) \<noteq> None)"
      have "listed X now (view s) k = Some ?ci" using True d Inr by (simp add: listed_def)
      moreover have "\<exists>s'. list_loop X B now ks (acc @ [?ci]) s2
          = ((acc @ [?ci]) @ List.map_filter (listed X now (view s)) ks, s')
          \<and> inv s' \<and> (\<forall>k. locked s' k \<longrightarrow> locked s k) \<and> view s' = view s"
        using Cons.IH[OF s2(2), of "acc @ [?ci]"] Cons.prems s2 by auto
      ultimately show ?thesis using True r d Inr x s2(1) by (auto simp: List.map_filter_simps)
    qed
  qed
qed (simp add: List.map_filter_simps)

end

text \<open>A backend that never fails is available, whatever it is asked for.\<close>

sublocale reliable_backend \<subseteq> available: available_backend B view inv "\<lambda>_ _. False"
proof (standard, goal_cases)
  case (1 s k d bio r s')
  then show ?case using store_ok[OF 1(1), of k d bio] by auto
next
  case (2 s k bio r s')
  then show ?case
    using retrieve_some[OF 2(1), of k _ bio] retrieve_none[OF 2(1), of k bio] by (cases "view s k") (auto simp: ok_or_def)
next
  case (3 s k r s')
  then show ?case using delete_ok[OF 3(1), of k] by auto
next
  case (4 s k r s')
  then show ?case using exists_ok[OF 4(1), of k] by auto
next
  case (5 s r s')
  then show ?case using list_ok[OF 5(1)] by auto
qed

section \<open>Two runs side by side\<close>

text \<open>
  From states that \<open>R\<close> relates, \<open>f\<close> and \<open>g\<close> reach states that \<open>R\<close> relates, with the same error or with
  values that \<open>V\<close> relates.
\<close>

definition mimics :: "('s \<Rightarrow> 't \<Rightarrow> bool) \<Rightarrow> ('a \<Rightarrow> 'b \<Rightarrow> bool) \<Rightarrow> ('s, 'e, 'a) op \<Rightarrow> ('t, 'e, 'b) op \<Rightarrow> bool" where
  "mimics R V f g \<longleftrightarrow>
     (\<forall>s t. R s t \<longrightarrow> R (snd (f s)) (snd (g t)) \<and> rel_sum (=) V (fst (f s)) (fst (g t)))"

named_theorems mimics_intros \<open>the rules of operations that run side by side\<close>

lemma mimicsI:
  "(\<And>s t. R s t \<Longrightarrow> R (snd (f s)) (snd (g t)) \<and> rel_sum (=) V (fst (f s)) (fst (g t))) \<Longrightarrow> mimics R V f g"
  by (simp add: mimics_def)

lemma mimicsD: "mimics R V f g \<Longrightarrow> R s t \<Longrightarrow> R (snd (f s)) (snd (g t)) \<and> rel_sum (=) V (fst (f s)) (fst (g t))"
  by (simp add: mimics_def)

lemma mimics_same: "mimics R (=) f g \<Longrightarrow> R s t \<Longrightarrow> fst (f s) = fst (g t) \<and> R (snd (f s)) (snd (g t))"
  by (auto simp: mimics_def sum.rel_eq)

lemma mimics_bindS_by:
  assumes "mimics R U f f'" "\<And>x y. U x y \<Longrightarrow> mimics R V (g x) (g' y)"
  shows "mimics R V (bindS f g) (bindS f' g')"
proof (rule mimicsI)
  fix s t assume "R s t"
  obtain r s1 where f: "f s = (r, s1)" by fastforce
  obtain r' t1 where f': "f' t = (r', t1)" by fastforce
  from mimicsD[OF assms(1) \<open>R s t\<close>] f f' have 1: "R s1 t1" "rel_sum (=) U r r'" by auto
  from 1(2) show "R (snd (bindS f g s)) (snd (bindS f' g' t)) \<and> rel_sum (=) V (fst (bindS f g s)) (fst (bindS f' g' t))"
  proof cases
    case (1 e e')
    with f f' \<open>R s1 t1\<close> show ?thesis by (simp add: bindS_Inl)
  next
    case (2 x y)
    with f f' mimicsD[OF assms(2)[OF 2(3)] \<open>R s1 t1\<close>] show ?thesis by (simp add: bindS_Inr)
  qed
qed

lemma mimics_bindS [mimics_intros]:
  "mimics R (=) f f' \<Longrightarrow> (\<And>x. mimics R V (g x) (g' x)) \<Longrightarrow> mimics R V (bindS f g) (bindS f' g')"
  by (rule mimics_bindS_by[of _ "(=)"]) simp_all

lemma mimics_pureS [mimics_intros]: "mimics R (=) (pureS r) (pureS r)"
  by (simp add: mimics_def pureS_def sum.rel_eq)

lemma mimics_if [mimics_intros]:
  "(b \<Longrightarrow> mimics R V f f') \<Longrightarrow> (\<not> b \<Longrightarrow> mimics R V g g') \<Longrightarrow> mimics R V (if b then f else g) (if b then f' else g')"
  by simp

lemma mimics_option [mimics_intros]:
  "mimics R V f f' \<Longrightarrow> (\<And>x. z = Some x \<Longrightarrow> mimics R V (g x) (g' x)) \<Longrightarrow>
   mimics R V (case z of None \<Rightarrow> f | Some x \<Rightarrow> g x) (case z of None \<Rightarrow> f' | Some x \<Rightarrow> g' x)"
  by (simp split: option.split)

lemma rel_map_err: "rel_sum (=) V r r' \<Longrightarrow> rel_sum (=) V (map_err c r) (map_err c r')"
  by (cases r; cases r') auto

lemma mimics_map_errS: "mimics R V f f' \<Longrightarrow> mimics R V (map_errS c f) (map_errS c f')"
  by (auto simp: mimics_def map_errS_def split_beta rel_map_err)

lemma mimics_ctx [mimics_intros]: "mimics R V f f' \<Longrightarrow> mimics R V (ctx msg f) (ctx msg f')"
  unfolding ctx_def by (rule mimics_map_errS)

section \<open>The two stores\<close>

text \<open>A record whose texts and byte strings are short enough for every platform to store it.\<close>

definition short :: "'x list \<Rightarrow> bool" where
  "short xs \<longleftrightarrow> length xs \<le> 1000"

definition compact_credential :: "credential \<Rightarrow> bool" where
  "compact_credential c \<longleftrightarrow> short (cred_kid c) \<and> short (cred_issuer_vk c) \<and> short (cred_sig_rj c)
     \<and> short (cred_c_bytes c) \<and> short (cred_schema c)"

definition compact :: "stored_credential \<Rightarrow> bool" where
  "compact st \<longleftrightarrow> compact_credential (sc_credential st) \<and> pred_option short (md_label (sc_metadata st))
     \<and> pred_option short (md_nickname (sc_metadata st)) \<and> short (md_credential_type (sc_metadata st))"

text \<open>
  What the serialisation and the hash have to give: records and secrets of that size are encoded
  in at least one byte and at most 1 MiB, and an identifier is short text in the key alphabet.
\<close>

definition codec_fits :: "storage_codec \<Rightarrow> bool" where
  "codec_fits X \<longleftrightarrow>
     (\<forall>st d. compact st \<longrightarrow> encode_stored X st = Inr d \<longrightarrow> good_data d)
   \<and> (\<forall>sec d. short (sec_r_bits sec) \<longrightarrow> sx_enc_secrets X sec = Inr d \<longrightarrow> good_data d)
   \<and> (\<forall>c. compact_credential c \<longrightarrow> length (compute_base_id X c) \<le> 200 \<and> list_all key_char (compute_base_id X c))"

text \<open>
  The in-memory store \<open>m\<close> holds what the device holds; the keys are well formed, the public records
  are compact and not behind biometry.
\<close>

definition twin ::
    "storage_codec \<Rightarrow> ('s \<Rightarrow> string \<Rightarrow> bytes option) \<Rightarrow> ('s \<Rightarrow> bool) \<Rightarrow> ('s \<Rightarrow> string \<Rightarrow> bool) \<Rightarrow> 's \<Rightarrow> memory \<Rightarrow> bool" where
  "twin X view I locked s m \<longleftrightarrow>
     I s \<and> memory_inv m \<and> view s = map_of m
   \<and> (\<forall>k. locked s k \<longrightarrow> \<not> is_credential_key k)
   \<and> (\<forall>k \<in> dom (view s). good_key k \<and> (is_credential_key k \<longrightarrow> good_key (secrets_key k)))
   \<and> (\<forall>k d st. is_credential_key k \<longrightarrow> view s k = Some d \<longrightarrow> decode_stored X d = Inr st \<longrightarrow> compact st)"

text \<open>Two listings of the same keys.\<close>

definition same_keys :: "string list \<Rightarrow> string list \<Rightarrow> bool" where
  "same_keys ks ks' \<longleftrightarrow> distinct ks \<and> distinct ks' \<and> set ks = set ks' \<and> (\<forall>k \<in> set ks. good_key k)"

lemma same_keys_mset: "same_keys ks ks' \<Longrightarrow> mset ks = mset ks'"
  using set_eq_iff_mset_eq_distinct by (auto simp: same_keys_def)

context available_backend
begin

lemma twinD:
  assumes "twin X view inv locked s m"
  shows "inv s" "memory_inv m" "view s = map_of m" "locked s k \<Longrightarrow> \<not> is_credential_key k"
    "k \<in> dom (view s) \<Longrightarrow> good_key k" "k \<in> dom (view s) \<Longrightarrow> is_credential_key k \<Longrightarrow> good_key (secrets_key k)"
    "is_credential_key k \<Longrightarrow> view s k = Some d \<Longrightarrow> decode_stored X d = Inr st \<Longrightarrow> compact st"
  using assms unfolding twin_def by auto

lemma twin_read:
  assumes "twin X view inv locked s m" "inv s'" "view s' = view s" "\<And>k. locked s' k \<Longrightarrow> locked s k"
    "memory_inv m'" "map_of m' = map_of m"
  shows "twin X view inv locked s' m'"
  using assms unfolding twin_def by simp

lemma twin_remove:
  assumes "twin X view inv locked s m" "inv s'" "view s' = (\<lambda>k. if P k then None else view s k)" "\<And>k. locked s' k \<Longrightarrow> locked s k"
    "memory_inv m'" "map_of m' = (\<lambda>k. if P k then None else map_of m k)"
  shows "twin X view inv locked s' m'"
  using assms unfolding twin_def by (auto split: if_splits)

lemma mimics_store [mimics_intros]:
  assumes "good_key k" "good_data d" "is_credential_key k \<Longrightarrow> bio = BioNone" "is_credential_key k \<Longrightarrow> good_key (secrets_key k)"
    "\<And>st. is_credential_key k \<Longrightarrow> decode_stored X d = Inr st \<Longrightarrow> compact st"
  shows "mimics (twin X view inv locked) (=) (be_store B k d bio) (be_store memory_backend k d bio)"
proof (rule mimicsI)
  fix s m assume t: "twin X view inv locked s m"
  obtain r s' where run: "be_store B k d bio s = (r, s')" by fastforce
  obtain m' where mem: "be_store memory_backend k d bio m = (Inr (), m')" by (simp add: memory_backend_def)
  from mem.store_law[OF twinD(2)[OF t] mem] have m': "memory_inv m'" "map_of m' = (map_of m)(k \<mapsto> d)" by auto
  from store_done[OF twinD(1)[OF t] assms(1,2) run] store_law[OF twinD(1)[OF t] run]
  have s': "r = Inr ()" "inv s'" "view s' = (view s)(k \<mapsto> d)" "\<And>k'. locked s' k' \<Longrightarrow> locked s k' \<or> k' = k \<and> bio \<noteq> BioNone"
    by auto
  have "\<not> is_credential_key k'" if "locked s' k'" for k'
    using s'(4)[OF that] twinD(4)[OF t] assms(3) by blast
  then have "twin X view inv locked s' m'"
    unfolding twin_def using twinD[OF t] m' s' assms by (auto split: if_splits)
  with run mem s'(1) show "twin X view inv locked (snd (be_store B k d bio s)) (snd (be_store memory_backend k d bio m))
      \<and> rel_sum (=) (=) (fst (be_store B k d bio s)) (fst (be_store memory_backend k d bio m))"
    by simp
qed

lemma mimics_retrieve [mimics_intros]:
  assumes "good_key k" "is_credential_key k \<or> bio \<noteq> BioNone"
  shows "mimics (twin X view inv locked) (=) (be_retrieve B k bio) (be_retrieve memory_backend k bio)"
proof (rule mimicsI)
  fix s m assume t: "twin X view inv locked s m"
  obtain r s' where run: "be_retrieve B k bio s = (r, s')" by fastforce
  have mem: "be_retrieve memory_backend k bio m = (ok_or (PStorage ''NotFound'') (map_of m k), m)"
    by (simp add: memory_backend_def ok_or_def split: option.split)
  have "bio \<noteq> BioNone \<or> \<not> locked s k" using assms(2) twinD(4)[OF t] by blast
  from retrieve_done[OF twinD(1)[OF t] assms(1) this run] retrieve_law[OF twinD(1)[OF t] run] twinD(3)[OF t]
    twin_read[OF t, of s' m] twinD(2)[OF t]
  show "twin X view inv locked (snd (be_retrieve B k bio s)) (snd (be_retrieve memory_backend k bio m))
      \<and> rel_sum (=) (=) (fst (be_retrieve B k bio s)) (fst (be_retrieve memory_backend k bio m))"
    by (simp add: run mem sum.rel_eq)
qed

lemma mimics_delete [mimics_intros]:
  assumes "good_key k"
  shows "mimics (twin X view inv locked) (=) (be_delete B k) (be_delete memory_backend k)"
proof (rule mimicsI)
  fix s m assume t: "twin X view inv locked s m"
  obtain r s' where run: "be_delete B k s = (r, s')" by fastforce
  obtain m' where mem: "be_delete memory_backend k m = (Inr (), m')" by (simp add: memory_backend_def)
  from mem.delete_law[OF twinD(2)[OF t] mem] have m': "memory_inv m'" "map_of m' = (\<lambda>k'. if k' = k then None else map_of m k')"
    by auto
  from delete_done[OF twinD(1)[OF t] assms run] delete_law[OF twinD(1)[OF t] run]
  have s': "r = Inr ()" "inv s'" "view s' = (\<lambda>k'. if k' = k then None else view s k')" "\<And>k'. locked s' k' \<Longrightarrow> locked s k'" by auto
  from twin_remove[OF t s'(2-4) m'] s'(1) run mem
  show "twin X view inv locked (snd (be_delete B k s)) (snd (be_delete memory_backend k m))
      \<and> rel_sum (=) (=) (fst (be_delete B k s)) (fst (be_delete memory_backend k m))" by simp
qed

lemma mimics_exists [mimics_intros]:
  assumes "good_key k"
  shows "mimics (twin X view inv locked) (=) (be_exists B k) (be_exists memory_backend k)"
proof (rule mimicsI)
  fix s m assume t: "twin X view inv locked s m"
  obtain r s' where run: "be_exists B k s = (r, s')" by fastforce
  have mem: "be_exists memory_backend k m = (Inr (map_of m k \<noteq> None), m)" by (simp add: memory_backend_def)
  from exists_done[OF twinD(1)[OF t] assms run] exists_law[OF twinD(1)[OF t] run] twinD(3)[OF t]
    twin_read[OF t, of s' m] twinD(2)[OF t]
  show "twin X view inv locked (snd (be_exists B k s)) (snd (be_exists memory_backend k m))
      \<and> rel_sum (=) (=) (fst (be_exists B k s)) (fst (be_exists memory_backend k m))"
    by (simp add: run mem sum.rel_eq)
qed

lemma mimics_list: "mimics (twin X view inv locked) same_keys (be_list_keys B) (be_list_keys memory_backend)"
proof (rule mimicsI)
  fix s m assume t: "twin X view inv locked s m"
  obtain r s' where run: "be_list_keys B s = (r, s')" by fastforce
  have mem: "be_list_keys memory_backend m = (Inr (map fst m), m)" by (simp add: memory_backend_def)
  from list_done[OF twinD(1)[OF t] run] obtain ks where ks: "r = Inr ks" by (auto simp: is_ok_iff)
  from list_law[OF twinD(1)[OF t] run] ks have l: "inv s'" "view s' = view s" "distinct ks" "set ks = dom (view s)" by auto
  from mem.list_law[OF twinD(2)[OF t] mem] have "distinct (map fst m)" "set (map fst m) = dom (map_of m)" by auto
  with l twinD(3,5)[OF t] have "same_keys ks (map fst m)" by (auto simp: same_keys_def)
  moreover have "twin X view inv locked s' m"
    using twin_read[OF t l(1,2) _ twinD(2)[OF t]] list_done[OF twinD(1)[OF t] run] by blast
  ultimately show "twin X view inv locked (snd (be_list_keys B s)) (snd (be_list_keys memory_backend m))
      \<and> rel_sum (=) same_keys (fst (be_list_keys B s)) (fst (be_list_keys memory_backend m))"
    using run ks mem by simp
qed

end

section \<open>Keys and records of the storage layer\<close>

lemma digits_short: "n < 1000 \<Longrightarrow> length (show_nat n) \<le> 3"
  by (simp add: show_nat.simps)

lemma good_prefix:
  "list_all key_char (cred_prefix ns slot)" "length (cred_prefix ns slot) \<le> 50"
  "list_all key_char (sec_prefix ns slot)" "length (sec_prefix ns slot) \<le> 50"
proof -
  have digits: "list_all key_char (show_nat n)" for n
    using is_digit_show[of n] by (auto simp: list_all_iff is_digit_def key_char_def Let_def)
  have index: "length (show_nat (unat i)) \<le> 3" for i :: u8
  proof (rule digits_short)
    have "unat i < 2 ^ LENGTH(8)" by (rule unsigned_less)
    then show "unat i < 1000" by simp
  qed
  have dot: "key_char (CHR ''.'')" by (simp add: key_char_def)
  show "list_all key_char (cred_prefix ns slot)" "list_all key_char (sec_prefix ns slot)"
    using digits dot by (cases ns; cases slot; simp add: key_simps; simp add: key_char_def)+
  show "length (cred_prefix ns slot) \<le> 50" "length (sec_prefix ns slot) \<le> 50"
    by (cases ns; cases slot; simp add: key_simps order_trans[OF index])+
qed

lemma good_slot_key:
  assumes "length b \<le> 200" "list_all key_char b"
  shows "good_key (cred_prefix ns slot @ b)" "good_key (sec_prefix ns slot @ b)"
proof -
  have "cred_prefix ns slot \<noteq> []" "sec_prefix ns slot \<noteq> []"
    by (cases ns; cases slot; simp add: key_simps)+
  with good_prefix[of ns slot] assms show "good_key (cred_prefix ns slot @ b)" "good_key (sec_prefix ns slot @ b)"
    by (simp_all add: good_key_def)
qed

text \<open>The identifiers a caller may pass: those of public records.\<close>

definition record_id :: "string \<Rightarrow> bool" where
  "record_id i \<longleftrightarrow> is_credential_key i \<and> good_key i \<and> good_key (secrets_key i)"

lemma secrets_key_kind [simp]: "\<not> is_credential_key (secrets_key i)"
  by (simp add: secrets_key_def Let_def split: prod.split) (metis not_credential_key_sec snd_conv)

lemma good_record:
  assumes "codec_fits X" "compact_credential c"
  shows "record_id (cred_prefix ns slot @ compute_base_id X c)"
  using assms good_slot_key[of "compute_base_id X c" ns slot] by (simp add: record_id_def codec_fits_def)

lemma compact_encoded:
  assumes "codec_fits X" "codec_roundtrip X" "compact st" "encode_stored X st = Inr d"
  shows "good_data d" "decode_stored X d = Inr st' \<Longrightarrow> compact st'"
proof -
  show "good_data d" using assms by (simp add: codec_fits_def)
  show "compact st'" if "decode_stored X d = Inr st'"
    using codec_storedD[OF assms(2,4)] that assms(3) by (simp add: compact_def compact_credential_def redacted_def)
qed

lemma secrets_fit: "codec_fits X \<Longrightarrow> short (sec_r_bits sec) \<Longrightarrow> sx_enc_secrets X sec = Inr d \<Longrightarrow> good_data d"
  by (simp add: codec_fits_def)

section \<open>The storage layer\<close>

lemma mimics_bind_pure:
  "(\<And>x. r = Inr x \<Longrightarrow> mimics R V (g x) (g' x)) \<Longrightarrow> mimics R V (bindS (pureS r) g) (bindS (pureS r) g')"
  unfolding mimics_def by (auto split: sum.split)

lemma mimics_settled:
  "mimics R (=) f f' \<Longrightarrow> mimics R V (\<lambda>s. case f s of (r, s') \<Rightarrow> (h r, s')) (\<lambda>t. case f' t of (r, t') \<Rightarrow> (h' r, t'))"
  if "\<And>r. rel_sum (=) V (h r) (h' r)"
  using that by (auto simp: mimics_def sum.rel_eq split_beta)

lemma mimics_retrieve_or_none:
  "mimics R (=) f f' \<Longrightarrow> mimics R (=) (retrieve_or_none msg f parse) (retrieve_or_none msg f' parse)"
  unfolding mimics_def
  by (auto simp: retrieve_or_none_def sum.rel_eq split_beta split: sum.split prod.split)

lemma same_keys_filter: "same_keys ks ks' \<Longrightarrow> length (filter P ks) = length (filter P ks')"
  using same_keys_mset[of ks ks'] by (metis mset_filter size_mset)

context available_backend
begin

lemma mimics_delete_matching:
  assumes "same_keys ks ks'"
  shows "mimics (twin X view inv locked) (=) (delete_matching B P ks) (delete_matching memory_backend P ks')"
proof (rule mimicsI)
  fix s m assume t: "twin X view inv locked s m"
  have good: "\<forall>k \<in> set ks. good_key k" "\<forall>k \<in> set ks'. good_key k" "set ks' = set ks"
    using assms by (auto simp: same_keys_def)
  obtain s' where s': "delete_matching B P ks s = (Inr (), s')" "inv s'" "\<And>k. locked s' k \<Longrightarrow> locked s k"
    "view s' = (\<lambda>k. if P k \<and> k \<in> set ks then None else view s k)"
    using delete_matching_run[OF twinD(1)[OF t] good(1)] by blast
  obtain m' where m': "delete_matching memory_backend P ks' m = (Inr (), m')" "memory_inv m'"
    "map_of m' = (\<lambda>k. if P k \<and> k \<in> set ks then None else map_of m k)"
    using mem.available.delete_matching_run[OF twinD(2)[OF t] good(2)] good(3) by auto
  from twin_remove[OF t s'(2,4,3) m'(2,3)] s'(1) m'(1)
  show "twin X view inv locked (snd (delete_matching B P ks s)) (snd (delete_matching memory_backend P ks' m))
      \<and> rel_sum (=) (=) (fst (delete_matching B P ks s)) (fst (delete_matching memory_backend P ks' m))" by simp
qed

lemma mimics_store_credential [mimics_intros]:
  assumes "codec_fits X" "codec_roundtrip X" "compact_credential c" "pred_option short label" "pred_option short nick"
  shows "mimics (twin X view inv locked) (\<lambda>k k'. k = k' \<and> record_id k) (store_credential_with_slot X (Some B) now c label slot nick)
    (store_credential_with_slot X (Some memory_backend) now c label slot nick)"
proof -
  let ?ns = "from_label label" and ?st = "\<lparr>sc_credential = c, sc_metadata = new_metadata now label slot nick\<rparr>"
  have id: "record_id (cred_prefix ?ns slot @ compute_base_id X c)" by (rule good_record[OF assms(1,3)])
  have st: "compact ?st"
    using assms(3-5) by (cases slot) (simp_all add: compact_def new_metadata_def short_def)
  have P: "mimics (twin X view inv locked) (\<lambda>k k'. k = k' \<and> record_id k) (pureS (Inr k)) (pureS (Inr k))"
    if "record_id k" for k
    using that by (simp add: mimics_def pureS_def)
  have "mimics (twin X view inv locked) (\<lambda>k k'. k = k' \<and> record_id k)
      (bindS (pureS (map_err (\<lambda>e. ''Failed to serialize credential: '' @ e) (encode_stored X ?st))) (\<lambda>d.
       bindS (ctx ''Failed to store credential'' (be_store B (cred_prefix ?ns slot @ compute_base_id X c) d BioNone)) (\<lambda>_.
       pureS (Inr (cred_prefix ?ns slot @ compute_base_id X c)))))
      (bindS (pureS (map_err (\<lambda>e. ''Failed to serialize credential: '' @ e) (encode_stored X ?st))) (\<lambda>d.
       bindS (ctx ''Failed to store credential''
         (be_store memory_backend (cred_prefix ?ns slot @ compute_base_id X c) d BioNone)) (\<lambda>_.
       pureS (Inr (cred_prefix ?ns slot @ compute_base_id X c)))))"
    using id compact_encoded[OF assms(1,2) st]
    by (intro mimics_bind_pure mimics_bindS mimics_ctx mimics_store P) (auto simp: record_id_def)
  then show ?thesis
    unfolding store_credential_with_slot_def with_backend_Some Let_def split_beta
    by (intro mimics_bindS_by[OF mimics_ctx[OF mimics_list]] mimics_bindS[OF mimics_delete_matching])
qed

lemma mimics_store_secrets [mimics_intros]:
  assumes "codec_fits X" "record_id i" "short (sec_r_bits sec)"
  shows "mimics (twin X view inv locked) (=) (store_credential_secrets X (Some B) i sec)
    (store_credential_secrets X (Some memory_backend) i sec)"
  unfolding store_credential_secrets_def with_backend_Some
  using assms secrets_fit[OF assms(1,3)]
  by (intro mimics_bind_pure mimics_ctx mimics_store) (auto simp: record_id_def)

lemma mimics_get [mimics_intros]:
  "record_id i \<Longrightarrow> mimics (twin X view inv locked) (=) (get_credential X (Some B) i) (get_credential X (Some memory_backend) i)"
  unfolding get_credential_def with_backend_Some
  by (intro mimics_retrieve_or_none mimics_retrieve) (simp_all add: record_id_def)

lemma mimics_load [mimics_intros]:
  "record_id i \<Longrightarrow> mimics (twin X view inv locked) (=) (load_credential_secrets X (Some B) i)
     (load_credential_secrets X (Some memory_backend) i)"
  unfolding load_credential_secrets_def with_backend_Some
  by (intro mimics_retrieve_or_none mimics_retrieve) (simp_all add: record_id_def for_credential_secrets_def)

lemma mimics_secrets_exist [mimics_intros]:
  "record_id i \<Longrightarrow> mimics (twin X view inv locked) (=) (credential_secrets_exist (Some B) i)
     (credential_secrets_exist (Some memory_backend) i)"
  unfolding credential_secrets_exist_def with_backend_Some
  by (intro mimics_ctx mimics_exists) (simp add: record_id_def)

text \<open>What is read under the identifier of a public record is compact if it decodes.\<close>

lemma mimics_retrieve_record:
  assumes "record_id i"
  shows "mimics (twin X view inv locked) (\<lambda>d d'. d = d' \<and> (\<forall>st. decode_stored X d = Inr st \<longrightarrow> compact st))
    (be_retrieve B i BioNone) (be_retrieve memory_backend i BioNone)"
proof (rule mimicsI)
  fix s m assume t: "twin X view inv locked s m"
  obtain r s' where run: "be_retrieve B i BioNone s = (r, s')" by fastforce
  have "mimics (twin X view inv locked) (=) (be_retrieve B i BioNone) (be_retrieve memory_backend i BioNone)"
    using assms by (intro mimics_retrieve) (auto simp: record_id_def)
  from mimics_same[OF this t] run
  have same: "fst (be_retrieve memory_backend i BioNone m) = r" "twin X view inv locked s' (snd (be_retrieve memory_backend i BioNone m))"
    by auto
  have "\<forall>st. decode_stored X d = Inr st \<longrightarrow> compact st" if "r = Inr d" for d
    using retrieve_law[OF twinD(1)[OF t] run] that twinD(7)[OF t] assms by (auto simp: record_id_def)
  with same run show "twin X view inv locked (snd (be_retrieve B i BioNone s)) (snd (be_retrieve memory_backend i BioNone m))
      \<and> rel_sum (=) (\<lambda>d d'. d = d' \<and> (\<forall>st. decode_stored X d = Inr st \<longrightarrow> compact st))
          (fst (be_retrieve B i BioNone s)) (fst (be_retrieve memory_backend i BioNone m))"
    by (cases r) auto
qed

lemma mimics_nickname [mimics_intros]:
  assumes "codec_fits X" "codec_roundtrip X" "record_id i" "pred_option short nick"
  shows "mimics (twin X view inv locked) (=) (update_credential_nickname X (Some B) i nick)
    (update_credential_nickname X (Some memory_backend) i nick)"
proof -
  let ?rest = "\<lambda>b d. bindS (pureS (map_err (\<lambda>e. ''Failed to parse credential: '' @ e) (decode_stored X d))) (\<lambda>st.
      bindS (pureS (map_err (\<lambda>e. ''Failed to serialize credential: '' @ e)
        (encode_stored X (st\<lparr>sc_metadata := (sc_metadata st)\<lparr>md_nickname := nick\<rparr>\<rparr>)))) (\<lambda>d'.
      ctx ''Failed to update credential'' (be_store b i d' BioNone)))"
  have rest: "mimics (twin X view inv locked) (=) (?rest B d) (?rest memory_backend d)"
    if d: "\<forall>st. decode_stored X d = Inr st \<longrightarrow> compact st" for d
  proof (intro mimics_bind_pure mimics_ctx mimics_store)
    fix st d' assume "map_err (\<lambda>e. ''Failed to parse credential: '' @ e) (decode_stored X d) = Inr st"
      and e: "map_err (\<lambda>e. ''Failed to serialize credential: '' @ e)
        (encode_stored X (st\<lparr>sc_metadata := (sc_metadata st)\<lparr>md_nickname := nick\<rparr>\<rparr>)) = Inr d'"
    then have st: "compact (st\<lparr>sc_metadata := (sc_metadata st)\<lparr>md_nickname := nick\<rparr>\<rparr>)"
      using d assms(4) by (simp add: compact_def)
    from e have "encode_stored X (st\<lparr>sc_metadata := (sc_metadata st)\<lparr>md_nickname := nick\<rparr>\<rparr>) = Inr d'" by simp
    from compact_encoded[OF assms(1,2) st this]
    show "good_data d'" "\<And>st'. decode_stored X d' = Inr st' \<Longrightarrow> compact st'" by blast+
  qed (use assms(3) in \<open>simp_all add: record_id_def\<close>)
  show ?thesis
    unfolding update_credential_nickname_def with_backend_Some Let_def
    by (rule mimics_bindS_by[OF mimics_ctx[OF mimics_retrieve_record[OF assms(3)]]])
      (elim conjE, hypsubst, rule rest)
qed

lemma mimics_delete_credential [mimics_intros]:
  assumes "record_id i"
  shows "mimics (twin X view inv locked) (=) (delete_credential (Some B) i) (delete_credential (Some memory_backend) i)"
proof -
  have "mimics (twin X view inv locked) (=) (\<lambda>s. case be_delete B (secrets_key i) s of (r, s') \<Rightarrow> (Inr (), s'))
      (\<lambda>s. case be_delete memory_backend (secrets_key i) s of (r, s') \<Rightarrow> (Inr () :: string + unit, s'))"
    using assms by (intro mimics_settled mimics_delete) (simp_all add: record_id_def)
  then show ?thesis
    using assms unfolding delete_credential_def with_backend_Some
    by (intro mimics_bindS mimics_ctx mimics_delete) (simp_all add: record_id_def)
qed

lemma mimics_purge [mimics_intros]:
  "mimics (twin X view inv locked) (=) (delete_sandbox_credentials (Some B)) (delete_sandbox_credentials (Some memory_backend))"
proof -
  have "mimics (twin X view inv locked) (=)
      (\<lambda>s. case delete_count_loop B P ks 0 s of (n, s') \<Rightarrow> (Inr n, s'))
      (\<lambda>s. case delete_count_loop memory_backend P ks' 0 s of (n, s') \<Rightarrow> (Inr n :: string + nat, s'))"
    if ks: "same_keys ks ks'" for P ks ks'
  proof (rule mimicsI)
    fix s m assume t: "twin X view inv locked s m"
    have good: "\<forall>k \<in> set ks. good_key k" "\<forall>k \<in> set ks'. good_key k" "set ks' = set ks"
      using ks by (auto simp: same_keys_def)
    obtain s' where s': "delete_count_loop B P ks 0 s = (length (filter P ks), s')" "inv s'" "\<And>k. locked s' k \<Longrightarrow> locked s k"
      "view s' = (\<lambda>k. if P k \<and> k \<in> set ks then None else view s k)"
      using delete_count_run[OF twinD(1)[OF t] good(1), of P 0] by auto
    obtain m' where m': "delete_count_loop memory_backend P ks' 0 m = (length (filter P ks'), m')" "memory_inv m'"
      "map_of m' = (\<lambda>k. if P k \<and> k \<in> set ks then None else map_of m k)"
      using mem.available.delete_count_run[OF twinD(2)[OF t] good(2), of P 0] good(3) by auto
    from twin_remove[OF t s'(2,4,3) m'(2,3)] s'(1) m'(1) same_keys_filter[OF ks, of P]
    show "twin X view inv locked (snd (case delete_count_loop B P ks 0 s of (n, s') \<Rightarrow> (Inr n :: string + nat, s')))
        (snd (case delete_count_loop memory_backend P ks' 0 m of (n, s') \<Rightarrow> (Inr n :: string + nat, s')))
      \<and> rel_sum (=) (=) (fst (case delete_count_loop B P ks 0 s of (n, s') \<Rightarrow> (Inr n :: string + nat, s')))
        (fst (case delete_count_loop memory_backend P ks' 0 m of (n, s') \<Rightarrow> (Inr n, s')))" by simp
  qed
  then show ?thesis
    unfolding delete_sandbox_credentials_def delete_all_in_namespace_def with_backend_Some
    by (intro mimics_bindS_by[OF mimics_ctx[OF mimics_list]]) blast
qed

lemma mimics_next_index [mimics_intros]:
  "mimics (twin X view inv locked) (=) (next_available_managed_index (Some B) ns)
     (next_available_managed_index (Some memory_backend) ns)"
proof -
  have fold: "fold (mark_occupied p) ks occ = fold (mark_occupied p) ks' occ" if "same_keys ks ks'" for p ks ks' occ
    using that mark_fold[of p ks occ] mark_fold[of p ks' occ] by (intro nth_equalityI) (auto simp: same_keys_def)
  show ?thesis
    unfolding next_available_managed_index_def with_backend_Some Let_def
    by (rule mimics_bindS_by[OF mimics_ctx[OF mimics_list]]) (simp only: fold mimics_pureS)
qed

lemma mset_map_filter: "mset xs = mset ys \<Longrightarrow> mset (List.map_filter f xs) = mset (List.map_filter f ys)"
  by (simp add: List.map_filter_def)

text \<open>A listing has the same entries on both stores, in the order each store gives its keys.\<close>

lemma mimics_list_credentials:
  "mimics (twin X view inv locked) (\<lambda>l l'. mset l = mset l') (list_credentials X (Some B) now)
     (list_credentials X (Some memory_backend) now)"
proof (rule mimicsI)
  fix s m assume t: "twin X view inv locked s m"
  obtain r s1 where run: "be_list_keys B s = (r, s1)" by fastforce
  from list_done[OF twinD(1)[OF t] run] obtain ks where r: "r = Inr ks"
    and lk: "\<And>k. locked s1 k \<Longrightarrow> locked s k" by (auto simp: is_ok_iff)
  from list_law[OF twinD(1)[OF t] run] r
  have s1: "inv s1" "view s1 = view s" "distinct ks" "set ks = dom (view s)" by auto
  have 1: "set ks \<subseteq> dom (view s1)" "\<forall>k \<in> set ks. good_key k \<and> (is_credential_key k \<longrightarrow> good_key (secrets_key k))"
    "\<forall>k. locked s1 k \<longrightarrow> \<not> is_credential_key k"
    using s1 twinD(4-6)[OF t] lk by auto
  obtain s2 where l: "list_loop X B now ks [] s1 = (List.map_filter (listed X now (view s)) ks, s2)" "inv s2"
    "\<And>k. locked s2 k \<Longrightarrow> locked s1 k" "view s2 = view s"
    using list_loop_run[OF s1(1) 1, of X now "[]"] s1(2) by auto
  have mem: "be_list_keys memory_backend m = (Inr (map fst m), m)" by (simp add: memory_backend_def)
  from mem.list_law[OF twinD(2)[OF t] mem] have m: "distinct (map fst m)" "set (map fst m) = dom (map_of m)" by auto
  have 2: "set (map fst m) \<subseteq> dom (map_of m)"
    "\<forall>k \<in> set (map fst m). good_key k \<and> (is_credential_key k \<longrightarrow> good_key (secrets_key k))"
    using m(2) twinD(3,5,6)[OF t] by auto
  obtain m2 where n: "list_loop X memory_backend now (map fst m) [] m
      = (List.map_filter (listed X now (view s)) (map fst m), m2)" "memory_inv m2" "map_of m2 = map_of m"
    using mem.available.list_loop_run[OF twinD(2)[OF t] 2, of X now "[]"] twinD(3)[OF t] by auto
  have "mset ks = mset (map fst m)"
    using s1(3,4) m twinD(3)[OF t] set_eq_iff_mset_eq_distinct[of ks "map fst m"] by simp
  note same = mset_map_filter[OF this, of "listed X now (view s)"]
  then show "twin X view inv locked (snd (list_credentials X (Some B) now s)) (snd (list_credentials X (Some memory_backend) now m))
      \<and> rel_sum (=) (\<lambda>l l'. mset l = mset l') (fst (list_credentials X (Some B) now s))
          (fst (list_credentials X (Some memory_backend) now m))"
    using run r mem l n twin_read[OF t l(2,4) _ n(2,3)] lk by (simp add: list_credentials_def bindS_ctx)
qed

end

end
