(* ===== verification/Device_Backends.thy ===== *)
theory Device_Backends
  imports Backend_Equivalence Ios_Properties Android_Properties
begin

text \<open>
  The two device backends are available backends: over a keychain and over a keystore bridge that
  do what they are asked, and with a user who passes each prompt, every operation on a well-formed
  key and on data within the limits succeeds. \<open>keychain_ready\<close> and \<open>bridge_ready\<close> say when that is.
\<close>

section \<open>iOS\<close>

text \<open>Beside the documented effects: an item is added where there is none and reported where there is
  one, found where there is one, and an item behind biometry is read with the prompt.\<close>

definition keychain_ready ::
    "'k keychain \<Rightarrow> ('k \<Rightarrow> string \<times> string \<Rightarrow> (bytes \<times> bool) option) \<Rightarrow> ('k \<Rightarrow> bool) \<Rightarrow> bool" where
  "keychain_ready K v I \<longleftrightarrow>
     (\<forall>k. I k \<longrightarrow> kc_access_control K k)
   \<and> (\<forall>g a d bio k. I k \<longrightarrow>
        fst (kc_add K g a d bio k) = (if v k (g, a) = None then errSecSuccess else errSecDuplicateItem))
   \<and> (\<forall>g a d k. I k \<longrightarrow> v k (g, a) \<noteq> None \<longrightarrow> fst (kc_update K g a d k) = errSecSuccess)
   \<and> (\<forall>g a p k. I k \<longrightarrow> v k (g, a) = None \<longrightarrow> fst (fst (kc_copy K g a p k)) = errSecItemNotFound)
   \<and> (\<forall>g a p k d b. I k \<longrightarrow> v k (g, a) = Some (d, b) \<longrightarrow> p \<or> \<not> b \<longrightarrow> fst (kc_copy K g a p k) = (errSecSuccess, CfValue d))
   \<and> (\<forall>g a k. I k \<longrightarrow> fst (kc_attributes K g a k) = (if v k (g, a) = None then errSecItemNotFound else errSecSuccess))
   \<and> (\<forall>g a k. I k \<longrightarrow> fst (kc_delete K g a k) = (if v k (g, a) = None then errSecItemNotFound else errSecSuccess))
   \<and> (\<forall>g k. I k \<longrightarrow> fst (fst (kc_list K g k)) = errSecSuccess \<or> fst (fst (kc_list K g k)) = errSecItemNotFound)"

lemmas ready_aclD = keychain_ready_def [THEN iffD1, THEN conjunct1, rule_format]
lemmas ready_addD = keychain_ready_def [THEN iffD1, THEN conjunct2, THEN conjunct1, rule_format]
lemmas ready_updateD = keychain_ready_def [THEN iffD1, THEN conjunct2, THEN conjunct2, THEN conjunct1, rule_format]
lemmas ready_absentD = keychain_ready_def [THEN iffD1, THEN conjunct2, THEN conjunct2, THEN conjunct2, THEN conjunct1, rule_format]
lemmas ready_copyD = keychain_ready_def [THEN iffD1, THEN conjunct2, THEN conjunct2, THEN conjunct2, THEN conjunct2,
  THEN conjunct1, rule_format]
lemmas ready_attributesD = keychain_ready_def [THEN iffD1, THEN conjunct2, THEN conjunct2, THEN conjunct2, THEN conjunct2,
  THEN conjunct2, THEN conjunct1, rule_format]
lemmas ready_deleteD = keychain_ready_def [THEN iffD1, THEN conjunct2, THEN conjunct2, THEN conjunct2, THEN conjunct2,
  THEN conjunct2, THEN conjunct2, THEN conjunct1, rule_format]
lemmas ready_listD = keychain_ready_def [THEN iffD1, THEN conjunct2, THEN conjunct2, THEN conjunct2, THEN conjunct2,
  THEN conjunct2, THEN conjunct2, THEN conjunct2, rule_format]

lemma ready_adds: "keychain_ready K v I \<Longrightarrow> adds_when_absent K v I"
  by (simp add: adds_when_absent_def ready_addD)

definition item_locked :: "(bytes \<times> bool) option \<Rightarrow> bool" where
  "item_locked x = (case x of Some (_, b) \<Rightarrow> b | None \<Rightarrow> False)"

definition ios_locked ::
    "('k \<Rightarrow> string \<times> string \<Rightarrow> (bytes \<times> bool) option) \<Rightarrow> ios_config \<Rightarrow> 'k ios \<Rightarrow> string \<Rightarrow> bool" where
  "ios_locked v C s a = item_locked (v (ios_keychain s) (ic_service_name C, a))"

text \<open>A store overwrites in place, and behind biometry deletes and adds again.\<close>

lemma store_item_ready:
  assumes "keychain_ok (ie_keychain E) v I" "keychain_ready (ie_keychain E) v I" "ios_at v I m c s"
    "store_item_internal E C key d bio s = (r, s')"
  shows "r = Inr () \<and> (\<exists>b. (b \<longrightarrow> bio \<or> item_locked (m (ic_service_name C, key)))
    \<and> ios_at v I (m((ic_service_name C, key) \<mapsto> (d, b))) c s')"
proof -
  let ?g = "(ic_service_name C, key)"
  have I: "I (ios_keychain s)" and m: "v (ios_keychain s) = m" using assms(3) by (auto simp: ios_at_def)
  obtain st s1 where a: "add_item E C key d bio s = (st, s1)" by fastforce
  have st: "st = (if m ?g = None then errSecSuccess else errSecDuplicateItem)"
    using ready_addD[OF assms(2) I, of "ic_service_name C" key d bio] a m
    by (auto simp: add_item_def on_keychain_def split: prod.splits if_splits)
  note added = ios_add_item_law[OF assms(1,3) a]
  note acl = ready_aclD[OF assms(2) I]
  show ?thesis
  proof (cases "m ?g")
    case None
    with st a added acl assms(4) show ?thesis by (auto simp: store_item_internal_def intro: exI[of _ bio])
  next
    case (Some x)
    obtain d0 b0 where x: "m ?g = Some (d0, b0)" using Some by (cases x) auto
    with st added have at1: "ios_at v I m c s1" by simp
    then have I1: "I (ios_keychain s1)" and m1: "v (ios_keychain s1) = m" by (auto simp: ios_at_def)
    show ?thesis
    proof (cases bio)
      case False
      obtain u k' where u: "kc_update (ie_keychain E) (ic_service_name C) key d (ios_keychain s1) = (u, k')" by fastforce
      have "u = errSecSuccess" using ready_updateD[OF assms(2) I1, of "ic_service_name C" key d] u m1 x by simp
      with keychain_updateD[OF assms(1) I1 u] m1 x
      have k': "I k'" "v k' = m(?g \<mapsto> (d, b0))" by auto
      from u \<open>u = errSecSuccess\<close> have "update_item_internal E C key d s1 = (Inr (), s1\<lparr>ios_keychain := k'\<rparr>)"
        by (simp add: update_item_internal_def on_keychain_def)
      with False st Some a assms(4) have "r = Inr ()" "s' = s1\<lparr>ios_keychain := k'\<rparr>"
        by (simp_all add: store_item_internal_def)
      with k' at1 x show ?thesis by (auto simp: ios_at_def item_locked_def intro: exI[of _ b0])
    next
      case True
      obtain dl k2 where dl: "kc_delete (ie_keychain E) (ic_service_name C) key (ios_keychain s1) = (dl, k2)" by fastforce
      have "dl = errSecSuccess" using ready_deleteD[OF assms(2) I1, of "ic_service_name C" key] dl m1 x by simp
      with keychain_deleteD[OF assms(1) I1 dl] m1 have k2: "I k2" "v k2 = m(?g := None)" by auto
      let ?s2 = "s1\<lparr>ios_keychain := k2\<rparr>"
      have at2: "ios_at v I (m(?g := None)) c ?s2" using k2 at1 by (simp add: ios_at_def)
      have d2: "delete_item_internal E C key s1 = (Inr (), ?s2)"
        using dl \<open>dl = errSecSuccess\<close> by (simp add: delete_item_internal_def on_keychain_def)
      obtain st3 s3 where re: "add_item E C key d bio ?s2 = (st3, s3)" by fastforce
      have "st3 = errSecSuccess"
        using ready_addD[OF assms(2) k2(1), of "ic_service_name C" key d bio] k2(2) re
        by (simp add: add_item_def on_keychain_def split: prod.splits)
      with ios_add_item_law[OF assms(1) at2 re] True st Some a acl d2 re assms(4) show ?thesis
        by (auto simp: store_item_internal_def bindS_def)
    qed
  qed
qed

lemma attempts_first: "f s = (Inr x, s') \<Longrightarrow> ios_attempts bio f s = (Inr x, s')"
  by (simp add: ios_attempts_def max_keychain_retries_def eval_nat_numeral)

lemma good_ios_key [simp]: "good_key k \<Longrightarrow> ios_validate_key k = Inr ()"
  by (auto simp: good_key_def ios_validate_key_def)

lemma good_ios_data [simp]: "good_data d \<Longrightarrow> ios_validate_data d = Inr ()"
  by (auto simp: good_data_def ios_validate_data_def ios_max_item_size_def)

lemma ios_store_ready:
  assumes "keychain_ok (ie_keychain E) v I" "keychain_ready (ie_keychain E) v I" "ios_at v I m c s"
    "good_key key" "good_data d" "ios_store_secure E C key d bio s = (r, s')"
  shows "r = Inr () \<and> (\<exists>b. (b \<longrightarrow> bio \<or> item_locked (m (ic_service_name C, key)))
    \<and> v (ios_keychain s') = m((ic_service_name C, key) \<mapsto> (d, b)))"
proof -
  obtain x s1 where "store_item_internal E C key d bio s = (x, s1)" by fastforce
  from store_item_ready[OF assms(1-3) this] this obtain b where
    run: "store_item_internal E C key d bio s = (Inr (), s1)"
    and b: "b \<longrightarrow> bio \<or> item_locked (m (ic_service_name C, key))"
      "v (ios_keychain s1) = m((ic_service_name C, key) \<mapsto> (d, b))" by (auto simp: ios_at_def)
  from assms(4-6) attempts_first[where f = "store_item_internal E C key d bio", OF run, of bio]
  have "r = Inr ()" "ios_keychain s' = ios_keychain s1"
    by (auto simp: ios_store_secure_def Let_def split: if_splits)
  with b show ?thesis by auto
qed

text \<open>A read of an absent item is tried again, in vain.\<close>

lemma retry_absent:
  assumes "\<And>s. J s \<Longrightarrow> \<exists>s'. f s = (Inl e, s') \<and> J s'" "J s"
  shows "\<exists>s'. with_retry n f s = (Inl e, s') \<and> J s'"
  using assms(2)
proof (induction n arbitrary: s)
  case 0
  then show ?case using assms(1) by simp
next
  case (Suc n)
  from assms(1)[OF Suc.prems] obtain s1 where "f s = (Inl e, s1)" "J s1" by blast
  with Suc.IH[of s1] show ?case by auto
qed

lemma ios_retrieve_ready:
  assumes "keychain_ok (ie_keychain E) v I" "keychain_ready (ie_keychain E) v I" "ios_at v I m c s"
    "\<not> ic_enable_caching C" "good_key key" "bio \<or> \<not> item_locked (m (ic_service_name C, key))"
    "ios_retrieve_secure E C key bio s = (r, s')"
  shows "r = ok_or (PStorage ''NotFound'') (map_option fst (m (ic_service_name C, key)))"
proof -
  let ?g = "(ic_service_name C, key)" and ?f = "retrieve_item_internal E C key bio"
  have once: "\<exists>t'. ?f t = (ok_or (PStorage ''NotFound'') (map_option fst (m ?g)), t') \<and> ios_at v I m c t'"
    if t: "ios_at v I m c t" for t
  proof -
    have I: "I (ios_keychain t)" and m: "v (ios_keychain t) = m" using t by (auto simp: ios_at_def)
    obtain st x k' where k': "kc_copy (ie_keychain E) (ic_service_name C) key bio (ios_keychain t) = ((st, x), k')"
      by (metis prod.collapse)
    with keychain_copyD[OF assms(1) I k'] t have at: "ios_at v I m c (t\<lparr>ios_keychain := k'\<rparr>)" by (simp add: ios_at_def)
    show ?thesis
    proof (cases "m ?g")
      case None
      with ready_absentD[OF assms(2) I, of "ic_service_name C" key bio] k' m at show ?thesis
        by (simp add: retrieve_item_internal_def on_keychain_def ok_or_def)
    next
      case (Some y)
      obtain d b where y: "m ?g = Some (d, b)" using Some by (cases y) auto
      with assms(6) have "bio \<or> \<not> b" by (simp add: item_locked_def)
      with ready_copyD[OF assms(2) I, of "ic_service_name C" key d b bio] y k' m at show ?thesis
        by (simp add: retrieve_item_internal_def on_keychain_def ok_or_def)
    qed
  qed
  let ?r = "ok_or (PStorage ''NotFound'') (map_option fst (m ?g))"
  have "fst (ios_attempts bio ?f s) = ?r"
  proof (cases "m ?g")
    case (Some y)
    from once[OF assms(3)] Some show ?thesis by (auto simp: ok_or_def attempts_first[where f = ?f])
  next
    case None
    then have step: "ios_at v I m c t \<Longrightarrow> \<exists>t'. ?f t = (Inl (PStorage ''NotFound''), t') \<and> ios_at v I m c t'" for t
      using once by (simp add: ok_or_def)
    obtain t' where "with_retry max_keychain_retries ?f s = (Inl (PStorage ''NotFound''), t')"
      using retry_absent[of "ios_at v I m c" ?f, OF step assms(3)] by blast
    with step[OF assms(3)] None show ?thesis by (auto simp: ios_attempts_def ok_or_def)
  qed
  then have "fst (ios_retrieve_uncached E C key bio s) = ?r"
    using assms(4,5) by (auto simp: ios_retrieve_uncached_def Let_def split: prod.splits)
  moreover have "ios_retrieve_secure E C key bio s = ios_retrieve_uncached E C key bio s"
    using assms(4) by (simp add: ios_retrieve_secure_def ios_get_from_cache_def)
  ultimately show ?thesis using assms(7) by (metis fst_conv)
qed

lemma ios_available:
  assumes "keychain_ok (ie_keychain E) v I" "keychain_ready (ie_keychain E) v I" "\<not> ic_enable_caching C"
  shows "available_backend (ios_backend E C) (ios_view v C) (\<lambda>s. I (ios_keychain s)) (ios_locked v C)"
proof (rule available_backend.intro)
  show "storage_backend (ios_backend E C) (ios_view v C) (\<lambda>s. I (ios_keychain s))"
    by (rule ios_storage_backend[OF assms(1) ready_adds[OF assms(2)] assms(3)])
  show "available_backend_axioms (ios_backend E C) (ios_view v C) (\<lambda>s. I (ios_keychain s)) (ios_locked v C)"
  proof (rule available_backend_axioms.intro, goal_cases)
    case (1 s k d bio r s')
    then have "ios_store_secure E C k d (requires_bio bio) s = (r, s')" by (simp add: ios_backend_def)
    from ios_store_ready[OF assms(1,2) ios_at_now[of I s v, OF 1(1)] 1(2,3) this]
    show ?case by (cases bio) (auto simp: ios_locked_def item_locked_def requires_bio_def split: if_splits)
  next
    case (2 s k bio rb s')
    have run: "ios_retrieve_secure E C k (requires_bio bio) s = (rb, s')" using 2(4) by (simp add: ios_backend_def)
    have "requires_bio bio \<or> \<not> item_locked (v (ios_keychain s) (ic_service_name C, k))"
      using 2(3) by (cases bio) (auto simp: ios_locked_def requires_bio_def)
    from ios_retrieve_ready[OF assms(1,2) ios_at_now[of I s v, OF 2(1)] assms(3) 2(2) this run]
      ios_retrieve_secure_law[OF assms(1) ios_at_now[of I s v, OF 2(1)] run] assms(3)
    show ?case by (auto simp: ios_view_def ios_locked_def ios_at_def)
  next
    case (3 s k r s')
    then have run: "ios_delete_secure E C k s = (r, s')" by (simp add: ios_backend_def)
    have "is_ok r" using ready_deleteD[OF assms(2) 3(1), of "ic_service_name C" k] run 3(2)
      by (auto simp: ios_delete_secure_def delete_item_internal_def on_keychain_def split: prod.splits if_splits)
    with ios_delete_secure_law[OF assms(1) ios_at_now[of I s v, OF 3(1)] run]
    show ?case by (auto simp: ios_locked_def ios_at_def item_locked_def is_ok_iff split: if_splits)
  next
    case (4 s k rx s')
    then have run: "exists_internal E C k s = (rx, s')" by (simp add: ios_backend_def)
    have "is_ok rx" using ready_attributesD[OF assms(2) 4(1), of "ic_service_name C" k] run
      by (auto simp: exists_internal_def on_keychain_def split: prod.splits if_splits)
    with ios_exists_law[OF assms(1) ios_at_now[of I s v, OF 4(1)] run]
    show ?case by (auto simp: ios_locked_def ios_view_def ios_at_def is_ok_iff)
  next
    case (5 s rl s')
    then have run: "list_keys_internal E C s = (rl, s')" by (simp add: ios_backend_def)
    obtain st x k' where k': "kc_list (ie_keychain E) (ic_service_name C) (ios_keychain s) = ((st, x), k')"
      by (metis prod.collapse)
    have "is_ok rl" using ready_listD[OF assms(2) 5(1), of "ic_service_name C"] run k'
        keychain_listD[OF assms(1) 5(1) k']
      by (auto simp: list_keys_internal_def on_keychain_def)
    with ios_list_keys_law[OF assms(1) ios_at_now[of I s v, OF 5(1)] run]
    show ?case by (auto simp: ios_locked_def ios_at_def)
  qed
qed

lemma ref_keychain_ready: "keychain_ready ref_keychain map_of ref_inv"
  by (auto simp: keychain_ready_def ref_keychain_def Let_def split: option.split)

interpretation ios_device: available_backend "ios_backend sample_ios_env ios_production_config"
  "ios_view map_of ios_production_config" "\<lambda>s. ref_inv (ios_keychain s)" "ios_locked map_of ios_production_config"
  by (rule ios_available) (simp_all add: ref_keychain_ok ref_keychain_ready ios_production_config_def)

section \<open>Android\<close>

text \<open>
  \<open>l\<close> says which items need the prompt. The steps before an operation succeed, an item is stored and
  found, the prompt is passed, and only a store behind biometry puts an item behind the prompt.
\<close>

definition bridge_ready ::
    "'b keystore_bridge \<Rightarrow> ('b \<Rightarrow> string \<Rightarrow> bytes option) \<Rightarrow> ('b \<Rightarrow> string \<Rightarrow> bool) \<Rightarrow> ('b \<Rightarrow> bool) \<Rightarrow> bool" where
  "bridge_ready K v l I \<longleftrightarrow>
     (\<forall>k d sb bio b. I b \<longrightarrow> fst (kb_store K k d sb bio b) = Inr True
        \<and> (\<forall>k'. l (snd (kb_store K k d sb bio b)) k' \<longrightarrow> l b k' \<or> k' = k \<and> bio))
   \<and> (\<forall>k bio b. I b \<longrightarrow> bio \<or> \<not> l b k \<longrightarrow> fst (kb_retrieve K k bio b) = Inr (v b k))
   \<and> (\<forall>k b. I b \<longrightarrow> is_ok (fst (kb_delete K k b)) \<and> (\<forall>k'. l (snd (kb_delete K k b)) k' \<longrightarrow> l b k'))
   \<and> (\<forall>b. I b \<longrightarrow> is_ok (fst (kb_list K b)) \<and> is_ok (fst (kb_has_strongbox K b)))
   \<and> (\<forall>b. I b \<longrightarrow> fst (kb_attach K b) = Inr () \<and> fst (kb_instance K b) = Inr ())
   \<and> (\<forall>sb bio b. I b \<longrightarrow> fst (kb_ensure_master_key K sb bio b) = Inr True \<and> fst (kb_initialise K sb bio b) = Inr ())
   \<and> (\<forall>t n b. I b \<longrightarrow> fst (kb_authenticate K t n b) = Inr True)
   \<and> (\<forall>k bio. quiet l I (kb_retrieve K k bio)) \<and> quiet l I (kb_list K)
   \<and> quiet l I (kb_attach K) \<and> quiet l I (kb_instance K) \<and> quiet l I (kb_has_strongbox K)
   \<and> (\<forall>sb bio. quiet l I (kb_ensure_master_key K sb bio) \<and> quiet l I (kb_initialise K sb bio))
   \<and> (\<forall>t n. quiet l I (kb_authenticate K t n))"

lemma bridge_readyD:
  assumes "bridge_ready K v l I"
  shows "I b \<Longrightarrow> fst (kb_store K k d sb bio b) = Inr True"
    "I b \<Longrightarrow> l (snd (kb_store K k d sb bio b)) k' \<Longrightarrow> l b k' \<or> k' = k \<and> bio"
    "I b \<Longrightarrow> bio \<or> \<not> l b k \<Longrightarrow> fst (kb_retrieve K k bio b) = Inr (v b k)"
    "I b \<Longrightarrow> is_ok (fst (kb_delete K k b))" "I b \<Longrightarrow> l (snd (kb_delete K k b)) k' \<Longrightarrow> l b k'"
    "I b \<Longrightarrow> is_ok (fst (kb_list K b))" "I b \<Longrightarrow> is_ok (fst (kb_has_strongbox K b))"
    "I b \<Longrightarrow> fst (kb_attach K b) = Inr ()" "I b \<Longrightarrow> fst (kb_instance K b) = Inr ()"
    "I b \<Longrightarrow> fst (kb_ensure_master_key K sb bio b) = Inr True" "I b \<Longrightarrow> fst (kb_initialise K sb bio b) = Inr ()"
    "I b \<Longrightarrow> fst (kb_authenticate K t n b) = Inr True"
    "quiet l I (kb_retrieve K k bio)" "quiet l I (kb_list K)" "quiet l I (kb_attach K)" "quiet l I (kb_instance K)"
    "quiet l I (kb_has_strongbox K)" "quiet l I (kb_ensure_master_key K sb bio)" "quiet l I (kb_initialise K sb bio)"
    "quiet l I (kb_authenticate K t n)"
  using assms unfolding bridge_ready_def by metis+

text \<open>The bridge holds \<open>m\<close>, and what is behind the prompt is within \<open>n\<close>.\<close>

definition and_up ::
    "('b \<Rightarrow> string \<Rightarrow> bytes option) \<Rightarrow> ('b \<Rightarrow> string \<Rightarrow> bool) \<Rightarrow> ('b \<Rightarrow> bool) \<Rightarrow>
     (string \<Rightarrow> bytes option) \<Rightarrow> (string \<Rightarrow> bool) \<Rightarrow> 'b android \<Rightarrow> bool" where
  "and_up v l I m n s \<longleftrightarrow> I (and_java s) \<and> v (and_java s) = m \<and> (\<forall>k. l (and_java s) k \<longrightarrow> n k)"

text \<open>Success with a value that \<open>Q\<close> accepts, and a given result.\<close>

definition succeeds :: "('s \<Rightarrow> bool) \<Rightarrow> ('s, 'e, 'a) op \<Rightarrow> ('a \<Rightarrow> 's \<Rightarrow> bool) \<Rightarrow> bool" where
  "succeeds P f Q \<longleftrightarrow> (\<forall>s. P s \<longrightarrow> (\<exists>x s'. f s = (Inr x, s') \<and> Q x s'))"

definition delivers :: "('s \<Rightarrow> bool) \<Rightarrow> ('s, 'e, 'a) op \<Rightarrow> 'e + 'a \<Rightarrow> ('s \<Rightarrow> bool) \<Rightarrow> bool" where
  "delivers P f r Q \<longleftrightarrow> (\<forall>s. P s \<longrightarrow> fst (f s) = r \<and> Q (snd (f s)))"

lemma delivers_bindS:
  assumes "succeeds P f Q" "\<And>x. delivers (Q x) (g x) r S"
  shows "delivers P (bindS f g) r S"
  unfolding delivers_def
proof (intro allI impI)
  fix s assume "P s"
  with assms(1) obtain x t where "f s = (Inr x, t)" "Q x t" unfolding succeeds_def by blast
  with assms(2)[of x] show "fst (bindS f g s) = r \<and> S (snd (bindS f g s))" by (simp add: bindS_Inr delivers_def)
qed

lemma succeeds_bindS:
  assumes "succeeds P f Q" "\<And>x. succeeds (Q x) (g x) S"
  shows "succeeds P (bindS f g) S"
  unfolding succeeds_def
proof (intro allI impI)
  fix s assume "P s"
  with assms(1) obtain x t where "f s = (Inr x, t)" "Q x t" unfolding succeeds_def by blast
  with assms(2)[of x] show "\<exists>y s'. bindS f g s = (Inr y, s') \<and> S y s'" by (simp add: bindS_Inr succeeds_def)
qed

lemma succeeds_pureS: "(\<And>s. P s \<Longrightarrow> Q x s) \<Longrightarrow> succeeds P (pureS (Inr x)) Q"
  by (simp add: succeeds_def pureS_def)

lemma succeeds_java:
  assumes "quiet v I f" "quiet l I f" "\<And>b. I b \<Longrightarrow> fst (f b) = Inr x"
  shows "succeeds (and_up v l I m n) (on_java f) (\<lambda>y s. y = x \<and> and_up v l I m n s)"
  unfolding succeeds_def
proof (intro allI impI)
  fix s assume s: "and_up v l I m n s"
  then have I: "I (and_java s)" by (simp add: and_up_def)
  obtain b' where f: "f (and_java s) = (Inr x, b')" using assms(3)[OF I] by (metis prod.collapse)
  with assms(1,2) I have "I b'" "v b' = v (and_java s)" "l b' = l (and_java s)" unfolding quiet_def by blast+
  with s f show "\<exists>y s'. on_java f s = (Inr y, s') \<and> y = x \<and> and_up v l I m n s'"
    by (simp add: on_java_def and_up_def)
qed

lemma succeeds_java_any:
  assumes "quiet v I f" "quiet l I f" "\<And>b. I b \<Longrightarrow> is_ok (fst (f b))"
  shows "succeeds (and_up v l I m n) (on_java f) (\<lambda>_. and_up v l I m n)"
  unfolding succeeds_def
proof (intro allI impI)
  fix s assume s: "and_up v l I m n s"
  then have I: "I (and_java s)" by (simp add: and_up_def)
  obtain x b' where f: "f (and_java s) = (Inr x, b')" using assms(3)[OF I] by (metis is_ok_iff prod.collapse)
  with assms(1,2) I have "I b'" "v b' = v (and_java s)" "l b' = l (and_java s)" unfolding quiet_def by blast+
  with s f show "\<exists>y s'. on_java f s = (Inr y, s') \<and> and_up v l I m n s'"
    by (simp add: on_java_def and_up_def)
qed

lemma up_same: "and_java s' = and_java s \<Longrightarrow> and_up v l I m n s' = and_up v l I m n s"
  by (simp add: and_up_def)

locale working_bridge =
  fixes E :: "'b android_env" and C :: android_config
    and v :: "'b \<Rightarrow> string \<Rightarrow> bytes option" and l :: "'b \<Rightarrow> string \<Rightarrow> bool" and I :: "'b \<Rightarrow> bool"
  assumes documented: "bridge_ok (ae_bridge E) v I"
    and ready: "bridge_ready (ae_bridge E) v l I"
    and uncached: "\<not> ac_enable_caching C"
begin

lemmas doc = bridge_quiet[OF documented]
lemmas up = bridge_readyD[OF ready]

lemma attach_up: "succeeds (and_up v l I m n) (on_java (kb_attach (ae_bridge E))) (\<lambda>_. and_up v l I m n)"
  by (rule succeeds_java_any) (simp_all add: doc up)

lemma connect_up: "succeeds (and_up v l I m n) (get_keystore_bridge E C) (\<lambda>_. and_up v l I m n)"
proof -
  have "succeeds (and_up v l I m n) (bindS (on_java (kb_instance (ae_bridge E))) (\<lambda>_.
      bindS (on_java (kb_has_strongbox (ae_bridge E))) (\<lambda>sb.
      bindS (on_java (kb_ensure_master_key (ae_bridge E) sb (ac_require_biometrics C))) (\<lambda>ok.
      if \<not> ok then pureS (Inl (PStorage ''Failed to prepare master key''))
      else bindS (on_java (kb_initialise (ae_bridge E) (ac_require_biometrics C) sb)) (\<lambda>_ s'.
        (Inr (), s'\<lparr>and_connected := True\<rparr>)))))) (\<lambda>_. and_up v l I m n)"
  proof (intro succeeds_bindS)
    show "succeeds (and_up v l I m n) (on_java (kb_instance (ae_bridge E))) (\<lambda>_. and_up v l I m n)"
      by (rule succeeds_java_any) (simp_all add: doc up)
    show "succeeds (and_up v l I m n) (on_java (kb_has_strongbox (ae_bridge E))) (\<lambda>_. and_up v l I m n)"
      by (rule succeeds_java_any) (simp_all add: doc up)
    show "succeeds (and_up v l I m n) (on_java (kb_ensure_master_key (ae_bridge E) sb (ac_require_biometrics C)))
        (\<lambda>y s. y = True \<and> and_up v l I m n s)" for sb
      by (rule succeeds_java) (simp_all add: doc up)
    have last: "succeeds (and_up v l I m n) (bindS (on_java (kb_initialise (ae_bridge E) (ac_require_biometrics C) sb))
        (\<lambda>_ s'. (Inr (), s'\<lparr>and_connected := True\<rparr>))) (\<lambda>_. and_up v l I m n)" for sb
    proof (rule succeeds_bindS)
      show "succeeds (and_up v l I m n) (on_java (kb_initialise (ae_bridge E) (ac_require_biometrics C) sb))
          (\<lambda>_. and_up v l I m n)"
        by (rule succeeds_java_any) (simp_all add: doc up)
    qed (simp add: succeeds_def and_up_def)
    show "succeeds (\<lambda>s. ok = True \<and> and_up v l I m n s)
        (if \<not> ok then pureS (Inl (PStorage ''Failed to prepare master key''))
         else bindS (on_java (kb_initialise (ae_bridge E) (ac_require_biometrics C) sb)) (\<lambda>_ s'.
           (Inr (), s'\<lparr>and_connected := True\<rparr>))) (\<lambda>_. and_up v l I m n)" for ok sb
      using last[of sb] by (cases ok) (simp_all add: succeeds_def)
  qed
  then show ?thesis by (simp add: succeeds_def get_keystore_bridge_def)
qed

lemma gate_up: "succeeds (and_up v l I m n) (and_gate E C bio t) (\<lambda>_. and_up v l I m n)"
proof -
  have prompt: "succeeds (and_up v l I m n) (authenticate_biometric E C t) (\<lambda>y s. y = True \<and> and_up v l I m n s)"
    unfolding authenticate_biometric_def
  proof (intro succeeds_bindS[OF connect_up] succeeds_bindS)
    show "succeeds (and_up v l I m n) (on_java (kb_authenticate (ae_bridge E) t 30000)) (\<lambda>y s. y = True \<and> and_up v l I m n s)"
      by (rule succeeds_java) (simp_all add: doc up)
  qed (auto simp: succeeds_def and_up_def)
  have checked: "succeeds (\<lambda>s. ok = True \<and> and_up v l I m n s)
      (pureS (if \<not> ok then Inl (PBiometricFailed ''Biometric authentication rejected or timed out'') else Inr True))
      (\<lambda>_. and_up v l I m n)" for ok
    by (auto simp: succeeds_def pureS_def)
  show ?thesis
    unfolding and_gate_def using succeeds_bindS[OF prompt checked]
    by (cases bio) (simp_all add: succeeds_pureS)
qed

lemma timed_up: "(\<And>t. delivers (and_up v l I m n) (f t) r Q) \<Longrightarrow> delivers (and_up v l I m n) (and_timed E f) r Q"
  by (auto simp: delivers_def and_timed_def and_up_def and_now_def)

lemma key_up: "good_key k \<Longrightarrow> succeeds P (pureS (and_validate_key k)) (\<lambda>_. P)"
  by (auto simp: succeeds_def pureS_def good_key_def and_validate_key_def)

lemma data_up: "good_data d \<Longrightarrow> succeeds P (pureS (and_validate_data d)) (\<lambda>_. P)"
  by (auto simp: succeeds_def pureS_def good_data_def and_validate_data_def and_max_item_size_def)

lemma commit_up:
  "delivers (and_up v l I m n) (and_commit_store E C k d bio used start) (Inr ())
     (and_up v l I (m(k \<mapsto> d)) (\<lambda>k'. n k' \<or> k' = k \<and> bio))"
  unfolding delivers_def
proof (intro allI impI)
  fix s assume s: "and_up v l I m n s"
  let ?sb = "and_uses_strongbox C s"
  have I: "I (and_java s)" using s by (simp add: and_up_def)
  obtain b' where b: "kb_store (ae_bridge E) k d ?sb bio (and_java s) = (Inr True, b')"
    using up(1)[OF I] by (metis prod.collapse)
  from bridge_storeD[OF documented I b] have "I b'" "v b' = (v (and_java s))(k \<mapsto> d)" by auto
  moreover have "n k' \<or> k' = k \<and> bio" if "l b' k'" for k'
    using up(2)[OF I, of k d ?sb bio k'] b that s by (auto simp: and_up_def)
  ultimately show "fst (and_commit_store E C k d bio used start s) = Inr ()
      \<and> and_up v l I (m(k \<mapsto> d)) (\<lambda>k'. n k' \<or> k' = k \<and> bio) (snd (and_commit_store E C k d bio used start s))"
    using b s by (auto simp: and_commit_store_def Let_def bindS_def on_java_def and_up_def and_now_def)
qed

lemma store_up:
  "good_key k \<Longrightarrow> good_data d \<Longrightarrow> delivers (and_up v l I m n) (and_store_secure E C k d bio) (Inr ())
     (and_up v l I (m(k \<mapsto> d)) (\<lambda>k'. n k' \<or> k' = k \<and> bio))"
  unfolding and_store_secure_def
  by (intro timed_up delivers_bindS[OF attach_up] delivers_bindS[OF key_up] delivers_bindS[OF data_up]
      delivers_bindS[OF gate_up] delivers_bindS[OF connect_up] commit_up)

lemma retrieve_up:
  assumes "good_key k" "bio \<or> \<not> n k"
  shows "delivers (and_up v l I m n) (and_retrieve_secure E C k bio) (ok_or (PStorage ''NotFound'') (m k)) (and_up v l I m n)"
proof -
  have read: "succeeds (and_up v l I m n) (on_java (kb_retrieve (ae_bridge E) k bio))
      (\<lambda>y s. y = m k \<and> and_up v l I m n s)"
    unfolding succeeds_def
  proof (intro allI impI)
    fix s assume s: "and_up v l I m n s"
    then have I: "I (and_java s)" and p: "bio \<or> \<not> l (and_java s) k" using assms(2) by (auto simp: and_up_def)
    obtain b' where b: "kb_retrieve (ae_bridge E) k bio (and_java s) = (Inr (v (and_java s) k), b')"
      using up(3)[OF I p] by (metis prod.collapse)
    from bridge_retrieveD[OF documented I b] up(13)[of k bio] b I
    have "I b'" "v b' = v (and_java s)" "l b' = l (and_java s)" unfolding quiet_def by blast+
    with s b show "\<exists>y s'. on_java (kb_retrieve (ae_bridge E) k bio) s = (Inr y, s') \<and> y = m k \<and> and_up v l I m n s'"
      by (auto simp: on_java_def and_up_def)
  qed
  have last: "delivers (\<lambda>s. y = m k \<and> and_up v l I m n s)
      (bindS (pureS (ok_or (PStorage ''NotFound'') y)) (and_finish_retrieve E C k bio used start))
      (ok_or (PStorage ''NotFound'') (m k)) (and_up v l I m n)" for y used start
    using uncached by (auto simp: delivers_def ok_or_def and_finish_retrieve_def and_up_def and_now_def split: option.split)
  have "delivers (and_up v l I m n) (and_retrieve_uncached E C k bio start) (ok_or (PStorage ''NotFound'') (m k))
      (and_up v l I m n)" for start
    unfolding and_retrieve_uncached_def
    by (intro delivers_bindS[OF key_up[OF assms(1)]] delivers_bindS[OF gate_up] delivers_bindS[OF connect_up]
        delivers_bindS[OF read] last)
  moreover have "and_retrieve_cached E C k bio start = and_retrieve_uncached E C k bio start" for start
    using uncached by (simp add: and_retrieve_cached_def fun_eq_iff)
  ultimately show ?thesis
    unfolding and_retrieve_secure_def by (intro timed_up delivers_bindS[OF attach_up]) simp
qed

lemma delete_up:
  assumes "good_key k"
  shows "delivers (and_up v l I m n) (and_delete_secure E C k) (Inr ()) (and_up v l I (m(k := None)) n)"
proof -
  have "succeeds (and_up v l I m n) (on_java (kb_delete (ae_bridge E) k)) (\<lambda>_. and_up v l I (m(k := None)) n)"
    unfolding succeeds_def
  proof (intro allI impI)
    fix s assume s: "and_up v l I m n s"
    then have I: "I (and_java s)" by (simp add: and_up_def)
    obtain y b' where b: "kb_delete (ae_bridge E) k (and_java s) = (Inr y, b')"
      using up(4)[OF I] by (metis is_ok_iff prod.collapse)
    from bridge_deleteD[OF documented I b] have "I b'" "v b' = (v (and_java s))(k := None)" by auto
    moreover have "n k'" if "l b' k'" for k'
      using up(5)[OF I, of k k'] b that s by (auto simp: and_up_def)
    ultimately show "\<exists>y s'. on_java (kb_delete (ae_bridge E) k) s = (Inr y, s') \<and> and_up v l I (m(k := None)) n s'"
      using s b by (auto simp: on_java_def and_up_def)
  qed
  note gone = this
  show ?thesis
    unfolding and_delete_secure_def using uncached
    by (intro delivers_bindS[OF attach_up] delivers_bindS[OF key_up[OF assms]] delivers_bindS[OF connect_up]
        delivers_bindS[OF gone]) (simp add: delivers_def)
qed

lemma list_up: "succeeds (and_up v l I m n) (and_list_keys E C) (\<lambda>ks s. set ks = dom m \<and> and_up v l I m n s)"
  unfolding and_list_keys_def
proof (intro succeeds_bindS[OF attach_up] succeeds_bindS[OF connect_up])
  have "succeeds (and_up v l I m n) (on_java (kb_list (ae_bridge E)))
      (\<lambda>arr s. set (case arr of None \<Rightarrow> [] | Some ks \<Rightarrow> ks) = dom m \<and> and_up v l I m n s)"
    unfolding succeeds_def
  proof (intro allI impI)
    fix s assume s: "and_up v l I m n s"
    then have I: "I (and_java s)" by (simp add: and_up_def)
    obtain y b' where b: "kb_list (ae_bridge E) (and_java s) = (Inr y, b')"
      using up(6)[OF I] by (metis is_ok_iff prod.collapse)
    from bridge_listD[OF documented I b] up(14) b I
    have "I b'" "v b' = v (and_java s)" "l b' = l (and_java s)" "set (case y of None \<Rightarrow> [] | Some ks \<Rightarrow> ks) = dom (v (and_java s))"
      unfolding quiet_def by (auto split: option.split)
    with s b show "\<exists>y s'. on_java (kb_list (ae_bridge E)) s = (Inr y, s')
        \<and> set (case y of None \<Rightarrow> [] | Some ks \<Rightarrow> ks) = dom m \<and> and_up v l I m n s'"
      by (simp add: on_java_def and_up_def)
  qed
  then show "succeeds (and_up v l I m n) (bindS (on_java (kb_list (ae_bridge E)))
      (\<lambda>arr. pureS (Inr (case arr of None \<Rightarrow> [] | Some ks \<Rightarrow> ks)))) (\<lambda>ks s. set ks = dom m \<and> and_up v l I m n s)"
    by (rule succeeds_bindS) (simp add: succeeds_pureS)
qed

lemma exists_up:
  assumes "good_key k"
  shows "delivers (and_up v l I m n) (and_exists E C k) (Inr (m k \<noteq> None)) (and_up v l I m n)"
  unfolding and_exists_def
  by (intro delivers_bindS[OF key_up[OF assms]] delivers_bindS[OF list_up])
    (auto simp: delivers_def pureS_def list_ex_iff)

end

definition android_locked :: "('b \<Rightarrow> string \<Rightarrow> bool) \<Rightarrow> 'b android \<Rightarrow> string \<Rightarrow> bool" where
  "android_locked l s = l (and_java s)"

lemma android_available:
  assumes "bridge_ok (ae_bridge E) v I" "bridge_ready (ae_bridge E) v l I" "\<not> ac_enable_caching C"
  shows "available_backend (android_backend E C) (android_view v) (\<lambda>s. I (and_java s)) (android_locked l)"
proof (rule available_backend.intro)
  show "storage_backend (android_backend E C) (android_view v) (\<lambda>s. I (and_java s))"
    by (rule android_storage_backend[OF assms(1,3)])
  have W: "working_bridge E C v l I" using assms by (simp add: working_bridge_def)
  have now: "and_up v l I (android_view v s) (android_locked l s) s" if "I (and_java s)" for s
    using that by (simp add: and_up_def android_view_def android_locked_def)
  show "available_backend_axioms (android_backend E C) (android_view v) (\<lambda>s. I (and_java s)) (android_locked l)"
  proof (rule available_backend_axioms.intro, goal_cases)
    case (1 s k d bio r s')
    from working_bridge.store_up[OF W 1(2,3), of "android_view v s" "android_locked l s" "requires_bio bio"] now[OF 1(1)] 1(4)
    have "r = Inr ()" "and_up v l I ((android_view v s)(k \<mapsto> d)) (\<lambda>k'. android_locked l s k' \<or> k' = k \<and> requires_bio bio) s'"
      unfolding delivers_def android_backend_def by auto
    then show ?case by (cases bio) (auto simp: and_up_def android_locked_def requires_bio_def)
  next
    case (2 s k bio rb s')
    have "requires_bio bio \<or> \<not> android_locked l s k" using 2(3) by (cases bio) (auto simp: requires_bio_def)
    from working_bridge.retrieve_up[where n = "android_locked l s", OF W 2(2) this, of "android_view v s"] now[OF 2(1)] 2(4)
    show ?case by (auto simp: delivers_def android_backend_def and_up_def android_locked_def)
  next
    case (3 s k r s')
    from working_bridge.delete_up[OF W 3(2), of "android_view v s" "android_locked l s"] now[OF 3(1)] 3(3)
    show ?case by (auto simp: delivers_def android_backend_def and_up_def android_locked_def)
  next
    case (4 s k rx s')
    from working_bridge.exists_up[OF W 4(2), of "android_view v s" "android_locked l s"] now[OF 4(1)] 4(3)
    show ?case by (auto simp: delivers_def android_backend_def and_up_def android_locked_def)
  next
    case (5 s rl s')
    from working_bridge.list_up[OF W, of "android_view v s" "android_locked l s"] now[OF 5(1)] 5(2)
    show ?case by (fastforce simp: succeeds_def android_backend_def and_up_def android_locked_def)
  qed
qed

text \<open>The reference bridge of a user who accepts every prompt.\<close>

definition ref_accepting :: "ref_java \<Rightarrow> bool" where
  "ref_accepting b \<longleftrightarrow> ref_java_inv b \<and> snd b"

definition ref_locked :: "ref_java \<Rightarrow> string \<Rightarrow> bool" where
  "ref_locked b k \<longleftrightarrow> item_locked (map_of (fst b) k)"

lemma ref_accepting_ok: "bridge_ok ref_bridge ref_readable ref_accepting"
  unfolding bridge_ok_def
proof (intro conjI, goal_cases)
  case 1
  show ?case
    by (auto simp: ref_bridge_def ref_accepting_def ref_java_inv_def ref_readable_def distinct_update update_conv')
next
  case 2
  show ?case
    by (auto simp: ref_bridge_def ref_accepting_def ref_java_inv_def ref_readable_def split: option.splits if_splits)
next
  case 3
  show ?case
    by (auto simp: ref_bridge_def ref_accepting_def ref_java_inv_def ref_readable_def distinct_delete delete_conv')
next
  case 4
  show ?case by (auto simp: ref_bridge_def ref_accepting_def ref_java_inv_def ref_dom)
next
  case 5
  show ?case by (auto simp: ref_bridge_def ref_accepting_def ref_java_inv_def ref_readable_def)
qed (auto simp: ref_bridge_def quiet_def)

lemma ref_bridge_ready: "bridge_ready ref_bridge ref_readable ref_locked ref_accepting"
  by (auto simp: bridge_ready_def ref_bridge_def quiet_def ref_accepting_def ref_locked_def ref_readable_def item_locked_def
      ref_java_inv_def update_conv' delete_conv' split: option.splits if_splits)

interpretation android_bridge: working_bridge sample_android_env android_production_config ref_readable ref_locked ref_accepting
  by standard (simp_all add: ref_accepting_ok ref_bridge_ready android_production_config_def)

interpretation android_device: available_backend "android_backend sample_android_env android_production_config"
  "android_view ref_readable" "\<lambda>s. ref_accepting (and_java s)" "android_locked ref_locked"
  by (rule android_available) (simp_all add: ref_accepting_ok ref_bridge_ready android_production_config_def)

end
