(* ===== verification/Store_Setup.thy ===== *)
theory Store_Setup
  imports Device_Backends Entry_Points
begin

text \<open>
  How the app gets its store (\<open>ffi/src/lib.rs\<close>): the handle around the trait object, whose methods
  dispatch on the platform's backend, the two constructors, and the optional methods of the trait
  (\<open>platform-storage/src/lib.rs\<close>). On a device that works, the handle of each platform is an
  available backend.
\<close>

section \<open>The trait's own methods\<close>

text \<open>What a backend that does not override them answers; \<open>MemoryStorage\<close> is one.\<close>

definition default_wipe_all :: "('s, platform_error, unit) op" where
  "default_wipe_all s = (Inl PNotSupported, s)"

definition default_rotate_master_key :: "('s, platform_error, unit) op" where
  "default_rotate_master_key s = (Inr (), s)"

definition usage_stats_default :: usage_stats where
  "usage_stats_default = \<lparr>us_total_keys = 0, us_total_bytes = 0, us_credentials_count = 0\<rparr>"

definition default_usage_stats :: "('s, platform_error, usage_stats) op" where
  "default_usage_stats s = (Inr usage_stats_default, s)"

section \<open>Handles\<close>

datatype target_os = Android | Ios | Desktop

text \<open>The platform the library is built for, and the services it has there.\<close>

record ('k, 'b) device =
  dv_os :: target_os
  dv_ios :: "'k ios_env"
  dv_android :: "'b android_env"

text \<open>The object behind \<open>Arc<dyn PlatformSecureStorage>\<close>; a backend holds its configuration.\<close>

datatype ('k, 'b) secure_store =
    IosStore ios_config "'k ios"
  | AndroidStore android_config "'b android"
  | MemoryStore memory

definition dispatch ::
    "('k ios_env \<Rightarrow> ios_config \<Rightarrow> ('k ios, platform_error, 'a) op) \<Rightarrow>
     ('b android_env \<Rightarrow> android_config \<Rightarrow> ('b android, platform_error, 'a) op) \<Rightarrow>
     (memory, platform_error, 'a) op \<Rightarrow> ('k, 'b) device \<Rightarrow> (('k, 'b) secure_store, platform_error, 'a) op" where
  "dispatch f g h V st =
     (case st of
        IosStore C s \<Rightarrow> map_prod id (IosStore C) (f (dv_ios V) C s)
      | AndroidStore C s \<Rightarrow> map_prod id (AndroidStore C) (g (dv_android V) C s)
      | MemoryStore m \<Rightarrow> map_prod id MemoryStore (h m))"

definition handle_backend :: "('k, 'b) device \<Rightarrow> ('k, 'b) secure_store backend" where
  "handle_backend V =
     \<lparr>be_store = (\<lambda>k d bio. dispatch (\<lambda>E C. be_store (ios_backend E C) k d bio)
        (\<lambda>E C. be_store (android_backend E C) k d bio) (be_store memory_backend k d bio) V),
      be_retrieve = (\<lambda>k bio. dispatch (\<lambda>E C. be_retrieve (ios_backend E C) k bio)
        (\<lambda>E C. be_retrieve (android_backend E C) k bio) (be_retrieve memory_backend k bio) V),
      be_delete = (\<lambda>k. dispatch (\<lambda>E C. be_delete (ios_backend E C) k)
        (\<lambda>E C. be_delete (android_backend E C) k) (be_delete memory_backend k) V),
      be_exists = (\<lambda>k. dispatch (\<lambda>E C. be_exists (ios_backend E C) k)
        (\<lambda>E C. be_exists (android_backend E C) k) (be_exists memory_backend k) V),
      be_list_keys = dispatch (\<lambda>E C. be_list_keys (ios_backend E C))
        (\<lambda>E C. be_list_keys (android_backend E C)) (be_list_keys memory_backend) V\<rparr>"

definition handle_wipe_all :: "('k, 'b) device \<Rightarrow> (('k, 'b) secure_store, platform_error, unit) op" where
  "handle_wipe_all = dispatch ios_wipe_all and_wipe_all default_wipe_all"

definition handle_rotate_master_key :: "('k, 'b) device \<Rightarrow> (('k, 'b) secure_store, platform_error, unit) op" where
  "handle_rotate_master_key = dispatch ios_rotate_master_key and_rotate_master_key default_rotate_master_key"

definition handle_usage_stats :: "('k, 'b) device \<Rightarrow> (('k, 'b) secure_store, platform_error, usage_stats) op" where
  "handle_usage_stats = dispatch ios_usage_stats and_usage_stats default_usage_stats"

section \<open>Constructors\<close>

text \<open>\<open>ist\<close> and \<open>ast\<close> are the fresh counters, \<open>k\<close> and \<open>b\<close> the keychain and the Java side as they are.\<close>

definition create_store ::
    "ios_config \<Rightarrow> android_config \<Rightarrow> ('k, 'b) device \<Rightarrow> ios_statistics \<Rightarrow> android_statistics \<Rightarrow> 'k \<Rightarrow> 'b \<Rightarrow>
     ffi_error + ('k, 'b) secure_store" where
  "create_store C D V ist ast k b =
     (case dv_os V of
        Android \<Rightarrow> bindR (map_err (\<lambda>e. FStorage (show_platform_error e)) (and_new_with_config (dv_android V) D ast b))
                    (\<lambda>s. Inr (AndroidStore D s))
      | Ios \<Rightarrow> Inr (IosStore C (ios_new ist k))
      | Desktop \<Rightarrow> Inr (MemoryStore []))"

definition create_default_secure_store ::
    "('k, 'b) device \<Rightarrow> ios_statistics \<Rightarrow> android_statistics \<Rightarrow> 'k \<Rightarrow> 'b \<Rightarrow> ffi_error + ('k, 'b) secure_store" where
  "create_default_secure_store = create_store ios_production_config android_production_config"

definition create_development_secure_store ::
    "('k, 'b) device \<Rightarrow> ios_statistics \<Rightarrow> android_statistics \<Rightarrow> 'k \<Rightarrow> 'b \<Rightarrow> ffi_error + ('k, 'b) secure_store" where
  "create_development_secure_store = create_store ios_development_config android_development_config"

section \<open>Handles on a device that works\<close>

text \<open>
  The keychain and the bridge work, and the questions about the hardware do not touch the items.
\<close>

definition probes_quiet :: "('b \<Rightarrow> 'm) \<Rightarrow> ('b \<Rightarrow> bool) \<Rightarrow> 'b keystore_bridge \<Rightarrow> bool" where
  "probes_quiet v I K \<longleftrightarrow> quiet v I (kb_attach K) \<and> quiet v I (kb_api_level K) \<and> quiet v I (kb_hardware_keystore K)
     \<and> quiet v I (kb_has_strongbox K) \<and> (\<forall>x. quiet v I (kb_can_authenticate K x)) \<and> quiet v I (kb_patch_level K)"

definition device_works ::
    "('k, 'b) device \<Rightarrow> ('k \<Rightarrow> string \<times> string \<Rightarrow> (bytes \<times> bool) option) \<Rightarrow> ('k \<Rightarrow> bool) \<Rightarrow>
     ('b \<Rightarrow> string \<Rightarrow> bytes option) \<Rightarrow> ('b \<Rightarrow> string \<Rightarrow> bool) \<Rightarrow> ('b \<Rightarrow> bool) \<Rightarrow> bool" where
  "device_works V v I r l J \<longleftrightarrow>
     keychain_ok (ie_keychain (dv_ios V)) v I \<and> keychain_ready (ie_keychain (dv_ios V)) v I
   \<and> bridge_ok (ae_bridge (dv_android V)) r J \<and> bridge_ready (ae_bridge (dv_android V)) r l J
   \<and> probes_quiet r J (ae_bridge (dv_android V)) \<and> probes_quiet l J (ae_bridge (dv_android V))"

text \<open>A production store of the platform, on services in a good state.\<close>

definition handle_inv :: "('k, 'b) device \<Rightarrow> ('k \<Rightarrow> bool) \<Rightarrow> ('b \<Rightarrow> bool) \<Rightarrow> ('k, 'b) secure_store \<Rightarrow> bool" where
  "handle_inv V I J st = (case st of
     IosStore C s \<Rightarrow> dv_os V = Ios \<and> C = ios_production_config \<and> I (ios_keychain s)
   | AndroidStore C s \<Rightarrow> dv_os V = Android \<and> C = android_production_config \<and> J (and_java s)
   | MemoryStore m \<Rightarrow> dv_os V = Desktop \<and> memory_inv m)"

definition handle_view ::
    "('k \<Rightarrow> string \<times> string \<Rightarrow> (bytes \<times> bool) option) \<Rightarrow> ('b \<Rightarrow> string \<Rightarrow> bytes option) \<Rightarrow>
     ('k, 'b) secure_store \<Rightarrow> string \<Rightarrow> bytes option" where
  "handle_view v r st = (case st of
     IosStore C s \<Rightarrow> ios_view v C s | AndroidStore C s \<Rightarrow> android_view r s | MemoryStore m \<Rightarrow> map_of m)"

definition handle_locked ::
    "('k \<Rightarrow> string \<times> string \<Rightarrow> (bytes \<times> bool) option) \<Rightarrow> ('b \<Rightarrow> string \<Rightarrow> bool) \<Rightarrow>
     ('k, 'b) secure_store \<Rightarrow> string \<Rightarrow> bool" where
  "handle_locked v l st = (case st of
     IosStore C s \<Rightarrow> ios_locked v C s | AndroidStore C s \<Rightarrow> android_locked l s | MemoryStore m \<Rightarrow> (\<lambda>_. False))"

text \<open>The backend under a handle, with what the handle's functions are on it.\<close>

lemma production_uncached [simp]:
  "\<not> ic_enable_caching ios_production_config" "\<not> ac_enable_caching android_production_config"
  by (simp_all add: ios_production_config_def android_production_config_def)

lemma handle_cases:
  assumes "device_works V v I r l J" "handle_inv V I J st"
  obtains (ios) C s where "st = IosStore C s" "I (ios_keychain s)" "dv_os V = Ios" "C = ios_production_config"
      "available_backend (ios_backend (dv_ios V) C) (ios_view v C) (\<lambda>s. I (ios_keychain s)) (ios_locked v C)"
    | (android) C s where "st = AndroidStore C s" "J (and_java s)" "dv_os V = Android" "C = android_production_config"
      "available_backend (android_backend (dv_android V) C) (android_view r) (\<lambda>s. J (and_java s)) (android_locked l)"
    | (mem) m where "st = MemoryStore m" "dv_os V = Desktop" "memory_inv m"
proof -
  have "available_backend (ios_backend (dv_ios V) ios_production_config) (ios_view v ios_production_config)
      (\<lambda>s. I (ios_keychain s)) (ios_locked v ios_production_config)"
    "available_backend (android_backend (dv_android V) android_production_config) (android_view r)
      (\<lambda>s. J (and_java s)) (android_locked l)"
    using assms(1) by (auto simp: device_works_def intro: ios_available android_available)
  with assms(2) that show ?thesis by (cases st) (auto simp: handle_inv_def)
qed

lemma dispatched: "map_prod id f p = (r, s') \<longleftrightarrow> (\<exists>t. p = (r, t) \<and> s' = f t)"
  by (cases p) auto

lemmas handle_simps = handle_backend_def dispatch_def handle_view_def handle_locked_def handle_inv_def dispatched

lemma handle_available:
  assumes "device_works V v I r l J"
  shows "available_backend (handle_backend V) (handle_view v r) (handle_inv V I J) (handle_locked v l)"
proof (rule available_backend.intro)
  note ios_base = available_backend.axioms(1)
  show "storage_backend (handle_backend V) (handle_view v r) (handle_inv V I J)"
  proof (standard, goal_cases)
    case (1 s k d bio rr s')
    from handle_cases[OF assms 1(1)] 1(2) show ?case
      by cases (auto simp: handle_simps dest: storage_backend.store_law[OF ios_base] mem.store_law split: sum.splits)
  next
    case (2 s k bio rb s')
    from handle_cases[OF assms 2(1)] 2(2) show ?case
      by cases (auto simp: handle_simps dest: storage_backend.retrieve_law[OF ios_base] mem.retrieve_law)
  next
    case (3 s k rr s')
    from handle_cases[OF assms 3(1)] 3(2) show ?case
      by cases (auto simp: handle_simps dest: storage_backend.delete_law[OF ios_base] mem.delete_law split: sum.splits)
  next
    case (4 s k rx s')
    from handle_cases[OF assms 4(1)] 4(2) show ?case
      by cases (auto simp: handle_simps dest: storage_backend.exists_law[OF ios_base] mem.exists_law)
  next
    case (5 s rl s')
    from handle_cases[OF assms 5(1)] 5(2) show ?case
      by cases (auto simp: handle_simps dest: storage_backend.list_law[OF ios_base] mem.list_law)
  qed
  show "available_backend_axioms (handle_backend V) (handle_view v r) (handle_inv V I J) (handle_locked v l)"
  proof (rule available_backend_axioms.intro, goal_cases)
    case (1 s k d bio rr s')
    from handle_cases[OF assms 1(1)] 1(2-) show ?case
      by cases (auto simp: handle_simps dest!: available_backend.store_done mem.available.store_done)
  next
    case (2 s k bio rb s')
    from handle_cases[OF assms 2(1)] 2(2-) show ?case
      by cases (auto simp: handle_simps dest: available_backend.retrieve_done mem.available.retrieve_done)
  next
    case (3 s k rr s')
    from handle_cases[OF assms 3(1)] 3(2-) show ?case
      by cases (auto simp: handle_simps dest: available_backend.delete_done mem.available.delete_done)
  next
    case (4 s k rx s')
    from handle_cases[OF assms 4(1)] 4(2-) show ?case
      by cases (auto simp: handle_simps dest: available_backend.exists_done mem.available.exists_done)
  next
    case (5 s rl s')
    from handle_cases[OF assms 5(1)] 5(2-) show ?case
      by cases (auto simp: handle_simps dest: available_backend.list_done mem.available.list_done)
  qed
qed

section \<open>A store that was just created\<close>

text \<open>Creating a store asks the hardware questions and leaves the items as they are.\<close>

definition java_holds :: "('b \<Rightarrow> 'm) \<Rightarrow> ('b \<Rightarrow> bool) \<Rightarrow> 'm \<Rightarrow> 'b android \<Rightarrow> bool" where
  "java_holds v I m s \<longleftrightarrow> I (and_java s) \<and> v (and_java s) = m"

lemma still_java_holds: "quiet v I f \<Longrightarrow> still (java_holds v I m) (on_java f)"
  by (force simp: still_def quiet_def on_java_def java_holds_def split: prod.splits)

lemma still_initialize:
  assumes "probes_quiet v I (ae_bridge E)"
  shows "still (java_holds v I m) (and_initialize E C)"
proof -
  note q = assms[unfolded probes_quiet_def]
  have b: "still (java_holds v I m) (check_biometric_hardware E)"
    unfolding check_biometric_hardware_def using q by (intro still_intros still_java_holds) simp_all
  have a: "still (java_holds v I m) (assess_hardware_features E)"
  proof (rule stillI)
    fix s r s' assume P: "java_holds v I m s" and run: "assess_hardware_features E s = (r, s')"
    obtain t s1 where now: "and_now E s = (t, s1)" by fastforce
    let ?f = "bindS (on_java (kb_api_level (ae_bridge E))) (\<lambda>api.
      bindS (on_java (kb_hardware_keystore (ae_bridge E))) (\<lambda>hw.
      bindS (on_java (kb_has_strongbox (ae_bridge E))) (\<lambda>sb.
      bindS (check_biometric_hardware E) (\<lambda>bio.
      bindS (on_java (kb_patch_level (ae_bridge E))) (\<lambda>patch.
        pureS (Inr \<lparr>dp_has_strongbox = sb, dp_has_hardware_keystore = hw, dp_has_biometric_hardware = bio,
          dp_security_patch_level = patch, dp_api_level = api, dp_last_assessed = t\<rparr>))))))"
    have s1: "java_holds v I m s1" using P and_now_eq[OF now] by (simp add: java_holds_def)
    have f: "still (java_holds v I m) ?f" using q by (intro still_intros still_java_holds b) simp_all
    have "?f s1 = (r, s')" using run by (simp add: assess_hardware_features_def now)
    from stillD[OF f s1 this] show "java_holds v I m s'" .
  qed
  have "still (java_holds v I m) (\<lambda>s. (Inr (), s\<lparr>and_profile := p\<rparr>))" for p
    by (auto simp: still_def java_holds_def)
  then show ?thesis
    unfolding and_initialize_def using q by (intro still_intros still_java_holds a) simp_all
qed

lemma created_android:
  assumes "probes_quiet v I (ae_bridge E)" "and_new_with_config E C ast b = Inr s" "I b"
  shows "I (and_java s) \<and> v (and_java s) = v b"
proof -
  from assms(2) have "and_initialize E C (and_new ast b) = (Inr (), s)"
    by (auto simp: and_new_with_config_def split: prod.splits sum.splits)
  moreover have "java_holds v I (v b) (and_new ast b)" using assms(3) by (simp add: java_holds_def and_new_def)
  ultimately have "java_holds v I (v b) s" using stillD[OF still_initialize[OF assms(1)]] by blast
  then show ?thesis by (simp add: java_holds_def)
qed

text \<open>What a store holds for the platform the library is built for.\<close>

definition device_view ::
    "('k, 'b) device \<Rightarrow> ('k \<Rightarrow> string \<times> string \<Rightarrow> (bytes \<times> bool) option) \<Rightarrow> ('b \<Rightarrow> string \<Rightarrow> bytes option) \<Rightarrow>
     'k \<Rightarrow> 'b \<Rightarrow> string \<Rightarrow> bytes option" where
  "device_view V v r k b = (case dv_os V of
     Android \<Rightarrow> r b | Ios \<Rightarrow> (\<lambda>a. map_option fst (v k (ic_service_name ios_production_config, a))) | Desktop \<Rightarrow> (\<lambda>_. None))"

definition device_locked ::
    "('k, 'b) device \<Rightarrow> ('k \<Rightarrow> string \<times> string \<Rightarrow> (bytes \<times> bool) option) \<Rightarrow> ('b \<Rightarrow> string \<Rightarrow> bool) \<Rightarrow>
     'k \<Rightarrow> 'b \<Rightarrow> string \<Rightarrow> bool" where
  "device_locked V v l k b = (case dv_os V of
     Android \<Rightarrow> l b | Ios \<Rightarrow> (\<lambda>a. item_locked (v k (ic_service_name ios_production_config, a))) | Desktop \<Rightarrow> (\<lambda>_. False))"

lemma created_store:
  assumes "device_works V v I r l J" "create_default_secure_store V ist ast k b = Inr st"
    "dv_os V = Ios \<Longrightarrow> I k" "dv_os V = Android \<Longrightarrow> J b"
  shows "handle_inv V I J st \<and> handle_view v r st = device_view V v r k b \<and> handle_locked v l st = device_locked V v l k b"
proof (cases "dv_os V")
  case Android
  with assms(2) obtain s where s: "and_new_with_config (dv_android V) android_production_config ast b = Inr s"
    "st = AndroidStore android_production_config s"
    by (auto simp: create_default_secure_store_def create_store_def bindR_Inr_iff)
  from assms(1) have q: "probes_quiet r J (ae_bridge (dv_android V))" "probes_quiet l J (ae_bridge (dv_android V))"
    by (simp_all add: device_works_def)
  from created_android[OF q(1) s(1) assms(4)] created_android[OF q(2) s(1) assms(4)] Android show ?thesis
    by (simp add: s(2) handle_inv_def handle_view_def handle_locked_def device_view_def device_locked_def
        android_view_def android_locked_def fun_eq_iff)
next
  case Ios
  with assms(2,3) show ?thesis
    by (auto simp: create_default_secure_store_def create_store_def handle_inv_def handle_view_def handle_locked_def
        device_view_def device_locked_def ios_view_def ios_locked_def ios_new_def fun_eq_iff)
next
  case Desktop
  with assms(2) show ?thesis
    by (auto simp: create_default_secure_store_def create_store_def handle_inv_def handle_view_def handle_locked_def
        device_view_def device_locked_def memory_inv_def)
qed

text \<open>
  The app is closed and started again: its store is gone, the keychain or the keystore behind it is
  not, and a new store is created over that.
\<close>

definition reopened :: "('k, 'b) device \<Rightarrow> ('k, 'b) secure_store \<Rightarrow> ('k, 'b) secure_store \<Rightarrow> bool" where
  "reopened V st st' \<longleftrightarrow> (\<exists>ist ast k b. create_default_secure_store V ist ast k b = Inr st' \<and>
     (case st of IosStore C s \<Rightarrow> k = ios_keychain s | AndroidStore C s \<Rightarrow> b = and_java s | MemoryStore m \<Rightarrow> False))"

lemma reopened_same:
  assumes "device_works V v I r l J" "handle_inv V I J st" "reopened V st st'"
  shows "handle_inv V I J st'" "handle_view v r st' = handle_view v r st" "handle_locked v l st' = handle_locked v l st"
proof -
  from assms(3) obtain ist ast k b where new: "create_default_secure_store V ist ast k b = Inr st'"
    and left: "case st of IosStore C s \<Rightarrow> k = ios_keychain s | AndroidStore C s \<Rightarrow> b = and_java s | MemoryStore m \<Rightarrow> False"
    by (auto simp: reopened_def)
  have good: "dv_os V = Ios \<Longrightarrow> I k" "dv_os V = Android \<Longrightarrow> J b"
    using assms(2) left by (auto simp: handle_inv_def split: secure_store.splits)
  have "handle_view v r st = device_view V v r k b" "handle_locked v l st = device_locked V v l k b"
    using assms(2) left by (auto simp: handle_inv_def handle_view_def handle_locked_def device_view_def device_locked_def
        ios_view_def ios_locked_def android_view_def android_locked_def fun_eq_iff split: secure_store.splits)
  with created_store[OF assms(1) new good] show "handle_inv V I J st'" "handle_view v r st' = handle_view v r st"
    "handle_locked v l st' = handle_locked v l st" by simp_all
qed

section \<open>The reference device\<close>

definition sample_device :: "target_os \<Rightarrow> (ref_items, ref_java) device" where
  "sample_device os = \<lparr>dv_os = os, dv_ios = sample_ios_env, dv_android = sample_android_env\<rparr>"

lemma ref_probes_quiet: "probes_quiet v ref_accepting ref_bridge"
  by (simp add: probes_quiet_def quiet_def ref_bridge_def)

lemma sample_device_works: "device_works (sample_device os) map_of ref_inv ref_readable ref_locked ref_accepting"
  by (simp add: device_works_def sample_device_def ref_keychain_ok ref_keychain_ready ref_accepting_ok ref_bridge_ready
      ref_probes_quiet)

interpretation handle: available_backend "handle_backend (sample_device os)" "handle_view map_of ref_readable"
  "handle_inv (sample_device os) ref_inv ref_accepting" "handle_locked map_of ref_locked" for os
  by (rule handle_available[OF sample_device_works])

end
