(* ===== verification/Platform_Reports.thy ===== *)
theory Platform_Reports
  imports Store_Setup Threads Storage_Contract Android_Init
begin

text \<open>
  What the platform layers tell about themselves: the initial counters and profiles, the getters of the
  Android backend (\<open>store-android/src/metrics.rs\<close>), what the iOS backend knows of the device
  (\<open>store-ios/src/device.rs\<close>), the key prefixes of the storage interface, and the report on the threads
  (\<open>sdk_diagnose_thread_config\<close> of \<open>ffi/src/lib.rs\<close>).
\<close>

section \<open>Counters and profiles\<close>

definition android_statistics_new :: android_statistics where
  "android_statistics_new =
     \<lparr>as_total_operations = 0, as_successful_operations = 0, as_failed_operations = 0,
      as_biometric_authentications = 0, as_hardware_operations = 0, as_last_operation_time = 0\<rparr>"

definition ios_statistics_new :: ios_statistics where
  "ios_statistics_new =
     \<lparr>is_total_operations = 0, is_successful_operations = 0, is_failed_operations = 0,
      is_biometric_authentications = 0, is_cache_hits = 0, is_last_operation_time = 0\<rparr>"

definition device_profile_default :: device_profile where
  "device_profile_default =
     \<lparr>dp_has_strongbox = False, dp_has_hardware_keystore = False, dp_has_biometric_hardware = False,
      dp_security_patch_level = ''unknown'', dp_api_level = 0, dp_last_assessed = 0\<rparr>"

datatype risk_level = RiskLow | RiskMedium | RiskHigh | RiskCritical

text \<open>The number the audit log of the model has for a level.\<close>

fun risk_number :: "risk_level \<Rightarrow> nat" where
  "risk_number RiskLow = 0"
| "risk_number RiskMedium = 1"
| "risk_number RiskHigh = 2"
| "risk_number RiskCritical = 3"

definition and_get_metrics :: "'b android \<Rightarrow> android_metrics" where
  "and_get_metrics s = and_metrics s"

definition and_get_audit_log :: "'b android \<Rightarrow> android_event security_event list" where
  "and_get_audit_log s = and_audit s"

definition and_get_device_profile :: "'b android \<Rightarrow> device_profile option" where
  "and_get_device_profile s = and_profile s"

datatype ios_biometric_type = IosBioNone | TouchID | FaceID | BioAvailable | BioUnknown

record device_capabilities =
  dc_has_secure_enclave :: "bool option"
  dc_biometric_type :: ios_biometric_type
  dc_ios_version :: "string option"

definition detect_secure_enclave :: "bool option" where "detect_secure_enclave = None"

definition detect_biometric_type :: ios_biometric_type where "detect_biometric_type = BioUnknown"

definition get_ios_version :: "string option" where "get_ios_version = None"

definition device_capabilities_default :: device_capabilities where
  "device_capabilities_default =
     \<lparr>dc_has_secure_enclave = detect_secure_enclave, dc_biometric_type = detect_biometric_type,
      dc_ios_version = get_ios_version\<rparr>"

text \<open>\<open>testLogging\<close> writes to the log and starts nothing, not even the runtime.\<close>

definition testLogging :: "process \<Rightarrow> int \<times> process" where
  "testLogging p = (RESULT_OK, p)"

section \<open>Key prefixes\<close>

definition WALLET_PREFIX :: string where "WALLET_PREFIX = ''provii.wallet.''"

definition CREDENTIAL_PREFIX :: string where "CREDENTIAL_PREFIX = ''provii.cred.''"

definition CACHE_PREFIX :: string where "CACHE_PREFIX = ''provii.cache.''"

definition SETTINGS_PREFIX :: string where "SETTINGS_PREFIX = ''provii.settings.''"

section \<open>The report on the threads\<close>

text \<open>
  The operations on \<open>f64\<close> the report uses: a literal, product, quotient, order, the display with so
  many decimals, and the cast to \<open>u32\<close> after clamping.
\<close>

record 'f f64_ops =
  fp_lit :: "string \<Rightarrow> 'f"
  fp_mul :: "'f \<Rightarrow> 'f \<Rightarrow> 'f"
  fp_div :: "'f \<Rightarrow> 'f \<Rightarrow> 'f"
  fp_less :: "'f \<Rightarrow> 'f \<Rightarrow> bool"
  fp_show :: "nat \<Rightarrow> 'f \<Rightarrow> string"
  fp_to_u32 :: "'f \<Rightarrow> u32"

definition estimated_proof_secs :: "nat \<Rightarrow> nat" where
  "estimated_proof_secs rayon_threads =
     (let threads = (if max rayon_threads 1 < 2 ^ 32 then max rayon_threads 1 else 1) in 40 div max threads 1)"

definition thread_speedup :: "'f f64_ops \<Rightarrow> 'f \<Rightarrow> 'f \<Rightarrow> 'f" where
  "thread_speedup F estimated_single parallel_secs =
     (if fp_less F (fp_lit F ''0.0'') parallel_secs then fp_div F estimated_single parallel_secs else fp_lit F ''0.0'')"

text \<open>\<open>parallel_secs\<close> and \<open>sample_secs\<close> are the measured times of the two sums.\<close>

definition sdk_diagnose_thread_config ::
    "'f f64_ops \<Rightarrow> nat option \<Rightarrow> nat \<Rightarrow> nat option \<Rightarrow> 'f \<Rightarrow> 'f \<Rightarrow> string" where
  "sdk_diagnose_thread_config F available rayon_threads rayon_index parallel_secs sample_secs =
     (let hw = hw_threads available;
          in_rayon = (case rayon_index of Some idx \<Rightarrow> ''Yes (index '' @ show_nat idx @ '')'' | None \<Rightarrow> ''No'');
          estimated_single = fp_mul F sample_secs (fp_lit F ''50.0'');
          speedup = thread_speedup F estimated_single parallel_secs;
          status_msg = (if fp_less F (fp_lit F ''1.5'') speedup
             then ''Multi-threading WORKING ('' @ show_nat (unat (fp_to_u32 F speedup)) @ ''x speedup)''
             else ''Multi-threading NOT WORKING'')
      in ''=== THREAD CONFIGURATION DIAGNOSTIC ===\<newline>'' @
         ''Hardware cores: '' @ show_nat hw @ ''\<newline>'' @
         ''Rayon pool threads: '' @ show_nat rayon_threads @ ''\<newline>'' @
         ''Currently in Rayon context: '' @ in_rayon @ ''\<newline>'' @
         ''\<newline>'' @
         ''Parallel benchmark:\<newline>'' @
         ''- Parallel time: '' @ fp_show F 3 parallel_secs @ ''s\<newline>'' @
         ''- Est. single-thread: '' @ fp_show F 3 estimated_single @ ''s\<newline>'' @
         ''- Measured speedup: '' @ fp_show F 1 speedup @ ''x\<newline>'' @
         ''- Status: '' @ status_msg @ ''\<newline>'' @
         ''\<newline>'' @
         ''Expected proof performance:\<newline>'' @
         ''- Single-threaded: ~35-40 seconds\<newline>'' @
         ''- With '' @ show_nat rayon_threads @ '' threads: ~'' @ show_nat (estimated_proof_secs rayon_threads) @ '' seconds\<newline>'' @
         ''======================================='')"

section \<open>Facts\<close>

text \<open>The estimate for the proof is positive up to 40 threads, and zero seconds above.\<close>

lemma estimate_positive_iff:
  assumes "n < 2 ^ 32"
  shows "0 < estimated_proof_secs n \<longleftrightarrow> n \<le> 40"
  using assms by (auto simp: estimated_proof_secs_def Let_def max_def div_greater_zero_iff)

text \<open>A profile that was never assessed passes no check of the hardware.\<close>

lemma default_profile_refused: "\<not> is_ok (validate_hardware_requirements device_profile_default C)"
  by (simp add: validate_hardware_requirements_def device_profile_default_def)

text \<open>A store that failed to open leaves no profile to report; one that opened on Android reports it.\<close>

lemma created_store_profiled:
  assumes "create_default_secure_store V ist ast k b = Inr st" "dv_os V = Android"
  shows "\<exists>C s p. st = AndroidStore C s \<and> and_get_device_profile s = Some p
    \<and> validate_hardware_requirements p C = Inr ()"
proof -
  from assms obtain s where s: "and_new_with_config (dv_android V) android_production_config ast b = Inr s"
    "st = AndroidStore android_production_config s"
    by (auto simp: create_default_secure_store_def create_store_def bindR_Inr_iff)
  from s(1) have "and_initialize (dv_android V) android_production_config (and_new ast b) = (Inr (), s)"
    by (auto simp: and_new_with_config_def split: prod.splits sum.splits)
  with s(2) show ?thesis
    by (auto simp: and_initialize_def and_get_device_profile_def run_iffs simp del: bindS_pure)
qed

text \<open>The count of credentials in the statistics of a device stays at zero: the prefixes it looks for,
  with an underscore on Android, are those of no record the credential storage writes.\<close>

definition storage_record :: "string \<Rightarrow> bool" where
  "storage_record k \<longleftrightarrow> (\<exists>ns slot i. k = cred_prefix ns slot @ i \<or> k = sec_prefix ns slot @ i)"

lemma uncounted:
  assumes "storage_record k"
  shows "\<not> starts_with ''provii.credential'' k" "\<not> starts_with ''provii_credential'' k"
proof -
  have "\<not> starts_with p (cred_prefix ns slot @ i) \<and> \<not> starts_with p (sec_prefix ns slot @ i)"
    if "p = ''provii.credential'' \<or> p = ''provii_credential''" for p ns slot i
    using that by (cases ns; cases slot) (auto simp: starts_with_def PRIMARY_CRED_PRIMARY_PREFIX_def
        PRIMARY_CREDSEC_PRIMARY_PREFIX_def SANDBOX_CRED_PRIMARY_PREFIX_def SANDBOX_CREDSEC_PRIMARY_PREFIX_def
        PRIMARY_CRED_MANAGED_PREFIX_def PRIMARY_CREDSEC_MANAGED_PREFIX_def SANDBOX_CRED_MANAGED_PREFIX_def
        SANDBOX_CREDSEC_MANAGED_PREFIX_def)
  then show "\<not> starts_with ''provii.credential'' k" "\<not> starts_with ''provii_credential'' k"
    using assms unfolding storage_record_def by blast+
qed

lemma usage_loops_count:
  "list_all storage_record ks \<Longrightarrow> snd (fst (ios_usage_loop E C ks a s)) = snd a"
  "list_all storage_record ks \<Longrightarrow> snd (fst (and_usage_loop F D ks a t)) = snd a"
proof (induction ks arbitrary: a s t)
  case (Cons k ks)
  case 1
  with Cons.IH(1) show ?case by (auto simp: uncounted split: prod.split sum.split)
next
  case (Cons k ks)
  case 2
  with Cons.IH(2) show ?case by (auto simp: uncounted split: prod.split sum.split)
qed simp_all

lemma usage_counts_no_credential:
  "list_keys_internal E C s = (Inr ks, s1) \<Longrightarrow> list_all storage_record ks \<Longrightarrow>
     \<exists>n s2. ios_usage_stats E C s = (Inr \<lparr>us_total_keys = length ks, us_total_bytes = n, us_credentials_count = 0\<rparr>, s2)"
  "and_list_keys F D t = (Inr ks, t1) \<Longrightarrow> list_all storage_record ks \<Longrightarrow>
     \<exists>n t2. and_usage_stats F D t = (Inr \<lparr>us_total_keys = length ks, us_total_bytes = n, us_credentials_count = 0\<rparr>, t2)"
  using usage_loops_count(1)[of ks E C "(0, 0)" s1] usage_loops_count(2)[of ks F D "(0, 0)" t1]
  by (auto simp: ios_usage_stats_def and_usage_stats_def bindS_Inr split: prod.split)

end
