(* ===== verification/Platform_Equivalence.thy ===== *)
theory Platform_Equivalence
  imports Device_Backends Sample_Wallet
begin

text \<open>
  The wallet on a device and the wallet on the in-memory store, call by call, and the two device
  backends as instances: over a keychain and a keystore bridge that work and a user who passes
  each prompt, both are available in the sense of \<open>Backend_Equivalence\<close>, so what the wallet answers
  does not depend on the platform it runs on.
\<close>

section \<open>The calls of a wallet\<close>

datatype wallet_call =
    Issue u64 string i32 string "string option" string "string option"
  | Import u64 string "string option" string "string option"
  | Rename string "string option"
  | Remove string
  | Purge
  | Get string
  | HasSecrets string
  | Entries u64
  | Prove u64 string string

datatype outcome =
    Text "ffi_error + string"
  | Done "ffi_error + unit"
  | Found "ffi_error + string option"
  | Flag "ffi_error + bool"
  | Listed "ffi_error + credential_info multiset"

text \<open>A listing counts as the multiset of its entries, since no store promises an order.\<close>

fun run_wallet :: "wallet_env \<Rightarrow> 'p prover_run \<Rightarrow> wallet_call \<Rightarrow> 's wallet \<Rightarrow> outcome \<times> 's wallet" where
  "run_wallet W R (Issue now hj d rj label ty nick) w =
     apfst Text (finalize_and_store_credential W now hj d rj label ty nick w)"
| "run_wallet W R (Import now cj label ty nick) w = apfst Text (store_credential_with_label W now cj label ty nick w)"
| "run_wallet W R (Rename i nick) w = apfst Done (wallet_update_nickname W i nick w)"
| "run_wallet W R (Remove i) w = apfst Done (wallet_delete_credential i w)"
| "run_wallet W R Purge w = apfst Done (wallet_delete_sandbox_credentials w)"
| "run_wallet W R (Get i) w = apfst Found (wallet_get_credential W i w)"
| "run_wallet W R (HasSecrets i) w = apfst Flag (has_credential_secrets i w)"
| "run_wallet W R (Entries now) w = apfst (Listed \<circ> map_sum id mset) (wallet_list_credentials W now w)"
| "run_wallet W R (Prove now i ch) w = apfst Text (create_age_proof W R now i ch w)"

fun run_wallets :: "wallet_env \<Rightarrow> 'p prover_run \<Rightarrow> wallet_call list \<Rightarrow> 's wallet \<Rightarrow> outcome list \<times> 's wallet" where
  "run_wallets W R [] w = ([], w)"
| "run_wallets W R (c # cs) w =
     (case run_wallet W R c w of (x, w1) \<Rightarrow> case run_wallets W R cs w1 of (xs, w2) \<Rightarrow> (x # xs, w2))"

text \<open>
  Calls whose texts are short enough for every platform to store, and whose identifiers are those
  of public records. The length of what an issuer or an export sends is not limited by the code.
\<close>

definition compact_header :: "header \<Rightarrow> bool" where
  "compact_header h \<longleftrightarrow> short (hdr_kid h) \<and> short (hdr_issuer_vk h) \<and> short (hdr_sig_rj h)
     \<and> short (hdr_c_bytes h) \<and> short (hdr_schema h)"

fun call_fits :: "wallet_env \<Rightarrow> wallet_call \<Rightarrow> bool" where
  "call_fits W (Issue now hj d rj label ty nick) \<longleftrightarrow>
     pred_option short label \<and> pred_option short nick \<and> pred_sum (\<lambda>_. True) compact_header (we_parse_header W hj)"
| "call_fits W (Import now cj label ty nick) \<longleftrightarrow>
     pred_option short label \<and> pred_option short nick
     \<and> pred_sum (\<lambda>_. True) (\<lambda>c. compact_credential c \<and> pred_option short (cred_r_bits c)) (we_parse_credential W cj)"
| "call_fits W (Rename i nick) \<longleftrightarrow> record_id i \<and> pred_option short nick"
| "call_fits W (Remove i) \<longleftrightarrow> record_id i"
| "call_fits W (Get i) \<longleftrightarrow> record_id i"
| "call_fits W (HasSecrets i) \<longleftrightarrow> record_id i"
| "call_fits W (Prove now i ch) \<longleftrightarrow> record_id i"
| "call_fits W _ \<longleftrightarrow> True"

section \<open>Two wallets\<close>

definition wallet_twin :: "('s \<Rightarrow> memory \<Rightarrow> bool) \<Rightarrow> 's backend \<Rightarrow> 's wallet \<Rightarrow> memory wallet \<Rightarrow> bool" where
  "wallet_twin R B w v \<longleftrightarrow>
     w_backend w = Some B \<and> w_backend v = Some memory_backend \<and> R (w_storage w) (w_storage v)
   \<and> w_config w = w_config v \<and> w_state w = w_state v \<and> w_challenges w = w_challenges v \<and> w_anchor w = w_anchor v"

lemma mimics_on_storage [mimics_intros]:
  assumes "mimics R V (f (Some B)) (g (Some memory_backend))"
  shows "mimics (wallet_twin R B) V (on_storage c f) (on_storage c g)"
proof (rule mimicsI)
  fix w v assume t: "wallet_twin R B w v"
  then have "R (w_storage w) (w_storage v)" "w_backend w = Some B" "w_backend v = Some memory_backend"
    by (simp_all add: wallet_twin_def)
  with mimicsD[OF assms this(1)] t show "wallet_twin R B (snd (on_storage c f w)) (snd (on_storage c g v))
      \<and> rel_sum (=) V (fst (on_storage c f w)) (fst (on_storage c g v))"
    by (simp add: on_storage_def split_beta rel_map_err wallet_twin_def)
qed

lemma mimics_read:
  "(\<And>w v. wallet_twin R B w v \<Longrightarrow> g w = h v) \<Longrightarrow> mimics (wallet_twin R B) (=) (\<lambda>w. (g w, w)) (\<lambda>v. (h v, v))"
  by (simp add: mimics_def sum.rel_eq)

lemma mimics_check_anchor [mimics_intros]:
  "mimics (wallet_twin R B) (=) (\<lambda>w. (check_anchor h w, w)) (\<lambda>v. (check_anchor h v, v))"
  by (rule mimics_read) (simp add: check_anchor_def wallet_twin_def)

lemma mimics_weaken:
  assumes "mimics R U f g" "\<And>x y. U x y \<Longrightarrow> V x y"
  shows "mimics R V f g"
proof (rule mimicsI)
  fix s t assume "R s t"
  from mimicsD[OF assms(1) this] assms(2) show "R (snd (f s)) (snd (g t)) \<and> rel_sum (=) V (fst (f s)) (fst (g t))"
    by (cases "fst (f s)"; cases "fst (g t)") auto
qed

lemma mimics_found: "record_id k \<Longrightarrow> mimics R (\<lambda>k k'. k = k' \<and> record_id k) (pureS (Inr k)) (pureS (Inr k))"
  by (simp add: mimics_def pureS_def)

context available_backend
begin

lemma mimics_resolve_slot [mimics_intros]:
  "mimics (wallet_twin (twin X view inv locked) B) (=) (resolve_slot ty label) (resolve_slot ty label)"
  unfolding resolve_slot_def
  by (intro mimics_if mimics_bindS mimics_on_storage mimics_next_index mimics_pureS)

lemma mimics_issue:
  assumes "codec_fits (we_codec W)" "codec_roundtrip (we_codec W)" "call_fits W (Issue now hj d rj label ty nick)"
  shows "mimics (wallet_twin (twin (we_codec W) view inv locked) B) (\<lambda>k k'. k = k' \<and> record_id k)
    (finalize_and_store_credential W now hj d rj label ty nick) (finalize_and_store_credential W now hj d rj label ty nick)"
  unfolding finalize_and_store_credential_def Let_def
proof (intro mimics_bindS[OF mimics_resolve_slot] mimics_bind_pure mimics_bindS[OF mimics_check_anchor])
  fix slot h bytes c
  assume h: "map_err FInvalidFormat (we_parse_header W hj) = Inr h"
    and c: "map_err (\<lambda>e. FGeneric (show_wallet_error e))
      (finalize_credential (we_x W) h d (unpack_bits bytes R_BITS_LEN)) = Inr c"
  let ?c = "c\<lparr>cred_dob_days := None, cred_r_bits := None\<rparr>"
  from c have "c = attach_secrets h d (unpack_bits bytes R_BITS_LEN)" "length (unpack_bits bytes R_BITS_LEN) = 128"
    by (simp_all add: finalize_ok)
  moreover have "compact_header h" using h assms(3) by simp
  ultimately have fit: "compact_credential ?c" "short (unpack_bits bytes R_BITS_LEN)"
    by (simp_all add: compact_credential_def compact_header_def attach_secrets_def short_def)
  have "mimics (wallet_twin (twin (we_codec W) view inv locked) B) (\<lambda>k k'. k = k' \<and> record_id k)
      (on_storage FStorage (\<lambda>B. store_credential_with_slot (we_codec W) B now ?c label slot nick))
      (on_storage FStorage (\<lambda>B. store_credential_with_slot (we_codec W) B now ?c label slot nick))"
    using assms fit(1) by (intro mimics_on_storage mimics_store_credential) simp_all
  then show "mimics (wallet_twin (twin (we_codec W) view inv locked) B) (\<lambda>k k'. k = k' \<and> record_id k)
      (bindS (on_storage FStorage (\<lambda>B. store_credential_with_slot (we_codec W) B now ?c label slot nick)) (\<lambda>cred_id.
       bindS (on_storage FStorage (\<lambda>B. store_credential_secrets (we_codec W) B cred_id
         \<lparr>sec_dob_days = d, sec_r_bits = unpack_bits bytes R_BITS_LEN\<rparr>)) (\<lambda>_. pureS (Inr cred_id))))
      (bindS (on_storage FStorage (\<lambda>B. store_credential_with_slot (we_codec W) B now ?c label slot nick)) (\<lambda>cred_id.
       bindS (on_storage FStorage (\<lambda>B. store_credential_secrets (we_codec W) B cred_id
         \<lparr>sec_dob_days = d, sec_r_bits = unpack_bits bytes R_BITS_LEN\<rparr>)) (\<lambda>_. pureS (Inr cred_id))))"
  proof (rule mimics_bindS_by, elim conjE, hypsubst)
    fix k assume "record_id k"
    with assms(1) fit(2) show "mimics (wallet_twin (twin (we_codec W) view inv locked) B) (\<lambda>k k'. k = k' \<and> record_id k)
        (bindS (on_storage FStorage (\<lambda>B. store_credential_secrets (we_codec W) B k
          \<lparr>sec_dob_days = d, sec_r_bits = unpack_bits bytes R_BITS_LEN\<rparr>)) (\<lambda>_. pureS (Inr k)))
        (bindS (on_storage FStorage (\<lambda>B. store_credential_secrets (we_codec W) B k
          \<lparr>sec_dob_days = d, sec_r_bits = unpack_bits bytes R_BITS_LEN\<rparr>)) (\<lambda>_. pureS (Inr k)))"
      by (intro mimics_bindS mimics_on_storage mimics_store_secrets mimics_found) simp_all
  qed
qed

lemma mimics_import:
  assumes "codec_fits (we_codec W)" "codec_roundtrip (we_codec W)" "call_fits W (Import now cj label ty nick)"
  shows "mimics (wallet_twin (twin (we_codec W) view inv locked) B) (=)
    (store_credential_with_label W now cj label ty nick) (store_credential_with_label W now cj label ty nick)"
  unfolding store_credential_with_label_def import_credential_internal_def Let_def
proof (intro mimics_bindS[OF mimics_resolve_slot] mimics_bind_pure)
  fix slot c assume c: "map_err FInvalidFormat (we_parse_credential W cj) = Inr c"
  let ?c = "c\<lparr>cred_dob_days := None, cred_r_bits := None\<rparr>"
  let ?secrets = "case (cred_dob_days c, cred_r_bits c) of
      (Some d, Some r) \<Rightarrow> Some \<lparr>sec_dob_days = d, sec_r_bits = r\<rparr> | _ \<Rightarrow> None"
  from c assms(3) have fit: "compact_credential ?c" "pred_option short (cred_r_bits c)"
    by (simp_all add: compact_credential_def)
  have "mimics (wallet_twin (twin (we_codec W) view inv locked) B) (\<lambda>k k'. k = k' \<and> record_id k)
      (on_storage FStorage (\<lambda>B. store_credential_with_slot (we_codec W) B now ?c label slot nick))
      (on_storage FStorage (\<lambda>B. store_credential_with_slot (we_codec W) B now ?c label slot nick))"
    using assms fit(1) by (intro mimics_on_storage mimics_store_credential) simp_all
  then show "mimics (wallet_twin (twin (we_codec W) view inv locked) B) (=)
      (bindS (on_storage FStorage (\<lambda>B. store_credential_with_slot (we_codec W) B now ?c label slot nick)) (\<lambda>cred_id.
       case ?secrets of
         None \<Rightarrow> pureS (Inr cred_id)
       | Some s \<Rightarrow> bindS (on_storage FStorage (\<lambda>B. store_credential_secrets (we_codec W) B cred_id s)) (\<lambda>_. pureS (Inr cred_id))))
      (bindS (on_storage FStorage (\<lambda>B. store_credential_with_slot (we_codec W) B now ?c label slot nick)) (\<lambda>cred_id.
       case ?secrets of
         None \<Rightarrow> pureS (Inr cred_id)
       | Some s \<Rightarrow> bindS (on_storage FStorage (\<lambda>B. store_credential_secrets (we_codec W) B cred_id s)) (\<lambda>_. pureS (Inr cred_id))))"
  proof (rule mimics_bindS_by, elim conjE, hypsubst)
    fix k assume k: "record_id k"
    have "short (sec_r_bits sec)" if "?secrets = Some sec" for sec
      using that fit(2) by (auto split: option.splits)
    with k assms(1) show "mimics (wallet_twin (twin (we_codec W) view inv locked) B) (=)
        (case ?secrets of None \<Rightarrow> pureS (Inr k)
         | Some s \<Rightarrow> bindS (on_storage FStorage (\<lambda>B. store_credential_secrets (we_codec W) B k s)) (\<lambda>_. pureS (Inr k)))
        (case ?secrets of None \<Rightarrow> pureS (Inr k)
         | Some s \<Rightarrow> bindS (on_storage FStorage (\<lambda>B. store_credential_secrets (we_codec W) B k s)) (\<lambda>_. pureS (Inr k)))"
      by (intro mimics_option mimics_bindS mimics_on_storage mimics_store_secrets mimics_pureS) simp_all
  qed
qed

lemma mimics_prove:
  assumes "record_id i"
  shows "mimics (wallet_twin (twin (we_codec W) view inv locked) B) (=) (create_age_proof W R now i ch) (create_age_proof W R now i ch)"
proof -
  let ?T = "wallet_twin (twin (we_codec W) view inv locked) B"
  have rehydrated: "mimics ?T (=) (rehydrate W msg i c) (rehydrate W msg i c)" for msg c
    unfolding rehydrate_def using assms
    by (intro mimics_if mimics_bindS mimics_on_storage mimics_load mimics_pureS) simp_all
  have last: "mimics ?T (=)
      (\<lambda>w. (map_err FGeneric (we_print_request W req), w\<lparr>w_state := update_verification_status ch ProofGenerated (w_state w)\<rparr>))
      (\<lambda>w. (map_err FGeneric (we_print_request W req), w\<lparr>w_state := update_verification_status ch ProofGenerated (w_state w)\<rparr>))"
    for req by (simp add: mimics_def sum.rel_eq wallet_twin_def)
  have steps: "mimics ?T (=) (proof_steps W R now i ch q) (proof_steps W R now i ch q)" for q
    unfolding proof_steps_def using assms
    by (intro mimics_bindS mimics_bind_pure mimics_if mimics_on_storage mimics_get rehydrated last mimics_pureS)
  show ?thesis
  proof (rule mimicsI)
    fix w v assume t: "?T w v"
    then have ch: "w_challenges w = w_challenges v" by (simp add: wallet_twin_def)
    show "?T (snd (create_age_proof W R now i ch w)) (snd (create_age_proof W R now i ch v))
        \<and> rel_sum (=) (=) (fst (create_age_proof W R now i ch w)) (fst (create_age_proof W R now i ch v))"
    proof (cases "map_of (w_challenges v) ch")
      case None
      with t ch show ?thesis by (simp add: create_age_proof_def)
    next
      case (Some cc)
      with mimicsD[OF steps t, of "cc_payload cc"] ch show ?thesis by (simp add: create_age_proof_steps)
    qed
  qed
qed

lemma run_wallet_twin:
  assumes "codec_fits (we_codec W)" "codec_roundtrip (we_codec W)" "call_fits W c"
    "wallet_twin (twin (we_codec W) view inv locked) B w v"
  shows "fst (run_wallet W R c w) = fst (run_wallet W R c v)
    \<and> wallet_twin (twin (we_codec W) view inv locked) B (snd (run_wallet W R c w)) (snd (run_wallet W R c v))"
proof -
  let ?T = "wallet_twin (twin (we_codec W) view inv locked) B"
  have same: "fst (m w) = fst (n v) \<and> ?T (snd (m w)) (snd (n v))" if "mimics ?T (=) m n" for m n
    using mimics_same[OF that assms(4)] .
  show ?thesis
  proof (cases c)
    case (Issue now hj d rj label ty nick)
    with same[OF mimics_weaken[OF mimics_issue[OF assms(1,2)]]] assms(3) show ?thesis by simp
  next
    case (Import now cj label ty nick)
    with same[OF mimics_import[OF assms(1,2)]] assms(3) show ?thesis by simp
  next
    case (Rename i nick)
    have "mimics ?T (=) (wallet_update_nickname W i nick) (wallet_update_nickname W i nick)"
      unfolding wallet_update_nickname_def using assms(1-3) Rename
      by (intro mimics_on_storage mimics_nickname) simp_all
    from same[OF this] Rename show ?thesis by simp
  next
    case (Remove i)
    have "mimics ?T (=) (wallet_delete_credential i) (wallet_delete_credential i)"
      unfolding wallet_delete_credential_def using assms(3) Remove
      by (intro mimics_on_storage mimics_delete_credential) simp_all
    from same[OF this] Remove show ?thesis by simp
  next
    case Purge
    have "mimics ?T (=) wallet_delete_sandbox_credentials wallet_delete_sandbox_credentials"
      unfolding wallet_delete_sandbox_credentials_def
      by (intro mimics_bindS mimics_on_storage mimics_purge mimics_pureS)
    from same[OF this] Purge show ?thesis by simp
  next
    case (Get i)
    have "mimics ?T (=) (wallet_get_credential W i) (wallet_get_credential W i)"
      unfolding wallet_get_credential_def using assms(3) Get
      by (intro mimics_bindS mimics_on_storage mimics_get mimics_pureS) simp_all
    from same[OF this] Get show ?thesis by simp
  next
    case (HasSecrets i)
    have "mimics ?T (=) (has_credential_secrets i) (has_credential_secrets i)"
      unfolding has_credential_secrets_def using assms(3) HasSecrets
      by (intro mimics_on_storage mimics_secrets_exist) simp_all
    from same[OF this] HasSecrets show ?thesis by simp
  next
    case (Entries now)
    have "mimics ?T (\<lambda>l l'. mset l = mset l') (wallet_list_credentials W now) (wallet_list_credentials W now)"
      unfolding wallet_list_credentials_def by (intro mimics_on_storage mimics_list_credentials)
    note run = mimicsD[OF this assms(4)]
    then have "map_sum id mset (fst (wallet_list_credentials W now w)) = map_sum id mset (fst (wallet_list_credentials W now v))"
      by (cases "fst (wallet_list_credentials W now w)"; cases "fst (wallet_list_credentials W now v)") auto
    with run Entries show ?thesis by simp
  next
    case (Prove now i ch)
    with same[OF mimics_prove] assms(3) show ?thesis by simp
  qed
qed

lemma run_wallets_twin:
  assumes "codec_fits (we_codec W)" "codec_roundtrip (we_codec W)" "list_all (call_fits W) cs"
    "wallet_twin (twin (we_codec W) view inv locked) B w v"
  shows "fst (run_wallets W R cs w) = fst (run_wallets W R cs v)
    \<and> wallet_twin (twin (we_codec W) view inv locked) B (snd (run_wallets W R cs w)) (snd (run_wallets W R cs v))"
  using assms(3,4)
proof (induction cs arbitrary: w v)
  case (Cons c cs)
  from run_wallet_twin[OF assms(1,2) _ Cons.prems(2), of c R] Cons.prems(1)
  have 1: "fst (run_wallet W R c w) = fst (run_wallet W R c v)"
    "wallet_twin (twin (we_codec W) view inv locked) B (snd (run_wallet W R c w)) (snd (run_wallet W R c v))" by auto
  from Cons.IH[OF _ 1(2)] Cons.prems(1) 1(1) show ?case by (simp add: split_beta)
qed simp

end

section \<open>Well-kept stores\<close>

text \<open>What the calls need of a device's store and keep: the condition of \<open>twin\<close> on its own state.\<close>

definition well_kept ::
    "storage_codec \<Rightarrow> ('s \<Rightarrow> string \<Rightarrow> bytes option) \<Rightarrow> ('s \<Rightarrow> bool) \<Rightarrow> ('s \<Rightarrow> string \<Rightarrow> bool) \<Rightarrow> 's \<Rightarrow> bool" where
  "well_kept X view I locked s \<longleftrightarrow>
     I s \<and> (\<forall>k. locked s k \<longrightarrow> \<not> is_credential_key k)
   \<and> (\<forall>k \<in> dom (view s). good_key k \<and> (is_credential_key k \<longrightarrow> good_key (secrets_key k)))
   \<and> (\<forall>k d st. is_credential_key k \<longrightarrow> view s k = Some d \<longrightarrow> decode_stored X d = Inr st \<longrightarrow> compact st)"

lemma twin_iff: "twin X view I locked s m \<longleftrightarrow> well_kept X view I locked s \<and> memory_inv m \<and> view s = map_of m"
  by (auto simp: twin_def well_kept_def)

lemma empty_well_kept: "I s \<Longrightarrow> view s = (\<lambda>_. None) \<Longrightarrow> (\<And>k. \<not> locked s k) \<Longrightarrow> well_kept X view I locked s"
  by (simp add: well_kept_def)

text \<open>The same wallet with another store behind it.\<close>

definition wallet_on :: "'s backend \<Rightarrow> 's \<Rightarrow> 't wallet \<Rightarrow> 's wallet" where
  "wallet_on B s w =
     \<lparr>w_config = w_config w, w_backend = Some B, w_storage = s, w_state = w_state w,
      w_challenges = w_challenges w, w_anchor = w_anchor w\<rparr>"

lemma wallet_on_twin: "R s m \<Longrightarrow> wallet_twin R B (wallet_on B s w) (wallet_on memory_backend m w)"
  by (simp add: wallet_twin_def wallet_on_def)

lemma wallet_on_self: "w_backend w = Some B \<Longrightarrow> wallet_on B (w_storage w) w = w"
  by (cases w) (simp add: wallet_on_def)

context available_backend
begin

lemma well_kept_twin:
  assumes "well_kept X view inv locked s"
  shows "\<exists>m. twin X view inv locked s m"
proof -
  have "inv s" using assms by (simp add: well_kept_def)
  obtain r s' where run: "be_list_keys B s = (r, s')" by fastforce
  from list_done[OF \<open>inv s\<close> run] obtain ks where "r = Inr ks" by (auto simp: is_ok_iff)
  with list_law[OF \<open>inv s\<close> run] have ks: "distinct ks" "set ks = dom (view s)" by auto
  let ?m = "map (\<lambda>k. (k, the (view s k))) ks"
  have "map_of ?m k = view s k" for k
    using ks(2) by (cases "view s k") (auto simp: map_of_map_restrict restrict_map_def domIff)
  moreover have "memory_inv ?m" using ks(1) by (simp add: memory_inv_def o_def)
  ultimately show ?thesis using assms by (auto simp: twin_iff intro!: exI[of _ ?m])
qed

text \<open>From an empty store on, the calls answer as on the in-memory store, which ends with the same records.\<close>

lemma fresh_calls:
  assumes "codec_fits (we_codec W)" "codec_roundtrip (we_codec W)" "list_all (call_fits W) cs"
    "inv s" "view s = (\<lambda>_. None)" "\<And>k. \<not> locked s k"
  shows "fst (run_wallets W R cs (wallet_on B s w)) = fst (run_wallets W R cs (wallet_on memory_backend [] w))"
    "view (w_storage (snd (run_wallets W R cs (wallet_on B s w))))
      = map_of (w_storage (snd (run_wallets W R cs (wallet_on memory_backend [] w))))"
proof -
  have "twin (we_codec W) view inv locked s []"
    using empty_well_kept[of inv s view locked, OF assms(4-6)] assms(5) by (simp add: twin_iff memory_inv_def fun_eq_iff)
  from run_wallets_twin[OF assms(1-3) wallet_on_twin[of "twin (we_codec W) view inv locked", OF this], of R w]
  show "fst (run_wallets W R cs (wallet_on B s w)) = fst (run_wallets W R cs (wallet_on memory_backend [] w))"
    "view (w_storage (snd (run_wallets W R cs (wallet_on B s w))))
      = map_of (w_storage (snd (run_wallets W R cs (wallet_on memory_backend [] w))))"
    by (auto simp: wallet_twin_def twin_def)
qed

lemma issue_keeps:
  assumes "codec_fits (we_codec W)" "codec_roundtrip (we_codec W)" "call_fits W (Issue now hj d rj label ty nick)"
    "w_backend w = Some B" "well_kept (we_codec W) view inv locked (w_storage w)"
    "finalize_and_store_credential W now hj d rj label ty nick w = (Inr cid, w1)"
  obtains v v1 where "w_backend v = Some memory_backend" "memory_inv (w_storage v)"
    "finalize_and_store_credential W now hj d rj label ty nick v = (Inr cid, v1)" "record_id cid"
    "well_kept (we_codec W) view inv locked (w_storage w1)" "view (w_storage w1) = map_of (w_storage v1)"
proof -
  let ?R = "twin (we_codec W) view inv locked"
  obtain m where "?R (w_storage w) m" using well_kept_twin[OF assms(5)] by blast
  from wallet_on_twin[of ?R, OF this, of B w, unfolded wallet_on_self[OF assms(4)]]
  obtain v where t: "wallet_twin ?R B w v" by blast
  obtain rv v1 where rv: "finalize_and_store_credential W now hj d rj label ty nick v = (rv, v1)" by fastforce
  from mimicsD[OF mimics_issue[OF assms(1-3)] t] assms(6) rv
  have t1: "wallet_twin ?R B w1 v1" and c: "rel_sum (=) (\<lambda>k k'. k = k' \<and> record_id k) (Inr cid) rv" by auto
  from c have "rv = Inr cid" "record_id cid" by (cases rv; simp)+
  with t t1 rv show ?thesis by (intro that[of v v1]) (simp_all add: wallet_twin_def twin_iff)
qed

text \<open>What is proved from the store an issuance left, or from one with the same records.\<close>

lemma issued_on_device:
  assumes "codec_fits (we_codec W)" "codec_roundtrip (we_codec W)" "call_fits W (Issue now hj d rj label ty nick)"
    "w_backend w = Some B" "well_kept (we_codec W) view inv locked (w_storage w)"
    "finalize_and_store_credential W now hj d rj label ty nick w = (Inr cid, w1)"
    "w_backend w2 = Some B" "well_kept (we_codec W) view inv locked (w_storage w2)"
    "view (w_storage w2) = view (w_storage w1)" "map_of (w_challenges w2) ch = Some cc"
  shows "\<exists>h rb. we_parse_header W hj = Inr h \<and> x_b64_decode (we_x W) rj = Inr rb
    \<and> (let c = attach_secrets h d (unpack_bits rb 128)
       in finalize_credential (we_x W) h d (unpack_bits rb 128) = Inr c
        \<and> fst (create_age_proof W R t cid ch w2) =
         (if hdr_exp h < t then Inl FCredentialExpired
          else case run_prover W R c (cc_payload cc) of
            Inl e \<Rightarrow> Inl (FProver (''Proof generation failed: '' @ we_debug_prover W e))
          | Inr req \<Rightarrow> map_err FGeneric (we_print_request W req)))"
proof -
  let ?R = "twin (we_codec W) view inv locked"
  obtain v v1 where v: "w_backend v = Some memory_backend" "memory_inv (w_storage v)"
    and run: "finalize_and_store_credential W now hj d rj label ty nick v = (Inr cid, v1)" and id: "record_id cid"
    and same: "view (w_storage w1) = map_of (w_storage v1)"
    using issue_keeps[OF assms(1-6)] by metis
  obtain h rb c st ds dp where
    1: "we_parse_header W hj = Inr h" "x_b64_decode (we_x W) rj = Inr rb"
      "finalize_credential (we_x W) h d (unpack_bits rb 128) = Inr c"
    and v1: "w_backend v1 = Some memory_backend" "memory_inv (w_storage v1)"
    and p: "map_of (w_storage v1) cid = Some dp" "decode_stored (we_codec W) dp = Inr st" "sc_credential st = redacted c"
    and s: "map_of (w_storage v1) (secrets_key cid) = Some ds"
      "sx_dec_secrets (we_codec W) ds = Inr \<lparr>sec_dob_days = d, sec_r_bits = unpack_bits rb 128\<rparr>"
    using mem.issued_records[OF v assms(2) run] by blast
  from 1(3) have c: "c = attach_secrets h d (unpack_bits rb 128)" by (simp add: finalize_ok)
  let ?v2 = "wallet_on memory_backend (w_storage v1) w2"
  have "?R (w_storage w2) (w_storage v1)" using assms(8,9) same v1(2) by (simp add: twin_iff)
  from wallet_on_twin[of ?R, OF this, of B w2, unfolded wallet_on_self[OF assms(7)]] have t2: "wallet_twin ?R B w2 ?v2" .
  have v2: "w_backend ?v2 = Some memory_backend" "w_storage ?v2 = w_storage v1" "w_challenges ?v2 = w_challenges w2"
    by (simp_all add: wallet_on_def)
  have "map_of (w_challenges ?v2) ch = Some cc" using v2(3) assms(10) by simp
  note steps = create_age_proof_steps[OF this, of W R t cid]
  have "cred_dob_days (sc_credential st) = None" "c = (sc_credential st)\<lparr>
      cred_dob_days := Some (sec_dob_days \<lparr>sec_dob_days = d, sec_r_bits = unpack_bits rb 128\<rparr>),
      cred_r_bits := Some (sec_r_bits \<lparr>sec_dob_days = d, sec_r_bits = unpack_bits rb 128\<rparr>)\<rparr>"
    by (simp_all add: p(3) c attach_secrets_def redacted_def)
  from mem.proof_of_stored[OF v2(1), unfolded v2(2), OF v1(2) p(1,2) s this, of R t ch "cc_payload cc"]
  have mem: "fst (create_age_proof W R t cid ch ?v2) =
      (if cred_exp c < t then Inl FCredentialExpired
       else case run_prover W R c (cc_payload cc) of
         Inl e \<Rightarrow> Inl (FProver (''Proof generation failed: '' @ we_debug_prover W e))
       | Inr req \<Rightarrow> map_err FGeneric (we_print_request W req))" unfolding steps .
  from mimics_same[OF mimics_prove[OF id] t2, of R t ch] mem 1 show ?thesis
    by (simp add: c attach_secrets_def Let_def)
qed

end

end
