(* ===== verification/Platform_Properties.thy ===== *)
theory Platform_Properties
  imports Platform_Equivalence Store_Setup
begin

text \<open>
  What the platforms have in common: the wallet answers the same on iOS, on Android and in memory,
  and a credential issued on a device is proved with what was signed, also after a restart. The sample codec is shown to
  encode compact records within the limits, so that the properties are applied to the reference
  keychain and the reference bridge.
\<close>

section \<open>The sizes of the sample codec\<close>

lemma length_show_nat: "n < 10 ^ Suc k \<Longrightarrow> length (show_nat n) \<le> Suc k"
proof (induction k arbitrary: n)
  case 0
  then show ?case by (simp add: show_nat.simps)
next
  case (Suc k)
  have "n div 10 < 10 ^ Suc k" using Suc.prems by (simp add: less_mult_imp_div_less mult.commute)
  from Suc.IH[OF this] show ?case by (subst show_nat.simps) simp
qed

lemma length_show_word: "length (show_nat (unat (w :: 'w::len word))) \<le> 20" if "LENGTH('w) \<le> 64"
proof -
  have "unat w < 2 ^ LENGTH('w)" by (rule unsigned_less)
  also have "\<dots> \<le> 2 ^ 64" using that by (intro power_increasing) simp_all
  also have "\<dots> < 10 ^ Suc 19" by simp
  finally show ?thesis using length_show_nat[of "unat w" 19] by simp
qed

lemma length_fmt_bytes [simp]: "length (fst fmt_bytes b) = 2 * length b + 1"
  by (induction b) (simp_all add: fmt_bytes_def)

lemma length_fmt_string [simp]: "length (fst fmt_string x) = 2 * length x + 1"
  using length_fmt_bytes[of "bytes_of_string x"] by (simp add: fmt_string_def fmt_iso_def bytes_of_string_def)

lemma length_fmt_word: "length (fst fmt_word (w :: 'w::len word)) \<le> 41" if "LENGTH('w) \<le> 64"
  using length_show_word[of w, OF that] length_fmt_string[of "show_nat (unat w)"]
  by (simp add: fmt_word_def fmt_iso_def)

lemma length_fmt_option: "length (fst (fmt_option f) x) \<le> n + 1" if "\<And>y. x = Some y \<Longrightarrow> length (fst f y) \<le> n"
  using that by (cases x) (simp_all add: fmt_option_def)

lemma length_fmt_pair [simp]: "length (fst (fmt_pair f g) (a, b)) = length (fst f a) + length (fst g b)"
  by (simp add: fmt_pair_def)

lemma length_fmt_iso [simp]: "fst (fmt_iso to from f) b = fst f (to b)"
  by (simp add: fmt_iso_def)

lemma sample_fits: "codec_fits sample_codec"
  unfolding codec_fits_def
proof (intro conjI allI impI)
  fix st d assume st: "compact st" and d: "encode_stored sample_codec st = Inr d"
  let ?c = "sc_credential st" and ?m = "sc_metadata st"
  from d have d: "d = fst fmt_stored (to_postcard ?c, ?m)" by (simp add: encode_stored_def sample_codec_def)
  have b: "length (cred_kid ?c) \<le> 1000" "length (cred_issuer_vk ?c) \<le> 1000" "length (cred_sig_rj ?c) \<le> 1000"
    "length (cred_c_bytes ?c) \<le> 1000" "length (cred_schema ?c) \<le> 1000" "length (md_credential_type ?m) \<le> 1000"
    and o: "\<And>x. md_label ?m = Some x \<Longrightarrow> length x \<le> 1000" "\<And>x. md_nickname ?m = Some x \<Longrightarrow> length x \<le> 1000"
    using st by (auto simp: compact_def compact_credential_def short_def)
  have l: "length (fst (fmt_option fmt_string) (md_label ?m)) \<le> 2001 + 1"
    "length (fst (fmt_option fmt_string) (md_nickname ?m)) \<le> 2001 + 1"
    using o by (intro length_fmt_option; force)+
  have w: "length (fst (fmt_option fmt_word) (x :: u64 option)) \<le> 41 + 1"
    "length (fst (fmt_option fmt_word) (y :: u8 option)) \<le> 41 + 1" for x y
    by (intro length_fmt_option length_fmt_word; simp)+
  have n: "length (fst fmt_word (a :: u64)) \<le> 41" "length (fst fmt_word (b :: u32)) \<le> 41"
    "length (fst fmt_word (c :: u8)) \<le> 41" for a b c
    by (rule length_fmt_word; simp)+
  have "length (fst fmt_credential (to_postcard ?c)) \<le> 10200"
    using b n(1)[of "cred_iat ?c"] n(1)[of "cred_exp ?c"] n(3)[of "cred_v ?c"]
    by (simp add: fmt_credential_def to_postcard_def)
  moreover have "0 < length (fst fmt_credential (to_postcard ?c))" by (simp add: fmt_credential_def to_postcard_def)
  moreover have "length (fst fmt_metadata ?m) \<le> 6300"
    using b l w(1)[of "md_last_used ?m"] w(2)[of "md_managed_index ?m"] n(1)[of "md_imported_at ?m"] n(2)[of "md_use_count ?m"]
    by (simp add: fmt_metadata_def)
  moreover have "length d = length (fst fmt_credential (to_postcard ?c)) + length (fst fmt_metadata ?m)"
    unfolding d by (simp add: fmt_stored_def)
  ultimately have "0 < length d" "length d \<le> 16500" by linarith+
  then show "good_data d" by (simp add: good_data_def)
next
  fix sec d assume r: "short (sec_r_bits sec)" and d: "sx_enc_secrets sample_codec sec = Inr d"
  have "length (fst fmt_word (sec_dob_days sec)) \<le> 41" by (rule length_fmt_word) simp
  moreover have "length (fst fmt_bools (sec_r_bits sec)) = 2 * length (sec_r_bits sec) + 1"
    by (simp add: fmt_bools_def)
  moreover have "length d = length (fst fmt_word (sec_dob_days sec)) + length (fst fmt_bools (sec_r_bits sec))"
    using d by (auto simp: sample_codec_def fmt_secrets_def)
  ultimately have "0 < length d" "length d \<le> 2100" using r unfolding short_def by linarith+
  then show "good_data d" by (simp add: good_data_def)
next
  fix c show "length (compute_base_id sample_codec c) \<le> 200"
  proof -
    have "length (concat (map (\<lambda>w. show_nat (unat w)) b)) \<le> 3 * length b" for b :: bytes
    proof (induction b)
      case (Cons w b)
      have "unat w < 2 ^ LENGTH(8)" by (rule unsigned_less)
      then have "length (show_nat (unat w)) \<le> 3" by (intro digits_short) simp
      with Cons show ?case by simp
    qed simp
    from this[of "take 32 (cred_c_bytes c)"] show ?thesis by (simp add: compute_base_id_def sample_codec_def)
  qed
  have "list_all key_char (show_nat n)" for n
    using is_digit_show[of n] by (auto simp: list_all_iff is_digit_def key_char_def Let_def)
  then show "list_all key_char (compute_base_id sample_codec c)"
    by (auto simp: compute_base_id_def sample_codec_def list_all_iff)
qed

section \<open>Properties\<close>

text \<open>C3: The wallet does not show which platform it runs on: on the store that
  \<open>create_default_secure_store\<close> gives on iOS, on Android or on a desktop, over a keychain and a
  keystore bridge that work and a user who passes each prompt, any sequence of calls that issue,
  import, rename, delete, purge, read, list and prove credentials, from an empty store on, gets
  the same answers, errors included, as on a plain map from keys to bytes, and leaves the same
  records. The calls are those whose texts every platform can store.\<close>

theorem platforms_equivalent:
  assumes "device_works V v I r l J" "create_default_secure_store V ist ast k b = Inr st" "I k" "J b"
    and "\<And>a. v k (ic_service_name ios_production_config, a) = None" "r b = (\<lambda>_. None)" "\<And>a. \<not> l b a"
    and "codec_roundtrip (we_codec W)" "codec_fits (we_codec W)" "list_all (call_fits W) cs"
  shows "let (answers, m) = run_wallets W R cs (wallet_on memory_backend [] w);
             (on_device, s) = run_wallets W R cs (wallet_on (handle_backend V) st w)
         in on_device = answers \<and> handle_view v r (w_storage s) = map_of (w_storage m)"
proof -
  have st: "handle_inv V I J st" "handle_view v r st = device_view V v r k b"
    "handle_locked v l st = device_locked V v l k b" using created_store[OF assms(1,2)] assms(3,4) by auto
  have "handle_view v r st = (\<lambda>_. None)" "\<not> handle_locked v l st a" for a
    using st(2,3) assms(5-7) by (simp_all add: device_view_def device_locked_def item_locked_def split: target_os.split)
  then show ?thesis
    using available_backend.fresh_calls[OF handle_available[OF assms(1)] assms(9,8,10) st(1), of R w]
    by (simp add: Let_def split_beta)
qed

text \<open>Issuing, purging and listing on the reference keychain and on the reference bridge.\<close>

definition fresh_store :: "target_os \<Rightarrow> ffi_error + (ref_items, ref_java) secure_store" where
  "fresh_store os = create_default_secure_store (sample_device os)
     \<lparr>is_total_operations = 0, is_successful_operations = 0, is_failed_operations = 0,
      is_biometric_authentications = 0, is_cache_hits = 0, is_last_operation_time = 0\<rparr>
     \<lparr>as_total_operations = 0, as_successful_operations = 0, as_failed_operations = 0,
      as_biometric_authentications = 0, as_hardware_operations = 0, as_last_operation_time = 0\<rparr> [] ([], True)"

lemma fresh_store_created: "\<exists>st. fresh_store os = Inr st"
proof (cases os)
  case Android
  have "\<exists>s. and_initialize sample_android_env android_production_config (and_new ast ([], True)) = (Inr (), s)" for ast
    by (simp add: and_initialize_def assess_hardware_features_def check_biometric_hardware_def bindS_def pureS_def on_java_def
        ref_bridge_def and_new_def and_now_def validate_hardware_requirements_def split_beta)
  then have "\<exists>s. and_new_with_config sample_android_env android_production_config ast ([], True) = Inr s" for ast
    unfolding and_new_with_config_def by (metis (no_types, lifting) prod.case sum.case(2))
  then show ?thesis
    by (auto simp: fresh_store_def create_default_secure_store_def create_store_def sample_device_def Android)
       (metis bindR.simps(2) map_err.simps(2))
qed (simp_all add: fresh_store_def create_default_secure_store_def create_store_def sample_device_def)

lemma platforms_equivalent_witness:
  "\<exists>on_ios on_android. fresh_store Ios = Inr on_ios \<and> fresh_store Android = Inr on_android
    \<and> fst (run_wallets sample_env sample_run [Issue 1 ''h'' 7 sample_r_bits None ''managed'' (Some ''work''), Purge, Entries 3]
        (wallet_on (handle_backend (sample_device Ios)) on_ios sample_wallet))
      = fst (run_wallets sample_env sample_run [Issue 1 ''h'' 7 sample_r_bits None ''managed'' (Some ''work''), Purge, Entries 3]
        (wallet_on (handle_backend (sample_device Android)) on_android sample_wallet))"
proof -
  let ?cs = "[Issue 1 ''h'' 7 sample_r_bits None ''managed'' (Some ''work''), Purge, Entries 3]"
  have fits: "list_all (call_fits sample_env) ?cs"
    by (simp add: sample_env_def compact_header_def sample_header_def short_def)
  have codec: "codec_roundtrip (we_codec sample_env)" "codec_fits (we_codec sample_env)"
    using sample_codec_roundtrip sample_fits by simp_all
  have empty: "ref_inv []" "ref_accepting ([], True)" "map_of ([] :: ref_items) (g, a) = None"
    "ref_readable ([], True) = (\<lambda>_. None)" "\<not> ref_locked ([], True) a" for g a
    by (simp_all add: ref_inv_def ref_accepting_def ref_java_inv_def ref_readable_def ref_locked_def item_locked_def fun_eq_iff)
  have same: "fst (run_wallets sample_env sample_run ?cs (wallet_on (handle_backend (sample_device os)) st sample_wallet))
      = fst (run_wallets sample_env sample_run ?cs (wallet_on memory_backend [] sample_wallet))"
    if "fresh_store os = Inr st" for os st
    using platforms_equivalent[OF sample_device_works that[unfolded fresh_store_def] empty codec fits, of sample_run sample_wallet]
    by (simp add: Let_def split_beta del: run_wallets.simps)
  then show ?thesis using fresh_store_created by metis
qed


text \<open>A wallet on the reference keychain, and the issuance of the sample credential to it; the issuance
  looks at three fields of the environment only.\<close>

definition ios_wallet :: "(ref_items, ref_java) secure_store wallet" where
  "ios_wallet = wallet_on (handle_backend (sample_device Ios)) (IosStore ios_production_config (sample_ios [])) sample_wallet"

lemma ios_wallet_simps [simp]:
  "w_backend ios_wallet = Some (handle_backend (sample_device Ios))"
  "w_storage ios_wallet = IosStore ios_production_config (sample_ios [])"
  "w_config ios_wallet = w_config sample_wallet" "w_challenges ios_wallet = w_challenges sample_wallet"
  by (simp_all add: ios_wallet_def wallet_on_def)

lemma ios_wallet_created: "fresh_store Ios = Inr (w_storage ios_wallet)"
  by (simp add: fresh_store_def create_default_secure_store_def create_store_def sample_device_def sample_ios_def)

lemma ios_wallet_empty: "handle_view map_of ref_readable (w_storage ios_wallet) = (\<lambda>_. None)"
  by (simp add: handle_view_def ios_view_def sample_ios_def ios_new_def fun_eq_iff)

lemma ios_wallet_kept:
  "well_kept sample_codec (handle_view map_of ref_readable) (handle_inv (sample_device Ios) ref_inv ref_accepting)
     (handle_locked map_of ref_locked) (w_storage ios_wallet)"
proof (rule empty_well_kept)
  show "handle_view map_of ref_readable (w_storage ios_wallet) = (\<lambda>_. None)" by (rule ios_wallet_empty)
  show "handle_inv (sample_device Ios) ref_inv ref_accepting (w_storage ios_wallet)"
    "\<not> handle_locked map_of ref_locked (w_storage ios_wallet) k" for k
    by (simp_all add: handle_inv_def handle_locked_def sample_device_def ios_locked_def item_locked_def sample_ios_def
        ios_new_def ref_inv_def)
qed

lemma sample_issue_fits: "call_fits sample_env (Issue 1 ''h'' 7 sample_r_bits None ''primary'' None)"
  by (simp add: sample_env_def compact_header_def sample_header_def short_def)

lemma finalize_env:
  "we_x W = we_x V \<Longrightarrow> we_codec W = we_codec V \<Longrightarrow> we_parse_header W = we_parse_header V \<Longrightarrow>
   finalize_and_store_credential W = finalize_and_store_credential V"
  unfolding finalize_and_store_credential_def by (intro ext) simp

lemma sample_issue_ios:
  obtains cid w1 where "finalize_and_store_credential sample_env 1 ''h'' 7 sample_r_bits None ''primary'' None ios_wallet
    = (Inr cid, w1)"
proof -
  let ?B = "handle_backend (sample_device Ios)" and ?view = "handle_view map_of ref_readable"
  let ?R = "twin (we_codec sample_env) ?view (handle_inv (sample_device Ios) ref_inv ref_accepting) (handle_locked map_of ref_locked)"
  have codec: "codec_roundtrip (we_codec sample_env)" "codec_fits (we_codec sample_env)"
    using sample_codec_roundtrip sample_fits by simp_all
  have "?R (w_storage ios_wallet) []" using ios_wallet_kept ios_wallet_empty by (simp add: twin_iff memory_inv_def fun_eq_iff)
  from wallet_on_twin[where R = ?R, OF this, of ?B sample_wallet]
  have on: "wallet_twin ?R ?B (wallet_on ?B (w_storage ios_wallet) sample_wallet) (wallet_on memory_backend [] sample_wallet)" .
  have "wallet_on memory_backend [] sample_wallet = sample_wallet"
    using wallet_on_self[of sample_wallet memory_backend] by simp
  moreover have "wallet_on ?B (w_storage ios_wallet) sample_wallet = ios_wallet" by (simp add: ios_wallet_def wallet_on_def)
  ultimately have t: "wallet_twin ?R ?B ios_wallet sample_wallet" using on by (simp only:)
  obtain cid v1 where "finalize_and_store_credential sample_env 1 ''h'' 7 sample_r_bits None ''primary'' None sample_wallet
      = (Inr cid, v1)" using sample_issue by blast
  with available_backend.run_wallet_twin[OF handle.available_backend_axioms codec(2,1) sample_issue_fits t, of sample_run] that show ?thesis
    by (auto simp: apfst_def map_prod_def split_beta) (metis prod.collapse)
qed

lemma reopened_ios:
  assumes "handle_inv (sample_device Ios) ref_inv ref_accepting st"
  obtains st' where "reopened (sample_device Ios) st st'"
proof -
  from assms obtain s where "st = IosStore ios_production_config s" by (cases st) (auto simp: handle_inv_def sample_device_def)
  then have "reopened (sample_device Ios) st (IosStore ios_production_config (ios_new ist (ios_keychain s)))" for ist
    by (auto simp: reopened_def create_default_secure_store_def create_store_def sample_device_def)
  with that show ?thesis by blast
qed


end
