(* ===== verification/Lifecycle_Properties.thy ===== *)
theory Lifecycle_Properties
  imports Platform_Properties Diagnostics_Properties
begin

text \<open>
  The way of a verification across the wallet: a credential is issued and stored on a device, a
  challenge is scanned, the proof is made and submitted, and the session records the verdict.
\<close>

section \<open>The steps\<close>

text \<open>What it takes for the holder of a credential over the header \<open>h\<close>, with the date of birth \<open>d\<close>
  and the blinding bits \<open>r\<close>, to prove the challenge \<open>q\<close>: the key the challenge names is loaded, neither
  has expired, the age suffices, the strings have the lengths of the circuit, and the prover
  answers with \<open>p\<close>.\<close>

definition can_prove ::
    "wallet_env \<Rightarrow> 'p prover_run \<Rightarrow> header \<Rightarrow> i32 \<Rightarrow> bool list \<Rightarrow> qr_payload \<Rightarrow> snark_proof \<Rightarrow> bool" where
  "can_prove W R h d r q p \<longleftrightarrow>
     (let X = we_x W; Q = pr_ext R; g = pr_globals R; cutoff = qr_cutoff_days q;
          dir = (if wants_under_age q then DirUnder else DirOver)
      in \<not> pr_in_rayon R \<and> pg_vk_id g = Some (qr_verifying_key_id q)
       \<and> pr_now R \<le> hdr_exp h \<and> pr_now R < qr_expires_at q \<and> validate_age d cutoff (wants_under_age q)
       \<and> length (hdr_kid h) = 14 \<and> length (hdr_schema h) = 12 \<and> length (hdr_sig_rj h) = 64
       \<and> sp_cutoff p = cutoff
       \<and> (\<exists>params rp. pg_params g = Some params \<and> x_b64_decode X (qr_rp_challenge q) = Inr rp \<and> length rp = 32
           \<and> is_ok (px_publics Q (\<not> wants_under_age q) cutoff (px_blake2s Q rp) (hdr_issuer_vk h)
               (px_nullifier Q (hdr_c_bytes h)))
           \<and> px_prove Q params cutoff rp (make_witness (attach_secrets h d r) d r) (qr_verifying_key_id q) dir 0 = Proved p))"

lemma can_prove_runs:
  assumes "finalize_credential (we_x W) h d r = Inr c" "can_prove W R h d r q p"
  shows "run_prover W R c q = Inr (make_request (we_x W) q p)"
proof -
  from assms(1) have f: "c = attach_secrets h d r" "length r = 128" "x_pedersen (we_x W) d r = Inr (hdr_c_bytes h)"
    "x_verify_cred (we_x W) (header_msg h) (hdr_sig_rj h) (hdr_issuer_vk h) = Inr ()" by (auto simp: finalize_ok)
  from assms(2) obtain params rp where p: "pg_params (pr_globals R) = Some params"
    "x_b64_decode (we_x W) (qr_rp_challenge q) = Inr rp" "length rp = 32"
    "is_ok (px_publics (pr_ext R) (\<not> wants_under_age q) (qr_cutoff_days q) (px_blake2s (pr_ext R) rp) (hdr_issuer_vk h)
       (px_nullifier (pr_ext R) (hdr_c_bytes h)))"
    "px_prove (pr_ext R) params (qr_cutoff_days q) rp (make_witness (attach_secrets h d r) d r) (qr_verifying_key_id q)
       (if wants_under_age q then DirUnder else DirOver) 0 = Proved p"
    by (auto simp: can_prove_def Let_def)
  have m: "cred_to_msg (attach_secrets h d r) = header_msg h"
    by (simp add: cred_to_msg_def attach_secrets_def header_msg_def)
  have "preflight_passes (we_x W) (pr_ext R) c q d r rp"
    using f p assms(2) m by (simp add: preflight_passes_def can_prove_def Let_def attach_secrets_def)
  moreover have "cred_exp c = hdr_exp h" "cred_kid c = hdr_kid h" "cred_schema c = hdr_schema h" "cred_sig_rj c = hdr_sig_rj h"
    by (simp_all add: f(1) attach_secrets_def)
  ultimately have "build_verify_request_internal (we_x W) (pr_ext R) False (pr_globals R) (pr_now R) c q
      = Inr (make_request (we_x W) q p)"
    unfolding build_ok using p(1,5) assms(2)
    by (intro exI[of _ params] exI[of _ d] exI[of _ r] exI[of _ rp] exI[of _ p])
       (auto simp: can_prove_def Let_def generate_ok f(1))
  moreover have "\<not> pr_in_rayon R" using assms(2) by (simp add: can_prove_def Let_def)
  ultimately show ?thesis by (simp add: run_prover_def build_verify_request_def)
qed

lemma keeps_config:
  "keeps w_config (rehydrate W msg i c)" "keeps w_config (\<lambda>w. (r w, w\<lparr>w_state := g w\<rparr>))"
  "keeps w_config (proof_steps W R now i ch q)" "keeps w_config (create_age_proof W R now i ch)"
proof -
  show 1: "keeps w_config (rehydrate W msg i c)" for msg c unfolding rehydrate_def by (intro keeps_intros)+
  show 2: "keeps w_config (\<lambda>w. (r w, w\<lparr>w_state := g w\<rparr>))" for r g by (simp add: keeps_def)
  show 3: "keeps w_config (proof_steps W R now i ch q)" for q
    unfolding proof_steps_def by (intro keeps_intros 1 2)
  from keeps_by_steps[OF 3] show "keeps w_config (create_age_proof W R now i ch)" .
qed

lemma finalize_keeps_config: "keeps w_config (finalize_and_store_credential W now hj d rb label ty nick)"
proof -
  have "keeps w_config (resolve_slot ty label)" unfolding resolve_slot_def by (intro keeps_intros)
  then show ?thesis unfolding finalize_and_store_credential_def Let_def by (intro keeps_intros)
qed

text \<open>A scan with room in the cache.\<close>

lemma scan_caches:
  assumes "parse_qr_payload_internal W get code w = Inr q" "length (w_challenges w) < 64"
  obtains w' cc where "process_qr_challenge W get t t' code w = (Inr (qr_challenge_id q), w')"
    "w_backend w' = w_backend w" "w_storage w' = w_storage w" "w_config w' = w_config w"
    "map_of (w_challenges w') (qr_challenge_id q) = Some cc" "cc_payload cc = q"
    "w_state w' = start_verification (qr_challenge_id q) (w_state w)"
  using assms by (auto simp: process_qr_challenge_def bindS_def cache_challenge_def Let_def update_conv')

text \<open>A submission the verifier answers.\<close>

lemma submission_accepted:
  assumes "is_ok (fst (tokio_rt E s))" "we_parse_request (ee_wallet E) pj = Inr req"
    "post_answered (ee_stack E) (hs_user_agent (es_http s)) (wc_verifier_api_url (w_config w) @ ''/v1/verify'') pj answer"
    "we_parse_response (ee_wallet E) answer = Inr r"
  shows "\<exists>s'. http_submit_proof E pj (w, s) = (Inr (vr_result r = ''OK''),
    (w\<lparr>w_state := complete_verification (spr_challenge_id req) (vr_result r = ''OK'') (w_state w)\<rparr>, s'))"
proof -
  obtain n t where rt: "tokio_rt E s = (Inr n, t)" using assms(1) by (cases "tokio_rt E s") (auto simp: is_ok_iff)
  have "es_http t = es_http s" using quiet_tokio_rt[of E] rt by (metis quiet_http_def snd_conv)
  moreover obtain h where "post_json (ee_stack E) (wc_verifier_api_url (w_config w) @ ''/v1/verify'') pj (es_http s) = (Inr answer, h)"
    using assms(3)[folded post_json_answered] by (metis prod.collapse)
  ultimately show ?thesis using rt assms(2,4)
    by (simp add: http_submit_proof_def bindS_def on_entry_def on_http_def pureS_def record_outcome_def Let_def)
qed

section \<open>Properties\<close>


text \<open>The sample credential, issued on the reference keychain, proves the scanned sample challenge to a
  verifier that says OK.\<close>

definition answering_entry :: entry_env where
  "answering_entry = sample_entry
     \<lparr>ee_wallet := sample_env
        \<lparr>we_qr := sample_qr\<lparr>qx_parse_envelope := (\<lambda>_. Inr (QrVerification sample_challenge))\<rparr>,
         we_parse_request := (\<lambda>_. Inr (make_request (we_x sample_env) sample_challenge sample_snark)),
         we_parse_response := (\<lambda>_. Inr \<lparr>vr_result = ''OK'', vr_state = ''verified''\<rparr>)\<rparr>,
      ee_stack := sample_stack\<lparr>st_response := (\<lambda>_ _. Done \<lparr>rs_status = 200, rs_shown = ''200'', rs_chunks = [], rs_end = Done ()\<rparr>)\<rparr>\<rparr>"

definition answering_state :: entry_state where
  "answering_state = \<lparr>es_runtime = None, es_http = \<lparr>hs_user_agent = ''wallet'', hs_wire = []\<rparr>\<rparr>"

lemma answering_simps [simp]:
  "we_x (ee_wallet answering_entry) = we_x sample_env" "we_codec (ee_wallet answering_entry) = sample_codec"
  "we_parse_header (ee_wallet answering_entry) = we_parse_header sample_env"
  "we_print_request (ee_wallet answering_entry) r = Inr ''request''"
  "we_parse_request (ee_wallet answering_entry) j = Inr (make_request (we_x sample_env) sample_challenge sample_snark)"
  "we_parse_response (ee_wallet answering_entry) j = Inr \<lparr>vr_result = ''OK'', vr_state = ''verified''\<rparr>"
  "is_ok (fst (tokio_rt answering_entry answering_state))"
  by (simp_all add: answering_entry_def sample_entry_def sample_env_def tokio_rt_def answering_state_def)

lemma answering_scan: "parse_qr_payload_internal (ee_wallet answering_entry) get ''code'' w = Inr sample_challenge"
proof -
  have v: "ffi_validate_field_lengths (qx_url_scheme sample_qr) sample_challenge = Inr ()"
    unfolding ffi_validation_eq sample_challenge_valid by simp
  have "deep_link_encoded ''code'' = None" "\<not> contains_str ''challenge_id'' ''code''"
    by (simp_all add: deep_link_encoded_def starts_with_def CUSTOM_SCHEME_VERIFY_PREFIX_def HTTPS_VERIFY_PREFIX_def)
  with v have "decode_payload (we_qr (ee_wallet answering_entry)) ''code'' = Inr (QrVerification sample_challenge)"
    by (simp add: decode_payload_def MAX_QR_PAYLOAD_SIZE_def answering_entry_def)
  then show ?thesis
    by (simp add: parse_qr_payload_internal_def parse_qr_code_def Let_def) (simp add: answering_entry_def sample_qr_def)
qed

lemma answering_proves:
  "can_prove (ee_wallet answering_entry) sample_run sample_header 7 (unpack_bits (pack_bits (replicate 128 True)) 128)
     sample_challenge sample_snark"
  by (simp add: can_prove_def Let_def sample_run_def sample_header_def sample_challenge_def sample_snark_def
      sample_env_def toy_externals_def validate_age_def wants_under_age_def)

lemma answering_verifier:
  "starts_with ''https://'' url \<Longrightarrow> post_answered (ee_stack answering_entry) ua url body []"
  by (simp add: post_answered_def connects_def answered_def answering_entry_def sample_stack_def sample_entry_def
      parse_url_for_h3_def body_of_def ok_or_def string_of_bytes_def)


end
